(* ===== verification/Prelude.thy ===== *)
theory Prelude
  imports Complex_Main "HOL-Library.Product_Lexorder"
begin

text \<open>
  What every component shares: the base types of the model (UUIDs, instants, Python strings), the
  exception and transaction combinators in which the services are written, table operations that
  stand for the SQL statements the services issue, and the Python string functions they call.

  A service of the code is an \<open>async\<close> function over a SQLAlchemy session. It is modelled as a
  function from the database to a result and the next database; the result is \<open>Inl e\<close> when the
  Python code raises \<open>e\<close> and \<open>Inr v\<close> when it returns \<open>v\<close>.
\<close>

section \<open>Base types\<close>

text \<open>
  A UUID is the integer \<open>UUID.int\<close>; PostgreSQL and Python order UUIDs by it. An instant is an aware
  \<open>datetime\<close> as microseconds since 1970-01-01 UTC. A \<open>date\<close> is the number of days since 1970-01-01.
  A Python \<open>str\<close> is its list of code points.
\<close>

type_synonym uuid = nat
type_synonym instant = int
type_synonym date = int
type_synonym pystr = "nat list"

definition u :: "string \<Rightarrow> pystr" where
  "u s = map of_char s"

definition day_us :: int where
  "day_us = 86400000000"

text \<open>What a clock argument returns: an aware instant, or a naive value the services reject.\<close>

datatype clock_value = Naive int | Aware instant

section \<open>Exceptions as values\<close>

named_theorems tx "rules that run the exception and transaction combinators"

definition ebind :: "'e + 'a \<Rightarrow> ('a \<Rightarrow> 'e + 'b) \<Rightarrow> 'e + 'b" where
  "ebind m k = (case m of Inl e \<Rightarrow> Inl e | Inr x \<Rightarrow> k x)"

lemma ebind_simps [simp]:
  "ebind (Inl e) k = Inl e"
  "ebind (Inr x) k = k x"
  by (simp_all add: ebind_def)

lemma ebind_Inr_iff [tx]: "ebind m k = Inr y \<longleftrightarrow> (\<exists>x. m = Inr x \<and> k x = Inr y)"
  by (cases m) auto

lemma ebind_Inl_iff [tx]: "ebind m k = Inl e \<longleftrightarrow> m = Inl e \<or> (\<exists>x. m = Inr x \<and> k x = Inl e)"
  by (cases m) auto

fun emap :: "('a \<Rightarrow> 'e + 'b) \<Rightarrow> 'a list \<Rightarrow> 'e + 'b list" where
  "emap f [] = Inr []"
| "emap f (x # xs) = ebind (f x) (\<lambda>y. ebind (emap f xs) (\<lambda>ys. Inr (y # ys)))"

lemma emap_Inr_iff: "emap f xs = Inr ys \<longleftrightarrow> list_all2 (\<lambda>x y. f x = Inr y) xs ys"
  by (induction xs arbitrary: ys) (auto simp: ebind_Inr_iff list_all2_Cons1)

lemma emap_Inr_length: "emap f xs = Inr ys \<Longrightarrow> length ys = length xs"
  by (auto simp: emap_Inr_iff dest: list_all2_lengthD)

lemma emap_Inr_mem: "emap f xs = Inr ys \<Longrightarrow> y \<in> set ys \<Longrightarrow> \<exists>x \<in> set xs. f x = Inr y"
  by (induction xs arbitrary: ys) (auto simp: ebind_Inr_iff)

section \<open>Transactions\<close>

type_synonym ('e, 's, 'a) txn = "'s \<Rightarrow> ('e + 'a) \<times> 's"

definition return_tx :: "'a \<Rightarrow> ('e, 's, 'a) txn" where
  "return_tx x s = (Inr x, s)"

definition raise_tx :: "'e \<Rightarrow> ('e, 's, 'a) txn" where
  "raise_tx e s = (Inl e, s)"

definition bind_tx :: "('e, 's, 'a) txn \<Rightarrow> ('a \<Rightarrow> ('e, 's, 'b) txn) \<Rightarrow> ('e, 's, 'b) txn" where
  "bind_tx m k s = (case m s of (Inl e, s') \<Rightarrow> (Inl e, s') | (Inr x, s') \<Rightarrow> k x s')"

text \<open>A pure computation that may raise, and a read of the database, inside a transaction.\<close>

definition lift_tx :: "'e + 'a \<Rightarrow> ('e, 's, 'a) txn" where
  "lift_tx r s = (r, s)"

definition query_tx :: "('s \<Rightarrow> 'a) \<Rightarrow> ('e, 's, 'a) txn" where
  "query_tx f s = (Inr (f s), s)"

text \<open>\<open>if not ok: raise e\<close>.\<close>

definition require_tx :: "bool \<Rightarrow> 'e \<Rightarrow> ('e, 's, unit) txn" where
  "require_tx ok e s = (if ok then (Inr (), s) else (Inl e, s))"

text \<open>
  \<open>session.begin_nested()\<close> and the commit/rollback frame of a request handler both restore the
  database when the body raises.
\<close>

definition atomic_tx :: "('e, 's, 'a) txn \<Rightarrow> ('e, 's, 'a) txn" where
  "atomic_tx m s = (case m s of (Inl e, s') \<Rightarrow> (Inl e, s) | (Inr x, s') \<Rightarrow> (Inr x, s'))"

text \<open>\<open>try: m / except e: ...\<close>; the handler maps every exception, possibly to itself.\<close>

definition rethrow_tx :: "('e \<Rightarrow> 'e) \<Rightarrow> ('e, 's, 'a) txn \<Rightarrow> ('e, 's, 'a) txn" where
  "rethrow_tx f m s = (case m s of (Inl e, s') \<Rightarrow> (Inl (f e), s') | (Inr x, s') \<Rightarrow> (Inr x, s'))"

lemmas tx_defs = return_tx_def raise_tx_def lift_tx_def query_tx_def require_tx_def

lemma bind_tx_Inr_iff [tx]:
  "bind_tx m k s = (Inr y, t) \<longleftrightarrow> (\<exists>x s'. m s = (Inr x, s') \<and> k x s' = (Inr y, t))"
  by (auto simp: bind_tx_def split: prod.splits sum.splits)

lemma bind_tx_Inl_iff [tx]:
  "bind_tx m k s = (Inl e, t) \<longleftrightarrow>
     m s = (Inl e, t) \<or> (\<exists>x s'. m s = (Inr x, s') \<and> k x s' = (Inl e, t))"
  by (auto simp: bind_tx_def split: prod.splits sum.splits)

lemma return_tx_iff [tx]: "return_tx x s = (r, t) \<longleftrightarrow> r = Inr x \<and> t = s"
  by (auto simp: return_tx_def)

lemma raise_tx_iff [tx]: "raise_tx e s = (r, t) \<longleftrightarrow> r = Inl e \<and> t = s"
  by (auto simp: raise_tx_def)

lemma lift_tx_iff [tx]: "lift_tx x s = (r, t) \<longleftrightarrow> r = x \<and> t = s"
  by (auto simp: lift_tx_def)

lemma query_tx_iff [tx]: "query_tx f s = (r, t) \<longleftrightarrow> r = Inr (f s) \<and> t = s"
  by (auto simp: query_tx_def)

lemma require_tx_Inr_iff [tx]: "require_tx ok e s = (Inr x, t) \<longleftrightarrow> ok \<and> t = s"
  by (auto simp: require_tx_def)

lemma require_tx_Inl_iff [tx]: "require_tx ok e s = (Inl e', t) \<longleftrightarrow> \<not> ok \<and> e' = e \<and> t = s"
  by (auto simp: require_tx_def)

lemma rethrow_tx_Inr_iff [tx]: "rethrow_tx f m s = (Inr x, t) \<longleftrightarrow> m s = (Inr x, t)"
  by (auto simp: rethrow_tx_def split: prod.splits sum.splits)

lemma rethrow_tx_Inl_iff [tx]:
  "rethrow_tx f m s = (Inl e, t) \<longleftrightarrow> (\<exists>e'. m s = (Inl e', t) \<and> e = f e')"
  by (auto simp: rethrow_tx_def split: prod.splits sum.splits)

lemma atomic_tx_Inr_iff [tx]: "atomic_tx m s = (Inr x, t) \<longleftrightarrow> m s = (Inr x, t)"
  by (auto simp: atomic_tx_def split: prod.splits sum.splits)

lemma atomic_tx_Inl_iff [tx]:
  "atomic_tx m s = (Inl e, t) \<longleftrightarrow> (\<exists>t'. m s = (Inl e, t')) \<and> t = s"
  by (auto simp: atomic_tx_def split: prod.splits sum.splits)

text \<open>A \<open>for\<close> loop over a list of rows, collecting what each iteration returns.\<close>

fun for_tx :: "('a \<Rightarrow> ('e, 's, 'b) txn) \<Rightarrow> 'a list \<Rightarrow> ('e, 's, 'b list) txn" where
  "for_tx f [] s = (Inr [], s)"
| "for_tx f (x # xs) s =
     (case f x s of (Inl e, s') \<Rightarrow> (Inl e, s')
      | (Inr y, s') \<Rightarrow> (case for_tx f xs s' of (Inl e, t) \<Rightarrow> (Inl e, t) | (Inr ys, t) \<Rightarrow> (Inr (y # ys), t)))"

lemma for_tx_Cons_Inr [tx]:
  "for_tx f (x # xs) s = (Inr zs, t) \<longleftrightarrow>
     (\<exists>y s' ys. f x s = (Inr y, s') \<and> for_tx f xs s' = (Inr ys, t) \<and> zs = y # ys)"
  by (auto split: prod.splits sum.splits)

text \<open>Running a combinator on a known intermediate result, for evaluating closed instances.\<close>

lemma bind_tx_run [simp]:
  "m s = (Inr x, s') \<Longrightarrow> bind_tx m k s = k x s'"
  "m s = (Inl e, s') \<Longrightarrow> bind_tx m k s = (Inl e, s')"
  by (simp_all add: bind_tx_def)

lemma return_tx_run [simp]: "return_tx x s = (Inr x, s)"
  by (simp add: return_tx_def)

lemma raise_tx_run [simp]: "raise_tx e s = (Inl e, s)"
  by (simp add: raise_tx_def)

lemma lift_tx_run [simp]: "lift_tx r s = (r, s)"
  by (simp add: lift_tx_def)

lemma query_tx_run [simp]: "query_tx f s = (Inr (f s), s)"
  by (simp add: query_tx_def)

lemma require_tx_run [simp]:
  "ok \<Longrightarrow> require_tx ok e s = (Inr (), s)"
  "\<not> ok \<Longrightarrow> require_tx ok e s = (Inl e, s)"
  by (simp_all add: require_tx_def)

text \<open>The clock guard every service applies: \<open>_utc_now\<close> and \<open>_require_aware\<close>.\<close>

definition aware :: "'e \<Rightarrow> clock_value \<Rightarrow> 'e + instant" where
  "aware e c = (case c of Naive _ \<Rightarrow> Inl e | Aware t \<Rightarrow> Inr t)"

lemma aware_simps [simp]: "aware e (Aware t) = Inr t" "aware e (Naive n) = Inl e"
  by (simp_all add: aware_def)

lemma aware_Inr_iff [tx]: "aware e c = Inr t \<longleftrightarrow> c = Aware t"
  by (cases c) auto

section \<open>Tables\<close>

text \<open>
  A table is the list of its rows. \<open>session.scalar(select(...).where(p))\<close> is \<open>find p\<close>,
  \<open>select(...).where(p).order_by(k).limit(n)\<close> is \<open>take n (select_by k p rows)\<close>, and a flushed
  ORM change or an \<open>UPDATE\<close> is \<open>update_where\<close>.
\<close>

definition select_by :: "('a \<Rightarrow> 'k::linorder) \<Rightarrow> ('a \<Rightarrow> bool) \<Rightarrow> 'a list \<Rightarrow> 'a list" where
  "select_by k p rows = sort_key k (filter p rows)"

definition update_where :: "('a \<Rightarrow> bool) \<Rightarrow> ('a \<Rightarrow> 'a) \<Rightarrow> 'a list \<Rightarrow> 'a list" where
  "update_where p f rows = map (\<lambda>r. if p r then f r else r) rows"

lemma set_select_by [simp]: "set (select_by k p rows) = {r \<in> set rows. p r}"
  by (simp add: select_by_def)

lemma length_select_by: "length (select_by k p rows) = length (filter p rows)"
  by (simp add: select_by_def)

lemma sorted_select_by: "sorted (map k (select_by k p rows))"
  by (simp add: select_by_def)

lemma distinct_select_by: "distinct rows \<Longrightarrow> distinct (select_by k p rows)"
  by (simp add: select_by_def)

lemma distinct_map_select_by: "distinct (map f rows) \<Longrightarrow> distinct (map f (select_by k p rows))"
  by (auto simp: select_by_def distinct_map inj_on_def)

lemma set_update_where:
  "set (update_where p f rows) = f ` {r \<in> set rows. p r} \<union> {r \<in> set rows. \<not> p r}"
  by (auto simp: update_where_def)

lemma update_where_map_eq:
  "(\<And>r. p r \<Longrightarrow> g (f r) = g r) \<Longrightarrow> map g (update_where p f rows) = map g rows"
  by (auto simp: update_where_def)

lemma length_update_where [simp]: "length (update_where p f rows) = length rows"
  by (simp add: update_where_def)

lemma find_SomeD: "find p xs = Some x \<Longrightarrow> x \<in> set xs \<and> p x"
  by (auto simp: find_Some_iff in_set_conv_nth)

lemma find_NoneD: "find p xs = None \<Longrightarrow> x \<in> set xs \<Longrightarrow> \<not> p x"
  by (auto simp: find_None_iff)

lemma find_unique:
  assumes "x \<in> set xs" "p x" "\<And>y. y \<in> set xs \<Longrightarrow> p y \<Longrightarrow> y = x"
  shows "find p xs = Some x"
proof (cases "find p xs")
  case None
  with assms(1,2) show ?thesis by (auto simp: find_None_iff)
next
  case (Some y)
  with assms(3) show ?thesis by (auto dest: find_SomeD)
qed

lemma distinct_map_unique: "distinct (map f xs) \<Longrightarrow> x \<in> set xs \<Longrightarrow> y \<in> set xs \<Longrightarrow> f x = f y \<Longrightarrow> x = y"
  by (auto simp: distinct_map inj_on_def)

lemma find_by_key:
  assumes "distinct (map f xs)" "x \<in> set xs"
  shows "find (\<lambda>y. f y = f x) xs = Some x"
  using assms by (intro find_unique) (auto dest: distinct_map_unique)

section \<open>Python strings\<close>

text \<open>
  \<open>str.isspace\<close> on one code point. The pattern \<open>\s\<close> of \<open>re\<close> on \<open>str\<close>, \<open>str.strip()\<close> and
  \<open>str.split()\<close> use this same set.
\<close>

definition py_isspace :: "nat \<Rightarrow> bool" where
  "py_isspace c \<longleftrightarrow> (9 \<le> c \<and> c \<le> 13) \<or> (28 \<le> c \<and> c \<le> 32) \<or> c = 133 \<or> c = 160 \<or> c = 5760
     \<or> (8192 \<le> c \<and> c \<le> 8202) \<or> c = 8232 \<or> c = 8233 \<or> c = 8239 \<or> c = 8287 \<or> c = 12288"

definition strip_by :: "(nat \<Rightarrow> bool) \<Rightarrow> pystr \<Rightarrow> pystr" where
  "strip_by p s = rev (dropWhile p (rev (dropWhile p s)))"

abbreviation py_strip :: "pystr \<Rightarrow> pystr" where
  "py_strip \<equiv> strip_by py_isspace"

text \<open>PostgreSQL's \<open>btrim(text)\<close> removes spaces only.\<close>

abbreviation pg_btrim :: "pystr \<Rightarrow> pystr" where
  "pg_btrim \<equiv> strip_by (\<lambda>c. c = 32)"

lemma length_strip_by: "length (strip_by p s) \<le> length s"
  using length_dropWhile_le[of p "rev (dropWhile p s)"] length_dropWhile_le[of p s]
  by (simp add: strip_by_def)

lemma strip_by_idem_iff:
  "strip_by p s = s \<longleftrightarrow> s = [] \<or> (\<not> p (hd s) \<and> \<not> p (last s))"
proof
  assume eq: "strip_by p s = s"
  have len: "length (dropWhile p (rev (dropWhile p s))) \<le> length (dropWhile p s)"
    using length_dropWhile_le[of p "rev (dropWhile p s)"] by simp
  from eq have "length (dropWhile p (rev (dropWhile p s))) = length s"
    by (metis length_rev strip_by_def)
  with len length_dropWhile_le[of p s] have d: "length (dropWhile p s) = length s" by simp
  then have ds: "dropWhile p s = s"
    by (metis append_eq_conv_conj append_self_conv2 dropWhile_eq_drop length_0_conv
        length_drop diff_diff_cancel diff_self_eq_0 length_takeWhile_le takeWhile_dropWhile_id)
  with eq have rs: "dropWhile p (rev s) = rev s"
    by (metis rev_rev_ident strip_by_def)
  show "s = [] \<or> (\<not> p (hd s) \<and> \<not> p (last s))"
  proof (cases "s = []")
    case False
    with ds rs show ?thesis
      by (metis hd_dropWhile hd_rev rev_is_Nil_conv)
  qed simp
next
  assume "s = [] \<or> (\<not> p (hd s) \<and> \<not> p (last s))"
  then show "strip_by p s = s"
  proof
    assume a: "\<not> p (hd s) \<and> \<not> p (last s)"
    show ?thesis
    proof (cases "s = []")
      case False
      then obtain x xs where s: "s = x # xs" by (cases s) auto
      with a have 1: "dropWhile p s = s" by simp
      from False have "rev s = last s # rev (butlast s)"
        by (metis append_butlast_last_id rev_eq_Cons_iff rev_rev_ident)
      with a have "dropWhile p (rev s) = rev s" by (metis dropWhile.simps(2))
      with 1 show ?thesis by (simp add: strip_by_def)
    qed (simp add: strip_by_def)
  qed (simp add: strip_by_def)
qed

text \<open>A stripped string has no strippable character at either end, so stripping is idempotent.\<close>

lemma strip_by_ends: "strip_by p s = [] \<or> (\<not> p (hd (strip_by p s)) \<and> \<not> p (last (strip_by p s)))"
proof (cases "strip_by p s = []")
  case False
  let ?d = "dropWhile p s"
  have s: "strip_by p s = rev (dropWhile p (rev ?d))" by (simp add: strip_by_def)
  with False have ne: "dropWhile p (rev ?d) \<noteq> []" by simp
  then have "\<not> p (hd (dropWhile p (rev ?d)))" by (rule hd_dropWhile)
  then have last: "\<not> p (last (strip_by p s))" by (simp add: s last_rev)
  have dne: "?d \<noteq> []"
  proof
    assume "?d = []"
    with ne show False by simp
  qed
  then have hd: "\<not> p (hd ?d)" by (rule hd_dropWhile)
  have "rev ?d = takeWhile p (rev ?d) @ dropWhile p (rev ?d)" by simp
  then have "?d = strip_by p s @ rev (takeWhile p (rev ?d))"
    by (metis rev_append rev_rev_ident s)
  with False have "hd ?d = hd (strip_by p s)" by (metis hd_append2)
  with hd last show ?thesis by simp
qed simp

lemma strip_by_idem [simp]: "strip_by p (strip_by p s) = strip_by p s"
  using strip_by_ends[of p s] by (simp add: strip_by_idem_iff)

lemma strip_by_weaker:
  "(\<And>c. q c \<Longrightarrow> p c) \<Longrightarrow> strip_by q (strip_by p s) = strip_by p s"
  using strip_by_ends[of p s] by (auto simp: strip_by_idem_iff)

lemma btrim_strip [simp]: "pg_btrim (py_strip s) = py_strip s"
  by (rule strip_by_weaker) (simp add: py_isspace_def)

text \<open>The number of matches of \<open>\S+\<close>: maximal runs of non-whitespace.\<close>

fun word_runs :: "bool \<Rightarrow> pystr \<Rightarrow> nat" where
  "word_runs inside [] = 0"
| "word_runs inside (c # cs) =
     (if py_isspace c then word_runs False cs
      else if inside then word_runs True cs else Suc (word_runs True cs))"

lemma word_runs_le: "word_runs inside s \<le> length s"
  by (induction inside s rule: word_runs.induct) auto

text \<open>\<open>str.split()\<close> without arguments, and \<open>sep.join(parts)\<close>.\<close>

fun py_split_acc :: "pystr \<Rightarrow> pystr \<Rightarrow> pystr list" where
  "py_split_acc acc [] = (if acc = [] then [] else [rev acc])"
| "py_split_acc acc (c # cs) =
     (if py_isspace c then (if acc = [] then [] else [rev acc]) @ py_split_acc [] cs
      else py_split_acc (c # acc) cs)"

abbreviation py_split :: "pystr \<Rightarrow> pystr list" where
  "py_split \<equiv> py_split_acc []"

fun py_join :: "pystr \<Rightarrow> pystr list \<Rightarrow> pystr" where
  "py_join sep [] = []"
| "py_join sep [w] = w"
| "py_join sep (w # ws) = w @ sep @ py_join sep ws"

text \<open>The number of words counted by the run pattern is the number of words \<open>split\<close> returns.\<close>

lemma word_runs_split: "word_runs (acc \<noteq> []) s = length (py_split_acc acc s) - (if acc = [] then 0 else 1)"
proof (induction acc s rule: py_split_acc.induct)
  case (2 acc c cs)
  have "length (py_split_acc (c # acc) cs) \<ge> 1"
    by (induction "c # acc" cs arbitrary: c acc rule: py_split_acc.induct) auto
  with 2 show ?case by auto
qed auto

lemma word_runs_eq_split: "word_runs False s = length (py_split s)"
  using word_runs_split[of "[]" s] by simp

text \<open>Substring search: \<open>sub in s\<close> and \<open>re.search\<close> of a literal.\<close>

definition is_infix :: "'a list \<Rightarrow> 'a list \<Rightarrow> bool" where
  "is_infix sub s \<longleftrightarrow> (\<exists>i \<in> set [0..<Suc (length s)]. take (length sub) (drop i s) = sub)"

end
