(* ===== verification/Data_Model.thy ===== *)
theory Data_Model
  imports Prelude
begin

text \<open>
  The persisted data of the Buddy subsystem: the enumerations, the exceptions the services raise,
  one record per SQLAlchemy model (\<open>app/models/*.py\<close>) with its check and unique constraints, and
  the database the services run on. Table inserts and row updates apply the constraints in
  PostgreSQL's order: check constraints, unique indexes, foreign keys.
\<close>

section \<open>Enumerations\<close>

datatype user_role = USER | ADMIN

datatype student_type = VIETNAMESE | INTERNATIONAL

datatype photo_status = READY | FAILED

datatype language_proficiency = NATIVE | FLUENT | INTERMEDIATE | BEGINNER

datatype preference_kind = INTEREST | LANGUAGE | ACTIVITY

datatype invitation_status = PENDING | ACCEPTED | DECLINED | CANCELLED | EXPIRED

datatype match_status = ACTIVE

text \<open>PostgreSQL orders an enum by its declaration; \<open>ORDER BY kind\<close> uses that order.\<close>

instantiation preference_kind :: linorder
begin

fun kind_rank :: "preference_kind \<Rightarrow> nat" where
  "kind_rank INTEREST = 0"
| "kind_rank LANGUAGE = 1"
| "kind_rank ACTIVITY = 2"

definition less_eq_preference_kind :: "preference_kind \<Rightarrow> preference_kind \<Rightarrow> bool" where
  "a \<le> b \<longleftrightarrow> kind_rank a \<le> kind_rank b"

definition less_preference_kind :: "preference_kind \<Rightarrow> preference_kind \<Rightarrow> bool" where
  "a < b \<longleftrightarrow> kind_rank a < kind_rank b"

lemma kind_rank_inj: "kind_rank a = kind_rank b \<Longrightarrow> a = b"
  by (cases a; cases b) auto

instance
  by standard
    (auto simp: less_eq_preference_kind_def less_preference_kind_def dest: kind_rank_inj)

end

section \<open>Exceptions\<close>

datatype matching_ineligibility_reason =
    PROFILE_INCOMPLETE | ACCOUNT_INACTIVE | ACCOUNT_DELETED
  | EMAIL_VERIFICATION_REQUIRED | MATCHING_OPT_IN_REQUIRED

datatype invitation_send_reason =
    Send_MESSAGE_TOO_MANY_WORDS | Send_MESSAGE_TOO_MANY_CODE_POINTS | Send_SELF_NOT_ALLOWED
  | Send_SENDER_INELIGIBLE | Send_RECIPIENT_INELIGIBLE | Send_PENDING_LIMIT_REACHED
  | Send_PENDING_EXISTS | Send_ACTIVE_PAIR_EXISTS

datatype invitation_accept_reason =
    Accept_NOT_FOUND | Accept_EXPIRED | Accept_NOT_PENDING | Accept_RECIPIENT_INELIGIBLE
  | Accept_PARTICIPANT_INELIGIBLE | Accept_OPPOSITE_TYPES_REQUIRED | Accept_ACTIVE_PAIR_EXISTS
  | Accept_STATE_CONFLICT

datatype invitation_mutation_reason =
    Mutation_NOT_FOUND | Mutation_EXPIRED | Mutation_INVALID_STATE

datatype buddy_match_activation_reason =
    Match_INVITATION_NOT_ACCEPTED | Match_PARTICIPANT_STATE_INVALID
  | Match_OPPOSITE_TYPES_REQUIRED | Match_ACTIVE_PAIR_EXISTS

datatype buddy_conversation_persistence_reason = Conversation_ACTIVE_MATCH_REQUIRED

datatype buddy_message_persistence_reason =
    Message_ACTIVE_CONVERSATION_REQUIRED | Message_SENDER_NOT_PARTICIPANT
  | Message_IDEMPOTENCY_KEY_REUSED

datatype buddy_chat_read_reason =
    Chat_CONVERSATION_NOT_FOUND | Chat_MESSAGE_NOT_FOUND | Chat_INVALID_CURSOR

text \<open>The SQLSTATE classes PostgreSQL reports for a violated constraint: 23505, 23514, 23503.\<close>

datatype sqlstate = Unique_violation | Check_violation | Foreign_key_violation

text \<open>
  The exceptions that cross a function boundary of the modelled code. \<open>ValueError\<close> stands for a bare
  \<open>ValueError\<close> and for pydantic's \<open>ValidationError\<close>; subclasses the code distinguishes have a
  constructor of their own.
\<close>

datatype exn =
    ValueError
  | InvitationTransitionError invitation_status invitation_status
  | InvitationExpiredError
  | InvitationSendError invitation_send_reason
  | InvitationAcceptError invitation_accept_reason
  | InvitationMutationError invitation_mutation_reason
  | InvitationExpiryValidationError
  | BuddyCapabilityError "matching_ineligibility_reason option"
  | BuddyParticipantStateError
  | BuddyMatchActivationError buddy_match_activation_reason
  | BuddyConversationPersistenceError buddy_conversation_persistence_reason
  | BuddyMessagePersistenceError buddy_message_persistence_reason
  | BuddyChatReadError buddy_chat_read_reason
  | ProfileAccessError
  | ProfileVersionConflictError
  | ProfileUpdateConflictError
  | ProfileValidationError
  | PreferenceIdentityError
  | MatchingScoringError
  | MatchingRecommendationStateError
  | MatchingRecommendationCapacityError
  | ChatCleanupValidationError
  | OutboxValidationError
  | EmailValidationError
  | EmailTemplateError pystr
  | EmailDeliveryError bool pystr
  | RuntimeError
  | IntegrityError sqlstate
  | DatabaseError
  | UnicodeEncodeError
  | PasswordHashingError
  | AccountRegistrationError
  | AdminCreationError
  | AuthenticationError
  | RoleVerificationError
  | TokenValidationError
  | RefreshSessionError
  | RefreshSessionRevokedError
  | EmailVerificationTokenError
  | EmailVerificationRequestError
  | EmailChangeAuthenticationError
  | EmailChangeConflictError
  | EmailChangePasswordError
  | InvitationReadStateError
  | CurrentBuddyReadStateError
  | ImageValidationError
  | StorageOperationError
  | StorageReconciliationError
  | ProfilePhotoNotFoundError
  | CsrfValidationError
  | SemesterStateTransitionError
  | SemesterManagementError
  | SemesterManagementConflictError
  | HTTPException nat

section \<open>Python values stored as JSON\<close>

datatype pyfloat = Finite rat | NaN | Inf bool

datatype pyval =
    PyNone | PyBool bool | PyInt int | PyFloat pyfloat | PyStr pystr
  | PyList "pyval list" | PyTuple "pyval list" | PyDict "(pyval \<times> pyval) list" | PyOther

section \<open>Accounts, profiles and catalogs\<close>

record user =
  usr_id :: uuid
  usr_email :: pystr
  usr_password_hash :: pystr
  usr_role :: user_role
  usr_is_active :: bool
  usr_email_verified :: bool
  usr_email_verified_at :: "instant option"
  usr_last_login :: "instant option"
  usr_semester_id :: "uuid option"
  usr_created_at :: instant
  usr_updated_at :: instant
  usr_deleted_at :: "instant option"

text \<open>\<open>User.__table_args__\<close>.\<close>

definition user_check :: "user \<Rightarrow> bool" where
  "user_check r \<longleftrightarrow>
     length (pg_btrim (usr_email r)) > 0 \<and> length (usr_password_hash r) > 0
     \<and> (usr_role r = USER \<and> usr_semester_id r \<noteq> None
        \<or> usr_role r = ADMIN \<and> usr_semester_id r = None)"

definition is_current_email_verified :: "user \<Rightarrow> bool" where
  "is_current_email_verified r =
     (if usr_role r = ADMIN then usr_email_verified r else usr_email_verified_at r \<noteq> None)"

record availability_slot =
  slot_weekday :: int
  slot_start_minute :: int
  slot_end_minute :: int

record weekly_availability =
  avail_timezone :: pystr
  avail_slots :: "availability_slot list"

record student_profile =
  prof_id :: uuid
  prof_user_id :: uuid
  prof_full_name :: "pystr option"
  prof_display_name :: "pystr option"
  prof_student_type :: "student_type option"
  prof_nationality :: "pystr option"
  prof_major :: "pystr option"
  prof_study_year :: "int option"
  prof_bio :: "pystr option"
  prof_home_university :: "pystr option"
  prof_arrival_date :: "date option"
  prof_departure_date :: "date option"
  prof_availability :: "weekly_availability option"
  prof_preferences :: "pyval option"
  prof_matching_opt_in :: bool
  prof_version :: int
  prof_onboarding_completed_at :: "instant option"
  prof_created_at :: instant
  prof_updated_at :: instant
  prof_deleted_at :: "instant option"

definition profile_check :: "student_profile \<Rightarrow> bool" where
  "profile_check r \<longleftrightarrow>
     (case prof_full_name r of None \<Rightarrow> True
      | Some n \<Rightarrow> 1 \<le> length (pg_btrim n) \<and> length (pg_btrim n) \<le> 120)
     \<and> (case prof_display_name r of None \<Rightarrow> True
        | Some n \<Rightarrow> 1 \<le> length (pg_btrim n) \<and> length (pg_btrim n) \<le> 80)
     \<and> (case prof_study_year r of None \<Rightarrow> True | Some y \<Rightarrow> 1 \<le> y \<and> y \<le> 10)
     \<and> (case prof_bio r of None \<Rightarrow> True | Some b \<Rightarrow> length b \<le> 500)
     \<and> (case (prof_arrival_date r, prof_departure_date r) of
          (Some a, Some d) \<Rightarrow> a \<le> d | _ \<Rightarrow> True)
     \<and> (case prof_preferences r of None \<Rightarrow> True | Some (PyDict _) \<Rightarrow> True | _ \<Rightarrow> False)
     \<and> 1 \<le> prof_version r"

definition PROFILE_IMAGE_BUCKET :: pystr where
  "PROFILE_IMAGE_BUCKET = u ''profile-images''"

definition MAX_PROFILE_IMAGE_BYTES :: int where
  "MAX_PROFILE_IMAGE_BYTES = 5 * 1024 * 1024"

definition MAX_PROFILE_IMAGE_PIXELS :: int where
  "MAX_PROFILE_IMAGE_PIXELS = 4096 * 4096"

record profile_photo =
  photo_id :: uuid
  photo_profile_id :: uuid
  photo_bucket :: pystr
  photo_object_key :: pystr
  photo_mime_type :: pystr
  photo_byte_size :: int
  photo_width :: int
  photo_height :: int
  photo_is_avatar :: bool
  photo_processing_status :: photo_status
  photo_created_at :: instant
  photo_updated_at :: instant
  photo_deleted_at :: "instant option"

definition photo_check :: "profile_photo \<Rightarrow> bool" where
  "photo_check r \<longleftrightarrow>
     photo_bucket r = PROFILE_IMAGE_BUCKET
     \<and> photo_mime_type r \<in> {u ''image/jpeg'', u ''image/png'', u ''image/webp''}
     \<and> 1 \<le> photo_byte_size r \<and> photo_byte_size r \<le> MAX_PROFILE_IMAGE_BYTES
     \<and> 1 \<le> photo_width r \<and> photo_width r \<le> 4096 \<and> 1 \<le> photo_height r \<and> photo_height r \<le> 4096
     \<and> photo_width r * photo_height r \<le> MAX_PROFILE_IMAGE_PIXELS"

text \<open>\<open>uq_profile_photos_one_avatar_per_profile\<close>, the object key and the primary key.\<close>

definition photo_clash :: "profile_photo \<Rightarrow> profile_photo \<Rightarrow> bool" where
  "photo_clash a b \<longleftrightarrow> photo_id a = photo_id b \<or> photo_object_key a = photo_object_key b
     \<or> (photo_profile_id a = photo_profile_id b
        \<and> photo_is_avatar a \<and> photo_deleted_at a = None
        \<and> photo_is_avatar b \<and> photo_deleted_at b = None)"

text \<open>
  The code formats of the catalogs: \<open>^[a-z0-9]+(-[a-z0-9]+|_[a-z0-9]+)*$\<close> for interests and activities,
  \<open>^[a-z]{2,3}(-[a-z0-9]{2,8})*$\<close> for languages.
\<close>

definition ascii_lower :: "nat \<Rightarrow> bool" where
  "ascii_lower c \<longleftrightarrow> 97 \<le> c \<and> c \<le> 122"

definition ascii_digit :: "nat \<Rightarrow> bool" where
  "ascii_digit c \<longleftrightarrow> 48 \<le> c \<and> c \<le> 57"

fun slug_format :: "bool \<Rightarrow> pystr \<Rightarrow> bool" where
  "slug_format after_alnum [] = after_alnum"
| "slug_format after_alnum (c # cs) =
     (if ascii_lower c \<or> ascii_digit c then slug_format True cs
      else after_alnum \<and> (c = 45 \<or> c = 95) \<and> slug_format False cs)"

fun split_on :: "nat \<Rightarrow> pystr \<Rightarrow> pystr list" where
  "split_on d [] = [[]]"
| "split_on d (c # cs) =
     (if c = d then [] # split_on d cs
      else (case split_on d cs of [] \<Rightarrow> [[c]] | w # ws \<Rightarrow> (c # w) # ws))"

definition language_code_format :: "pystr \<Rightarrow> bool" where
  "language_code_format s =
     (case split_on 45 s of [] \<Rightarrow> False
      | w # ws \<Rightarrow> 2 \<le> length w \<and> length w \<le> 3 \<and> list_all ascii_lower w
          \<and> list_all (\<lambda>x. 2 \<le> length x \<and> length x \<le> 8
                          \<and> list_all (\<lambda>c. ascii_lower c \<or> ascii_digit c) x) ws)"

definition btrim_between :: "nat \<Rightarrow> nat \<Rightarrow> pystr \<Rightarrow> bool" where
  "btrim_between lo hi s \<longleftrightarrow> lo \<le> length (pg_btrim s) \<and> length (pg_btrim s) \<le> hi"

record interest =
  intr_id :: uuid
  intr_code :: pystr
  intr_label_en :: pystr
  intr_label_de :: pystr
  intr_category :: pystr
  intr_is_active :: bool
  intr_deleted_at :: "instant option"

record language =
  lang_code :: pystr
  lang_label_en :: pystr
  lang_label_de :: pystr
  lang_is_active :: bool

record activity =
  act_id :: uuid
  act_code :: pystr
  act_label_en :: pystr
  act_label_de :: pystr
  act_is_active :: bool
  act_deleted_at :: "instant option"

definition interest_check :: "interest \<Rightarrow> bool" where
  "interest_check r \<longleftrightarrow>
     slug_format False (intr_code r) \<and> length (intr_code r) \<le> 64
     \<and> btrim_between 1 120 (intr_label_en r) \<and> btrim_between 1 120 (intr_label_de r)
     \<and> btrim_between 1 80 (intr_category r)"

definition language_check :: "language \<Rightarrow> bool" where
  "language_check r \<longleftrightarrow>
     language_code_format (lang_code r)
     \<and> btrim_between 1 120 (lang_label_en r) \<and> btrim_between 1 120 (lang_label_de r)"

definition activity_check :: "activity \<Rightarrow> bool" where
  "activity_check r \<longleftrightarrow>
     slug_format False (act_code r) \<and> length (act_code r) \<le> 64
     \<and> btrim_between 1 120 (act_label_en r) \<and> btrim_between 1 120 (act_label_de r)"

record profile_interest =
  pint_profile_id :: uuid
  pint_interest_id :: uuid

record profile_language =
  plang_profile_id :: uuid
  plang_language_code :: pystr
  plang_proficiency :: language_proficiency

record profile_activity =
  pact_profile_id :: uuid
  pact_activity_id :: uuid

record custom_preference =
  cust_id :: uuid
  cust_profile_id :: uuid
  cust_kind :: preference_kind
  cust_display_label :: pystr
  cust_normalized_key :: pystr
  cust_proficiency :: "language_proficiency option"
  cust_deleted_at :: "instant option"

definition MAX_CUSTOM_PREFERENCE_DISPLAY_LABEL_LENGTH :: nat where
  "MAX_CUSTOM_PREFERENCE_DISPLAY_LABEL_LENGTH = 120"

definition MAX_CUSTOM_PREFERENCE_NORMALIZED_KEY_LENGTH :: nat where
  "MAX_CUSTOM_PREFERENCE_NORMALIZED_KEY_LENGTH = 255"

definition MAX_CUSTOM_PREFERENCE_INPUT_LENGTH :: nat where
  "MAX_CUSTOM_PREFERENCE_INPUT_LENGTH = MAX_CUSTOM_PREFERENCE_NORMALIZED_KEY_LENGTH"

definition custom_preference_check :: "custom_preference \<Rightarrow> bool" where
  "custom_preference_check r \<longleftrightarrow>
     1 \<le> length (pg_btrim (cust_display_label r))
     \<and> length (pg_btrim (cust_display_label r)) \<le> MAX_CUSTOM_PREFERENCE_DISPLAY_LABEL_LENGTH
     \<and> 1 \<le> length (cust_normalized_key r)
     \<and> length (cust_normalized_key r) \<le> MAX_CUSTOM_PREFERENCE_NORMALIZED_KEY_LENGTH
     \<and> pg_btrim (cust_normalized_key r) = cust_normalized_key r
     \<and> (cust_kind r = LANGUAGE \<and> cust_proficiency r \<noteq> None
        \<or> cust_kind r \<in> {INTEREST, ACTIVITY} \<and> cust_proficiency r = None)"

definition custom_preference_clash :: "custom_preference \<Rightarrow> custom_preference \<Rightarrow> bool" where
  "custom_preference_clash a b \<longleftrightarrow> cust_id a = cust_id b
     \<or> (cust_profile_id a = cust_profile_id b \<and> cust_kind a = cust_kind b
        \<and> cust_normalized_key a = cust_normalized_key b)"

section \<open>Invitations, matches and chat\<close>

record invitation =
  inv_id :: uuid
  inv_sender_id :: uuid
  inv_recipient_id :: uuid
  inv_message :: pystr
  inv_status :: invitation_status
  inv_expires_at :: instant
  inv_responded_at :: "instant option"
  inv_cancelled_at :: "instant option"
  inv_expired_at :: "instant option"
  inv_sender_hidden_at :: "instant option"
  inv_version :: int
  inv_created_at :: instant
  inv_updated_at :: instant
  inv_deleted_at :: "instant option"

text \<open>The persisted computed columns \<open>LEAST(...)\<close> and \<open>GREATEST(...)\<close>.\<close>

definition pair_low :: "uuid \<Rightarrow> uuid \<Rightarrow> uuid" where
  "pair_low a b = min a b"

definition pair_high :: "uuid \<Rightarrow> uuid \<Rightarrow> uuid" where
  "pair_high a b = max a b"

definition inv_pair :: "invitation \<Rightarrow> uuid \<times> uuid" where
  "inv_pair r = (pair_low (inv_sender_id r) (inv_recipient_id r),
                 pair_high (inv_sender_id r) (inv_recipient_id r))"

definition MAX_INVITATION_MESSAGE_CODE_POINTS :: nat where
  "MAX_INVITATION_MESSAGE_CODE_POINTS = 10000"

definition INVITATION_EXPIRY_INTERVAL :: int where
  "INVITATION_EXPIRY_INTERVAL = 7 * day_us"

text \<open>A SQL comparison with a nullable column in a check constraint: NULL passes.\<close>

definition null_or :: "'a option \<Rightarrow> ('a \<Rightarrow> bool) \<Rightarrow> bool" where
  "null_or x p = (case x of None \<Rightarrow> True | Some v \<Rightarrow> p v)"

lemma null_or_simps [simp]: "null_or None p" "null_or (Some v) p = p v"
  by (simp_all add: null_or_def)

definition invitation_status_timestamps :: "invitation \<Rightarrow> bool" where
  "invitation_status_timestamps r =
     (case inv_status r of
        PENDING \<Rightarrow> inv_responded_at r = None \<and> inv_cancelled_at r = None
                   \<and> inv_expired_at r = None \<and> inv_sender_hidden_at r = None
      | ACCEPTED \<Rightarrow> inv_responded_at r \<noteq> None \<and> inv_cancelled_at r = None
                   \<and> inv_expired_at r = None
      | DECLINED \<Rightarrow> inv_responded_at r \<noteq> None \<and> inv_cancelled_at r = None
                   \<and> inv_expired_at r = None \<and> inv_sender_hidden_at r = None
      | CANCELLED \<Rightarrow> inv_responded_at r = None \<and> inv_cancelled_at r \<noteq> None
                   \<and> inv_expired_at r = None \<and> inv_sender_hidden_at r = None
      | EXPIRED \<Rightarrow> inv_responded_at r = None \<and> inv_cancelled_at r = None
                   \<and> inv_expired_at r \<noteq> None \<and> inv_sender_hidden_at r = None)"

definition invitation_timestamp_order :: "invitation \<Rightarrow> bool" where
  "invitation_timestamp_order r \<longleftrightarrow>
     null_or (inv_responded_at r) (\<lambda>t. inv_created_at r \<le> t)
     \<and> null_or (inv_cancelled_at r) (\<lambda>t. inv_created_at r \<le> t)
     \<and> null_or (inv_expired_at r) (\<lambda>t. inv_expires_at r \<le> t)
     \<and> null_or (inv_sender_hidden_at r) (\<lambda>t. null_or (inv_responded_at r) (\<lambda>t'. t' \<le> t))"

definition invitation_check :: "invitation \<Rightarrow> bool" where
  "invitation_check r \<longleftrightarrow>
     inv_sender_id r \<noteq> inv_recipient_id r
     \<and> fst (inv_pair r) < snd (inv_pair r)
     \<and> inv_message r = pg_btrim (inv_message r)
     \<and> length (inv_message r) \<le> MAX_INVITATION_MESSAGE_CODE_POINTS
     \<and> inv_expires_at r = inv_created_at r + INVITATION_EXPIRY_INTERVAL
     \<and> invitation_status_timestamps r
     \<and> invitation_timestamp_order r
     \<and> 1 \<le> inv_version r"

definition invitation_clash :: "invitation \<Rightarrow> invitation \<Rightarrow> bool" where
  "invitation_clash a b \<longleftrightarrow> inv_id a = inv_id b
     \<or> (inv_pair a = inv_pair b \<and> inv_status a = PENDING \<and> inv_status b = PENDING)"

record buddy_match =
  mat_id :: uuid
  mat_participant_one_user_id :: uuid
  mat_participant_two_user_id :: uuid
  mat_participant_one_profile_id :: uuid
  mat_participant_two_profile_id :: uuid
  mat_status :: match_status
  mat_accepted_invitation_id :: uuid
  mat_semester_id :: uuid
  mat_score :: int
  mat_score_breakdown :: pyval
  mat_activated_at :: instant
  mat_created_at :: instant
  mat_updated_at :: instant
  mat_deleted_at :: "instant option"

definition mat_pair :: "buddy_match \<Rightarrow> uuid \<times> uuid" where
  "mat_pair r = (pair_low (mat_participant_one_user_id r) (mat_participant_two_user_id r),
                 pair_high (mat_participant_one_user_id r) (mat_participant_two_user_id r))"

definition match_check :: "buddy_match \<Rightarrow> bool" where
  "match_check r \<longleftrightarrow>
     mat_participant_one_user_id r \<noteq> mat_participant_two_user_id r
     \<and> mat_participant_one_profile_id r \<noteq> mat_participant_two_profile_id r
     \<and> fst (mat_pair r) < snd (mat_pair r)
     \<and> 0 \<le> mat_score r \<and> mat_score r \<le> 100
     \<and> (case mat_score_breakdown r of PyDict _ \<Rightarrow> True | _ \<Rightarrow> False)"

definition match_clash :: "buddy_match \<Rightarrow> buddy_match \<Rightarrow> bool" where
  "match_clash a b \<longleftrightarrow> mat_id a = mat_id b
     \<or> mat_accepted_invitation_id a = mat_accepted_invitation_id b
     \<or> (mat_pair a = mat_pair b \<and> mat_status a = ACTIVE \<and> mat_status b = ACTIVE)"

record buddy_conversation =
  conv_id :: uuid
  conv_match_id :: uuid
  conv_semester_id :: uuid
  conv_created_at :: instant

definition conversation_clash :: "buddy_conversation \<Rightarrow> buddy_conversation \<Rightarrow> bool" where
  "conversation_clash a b \<longleftrightarrow> conv_id a = conv_id b \<or> conv_match_id a = conv_match_id b"

definition MAX_BUDDY_MESSAGE_CODE_POINTS :: nat where
  "MAX_BUDDY_MESSAGE_CODE_POINTS = 10000"

definition BUDDY_MESSAGE_MAX_RETENTION :: int where
  "BUDDY_MESSAGE_MAX_RETENTION = 90 * day_us"

definition BUDDY_MESSAGE_READ_RETENTION :: int where
  "BUDDY_MESSAGE_READ_RETENTION = 30 * day_us"

record buddy_message =
  msg_id :: uuid
  msg_conversation_id :: uuid
  msg_sender_id :: uuid
  msg_client_message_id :: uuid
  msg_body :: pystr
  msg_read_at :: "instant option"
  msg_expires_at :: instant
  msg_created_at :: instant

text \<open>
  \<open>BuddyMessage.__table_args__\<close>. The pattern \<open>[^[:space:]]\<close> asks for one character outside the
  POSIX space class.
\<close>

definition pg_space :: "nat \<Rightarrow> bool" where
  "pg_space c \<longleftrightarrow> (9 \<le> c \<and> c \<le> 13) \<or> c = 32"

definition message_check :: "buddy_message \<Rightarrow> bool" where
  "message_check r \<longleftrightarrow>
     list_ex (\<lambda>c. \<not> pg_space c) (msg_body r)
     \<and> length (msg_body r) \<le> MAX_BUDDY_MESSAGE_CODE_POINTS
     \<and> (case msg_read_at r of
          None \<Rightarrow> msg_expires_at r = msg_created_at r + BUDDY_MESSAGE_MAX_RETENTION
        | Some t \<Rightarrow> msg_created_at r \<le> t
            \<and> msg_expires_at r = min (t + BUDDY_MESSAGE_READ_RETENTION)
                                    (msg_created_at r + BUDDY_MESSAGE_MAX_RETENTION))"

definition message_clash :: "buddy_message \<Rightarrow> buddy_message \<Rightarrow> bool" where
  "message_clash a b \<longleftrightarrow> msg_id a = msg_id b
     \<or> (msg_sender_id a = msg_sender_id b \<and> msg_client_message_id a = msg_client_message_id b)"

section \<open>Outbox\<close>

record transactional_outbox =
  obx_id :: uuid
  obx_event_type :: pystr
  obx_aggregate_id :: uuid
  obx_recipient_user_id :: "uuid option"
  obx_recipient_email :: pystr
  obx_idempotency_key :: pystr
  obx_payload :: pyval
  obx_attempts :: int
  obx_next_attempt_at :: instant
  obx_lease_owner :: "pystr option"
  obx_lease_expires_at :: "instant option"
  obx_sent_at :: "instant option"
  obx_failed_at :: "instant option"
  obx_provider_message_id :: "pystr option"
  obx_last_error_code :: "pystr option"
  obx_created_at :: instant
  obx_updated_at :: instant
  obx_deleted_at :: "instant option"

definition outbox_check :: "transactional_outbox \<Rightarrow> bool" where
  "outbox_check r \<longleftrightarrow>
     btrim_between 1 100 (obx_event_type r)
     \<and> btrim_between 1 320 (obx_recipient_email r)
     \<and> btrim_between 1 256 (obx_idempotency_key r)
     \<and> (case obx_payload r of PyDict _ \<Rightarrow> True | _ \<Rightarrow> False)
     \<and> 0 \<le> obx_attempts r
     \<and> (obx_lease_owner r = None) = (obx_lease_expires_at r = None)
     \<and> \<not> (obx_sent_at r \<noteq> None \<and> obx_failed_at r \<noteq> None)
     \<and> (obx_sent_at r = None \<and> obx_failed_at r = None
        \<or> obx_lease_owner r = None \<and> obx_lease_expires_at r = None)"

definition outbox_clash :: "transactional_outbox \<Rightarrow> transactional_outbox \<Rightarrow> bool" where
  "outbox_clash a b \<longleftrightarrow> obx_id a = obx_id b \<or> obx_idempotency_key a = obx_idempotency_key b"

end
