(* ===== verification/Database.thy ===== *)
theory Database
  imports Data_Model
begin

text \<open>
  The database the services run on: one list of rows per table, the transaction timestamp
  \<open>now()\<close>, the collation of \<open>ORDER BY\<close> on text (a rank; it is a property of the database, not of
  the code) and the identifiers of the semesters, which this part of the program only references.
  The locale \<open>constrained_table\<close> is the contract between a table and the services: inserts and
  updates that pass keep every row valid and no two rows in conflict.
\<close>

section \<open>Constrained tables\<close>

definition table_ok :: "('r \<Rightarrow> bool) \<Rightarrow> ('r \<Rightarrow> 'r \<Rightarrow> bool) \<Rightarrow> 'r list \<Rightarrow> bool" where
  "table_ok check clash rows \<longleftrightarrow> list_all check rows \<and> sorted_wrt (\<lambda>a b. \<not> clash a b) rows"

definition insert_checked ::
    "('r \<Rightarrow> bool) \<Rightarrow> ('r \<Rightarrow> 'r \<Rightarrow> bool) \<Rightarrow> bool \<Rightarrow> 'r \<Rightarrow> 'r list \<Rightarrow> exn + 'r list" where
  "insert_checked check clash refs r rows =
     (if \<not> check r then Inl (IntegrityError Check_violation)
      else if list_ex (clash r) rows then Inl (IntegrityError Unique_violation)
      else if \<not> refs then Inl (IntegrityError Foreign_key_violation)
      else Inr (rows @ [r]))"

text \<open>The \<open>UPDATE ... WHERE id = key r\<close> a flush issues for one changed object.\<close>

definition update_checked ::
    "('r \<Rightarrow> 'k) \<Rightarrow> ('r \<Rightarrow> bool) \<Rightarrow> ('r \<Rightarrow> 'r \<Rightarrow> bool) \<Rightarrow> 'r \<Rightarrow> 'r list \<Rightarrow> exn + 'r list" where
  "update_checked key check clash r rows =
     (if \<not> check r then Inl (IntegrityError Check_violation)
      else if list_ex (\<lambda>x. key x \<noteq> key r \<and> clash r x) rows
        then Inl (IntegrityError Unique_violation)
      else Inr (update_where (\<lambda>x. key x = key r) (\<lambda>_. r) rows))"

locale constrained_table =
  fixes key :: "'r \<Rightarrow> uuid"
    and check :: "'r \<Rightarrow> bool"
    and clash :: "'r \<Rightarrow> 'r \<Rightarrow> bool"
  assumes clash_sym: "clash a b \<longleftrightarrow> clash b a"
    and clash_key: "key a = key b \<Longrightarrow> clash a b"
begin

lemma table_ok_Nil: "table_ok check clash []"
  by (simp add: table_ok_def)

lemma row_ok: "table_ok check clash rows \<Longrightarrow> r \<in> set rows \<Longrightarrow> check r"
  by (simp add: table_ok_def list_all_iff)

lemma no_clash: "table_ok check clash rows \<Longrightarrow> a \<in> set rows \<Longrightarrow> b \<in> set rows \<Longrightarrow> clash a b \<Longrightarrow> a = b"
proof -
  assume ok: "table_ok check clash rows" and ab: "a \<in> set rows" "b \<in> set rows" "clash a b"
  from ab obtain i j where ij: "i < length rows" "rows ! i = a" "j < length rows" "rows ! j = b"
    by (auto simp: in_set_conv_nth)
  show "a = b"
  proof (rule ccontr)
    assume "a \<noteq> b"
    with ij have "i < j \<or> j < i" by (metis linorder_neqE_nat)
    with ok ij ab(3) show False
      using clash_sym[of a b] by (auto simp: table_ok_def sorted_wrt_iff_nth_less)
  qed
qed

lemma key_inj: "table_ok check clash rows \<Longrightarrow> a \<in> set rows \<Longrightarrow> b \<in> set rows \<Longrightarrow> key a = key b \<Longrightarrow> a = b"
  by (auto intro: no_clash clash_key)

lemma distinct_keys: "table_ok check clash rows \<Longrightarrow> distinct (map key rows)"
proof (induction rows)
  case (Cons r rows)
  then show ?case
    by (auto simp: table_ok_def dest: clash_key)
qed simp

lemma find_key: "table_ok check clash rows \<Longrightarrow> r \<in> set rows \<Longrightarrow> find (\<lambda>x. key x = key r) rows = Some r"
  by (intro find_unique) (auto dest: key_inj)

lemma insert_checked_ok:
  assumes "table_ok check clash rows" "insert_checked check clash refs r rows = Inr rows'"
  shows "table_ok check clash rows' \<and> rows' = rows @ [r] \<and> check r \<and> refs"
  using assms clash_sym
  by (auto simp: insert_checked_def table_ok_def list_ex_iff sorted_wrt_append split: if_splits)

lemma insert_checked_iff:
  "insert_checked check clash refs r rows = Inr rows' \<longleftrightarrow>
     check r \<and> (\<forall>x \<in> set rows. \<not> clash r x) \<and> refs \<and> rows' = rows @ [r]"
  by (auto simp: insert_checked_def list_ex_iff)

lemma sorted_wrt_update:
  assumes "sorted_wrt (\<lambda>a b. \<not> clash a b) rows"
    and "\<forall>x \<in> set rows. key x \<noteq> key r \<longrightarrow> \<not> clash r x"
  shows "sorted_wrt (\<lambda>a b. \<not> clash a b) (update_where (\<lambda>x. key x = key r) (\<lambda>_. r) rows)"
  using assms
proof (induction rows)
  case (Cons x rows)
  have other: "\<not> clash x y" if "y \<in> set rows" for y
    using Cons.prems(1) that by simp
  have "\<not> clash (if key x = key r then r else x) (if key y = key r then r else y)"
    if y: "y \<in> set rows" for y
  proof (cases "key x = key r")
    case True
    with other[OF y] have "key y \<noteq> key r" by (metis clash_key)
    with True Cons.prems(2) y show ?thesis by auto
  next
    case False
    with Cons.prems(2) other[OF y] clash_sym show ?thesis by auto
  qed
  then have "\<forall>y \<in> set (update_where (\<lambda>x. key x = key r) (\<lambda>_. r) rows).
      \<not> clash (if key x = key r then r else x) y"
    unfolding update_where_def set_map ball_simps by blast
  moreover from Cons have
    "sorted_wrt (\<lambda>a b. \<not> clash a b) (update_where (\<lambda>x. key x = key r) (\<lambda>_. r) rows)"
    by simp
  ultimately show ?case by (simp add: update_where_def)
qed (simp add: update_where_def)

lemma update_checked_ok:
  assumes "table_ok check clash rows" "update_checked key check clash r rows = Inr rows'"
  shows "table_ok check clash rows' \<and> check r
     \<and> rows' = update_where (\<lambda>x. key x = key r) (\<lambda>_. r) rows"
proof -
  from assms(2) have r: "check r" "\<forall>x \<in> set rows. key x \<noteq> key r \<longrightarrow> \<not> clash r x"
      "rows' = update_where (\<lambda>x. key x = key r) (\<lambda>_. r) rows"
    by (auto simp: update_checked_def list_ex_iff split: if_splits)
  with assms(1) show ?thesis
    using sorted_wrt_update[of rows r]
    by (auto simp: table_ok_def list_all_iff set_update_where)
qed

text \<open>An update that only gives up uniqueness claims never fails on the unique indexes.\<close>

lemma update_checked_succeeds:
  assumes "table_ok check clash rows" "old \<in> set rows" "key r = key old" "check r"
    and "\<And>x. clash r x \<Longrightarrow> clash old x"
  shows "update_checked key check clash r rows =
     Inr (update_where (\<lambda>x. key x = key r) (\<lambda>_. r) rows)"
proof -
  have "\<not> clash r x" if "x \<in> set rows" "key x \<noteq> key r" for x
  proof
    assume "clash r x"
    with assms(5) have "clash old x" .
    with assms(1,2) that(1) have "old = x" by (rule no_clash)
    with that(2) assms(3) show False by simp
  qed
  with assms(4) show ?thesis by (auto simp: update_checked_def list_ex_iff)
qed

lemma mem_update:
  "x \<in> set (update_where (\<lambda>x. key x = key r) (\<lambda>_. r) rows) \<longleftrightarrow>
     (x = r \<and> key r \<in> key ` set rows) \<or> (x \<in> set rows \<and> key x \<noteq> key r)"
  by (auto simp: set_update_where image_iff) (metis, metis)

lemma keys_update: "key ` set (update_where (\<lambda>x. key x = key r) (\<lambda>_. r) rows) = key ` set rows"
  by (auto simp: set_update_where image_iff) metis

lemma filter_ok: "table_ok check clash rows \<Longrightarrow> table_ok check clash (filter p rows)"
  by (auto simp: table_ok_def list_all_iff intro: sorted_wrt_filter)

end

section \<open>The database\<close>

record database =
  db_users :: "user list"
  db_profiles :: "student_profile list"
  db_photos :: "profile_photo list"
  db_interests :: "interest list"
  db_languages :: "language list"
  db_activities :: "activity list"
  db_profile_interests :: "profile_interest list"
  db_profile_languages :: "profile_language list"
  db_profile_activities :: "profile_activity list"
  db_custom_preferences :: "custom_preference list"
  db_invitations :: "invitation list"
  db_matches :: "buddy_match list"
  db_conversations :: "buddy_conversation list"
  db_messages :: "buddy_message list"
  db_outbox :: "transactional_outbox list"
  db_semester_ids :: "uuid list"
  db_now :: instant
  db_collation :: "pystr \<Rightarrow> nat"

definition user_clash :: "user \<Rightarrow> user \<Rightarrow> bool" where
  "user_clash a b \<longleftrightarrow> usr_id a = usr_id b \<or> usr_email a = usr_email b"

definition profile_clash :: "student_profile \<Rightarrow> student_profile \<Rightarrow> bool" where
  "profile_clash a b \<longleftrightarrow> prof_id a = prof_id b \<or> prof_user_id a = prof_user_id b"

interpretation usr: constrained_table usr_id user_check user_clash
  by unfold_locales (auto simp: user_clash_def)

interpretation prof: constrained_table prof_id profile_check profile_clash
  by unfold_locales (auto simp: profile_clash_def)

interpretation photo: constrained_table photo_id photo_check photo_clash
  by unfold_locales (auto simp: photo_clash_def)

interpretation cust: constrained_table cust_id custom_preference_check custom_preference_clash
  by unfold_locales (auto simp: custom_preference_clash_def)

interpretation inv: constrained_table inv_id invitation_check invitation_clash
  by unfold_locales (auto simp: invitation_clash_def)

interpretation mat: constrained_table mat_id match_check match_clash
  by unfold_locales (auto simp: match_clash_def)

interpretation conv: constrained_table conv_id "\<lambda>_. True" conversation_clash
  by unfold_locales (auto simp: conversation_clash_def)

interpretation msg: constrained_table msg_id message_check message_clash
  by unfold_locales (auto simp: message_clash_def)

interpretation obx: constrained_table obx_id outbox_check outbox_clash
  by unfold_locales (auto simp: outbox_clash_def)

section \<open>Foreign keys and the message trigger\<close>

definition invitation_refs :: "database \<Rightarrow> invitation \<Rightarrow> bool" where
  "invitation_refs db r \<longleftrightarrow> inv_sender_id r \<in> usr_id ` set (db_users db)
     \<and> inv_recipient_id r \<in> usr_id ` set (db_users db)"

definition match_refs :: "database \<Rightarrow> buddy_match \<Rightarrow> bool" where
  "match_refs db r \<longleftrightarrow> mat_participant_one_user_id r \<in> usr_id ` set (db_users db)
     \<and> mat_participant_two_user_id r \<in> usr_id ` set (db_users db)
     \<and> mat_participant_one_profile_id r \<in> prof_id ` set (db_profiles db)
     \<and> mat_participant_two_profile_id r \<in> prof_id ` set (db_profiles db)
     \<and> mat_accepted_invitation_id r \<in> inv_id ` set (db_invitations db)
     \<and> mat_semester_id r \<in> set (db_semester_ids db)"

definition conversation_refs :: "database \<Rightarrow> buddy_conversation \<Rightarrow> bool" where
  "conversation_refs db r \<longleftrightarrow> conv_match_id r \<in> mat_id ` set (db_matches db)
     \<and> conv_semester_id r \<in> set (db_semester_ids db)"

definition message_refs :: "database \<Rightarrow> buddy_message \<Rightarrow> bool" where
  "message_refs db r \<longleftrightarrow> msg_conversation_id r \<in> conv_id ` set (db_conversations db)
     \<and> msg_sender_id r \<in> usr_id ` set (db_users db)"

definition outbox_refs :: "database \<Rightarrow> transactional_outbox \<Rightarrow> bool" where
  "outbox_refs db r \<longleftrightarrow> null_or (obx_recipient_user_id r) (\<lambda>i. i \<in> usr_id ` set (db_users db))"

text \<open>The trigger \<open>enforce_buddy_message_sender\<close> of migration 0014.\<close>

definition message_sender_trigger :: "database \<Rightarrow> buddy_message \<Rightarrow> bool" where
  "message_sender_trigger db r \<longleftrightarrow>
     list_ex (\<lambda>c. conv_id c = msg_conversation_id r
        \<and> list_ex (\<lambda>m. mat_id m = conv_match_id c \<and> mat_status m = ACTIVE
             \<and> mat_deleted_at m = None
             \<and> (msg_sender_id r = mat_participant_one_user_id m
                \<or> msg_sender_id r = mat_participant_two_user_id m)) (db_matches db))
       (db_conversations db)"

section \<open>Statements\<close>

definition insert_invitation :: "invitation \<Rightarrow> (exn, database, unit) txn" where
  "insert_invitation r db =
     (case insert_checked invitation_check invitation_clash (invitation_refs db r) r
             (db_invitations db) of
        Inl e \<Rightarrow> (Inl e, db)
      | Inr rows \<Rightarrow> (Inr (), db\<lparr>db_invitations := rows\<rparr>))"

text \<open>
  The flush of a changed invitation: the mapper's \<open>version_id_col\<close> is incremented and the column
  default \<open>onupdate=func.now()\<close> stamps \<open>updated_at\<close>. The value returned is the object after the
  flush.
\<close>

definition flush_invitation :: "invitation \<Rightarrow> (exn, database, invitation) txn" where
  "flush_invitation r db =
     (let r' = r\<lparr>inv_version := inv_version r + 1, inv_updated_at := db_now db\<rparr>
      in case update_checked inv_id invitation_check invitation_clash r' (db_invitations db) of
           Inl e \<Rightarrow> (Inl e, db)
         | Inr rows \<Rightarrow> (Inr r', db\<lparr>db_invitations := rows\<rparr>))"

definition insert_match :: "buddy_match \<Rightarrow> (exn, database, unit) txn" where
  "insert_match r db =
     (case insert_checked match_check match_clash (match_refs db r) r (db_matches db) of
        Inl e \<Rightarrow> (Inl e, db)
      | Inr rows \<Rightarrow> (Inr (), db\<lparr>db_matches := rows\<rparr>))"

text \<open>\<open>INSERT ... ON CONFLICT (match_id) DO NOTHING RETURNING\<close>.\<close>

definition insert_conversation_on_conflict ::
    "buddy_conversation \<Rightarrow> (exn, database, buddy_conversation option) txn" where
  "insert_conversation_on_conflict r db =
     (if list_ex (\<lambda>x. conv_match_id x = conv_match_id r) (db_conversations db) then (Inr None, db)
      else case insert_checked (\<lambda>_. True) conversation_clash (conversation_refs db r) r
                  (db_conversations db) of
             Inl e \<Rightarrow> (Inl e, db)
           | Inr rows \<Rightarrow> (Inr (Some r), db\<lparr>db_conversations := rows\<rparr>))"

definition insert_message :: "buddy_message \<Rightarrow> (exn, database, unit) txn" where
  "insert_message r db =
     (if \<not> message_sender_trigger db r then (Inl (IntegrityError Check_violation), db)
      else case insert_checked message_check message_clash (message_refs db r) r
                  (db_messages db) of
             Inl e \<Rightarrow> (Inl e, db)
           | Inr rows \<Rightarrow> (Inr (), db\<lparr>db_messages := rows\<rparr>))"

text \<open>\<open>INSERT ... ON CONFLICT (sender_id, client_message_id) DO NOTHING RETURNING\<close>.\<close>

definition insert_message_on_conflict ::
    "buddy_message \<Rightarrow> (exn, database, buddy_message option) txn" where
  "insert_message_on_conflict r db =
     (if \<not> message_sender_trigger db r \<or> \<not> message_check r
      then (Inl (IntegrityError Check_violation), db)
      else if list_ex (\<lambda>x. msg_sender_id x = msg_sender_id r
                \<and> msg_client_message_id x = msg_client_message_id r) (db_messages db)
      then (Inr None, db)
      else case insert_message r db of
             (Inl e, db') \<Rightarrow> (Inl e, db')
           | (Inr _, db') \<Rightarrow> (Inr (Some r), db'))"

definition insert_outbox :: "transactional_outbox \<Rightarrow> (exn, database, unit) txn" where
  "insert_outbox r db =
     (case insert_checked outbox_check outbox_clash (outbox_refs db r) r (db_outbox db) of
        Inl e \<Rightarrow> (Inl e, db)
      | Inr rows \<Rightarrow> (Inr (), db\<lparr>db_outbox := rows\<rparr>))"

definition flush_outbox :: "transactional_outbox \<Rightarrow> (exn, database, unit) txn" where
  "flush_outbox r db =
     (case update_checked obx_id outbox_check outbox_clash r (db_outbox db) of
        Inl e \<Rightarrow> (Inl e, db)
      | Inr rows \<Rightarrow> (Inr (), db\<lparr>db_outbox := rows\<rparr>))"

section \<open>Well-formed databases\<close>

definition db_ok :: "database \<Rightarrow> bool" where
  "db_ok db \<longleftrightarrow>
     table_ok user_check user_clash (db_users db)
     \<and> table_ok profile_check profile_clash (db_profiles db)
     \<and> table_ok photo_check photo_clash (db_photos db)
     \<and> table_ok custom_preference_check custom_preference_clash (db_custom_preferences db)
     \<and> table_ok invitation_check invitation_clash (db_invitations db)
     \<and> table_ok match_check match_clash (db_matches db)
     \<and> table_ok (\<lambda>_. True) conversation_clash (db_conversations db)
     \<and> table_ok message_check message_clash (db_messages db)
     \<and> table_ok outbox_check outbox_clash (db_outbox db)
     \<and> list_all (invitation_refs db) (db_invitations db)
     \<and> list_all (match_refs db) (db_matches db)
     \<and> list_all (conversation_refs db) (db_conversations db)
     \<and> list_all (message_refs db) (db_messages db)
     \<and> list_all (outbox_refs db) (db_outbox db)"

lemmas refs_defs = invitation_refs_def match_refs_def conversation_refs_def message_refs_def
  outbox_refs_def

lemma db_ok_tables:
  assumes "db_ok db"
  shows "table_ok user_check user_clash (db_users db)"
    and "table_ok profile_check profile_clash (db_profiles db)"
    and "table_ok photo_check photo_clash (db_photos db)"
    and "table_ok custom_preference_check custom_preference_clash (db_custom_preferences db)"
    and "table_ok invitation_check invitation_clash (db_invitations db)"
    and "table_ok match_check match_clash (db_matches db)"
    and "table_ok (\<lambda>_. True) conversation_clash (db_conversations db)"
    and "table_ok message_check message_clash (db_messages db)"
    and "table_ok outbox_check outbox_clash (db_outbox db)"
  using assms by (auto simp: db_ok_def)

text \<open>Each statement keeps the database well formed, and what it does to its table.\<close>

lemma insert_invitation_Inr:
  "insert_invitation r db = (Inr x, db') \<longleftrightarrow>
     invitation_check r \<and> (\<forall>y \<in> set (db_invitations db). \<not> invitation_clash r y)
     \<and> invitation_refs db r \<and> db' = db\<lparr>db_invitations := db_invitations db @ [r]\<rparr>"
  by (auto simp: insert_invitation_def insert_checked_def list_ex_iff split: sum.splits if_splits)

lemma insert_invitation_db_ok:
  "db_ok db \<Longrightarrow> insert_invitation r db = (Inr x, db') \<Longrightarrow> db_ok db'"
  using inv.insert_checked_ok[of "db_invitations db" "invitation_refs db r" r]
  by (auto simp: insert_invitation_def db_ok_def refs_defs list_all_iff split: sum.splits)

lemma flush_invitation_Inr:
  "flush_invitation r db = (Inr r', db') \<Longrightarrow>
     r' = r\<lparr>inv_version := inv_version r + 1, inv_updated_at := db_now db\<rparr>
     \<and> db' = db\<lparr>db_invitations :=
         update_where (\<lambda>x. inv_id x = inv_id r) (\<lambda>_. r') (db_invitations db)\<rparr>"
  by (auto simp: flush_invitation_def update_checked_def Let_def split: sum.splits if_splits)

lemma flush_invitation_db_ok:
  assumes "db_ok db" "flush_invitation r db = (Inr r', db')" "old \<in> set (db_invitations db)"
    and "inv_sender_id r = inv_sender_id old" "inv_recipient_id r = inv_recipient_id old"
  shows "db_ok db'"
proof -
  let ?r = "r\<lparr>inv_version := inv_version r + 1, inv_updated_at := db_now db\<rparr>"
  from assms(2) obtain rows where
      upd: "update_checked inv_id invitation_check invitation_clash ?r (db_invitations db) = Inr rows"
      and db': "db' = db\<lparr>db_invitations := rows\<rparr>"
    by (auto simp: flush_invitation_def Let_def split: sum.splits)
  from inv.update_checked_ok[OF db_ok_tables(5)[OF assms(1)] upd]
  have rows: "table_ok invitation_check invitation_clash rows"
      "rows = update_where (\<lambda>x. inv_id x = inv_id ?r) (\<lambda>_. ?r) (db_invitations db)"
    by auto
  have ids: "inv_id ` set rows = inv_id ` set (db_invitations db)"
    unfolding rows(2) by (rule inv.keys_update)
  have "invitation_refs db ?r"
    using assms(1,3-5) by (auto simp: db_ok_def list_all_iff invitation_refs_def)
  then have "list_all (invitation_refs db) rows"
    using assms(1) by (auto simp: rows(2) list_all_iff set_update_where db_ok_def)
  with assms(1) rows(1) show ?thesis
    by (auto simp: db' db_ok_def refs_defs ids list_all_iff)
qed

lemma insert_match_Inr:
  "insert_match r db = (Inr x, db') \<longleftrightarrow>
     match_check r \<and> (\<forall>y \<in> set (db_matches db). \<not> match_clash r y)
     \<and> match_refs db r \<and> db' = db\<lparr>db_matches := db_matches db @ [r]\<rparr>"
  by (auto simp: insert_match_def insert_checked_def list_ex_iff split: sum.splits if_splits)

lemma insert_match_db_ok: "db_ok db \<Longrightarrow> insert_match r db = (Inr x, db') \<Longrightarrow> db_ok db'"
  using mat.insert_checked_ok[of "db_matches db" "match_refs db r" r]
  by (auto simp: insert_match_def db_ok_def refs_defs list_all_iff split: sum.splits)

lemma insert_conversation_Inr:
  "insert_conversation_on_conflict r db = (Inr x, db') \<Longrightarrow>
     (x = None \<and> db' = db \<and> (\<exists>y \<in> set (db_conversations db). conv_match_id y = conv_match_id r))
     \<or> (x = Some r \<and> db' = db\<lparr>db_conversations := db_conversations db @ [r]\<rparr>
        \<and> (\<forall>y \<in> set (db_conversations db). conv_match_id y \<noteq> conv_match_id r))"
  by (auto simp: insert_conversation_on_conflict_def conv.insert_checked_iff list_ex_iff
      conversation_clash_def split: sum.splits if_splits)

lemma insert_conversation_db_ok:
  "db_ok db \<Longrightarrow> insert_conversation_on_conflict r db = (Inr x, db') \<Longrightarrow> db_ok db'"
  using conv.insert_checked_ok[of "db_conversations db" "conversation_refs db r" r]
  by (auto simp: insert_conversation_on_conflict_def db_ok_def refs_defs list_all_iff
      split: sum.splits if_splits)

lemma insert_message_Inr:
  "insert_message r db = (Inr x, db') \<longleftrightarrow>
     message_sender_trigger db r \<and> message_check r
     \<and> (\<forall>y \<in> set (db_messages db). \<not> message_clash r y)
     \<and> message_refs db r \<and> db' = db\<lparr>db_messages := db_messages db @ [r]\<rparr>"
  by (auto simp: insert_message_def insert_checked_def list_ex_iff split: sum.splits if_splits)

lemma insert_message_db_ok: "db_ok db \<Longrightarrow> insert_message r db = (Inr x, db') \<Longrightarrow> db_ok db'"
  using msg.insert_checked_ok[of "db_messages db" "message_refs db r" r]
  by (auto simp: insert_message_def db_ok_def refs_defs list_all_iff split: sum.splits if_splits)

lemma insert_message_on_conflict_Inr:
  "insert_message_on_conflict r db = (Inr x, db') \<Longrightarrow>
     (x = None \<and> db' = db \<and> (\<exists>y \<in> set (db_messages db). msg_sender_id y = msg_sender_id r
         \<and> msg_client_message_id y = msg_client_message_id r))
     \<or> (x = Some r \<and> insert_message r db = (Inr (), db'))"
  by (auto simp: insert_message_on_conflict_def list_ex_iff split: sum.splits if_splits prod.splits)

lemma insert_outbox_Inr:
  "insert_outbox r db = (Inr x, db') \<longleftrightarrow>
     outbox_check r \<and> (\<forall>y \<in> set (db_outbox db). \<not> outbox_clash r y)
     \<and> outbox_refs db r \<and> db' = db\<lparr>db_outbox := db_outbox db @ [r]\<rparr>"
  by (auto simp: insert_outbox_def insert_checked_def list_ex_iff split: sum.splits if_splits)

lemma insert_outbox_db_ok: "db_ok db \<Longrightarrow> insert_outbox r db = (Inr x, db') \<Longrightarrow> db_ok db'"
  using obx.insert_checked_ok[of "db_outbox db" "outbox_refs db r" r]
  by (auto simp: insert_outbox_def db_ok_def refs_defs list_all_iff split: sum.splits)

end
