(* ===== verification/Invitation_Lifecycle.thy ===== *)
theory Invitation_Lifecycle
  imports Database
begin

text \<open>
  The lifecycle of one invitation (\<open>models/invitation.py\<close>), its effective expiry
  (\<open>services/invitation_expiry.py\<close>) and the owner mutations Decline, Cancel and Hide
  (\<open>services/invitation_mutations.py\<close>). The locale \<open>pending_answer\<close> is the contract that Decline
  and Cancel share; both are interpretations of it.
\<close>

section \<open>The model methods\<close>

definition TERMINAL_INVITATION_STATUSES :: "invitation_status set" where
  "TERMINAL_INVITATION_STATUSES = {ACCEPTED, DECLINED, CANCELLED, EXPIRED}"

definition require_aware :: "clock_value \<Rightarrow> exn + instant" where
  "require_aware c = aware ValueError c"

definition invitation_expires_at :: "clock_value \<Rightarrow> exn + instant" where
  "invitation_expires_at sent_at =
     ebind (require_aware sent_at) (\<lambda>t. Inr (t + INVITATION_EXPIRY_INTERVAL))"

definition invitation_transition ::
    "invitation_status \<Rightarrow> clock_value \<Rightarrow> invitation \<Rightarrow> exn + invitation" where
  "invitation_transition target moment r =
     ebind (require_aware moment) (\<lambda>t.
       if inv_status r \<noteq> PENDING \<or> target \<notin> TERMINAL_INVITATION_STATUSES
       then Inl (InvitationTransitionError (inv_status r) target)
       else if target \<noteq> EXPIRED \<and> inv_expires_at r \<le> t then Inl InvitationExpiredError
       else if t < inv_created_at r then Inl ValueError
       else let r' = r\<lparr>inv_status := target\<rparr>
            in Inr (if target \<in> {ACCEPTED, DECLINED} then r'\<lparr>inv_responded_at := Some t\<rparr>
                    else if target = CANCELLED then r'\<lparr>inv_cancelled_at := Some t\<rparr>
                    else r'\<lparr>inv_expired_at := Some t\<rparr>))"

definition invitation_accept :: "clock_value \<Rightarrow> invitation \<Rightarrow> exn + invitation" where
  "invitation_accept moment r = invitation_transition ACCEPTED moment r"

definition invitation_decline :: "clock_value \<Rightarrow> invitation \<Rightarrow> exn + invitation" where
  "invitation_decline moment r = invitation_transition DECLINED moment r"

definition invitation_cancel :: "clock_value \<Rightarrow> invitation \<Rightarrow> exn + invitation" where
  "invitation_cancel moment r = invitation_transition CANCELLED moment r"

definition invitation_expire :: "clock_value \<Rightarrow> invitation \<Rightarrow> exn + invitation" where
  "invitation_expire moment r =
     ebind (require_aware moment) (\<lambda>t.
       if t < inv_expires_at r then Inl ValueError
       else invitation_transition EXPIRED (Aware t) r)"

text \<open>Returns whether the row changed, with the row.\<close>

definition invitation_hide_from_sender :: "clock_value \<Rightarrow> invitation \<Rightarrow> exn + (bool \<times> invitation)" where
  "invitation_hide_from_sender moment r =
     ebind (require_aware moment) (\<lambda>t.
       case inv_responded_at r of
         None \<Rightarrow> Inl ValueError
       | Some responded \<Rightarrow>
           if inv_status r \<noteq> ACCEPTED then Inl ValueError
           else if inv_sender_hidden_at r \<noteq> None then Inr (False, r)
           else if t < responded then Inl ValueError
           else Inr (True, r\<lparr>inv_sender_hidden_at := Some t\<rparr>))"

section \<open>Effective expiry\<close>

definition effective_invitation_status :: "invitation \<Rightarrow> instant \<Rightarrow> invitation_status" where
  "effective_invitation_status r moment =
     (if inv_status r = PENDING \<and> inv_expires_at r \<le> moment then EXPIRED else inv_status r)"

definition effective_pending_predicate :: "instant \<Rightarrow> invitation \<Rightarrow> bool" where
  "effective_pending_predicate moment r \<longleftrightarrow> inv_status r = PENDING \<and> moment < inv_expires_at r"

definition expired_pending_predicate :: "instant \<Rightarrow> invitation \<Rightarrow> bool" where
  "expired_pending_predicate moment r \<longleftrightarrow> inv_status r = PENDING \<and> inv_expires_at r \<le> moment"

definition DEFAULT_INVITATION_EXPIRY_BATCH_SIZE :: int where
  "DEFAULT_INVITATION_EXPIRY_BATCH_SIZE = 20"

definition MAX_INVITATION_EXPIRY_BATCH_SIZE :: int where
  "MAX_INVITATION_EXPIRY_BATCH_SIZE = 100"

text \<open>
  The rows one batch locks. \<open>locked\<close> says which rows other transactions hold: \<open>SKIP LOCKED\<close> passes
  over them.
\<close>

definition due_invitations :: "(uuid \<Rightarrow> bool) \<Rightarrow> instant \<Rightarrow> invitation list \<Rightarrow> invitation list" where
  "due_invitations locked moment rows =
     select_by (\<lambda>r. (inv_expires_at r, inv_id r))
       (\<lambda>r. expired_pending_predicate moment r \<and> \<not> locked (inv_id r)) rows"

definition expire_invitation_batch ::
    "(uuid \<Rightarrow> bool) \<Rightarrow> int \<Rightarrow> clock_value \<Rightarrow> (exn, database, uuid list) txn" where
  "expire_invitation_batch locked batch_size clock =
     bind_tx (require_tx (1 \<le> batch_size \<and> batch_size \<le> MAX_INVITATION_EXPIRY_BATCH_SIZE)
                InvitationExpiryValidationError) (\<lambda>_.
     bind_tx (lift_tx (aware ValueError clock)) (\<lambda>now.
     bind_tx (query_tx (\<lambda>db. take (nat batch_size)
                (due_invitations locked now (db_invitations db)))) (\<lambda>rows.
     bind_tx (lift_tx (emap (invitation_expire (Aware now)) rows)) (\<lambda>rows'.
     bind_tx (for_tx flush_invitation rows') (\<lambda>_.
     return_tx (map inv_id rows))))))"

record invitation_expiry_report =
  report_selected :: nat
  report_expired :: nat

definition process_invitation_expiry_batch ::
    "(uuid \<Rightarrow> bool) \<Rightarrow> int \<Rightarrow> clock_value \<Rightarrow> (exn, database, invitation_expiry_report) txn" where
  "process_invitation_expiry_batch locked batch_size clock =
     bind_tx (atomic_tx (expire_invitation_batch locked batch_size clock)) (\<lambda>ids.
     return_tx \<lparr>report_selected = length ids, report_expired = length ids\<rparr>)"

section \<open>Owner mutations\<close>

record verified_buddy_principal =
  principal_user :: user
  principal_profile :: student_profile

datatype invitation_owner = Recipient | Sender

record invitation_mutation_result =
  mutation_invitation_id :: uuid
  mutation_status :: invitation_status

fun owned_by :: "invitation_owner \<Rightarrow> uuid \<Rightarrow> invitation \<Rightarrow> bool" where
  "owned_by Recipient owner_user_id r = (inv_recipient_id r = owner_user_id)"
| "owned_by Sender owner_user_id r = (inv_sender_id r = owner_user_id)"

definition load_owned_invitation_for_update ::
    "uuid \<Rightarrow> uuid \<Rightarrow> invitation_owner \<Rightarrow> (exn, database, invitation) txn" where
  "load_owned_invitation_for_update invitation_id owner_user_id owner db =
     (case find (\<lambda>r. inv_id r = invitation_id \<and> owned_by owner owner_user_id r
                     \<and> inv_deleted_at r = None) (db_invitations db) of
        None \<Rightarrow> (Inl (InvitationMutationError Mutation_NOT_FOUND), db)
      | Some r \<Rightarrow> (Inr r, db))"

definition mutation_result :: "invitation \<Rightarrow> invitation_mutation_result" where
  "mutation_result r = \<lparr>mutation_invitation_id = inv_id r, mutation_status = inv_status r\<rparr>"

definition decline_matching_invitation ::
    "verified_buddy_principal \<Rightarrow> uuid \<Rightarrow> clock_value
       \<Rightarrow> (exn, database, invitation_mutation_result) txn" where
  "decline_matching_invitation current invitation_id clock =
     bind_tx (load_owned_invitation_for_update invitation_id (usr_id (principal_user current)) Recipient)
       (\<lambda>r.
     if inv_status r = DECLINED then return_tx (mutation_result r)
     else bind_tx (lift_tx (aware ValueError clock)) (\<lambda>changed_at.
     if effective_invitation_status r changed_at = EXPIRED
     then raise_tx (InvitationMutationError Mutation_EXPIRED)
     else if inv_status r \<noteq> PENDING then raise_tx (InvitationMutationError Mutation_INVALID_STATE)
     else bind_tx (lift_tx (invitation_decline (Aware changed_at) r)) (\<lambda>r'.
     bind_tx (flush_invitation r') (\<lambda>r''.
     return_tx (mutation_result r'')))))"

definition cancel_matching_invitation ::
    "verified_buddy_principal \<Rightarrow> uuid \<Rightarrow> clock_value
       \<Rightarrow> (exn, database, invitation_mutation_result) txn" where
  "cancel_matching_invitation current invitation_id clock =
     bind_tx (load_owned_invitation_for_update invitation_id (usr_id (principal_user current)) Sender)
       (\<lambda>r.
     if inv_status r = CANCELLED then return_tx (mutation_result r)
     else bind_tx (lift_tx (aware ValueError clock)) (\<lambda>changed_at.
     if effective_invitation_status r changed_at = EXPIRED
     then raise_tx (InvitationMutationError Mutation_EXPIRED)
     else if inv_status r \<noteq> PENDING then raise_tx (InvitationMutationError Mutation_INVALID_STATE)
     else bind_tx (lift_tx (invitation_cancel (Aware changed_at) r)) (\<lambda>r'.
     bind_tx (flush_invitation r') (\<lambda>r''.
     return_tx (mutation_result r'')))))"

definition hide_accepted_invitation_from_sender ::
    "verified_buddy_principal \<Rightarrow> uuid \<Rightarrow> clock_value
       \<Rightarrow> (exn, database, invitation_mutation_result) txn" where
  "hide_accepted_invitation_from_sender current invitation_id clock =
     bind_tx (load_owned_invitation_for_update invitation_id (usr_id (principal_user current)) Sender)
       (\<lambda>r.
     if inv_status r \<noteq> ACCEPTED then raise_tx (InvitationMutationError Mutation_INVALID_STATE)
     else bind_tx (lift_tx (aware ValueError clock)) (\<lambda>t.
     bind_tx (lift_tx (invitation_hide_from_sender (Aware t) r)) (\<lambda>(changed, r').
     if changed then bind_tx (flush_invitation r') (\<lambda>r''. return_tx (mutation_result r''))
     else return_tx (mutation_result r'))))"

section \<open>Transitions\<close>

definition stamped :: "invitation_status \<Rightarrow> instant \<Rightarrow> invitation \<Rightarrow> invitation" where
  "stamped target t r =
     (if target \<in> {ACCEPTED, DECLINED} then r\<lparr>inv_status := target, inv_responded_at := Some t\<rparr>
      else if target = CANCELLED then r\<lparr>inv_status := target, inv_cancelled_at := Some t\<rparr>
      else r\<lparr>inv_status := target, inv_expired_at := Some t\<rparr>)"

definition flushed :: "database \<Rightarrow> invitation \<Rightarrow> invitation" where
  "flushed db r = r\<lparr>inv_version := inv_version r + 1, inv_updated_at := db_now db\<rparr>"

text \<open>The moments at which a pending invitation can be answered, and the ones at which it can expire.\<close>

definition answerable :: "instant \<Rightarrow> invitation \<Rightarrow> bool" where
  "answerable t r \<longleftrightarrow> inv_status r = PENDING \<and> inv_created_at r \<le> t \<and> t < inv_expires_at r"

lemma transition_Inr_iff:
  "invitation_transition target (Aware t) r = Inr r' \<longleftrightarrow>
     inv_status r = PENDING \<and> target \<noteq> PENDING \<and> inv_created_at r \<le> t
     \<and> (target \<noteq> EXPIRED \<longrightarrow> t < inv_expires_at r) \<and> r' = stamped target t r"
  by (cases target)
    (auto simp: invitation_transition_def require_aware_def stamped_def Let_def
      TERMINAL_INVITATION_STATUSES_def)

lemma stamped_simps [simp]:
  "inv_id (stamped target t r) = inv_id r"
  "inv_sender_id (stamped target t r) = inv_sender_id r"
  "inv_recipient_id (stamped target t r) = inv_recipient_id r"
  "inv_status (stamped target t r) = target"
  "inv_created_at (stamped target t r) = inv_created_at r"
  "inv_expires_at (stamped target t r) = inv_expires_at r"
  "inv_deleted_at (stamped target t r) = inv_deleted_at r"
  "inv_message (stamped target t r) = inv_message r"
  "inv_version (stamped target t r) = inv_version r"
  by (auto simp: stamped_def)

lemma flushed_simps [simp]:
  "inv_id (flushed db r) = inv_id r"
  "inv_sender_id (flushed db r) = inv_sender_id r"
  "inv_recipient_id (flushed db r) = inv_recipient_id r"
  "inv_status (flushed db r) = inv_status r"
  "inv_created_at (flushed db r) = inv_created_at r"
  "inv_expires_at (flushed db r) = inv_expires_at r"
  "inv_deleted_at (flushed db r) = inv_deleted_at r"
  "inv_message (flushed db r) = inv_message r"
  "inv_version (flushed db r) = inv_version r + 1"
  "inv_responded_at (flushed db r) = inv_responded_at r"
  "inv_sender_hidden_at (flushed db r) = inv_sender_hidden_at r"
  by (auto simp: flushed_def)

lemma flushed_check [simp]: "invitation_check r \<Longrightarrow> invitation_check (flushed db r)"
  by (cases "inv_status r")
    (auto simp: invitation_check_def flushed_def inv_pair_def invitation_status_timestamps_def
      invitation_timestamp_order_def)

lemma stamped_check:
  assumes "invitation_check r" "inv_status r = PENDING" "target \<noteq> PENDING" "inv_created_at r \<le> t"
    and "target = EXPIRED \<longrightarrow> inv_expires_at r \<le> t"
  shows "invitation_check (stamped target t r)"
  using assms
  by (cases target)
    (auto simp: stamped_def invitation_check_def inv_pair_def invitation_status_timestamps_def
      invitation_timestamp_order_def)

lemma check_pending: "invitation_check r \<Longrightarrow> inv_status r = PENDING \<Longrightarrow>
    inv_responded_at r = None \<and> inv_cancelled_at r = None \<and> inv_expired_at r = None
    \<and> inv_sender_hidden_at r = None"
  by (auto simp: invitation_check_def invitation_status_timestamps_def)

lemma check_created_expires: "invitation_check r \<Longrightarrow> inv_created_at r < inv_expires_at r"
  by (simp add: invitation_check_def INVITATION_EXPIRY_INTERVAL_def day_us_def)

text \<open>
  The flush of a changed row that left \<open>PENDING\<close>, or kept its status, never meets a constraint:
  the services' guards imply the database's.
\<close>

lemma flush_invitation_run:
  assumes "db_ok db" "r \<in> set (db_invitations db)" "inv_id r' = inv_id r"
    and "inv_pair r' = inv_pair r" "inv_status r' = PENDING \<longrightarrow> inv_status r = PENDING"
    and "invitation_check r'"
  shows "flush_invitation r' db =
     (Inr (flushed db r'),
      db\<lparr>db_invitations := update_where (\<lambda>x. inv_id x = inv_id r) (\<lambda>_. flushed db r') (db_invitations db)\<rparr>)"
proof -
  have pair: "inv_pair (flushed db r') = inv_pair r'"
    by (simp add: inv_pair_def)
  have "update_checked inv_id invitation_check invitation_clash (flushed db r') (db_invitations db) =
      Inr (update_where (\<lambda>x. inv_id x = inv_id (flushed db r')) (\<lambda>_. flushed db r') (db_invitations db))"
    by (rule inv.update_checked_succeeds[OF db_ok_tables(5)[OF assms(1)] assms(2)])
      (use assms pair in \<open>auto simp: invitation_clash_def\<close>)
  then show ?thesis
    using assms(3) by (simp add: flush_invitation_def flushed_def Let_def)
qed

section \<open>How stored invitations evolve\<close>

inductive lifecycle_step :: "invitation \<Rightarrow> invitation \<Rightarrow> bool" where
  answered: "answerable t r \<Longrightarrow> target \<in> {ACCEPTED, DECLINED, CANCELLED} \<Longrightarrow>
     lifecycle_step r (flushed db (stamped target t r))"
| expired: "inv_status r = PENDING \<Longrightarrow> inv_expires_at r \<le> t \<Longrightarrow>
     lifecycle_step r (flushed db (stamped EXPIRED t r))"
| hidden: "inv_status r = ACCEPTED \<Longrightarrow> inv_sender_hidden_at r = None \<Longrightarrow>
     lifecycle_step r (flushed db (r\<lparr>inv_sender_hidden_at := Some t\<rparr>))"

inductive_cases lifecycle_stepE: "lifecycle_step r r'"

lemma lifecycle_step_frame:
  "lifecycle_step r r' \<Longrightarrow> inv_id r' = inv_id r \<and> inv_sender_id r' = inv_sender_id r
     \<and> inv_recipient_id r' = inv_recipient_id r \<and> inv_message r' = inv_message r
     \<and> inv_created_at r' = inv_created_at r \<and> inv_expires_at r' = inv_expires_at r
     \<and> inv_version r' = inv_version r + 1"
  by (auto elim: lifecycle_stepE)

lemma lifecycle_step_terminal:
  "lifecycle_step r r' \<Longrightarrow> inv_status r \<noteq> PENDING \<Longrightarrow> inv_status r' = inv_status r"
  by (auto elim: lifecycle_stepE simp: answerable_def)

lemma lifecycle_step_pending:
  "lifecycle_step r r' \<Longrightarrow> inv_status r' = PENDING \<Longrightarrow> False"
  by (auto elim: lifecycle_stepE)

text \<open>A database step keeps the stored invitations, each unchanged or one step further, and may add new ones.\<close>

definition invitations_evolve :: "invitation list \<Rightarrow> invitation list \<Rightarrow> bool" where
  "invitations_evolve rows rows' \<longleftrightarrow>
     (\<exists>kept new. rows' = kept @ new \<and> list_all2 lifecycle_step\<^sup>*\<^sup>* rows kept)"

lemma invitations_evolve_refl [simp]: "invitations_evolve rows rows"
  unfolding invitations_evolve_def
  by (rule exI[of _ rows], rule exI[of _ "[]"]) (simp add: list.rel_refl)

lemma invitations_evolve_append [simp]: "invitations_evolve rows (rows @ new)"
  unfolding invitations_evolve_def
  by (rule exI[of _ rows], rule exI[of _ new]) (simp add: list.rel_refl)

lemma invitations_evolve_trans:
  assumes "invitations_evolve a b" "invitations_evolve b c"
  shows "invitations_evolve a c"
proof -
  from assms(1) obtain k n where b: "b = k @ n" "list_all2 lifecycle_step\<^sup>*\<^sup>* a k"
    by (auto simp: invitations_evolve_def)
  from assms(2) b(1) obtain k' n' where c: "c = k' @ n'" "list_all2 lifecycle_step\<^sup>*\<^sup>* (k @ n) k'"
    by (auto simp: invitations_evolve_def)
  then obtain k1 k2 where k': "k' = k1 @ k2" "list_all2 lifecycle_step\<^sup>*\<^sup>* k k1"
    by (auto simp: list_all2_append1)
  have "list_all2 lifecycle_step\<^sup>*\<^sup>* a k1"
    by (rule list_all2_trans[OF _ b(2) k'(2)]) auto
  with c(1) k'(1) show ?thesis
    unfolding invitations_evolve_def by (intro exI[of _ k1] exI[of _ "k2 @ n'"]) simp
qed

lemma invitations_evolve_update:
  assumes "table_ok invitation_check invitation_clash rows" "r \<in> set rows" "lifecycle_step r r'"
  shows "invitations_evolve rows (update_where (\<lambda>x. inv_id x = inv_id r) (\<lambda>_. r') rows)"
proof -
  have "lifecycle_step\<^sup>*\<^sup>* x (if inv_id x = inv_id r then r' else x)" if "x \<in> set rows" for x
    using inv.key_inj[OF assms(1) that assms(2)] assms(3) by auto
  then have "list_all2 lifecycle_step\<^sup>*\<^sup>* rows (update_where (\<lambda>x. inv_id x = inv_id r) (\<lambda>_. r') rows)"
    unfolding update_where_def by (simp add: list_all2_conv_all_nth)
  then show ?thesis
    unfolding invitations_evolve_def by (metis append_Nil2)
qed

lemma lifecycle_steps_terminal:
  "lifecycle_step\<^sup>*\<^sup>* r r' \<Longrightarrow> inv_status r \<noteq> PENDING \<Longrightarrow> inv_status r' = inv_status r"
  by (induction rule: rtranclp_induct) (auto dest: lifecycle_step_terminal)

lemma lifecycle_steps_frame:
  "lifecycle_step\<^sup>*\<^sup>* r r' \<Longrightarrow> inv_id r' = inv_id r \<and> inv_sender_id r' = inv_sender_id r
     \<and> inv_recipient_id r' = inv_recipient_id r \<and> inv_message r' = inv_message r
     \<and> inv_created_at r' = inv_created_at r \<and> inv_expires_at r' = inv_expires_at r
     \<and> inv_version r \<le> inv_version r'"
  by (induction rule: rtranclp_induct) (auto dest: lifecycle_step_frame)

lemma invitations_evolve_terminal:
  assumes "invitations_evolve rows rows'" "r \<in> set rows" "inv_status r \<noteq> PENDING"
  shows "\<exists>r' \<in> set rows'. inv_id r' = inv_id r \<and> inv_status r' = inv_status r
     \<and> inv_sender_id r' = inv_sender_id r \<and> inv_recipient_id r' = inv_recipient_id r"
proof -
  from assms(1) obtain kept new where
      "rows' = kept @ new" "list_all2 lifecycle_step\<^sup>*\<^sup>* rows kept"
    by (auto simp: invitations_evolve_def)
  with assms(2) obtain r' where "r' \<in> set rows'" "lifecycle_step\<^sup>*\<^sup>* r r'"
    by (metis Un_iff in_set_conv_nth list_all2_conv_all_nth set_append)
  with assms(3) show ?thesis
    by (auto dest: lifecycle_steps_terminal lifecycle_steps_frame)
qed

section \<open>Decline and Cancel share one contract\<close>

definition addressed_invitation ::
    "database \<Rightarrow> uuid \<Rightarrow> uuid \<Rightarrow> invitation_owner \<Rightarrow> invitation option" where
  "addressed_invitation db invitation_id owner_user_id owner =
     find (\<lambda>r. inv_id r = invitation_id \<and> owned_by owner owner_user_id r \<and> inv_deleted_at r = None)
       (db_invitations db)"

definition replace_invitation :: "invitation \<Rightarrow> database \<Rightarrow> database" where
  "replace_invitation r db = db\<lparr>db_invitations :=
     update_where (\<lambda>x. inv_id x = inv_id r) (\<lambda>_. r) (db_invitations db)\<rparr>"

lemma addressed_SomeD:
  "addressed_invitation db i own owner = Some r \<Longrightarrow>
     r \<in> set (db_invitations db) \<and> inv_id r = i \<and> owned_by owner own r \<and> inv_deleted_at r = None"
  by (auto simp: addressed_invitation_def dest: find_SomeD)

lemma addressed_replaced:
  assumes "db_ok db" "addressed_invitation db i own owner = Some r"
    and "inv_id r' = inv_id r" "inv_sender_id r' = inv_sender_id r"
    and "inv_recipient_id r' = inv_recipient_id r" "inv_deleted_at r' = inv_deleted_at r"
  shows "addressed_invitation (replace_invitation r' db) i own owner = Some r'"
proof -
  have mem: "r \<in> set (db_invitations db)" "inv_id r = i"
    using addressed_SomeD[OF assms(2)] by auto
  have r': "owned_by owner own r'" "inv_deleted_at r' = None" "inv_id r' = i"
    using addressed_SomeD[OF assms(2)] assms(3-6) by (cases owner, auto)
  have "inv_id r' \<in> inv_id ` set (db_invitations db)"
    using mem r'(3) by force
  then have "r' \<in> set (db_invitations (replace_invitation r' db))"
    by (simp add: replace_invitation_def inv.mem_update)
  moreover have "y = r'" if "y \<in> set (db_invitations (replace_invitation r' db))" "inv_id y = i" for y
    using that r'(3) by (auto simp: replace_invitation_def set_update_where)
  ultimately show ?thesis
    unfolding addressed_invitation_def using r' by (intro find_unique) auto
qed

lemma replace_invitation_db_ok:
  assumes "db_ok db" "r \<in> set (db_invitations db)" "inv_id r' = inv_id r"
    and "inv_sender_id r' = inv_sender_id r" "inv_recipient_id r' = inv_recipient_id r"
    and "inv_status r' = PENDING \<longrightarrow> inv_status r = PENDING" "invitation_check r'"
  shows "db_ok (replace_invitation (flushed db r') db)"
proof -
  have "flush_invitation r' db = (Inr (flushed db r'), replace_invitation (flushed db r') db)"
    using flush_invitation_run[OF assms(1-3)] assms(3-7)
    by (simp add: inv_pair_def replace_invitation_def)
  then show ?thesis
    by (rule flush_invitation_db_ok[OF assms(1) _ assms(2) assms(4,5)])
qed

locale pending_answer =
  fixes answer :: "verified_buddy_principal \<Rightarrow> uuid \<Rightarrow> clock_value
          \<Rightarrow> (exn, database, invitation_mutation_result) txn"
    and owner :: invitation_owner
    and target :: invitation_status
  assumes target: "target \<in> {DECLINED, CANCELLED}"
    and not_found: "addressed_invitation db i (usr_id (principal_user p)) owner = None \<Longrightarrow>
          answer p i c db = (Inl (InvitationMutationError Mutation_NOT_FOUND), db)"
    and replay: "addressed_invitation db i (usr_id (principal_user p)) owner = Some r \<Longrightarrow>
          inv_status r = target \<Longrightarrow> answer p i c db = (Inr (mutation_result r), db)"
    and commit: "db_ok db \<Longrightarrow> addressed_invitation db i (usr_id (principal_user p)) owner = Some r \<Longrightarrow>
          answerable t r \<Longrightarrow> answer p i (Aware t) db =
            (Inr \<lparr>mutation_invitation_id = i, mutation_status = target\<rparr>,
             replace_invitation (flushed db (stamped target t r)) db)"
    and reject: "addressed_invitation db i (usr_id (principal_user p)) owner = Some r \<Longrightarrow>
          inv_status r \<noteq> target \<Longrightarrow> (\<And>t. c = Aware t \<Longrightarrow> \<not> answerable t r) \<Longrightarrow>
          \<exists>e. answer p i c db = (Inl e, db)"
begin

lemma target_cases: "target = DECLINED \<or> target = CANCELLED"
  using target by auto

text \<open>The only ways a call can return.\<close>

lemma answer_cases:
  assumes "db_ok db"
  obtains (failed) e where "answer p i c db = (Inl e, db)"
  | (replayed) r where "addressed_invitation db i (usr_id (principal_user p)) owner = Some r"
      "inv_status r = target" "answer p i c db = (Inr (mutation_result r), db)"
  | (changed) r t where "addressed_invitation db i (usr_id (principal_user p)) owner = Some r"
      "c = Aware t" "answerable t r"
      "answer p i c db = (Inr \<lparr>mutation_invitation_id = i, mutation_status = target\<rparr>,
             replace_invitation (flushed db (stamped target t r)) db)"
proof (cases "addressed_invitation db i (usr_id (principal_user p)) owner")
  case None
  then show ?thesis using failed by (simp add: not_found)
next
  case (Some r)
  show ?thesis
  proof (cases "inv_status r = target")
    case True
    with Some show ?thesis using replayed by (simp add: replay)
  next
    case False
    show ?thesis
    proof (cases "\<exists>t. c = Aware t \<and> answerable t r")
      case True
      with Some assms show ?thesis using changed commit by blast
    next
      case not_answerable: False
      with Some False show ?thesis using failed reject by blast
    qed
  qed
qed

lemma failure_keeps_db: "db_ok db \<Longrightarrow> answer p i c db = (Inl e, db') \<Longrightarrow> db' = db"
  by (erule answer_cases[of db p i c]) auto

lemma only_invitations:
  assumes "db_ok db" "answer p i c db = (Inr res, db')"
  shows "db' = db\<lparr>db_invitations := db_invitations db'\<rparr>"
  using assms
  by (cases rule: answer_cases[of db p i c]) (auto simp: replace_invitation_def)

lemma changed_step:
  assumes "db_ok db" "addressed_invitation db i own owner = Some r" "answerable t r"
  shows "db_ok (replace_invitation (flushed db (stamped target t r)) db)"
    and "invitations_evolve (db_invitations db)
      (db_invitations (replace_invitation (flushed db (stamped target t r)) db))"
proof -
  from addressed_SomeD[OF assms(2)] have mem: "r \<in> set (db_invitations db)" by simp
  have "invitation_check (stamped target t r)"
    using assms(3) inv.row_ok[OF db_ok_tables(5)[OF assms(1)] mem] target_cases
    by (intro stamped_check) (auto simp: answerable_def)
  then show "db_ok (replace_invitation (flushed db (stamped target t r)) db)"
    using assms(1,3) mem target_cases
    by (intro replace_invitation_db_ok[of db r]) (auto simp: answerable_def)
  have "lifecycle_step r (flushed db (stamped target t r))"
    using assms(3) target_cases by (auto intro: lifecycle_step.answered)
  from invitations_evolve_update[OF db_ok_tables(5)[OF assms(1)] mem this]
  show "invitations_evolve (db_invitations db)
      (db_invitations (replace_invitation (flushed db (stamped target t r)) db))"
    by (simp add: replace_invitation_def)
qed

lemma preserves:
  assumes "db_ok db"
  shows "db_ok (snd (answer p i c db))"
    and "invitations_evolve (db_invitations db) (db_invitations (snd (answer p i c db)))"
  using assms changed_step[OF assms]
  by (cases rule: answer_cases[of db p i c]; auto)+

text \<open>Repeating an answered request, at any later or earlier clock, returns the same receipt and changes nothing.\<close>

lemma idempotent:
  assumes "db_ok db" "answer p i c db = (Inr res, db')"
  shows "answer p i c' db' = (Inr res, db')"
  using assms(1)
proof (cases rule: answer_cases[of db p i c])
  case (changed r t)
  let ?r = "flushed db (stamped target t r)"
  from changed assms have db': "db' = replace_invitation ?r db"
    and res: "res = \<lparr>mutation_invitation_id = i, mutation_status = target\<rparr>" by auto
  have "addressed_invitation db' i (usr_id (principal_user p)) owner = Some ?r"
    unfolding db' by (rule addressed_replaced[OF assms(1) changed(1)]) simp_all
  from replay[OF this] res changed(1) show ?thesis
    by (auto simp: mutation_result_def dest: addressed_SomeD)
next
  case (replayed r)
  with assms show ?thesis using replay by auto
next
  case (failed e)
  with assms show ?thesis by simp
qed

lemma receipt: "db_ok db \<Longrightarrow> answer p i c db = (Inr res, db') \<Longrightarrow>
    mutation_invitation_id res = i \<and> mutation_status res = target"
  by (erule answer_cases[of db p i c]) (auto simp: mutation_result_def dest: addressed_SomeD)

end

lemma load_owned_run:
  "load_owned_invitation_for_update i own owner db =
     (case addressed_invitation db i own owner of
        None \<Rightarrow> (Inl (InvitationMutationError Mutation_NOT_FOUND), db) | Some r \<Rightarrow> (Inr r, db))"
  by (simp add: load_owned_invitation_for_update_def addressed_invitation_def)

lemma flush_answer_run:
  assumes "db_ok db" "addressed_invitation db i own owner = Some r" "answerable t r"
    and "target \<in> {DECLINED, CANCELLED}"
  shows "flush_invitation (stamped target t r) db =
     (Inr (flushed db (stamped target t r)), replace_invitation (flushed db (stamped target t r)) db)"
proof -
  from addressed_SomeD[OF assms(2)] have mem: "r \<in> set (db_invitations db)" by simp
  have "invitation_check (stamped target t r)"
    using assms(3,4) inv.row_ok[OF db_ok_tables(5)[OF assms(1)] mem]
    by (intro stamped_check) (auto simp: answerable_def)
  with flush_invitation_run[OF assms(1) mem, of "stamped target t r"] assms(4)
  show ?thesis by (auto simp: inv_pair_def replace_invitation_def)
qed

interpretation decline: pending_answer decline_matching_invitation Recipient DECLINED
proof (unfold_locales, goal_cases)
  case (4 db i p r t)
  then have "invitation_transition DECLINED (Aware t) r = Inr (stamped DECLINED t r)"
    by (simp add: transition_Inr_iff answerable_def)
  with 4 flush_answer_run[OF 4(1,2,3), of DECLINED] show ?case
    by (auto simp: decline_matching_invitation_def load_owned_run invitation_decline_def
        effective_invitation_status_def answerable_def mutation_result_def dest: addressed_SomeD)
next
  case (5 db i p r c)
  then show ?case
    by (cases c) (auto simp: decline_matching_invitation_def load_owned_run invitation_decline_def
        effective_invitation_status_def answerable_def invitation_transition_def require_aware_def
        TERMINAL_INVITATION_STATUSES_def)
qed (auto simp: decline_matching_invitation_def load_owned_run)

interpretation cancel: pending_answer cancel_matching_invitation Sender CANCELLED
proof (unfold_locales, goal_cases)
  case (4 db i p r t)
  then have "invitation_transition CANCELLED (Aware t) r = Inr (stamped CANCELLED t r)"
    by (simp add: transition_Inr_iff answerable_def)
  with 4 flush_answer_run[OF 4(1,2,3), of CANCELLED] show ?case
    by (auto simp: cancel_matching_invitation_def load_owned_run invitation_cancel_def
        effective_invitation_status_def answerable_def mutation_result_def dest: addressed_SomeD)
next
  case (5 db i p r c)
  then show ?case
    by (cases c) (auto simp: cancel_matching_invitation_def load_owned_run invitation_cancel_def
        effective_invitation_status_def answerable_def invitation_transition_def require_aware_def
        TERMINAL_INVITATION_STATUSES_def)
qed (auto simp: cancel_matching_invitation_def load_owned_run)

section \<open>Hide\<close>

lemma hide_check:
  "invitation_check r \<Longrightarrow> inv_status r = ACCEPTED \<Longrightarrow> inv_responded_at r = Some t0 \<Longrightarrow> t0 \<le> t \<Longrightarrow>
     invitation_check (r\<lparr>inv_sender_hidden_at := Some t\<rparr>)"
  by (auto simp: invitation_check_def inv_pair_def invitation_status_timestamps_def
      invitation_timestamp_order_def)

text \<open>The only ways a Hide can return.\<close>

lemma hide_cases:
  assumes "db_ok db"
  obtains (failed) e where "hide_accepted_invitation_from_sender p i c db = (Inl e, db)"
  | (kept) r where "addressed_invitation db i (usr_id (principal_user p)) Sender = Some r"
      "inv_status r = ACCEPTED" "inv_sender_hidden_at r \<noteq> None"
      "hide_accepted_invitation_from_sender p i c db = (Inr (mutation_result r), db)"
  | (hidden) r t where "addressed_invitation db i (usr_id (principal_user p)) Sender = Some r"
      "inv_status r = ACCEPTED" "inv_sender_hidden_at r = None"
      "invitation_check (r\<lparr>inv_sender_hidden_at := Some t\<rparr>)"
      "hide_accepted_invitation_from_sender p i c db = (Inr (mutation_result r),
         replace_invitation (flushed db (r\<lparr>inv_sender_hidden_at := Some t\<rparr>)) db)"
proof (cases "addressed_invitation db i (usr_id (principal_user p)) Sender")
  case None
  then show ?thesis
    by (intro failed) (auto simp: hide_accepted_invitation_from_sender_def load_owned_run)
next
  case (Some r)
  show ?thesis
  proof (cases "inv_status r = ACCEPTED \<and> (\<exists>t. c = Aware t)")
    case False
    with Some show ?thesis
      by (intro failed[of "if inv_status r = ACCEPTED then ValueError
            else InvitationMutationError Mutation_INVALID_STATE"], cases c)
        (auto simp: hide_accepted_invitation_from_sender_def load_owned_run)
  next
    case True
    then obtain t where t: "c = Aware t" and acc: "inv_status r = ACCEPTED" by auto
    have mem: "r \<in> set (db_invitations db)" using addressed_SomeD[OF Some] by simp
    have chk: "invitation_check r" by (rule inv.row_ok[OF db_ok_tables(5)[OF assms] mem])
    with acc obtain t0 where t0: "inv_responded_at r = Some t0"
      by (auto simp: invitation_check_def invitation_status_timestamps_def)
    note run = Some t acc t0 hide_accepted_invitation_from_sender_def load_owned_run
      invitation_hide_from_sender_def require_aware_def
    show ?thesis
    proof (cases "inv_sender_hidden_at r = None")
      case False
      then show ?thesis using Some acc by (intro kept[of r]) (auto simp: run)
    next
      case fresh: True
      show ?thesis
      proof (cases "t < t0")
        case True
        with fresh show ?thesis by (intro failed[of ValueError]) (auto simp: run)
      next
        case False
        with chk acc t0 have ok: "invitation_check (r\<lparr>inv_sender_hidden_at := Some t\<rparr>)"
          by (intro hide_check) auto
        have "flush_invitation (r\<lparr>inv_sender_hidden_at := Some t\<rparr>) db =
            (Inr (flushed db (r\<lparr>inv_sender_hidden_at := Some t\<rparr>)),
             replace_invitation (flushed db (r\<lparr>inv_sender_hidden_at := Some t\<rparr>)) db)"
          using flush_invitation_run[OF assms mem _ _ _ ok] acc
          by (simp add: inv_pair_def replace_invitation_def)
        with fresh False Some acc ok show ?thesis
          by (intro hidden[of r t]) (auto simp: run mutation_result_def)
      qed
    qed
  qed
qed

lemma hide_preserves:
  assumes "db_ok db"
  shows "db_ok (snd (hide_accepted_invitation_from_sender p i c db))
    \<and> invitations_evolve (db_invitations db)
         (db_invitations (snd (hide_accepted_invitation_from_sender p i c db)))"
  using assms
proof (cases rule: hide_cases[of db p i c])
  case (hidden r t)
  have mem: "r \<in> set (db_invitations db)" using addressed_SomeD[OF hidden(1)] by simp
  let ?r = "r\<lparr>inv_sender_hidden_at := Some t\<rparr>"
  have "db_ok (replace_invitation (flushed db ?r) db)"
    using assms mem hidden(2,4) by (intro replace_invitation_db_ok[of db r]) auto
  moreover have "lifecycle_step r (flushed db ?r)"
    using hidden(2,3) by (rule lifecycle_step.hidden)
  then have "invitations_evolve (db_invitations db) (db_invitations (replace_invitation (flushed db ?r) db))"
    using invitations_evolve_update[OF db_ok_tables(5)[OF assms] mem]
    by (simp add: replace_invitation_def)
  ultimately show ?thesis using hidden(5) by simp
qed (use assms in auto)

section \<open>The expiry batch\<close>

definition expire_all :: "instant \<Rightarrow> uuid set \<Rightarrow> database \<Rightarrow> database" where
  "expire_all now ids db = db\<lparr>db_invitations :=
     map (\<lambda>r. if inv_id r \<in> ids then flushed db (stamped EXPIRED now r) else r) (db_invitations db)\<rparr>"

lemma flushed_cong: "db_now db = db_now db' \<Longrightarrow> flushed db r = flushed db' r"
  by (simp add: flushed_def)

lemma expire_one:
  assumes "db_ok db" "r \<in> set (db_invitations db)" "expired_pending_predicate now r"
  shows "flush_invitation (stamped EXPIRED now r) db =
      (Inr (flushed db (stamped EXPIRED now r)), replace_invitation (flushed db (stamped EXPIRED now r)) db)"
    and "db_ok (replace_invitation (flushed db (stamped EXPIRED now r)) db)"
    and "invitations_evolve (db_invitations db)
      (db_invitations (replace_invitation (flushed db (stamped EXPIRED now r)) db))"
    and "replace_invitation (flushed db (stamped EXPIRED now r)) db = expire_all now {inv_id r} db"
proof -
  note chk = inv.row_ok[OF db_ok_tables(5)[OF assms(1)] assms(2)]
  have ok: "invitation_check (stamped EXPIRED now r)"
    using chk assms(3) check_created_expires[OF chk]
    by (intro stamped_check) (auto simp: expired_pending_predicate_def)
  show "flush_invitation (stamped EXPIRED now r) db =
      (Inr (flushed db (stamped EXPIRED now r)), replace_invitation (flushed db (stamped EXPIRED now r)) db)"
    using flush_invitation_run[OF assms(1,2) _ _ _ ok] by (simp add: inv_pair_def replace_invitation_def)
  show "db_ok (replace_invitation (flushed db (stamped EXPIRED now r)) db)"
    using assms ok by (intro replace_invitation_db_ok[of db r]) auto
  have "lifecycle_step r (flushed db (stamped EXPIRED now r))"
    using assms(3) by (auto simp: expired_pending_predicate_def intro: lifecycle_step.expired)
  then show "invitations_evolve (db_invitations db)
      (db_invitations (replace_invitation (flushed db (stamped EXPIRED now r)) db))"
    using invitations_evolve_update[OF db_ok_tables(5)[OF assms(1)] assms(2)]
    by (simp add: replace_invitation_def)
  show "replace_invitation (flushed db (stamped EXPIRED now r)) db = expire_all now {inv_id r} db"
  proof -
    have "x = r" if "x \<in> set (db_invitations db)" "inv_id x = inv_id r" for x
      using inv.key_inj[OF db_ok_tables(5)[OF assms(1)] that(1) assms(2)] that(2) .
    then have "map (\<lambda>x. if inv_id x = inv_id r then flushed db (stamped EXPIRED now r) else x) (db_invitations db)
       = map (\<lambda>x. if inv_id x \<in> {inv_id r} then flushed db (stamped EXPIRED now x) else x) (db_invitations db)"
      by (intro map_cong) auto
    then show ?thesis by (simp only: replace_invitation_def expire_all_def update_where_def flushed_simps stamped_simps)
  qed
qed

lemma expire_all_Un:
  "ids \<inter> ids' = {} \<Longrightarrow> expire_all now ids' (expire_all now ids db) = expire_all now (ids \<union> ids') db"
proof -
  assume disjoint: "ids \<inter> ids' = {}"
  have "flushed (expire_all now ids db) r = flushed db r" for r
    by (simp add: flushed_def expire_all_def)
  then have "db_invitations (expire_all now ids' (expire_all now ids db)) =
      map (\<lambda>r. if inv_id r \<in> ids \<union> ids' then flushed db (stamped EXPIRED now r) else r) (db_invitations db)"
    unfolding expire_all_def[of now ids'] using disjoint by (auto simp: expire_all_def)
  then show ?thesis by (simp add: expire_all_def)
qed

lemma expire_loop:
  assumes "db_ok db" "distinct (map inv_id rows)" "set rows \<subseteq> set (db_invitations db)"
    and "\<forall>r \<in> set rows. expired_pending_predicate now r"
  shows "\<exists>xs. for_tx flush_invitation (map (stamped EXPIRED now) rows) db =
       (Inr xs, expire_all now (inv_id ` set rows) db)
     \<and> db_ok (expire_all now (inv_id ` set rows) db)
     \<and> invitations_evolve (db_invitations db) (db_invitations (expire_all now (inv_id ` set rows) db))"
  using assms
proof (induction rows arbitrary: db)
  case Nil
  then show ?case by (simp add: expire_all_def)
next
  case (Cons r rows)
  from Cons.prems have r: "r \<in> set (db_invitations db)" "expired_pending_predicate now r"
      "inv_id r \<notin> inv_id ` set rows" by auto
  note one = expire_one[OF Cons.prems(1) r(1,2)]
  let ?db = "expire_all now {inv_id r} db"
  have "x \<in> set (db_invitations ?db)" if "x \<in> set rows" for x
  proof -
    from that r(3) have "inv_id x \<noteq> inv_id r" by (metis image_eqI)
    with that Cons.prems(3) show ?thesis by (force simp: expire_all_def)
  qed
  then have sub: "set rows \<subseteq> set (db_invitations ?db)" by blast
  from Cons.IH[OF _ _ sub] Cons.prems one obtain xs where
      xs: "for_tx flush_invitation (map (stamped EXPIRED now) rows) ?db =
         (Inr xs, expire_all now (inv_id ` set rows) ?db)"
      "db_ok (expire_all now (inv_id ` set rows) ?db)"
      "invitations_evolve (db_invitations ?db) (db_invitations (expire_all now (inv_id ` set rows) ?db))"
    by auto
  have un: "expire_all now (inv_id ` set rows) ?db = expire_all now (inv_id ` set (r # rows)) db"
    using expire_all_Un[of "{inv_id r}" "inv_id ` set rows" now db] r(3) by simp
  from one(3,4) xs(3) have "invitations_evolve (db_invitations db)
      (db_invitations (expire_all now (inv_id ` set (r # rows)) db))"
    unfolding un by (metis invitations_evolve_trans)
  with xs one show ?case
    by (auto simp: un)
qed

lemma emap_expire:
  "\<forall>r \<in> set rows. expired_pending_predicate now r \<and> inv_created_at r \<le> now \<Longrightarrow>
     emap (invitation_expire (Aware now)) rows = Inr (map (stamped EXPIRED now) rows)"
proof (induction rows)
  case (Cons r rows)
  then have "invitation_transition EXPIRED (Aware now) r = Inr (stamped EXPIRED now r)"
    by (simp add: transition_Inr_iff expired_pending_predicate_def)
  with Cons show ?case
    by (simp add: invitation_expire_def require_aware_def expired_pending_predicate_def)
qed simp

lemma expire_batch_run:
  assumes "db_ok db" "1 \<le> n" "n \<le> MAX_INVITATION_EXPIRY_BATCH_SIZE"
    and "rows = take (nat n) (due_invitations locked now (db_invitations db))"
  shows "expire_invitation_batch locked n (Aware now) db =
       (Inr (map inv_id rows), expire_all now (inv_id ` set rows) db)"
    and "db_ok (expire_all now (inv_id ` set rows) db)"
    and "invitations_evolve (db_invitations db) (db_invitations (expire_all now (inv_id ` set rows) db))"
proof -
  have sub: "set rows \<subseteq> {r \<in> set (db_invitations db). expired_pending_predicate now r \<and> \<not> locked (inv_id r)}"
    using set_take_subset[of "nat n" "due_invitations locked now (db_invitations db)"]
    by (simp add: assms(4) due_invitations_def)
  have "distinct (map inv_id (due_invitations locked now (db_invitations db)))"
    unfolding due_invitations_def
    by (intro distinct_map_select_by inv.distinct_keys db_ok_tables(5) assms(1))
  then have dist: "distinct (map inv_id rows)"
    by (simp add: assms(4) take_map[symmetric])
  have created: "inv_created_at r \<le> now" if "r \<in> set rows" for r
  proof -
    from that sub have r: "r \<in> set (db_invitations db)" "expired_pending_predicate now r" by auto
    from check_created_expires[OF inv.row_ok[OF db_ok_tables(5)[OF assms(1)] r(1)]] r(2)
    show ?thesis by (simp add: expired_pending_predicate_def)
  qed
  from sub have due: "\<forall>r \<in> set rows. expired_pending_predicate now r" by auto
  from sub have sub': "set rows \<subseteq> set (db_invitations db)" by auto
  from expire_loop[OF assms(1) dist sub' due] obtain xs where
      xs: "for_tx flush_invitation (map (stamped EXPIRED now) rows) db =
         (Inr xs, expire_all now (inv_id ` set rows) db)"
      "db_ok (expire_all now (inv_id ` set rows) db)"
      "invitations_evolve (db_invitations db) (db_invitations (expire_all now (inv_id ` set rows) db))"
    by blast
  show "expire_invitation_batch locked n (Aware now) db =
       (Inr (map inv_id rows), expire_all now (inv_id ` set rows) db)"
    using assms(2,3) emap_expire[of rows now] due created xs(1)
    by (simp add: expire_invitation_batch_def assms(4)[symmetric])
  show "db_ok (expire_all now (inv_id ` set rows) db)" by (rule xs(2))
  show "invitations_evolve (db_invitations db) (db_invitations (expire_all now (inv_id ` set rows) db))"
    by (rule xs(3))
qed

section \<open>Properties\<close>

text \<open>
  The outcome table an owner sees for a Decline or a Cancel at time \<open>t\<close>, on the invitation the
  request addresses.
\<close>

definition answer_outcome ::
    "invitation_status \<Rightarrow> instant \<Rightarrow> invitation option \<Rightarrow> exn + invitation_mutation_result" where
  "answer_outcome target t addressed =
     (case addressed of
        None \<Rightarrow> Inl (InvitationMutationError Mutation_NOT_FOUND)
      | Some r \<Rightarrow>
          if inv_status r = target \<or> answerable t r
          then Inr \<lparr>mutation_invitation_id = inv_id r, mutation_status = target\<rparr>
          else if inv_status r = EXPIRED \<or> inv_status r = PENDING \<and> inv_expires_at r \<le> t
          then Inl (InvitationMutationError Mutation_EXPIRED)
          else if inv_status r = PENDING then Inl ValueError
          else Inl (InvitationMutationError Mutation_INVALID_STATE))"

lemma answer_outcome_run:
  assumes "db_ok db"
  shows "fst (decline_matching_invitation p i (Aware t) db) =
       answer_outcome DECLINED t (addressed_invitation db i (usr_id (principal_user p)) Recipient)"
    and "fst (cancel_matching_invitation p i (Aware t) db) =
       answer_outcome CANCELLED t (addressed_invitation db i (usr_id (principal_user p)) Sender)"
proof -
  show "fst (decline_matching_invitation p i (Aware t) db) =
       answer_outcome DECLINED t (addressed_invitation db i (usr_id (principal_user p)) Recipient)"
  proof (cases "addressed_invitation db i (usr_id (principal_user p)) Recipient")
    case (Some r)
    with decline.commit[OF assms Some] addressed_SomeD[OF Some] show ?thesis
      by (cases "answerable t r"; cases "inv_status r")
        (auto simp: answer_outcome_def decline.replay mutation_result_def
          decline_matching_invitation_def load_owned_run effective_invitation_status_def
          answerable_def invitation_decline_def invitation_transition_def require_aware_def
          TERMINAL_INVITATION_STATUSES_def)
  qed (simp add: answer_outcome_def decline.not_found)
  show "fst (cancel_matching_invitation p i (Aware t) db) =
       answer_outcome CANCELLED t (addressed_invitation db i (usr_id (principal_user p)) Sender)"
  proof (cases "addressed_invitation db i (usr_id (principal_user p)) Sender")
    case (Some r)
    with cancel.commit[OF assms Some] addressed_SomeD[OF Some] show ?thesis
      by (cases "answerable t r"; cases "inv_status r")
        (auto simp: answer_outcome_def cancel.replay mutation_result_def
          cancel_matching_invitation_def load_owned_run effective_invitation_status_def
          answerable_def invitation_cancel_def invitation_transition_def require_aware_def
          TERMINAL_INVITATION_STATUSES_def)
  qed (simp add: answer_outcome_def cancel.not_found)
qed

definition witness_invitation :: invitation where
  "witness_invitation = \<lparr>inv_id = 20, inv_sender_id = 1, inv_recipient_id = 2, inv_message = u ''hi'',
     inv_status = PENDING, inv_expires_at = INVITATION_EXPIRY_INTERVAL, inv_responded_at = None,
     inv_cancelled_at = None, inv_expired_at = None, inv_sender_hidden_at = None, inv_version = 1,
     inv_created_at = 0, inv_updated_at = 0, inv_deleted_at = None\<rparr>"

definition witness_member :: "uuid \<Rightarrow> user" where
  "witness_member i = \<lparr>usr_id = i, usr_email = [97, of_nat i], usr_password_hash = u ''x'', usr_role = USER,
     usr_is_active = True, usr_email_verified = True, usr_email_verified_at = Some 5,
     usr_last_login = None, usr_semester_id = Some 9, usr_created_at = 0, usr_updated_at = 0,
     usr_deleted_at = None\<rparr>"

definition witness_database :: database where
  "witness_database = \<lparr>db_users = [witness_member 1, witness_member 2], db_profiles = [], db_photos = [],
     db_interests = [], db_languages = [], db_activities = [], db_profile_interests = [],
     db_profile_languages = [], db_profile_activities = [], db_custom_preferences = [],
     db_invitations = [witness_invitation], db_matches = [], db_conversations = [], db_messages = [],
     db_outbox = [], db_semester_ids = [9], db_now = 100, db_collation = length\<rparr>"

lemma witness_invitation_check: "invitation_check witness_invitation"
  by (simp add: witness_invitation_def invitation_check_def inv_pair_def pair_low_def pair_high_def
      strip_by_idem_iff u_def MAX_INVITATION_MESSAGE_CODE_POINTS_def invitation_status_timestamps_def
      invitation_timestamp_order_def strip_by_idem_iff[THEN iffD2, symmetric])

lemma witness_database_ok: "db_ok witness_database"
  using witness_invitation_check
  by (simp add: witness_database_def db_ok_def table_ok_def user_check_def witness_member_def u_def
      strip_by_def user_clash_def invitation_refs_def witness_invitation_def)

definition witness_principal :: "uuid \<Rightarrow> verified_buddy_principal" where
  "witness_principal i = \<lparr>principal_user = witness_member i, principal_profile =
     \<lparr>prof_id = 10 + i, prof_user_id = i, prof_full_name = None, prof_display_name = None,
      prof_student_type = None, prof_nationality = None, prof_major = None, prof_study_year = None,
      prof_bio = None, prof_home_university = None, prof_arrival_date = None,
      prof_departure_date = None, prof_availability = None, prof_preferences = None,
      prof_matching_opt_in = False, prof_version = 1, prof_onboarding_completed_at = None,
      prof_created_at = 0, prof_updated_at = 0, prof_deleted_at = None\<rparr>\<rparr>"

lemma witness_addressed:
  "addressed_invitation witness_database 20 (usr_id (principal_user (witness_principal 2))) Recipient =
     Some witness_invitation"
  by (simp add: addressed_invitation_def witness_database_def witness_invitation_def
      witness_principal_def witness_member_def)

lemma witness_answerable: "answerable 5 witness_invitation"
  by (simp add: answerable_def witness_invitation_def INVITATION_EXPIRY_INTERVAL_def day_us_def)

text \<open>C12: What a Decline (by the recipient) and a Cancel (by the sender) return at any time t is one outcome
  table over the invitation they address: not found when it is absent, deleted or somebody else's; the
  receipt when it is already in the target status or is answerable (PENDING, created, not expired at t);
  Expired when its stored or effective status is EXPIRED; a ValueError for a clock before its creation;
  and invalid state for any other status.\<close>

theorem owner_answers_meet_outcome_table:
  assumes "db_ok db"
  shows "fst (decline_matching_invitation p i (Aware t) db) =
       answer_outcome DECLINED t (addressed_invitation db i (usr_id (principal_user p)) Recipient)
     \<and> fst (cancel_matching_invitation p i (Aware t) db) =
       answer_outcome CANCELLED t (addressed_invitation db i (usr_id (principal_user p)) Sender)"
  using answer_outcome_run[OF assms] by simp

theorem owner_answers_meet_outcome_table_witness:
  "fst (decline_matching_invitation (witness_principal 2) 20 (Aware 5) witness_database) =
     Inr \<lparr>mutation_invitation_id = 20, mutation_status = DECLINED\<rparr>"
  using owner_answers_meet_outcome_table[OF witness_database_ok, of "witness_principal 2" 20 5]
    witness_answerable
  by (simp add: witness_addressed answer_outcome_def) (simp add: witness_invitation_def)

text \<open>A Decline or Cancel that succeeded can be repeated at any clock (even a naive one): the repetition
  returns the same receipt and changes nothing. The successful call leaves a valid database, changes
  no table but the invitations, and moves each stored invitation along the lifecycle relation.\<close>

theorem owner_answers_idempotent:
  assumes "db_ok db"
    and "act = decline_matching_invitation \<or> act = cancel_matching_invitation"
    and "act p i c db = (Inr res, db')"
  shows "act p i c' db' = (Inr res, db')
     \<and> db_ok db' \<and> invitations_evolve (db_invitations db) (db_invitations db')
     \<and> db' = db\<lparr>db_invitations := db_invitations db'\<rparr>"
  using assms(2)
proof
  assume a: "act = decline_matching_invitation"
  note run = assms(3)[unfolded a]
  note kept = decline.preserves[OF assms(1), of p i c, unfolded run snd_conv]
  show ?thesis
    unfolding a using decline.idempotent[OF assms(1) run] decline.only_invitations[OF assms(1) run] kept
    by blast
next
  assume a: "act = cancel_matching_invitation"
  note run = assms(3)[unfolded a]
  note kept = cancel.preserves[OF assms(1), of p i c, unfolded run snd_conv]
  show ?thesis
    unfolding a using cancel.idempotent[OF assms(1) run] cancel.only_invitations[OF assms(1) run] kept
    by blast
qed

lemma witness_decline:
  "decline_matching_invitation (witness_principal 2) 20 (Aware 5) witness_database =
     (Inr \<lparr>mutation_invitation_id = 20, mutation_status = DECLINED\<rparr>,
      replace_invitation (flushed witness_database (stamped DECLINED 5 witness_invitation)) witness_database)"
  by (rule decline.commit[OF witness_database_ok witness_addressed witness_answerable])

theorem owner_answers_idempotent_witness:
  "decline_matching_invitation (witness_principal 2) 20 (Naive 0)
      (replace_invitation (flushed witness_database (stamped DECLINED 5 witness_invitation)) witness_database) =
     (Inr \<lparr>mutation_invitation_id = 20, mutation_status = DECLINED\<rparr>,
      replace_invitation (flushed witness_database (stamped DECLINED 5 witness_invitation)) witness_database)"
  using owner_answers_idempotent[OF witness_database_ok disjI1[OF refl] witness_decline] by blast

text \<open>A Hide that returns has hidden an ACCEPTED invitation of the caller: it keeps the status and the
  recorded answer, it sets the hidden time at most once, only the invitations table changes, and
  repeating it, at any valid clock, changes nothing further.\<close>

theorem hide_is_permanent_and_idempotent:
  assumes "db_ok db"
    and "hide_accepted_invitation_from_sender p i c db = (Inr res, db')"
  shows "res = \<lparr>mutation_invitation_id = i, mutation_status = ACCEPTED\<rparr>
     \<and> (\<exists>r r'. addressed_invitation db i (usr_id (principal_user p)) Sender = Some r
          \<and> addressed_invitation db' i (usr_id (principal_user p)) Sender = Some r'
          \<and> inv_status r = ACCEPTED \<and> inv_status r' = ACCEPTED
          \<and> inv_sender_hidden_at r' \<noteq> None \<and> inv_responded_at r' = inv_responded_at r
          \<and> (inv_sender_hidden_at r \<noteq> None \<longrightarrow> db' = db))
     \<and> db_ok db' \<and> db' = db\<lparr>db_invitations := db_invitations db'\<rparr>
     \<and> hide_accepted_invitation_from_sender p i (Aware t) db' = (Inr res, db')"
proof -
  have again: "hide_accepted_invitation_from_sender p i (Aware t) x = (Inr (mutation_result r), x)"
    if "db_ok x" "addressed_invitation x i (usr_id (principal_user p)) Sender = Some r"
      "inv_status r = ACCEPTED" "inv_sender_hidden_at r \<noteq> None" for x r
  proof -
    have "r \<in> set (db_invitations x)" using addressed_SomeD[OF that(2)] by simp
    from inv.row_ok[OF db_ok_tables(5)[OF that(1)] this] that(3) obtain t0 where
        "inv_responded_at r = Some t0"
      by (auto simp: invitation_check_def invitation_status_timestamps_def)
    with that(2-4) show ?thesis
      by (auto simp: hide_accepted_invitation_from_sender_def load_owned_run
          invitation_hide_from_sender_def require_aware_def)
  qed
  from hide_preserves[OF assms(1), of p i c] assms(2) have ok: "db_ok db'" by simp
  show ?thesis
    using assms(1)
  proof (cases rule: hide_cases[of db p i c])
    case (kept r)
    with assms(2) have eq: "db' = db" "res = mutation_result r" by auto
    show ?thesis
      using kept again[OF assms(1) kept(1-3)] addressed_SomeD[OF kept(1)]
      by (auto simp: eq mutation_result_def assms(1))
  next
    case (hidden r s)
    let ?r = "flushed db (r\<lparr>inv_sender_hidden_at := Some s\<rparr>)"
    from hidden assms(2) have eq: "db' = replace_invitation ?r db" "res = mutation_result r" by auto
    have found: "addressed_invitation db' i (usr_id (principal_user p)) Sender = Some ?r"
      unfolding eq by (rule addressed_replaced[OF assms(1) hidden(1)]) simp_all
    have "hide_accepted_invitation_from_sender p i (Aware t) db' = (Inr (mutation_result ?r), db')"
      by (rule again[OF ok found]) (use hidden(2) in simp_all)
    moreover have "db' = db\<lparr>db_invitations := db_invitations db'\<rparr>"
      by (simp add: eq replace_invitation_def)
    moreover have "res = \<lparr>mutation_invitation_id = i, mutation_status = ACCEPTED\<rparr>"
        "mutation_result ?r = res"
      using hidden(1,2) by (auto simp: eq mutation_result_def dest: addressed_SomeD)
    ultimately show ?thesis
      using ok hidden(1,2,3) found by auto
  qed (use assms(2) in simp)
qed

definition witness_accepted :: invitation where
  "witness_accepted = flushed witness_database (stamped ACCEPTED 5 witness_invitation)"

definition witness_accepted_database :: database where
  "witness_accepted_database = replace_invitation witness_accepted witness_database"

lemma witness_mem: "witness_invitation \<in> set (db_invitations witness_database)"
  by (simp add: witness_database_def)

lemma witness_pending: "inv_status witness_invitation = PENDING" "inv_created_at witness_invitation = 0"
  by (simp_all add: witness_invitation_def)

lemma witness_accepted_ok: "db_ok witness_accepted_database"
  unfolding witness_accepted_database_def witness_accepted_def
  by (rule replace_invitation_db_ok[OF witness_database_ok witness_mem])
    (use witness_pending witness_invitation_check in \<open>simp_all add: stamped_check\<close>)

lemma witness_accepted_addressed:
  "addressed_invitation witness_accepted_database 20 (usr_id (principal_user (witness_principal 1))) Sender =
     Some witness_accepted"
  unfolding witness_accepted_database_def witness_accepted_def
proof (rule addressed_replaced[OF witness_database_ok])
  show "addressed_invitation witness_database 20 (usr_id (principal_user (witness_principal 1))) Sender =
     Some witness_invitation"
    by (simp add: addressed_invitation_def witness_database_def witness_invitation_def
        witness_principal_def witness_member_def)
qed simp_all

lemma witness_hide:
  "hide_accepted_invitation_from_sender (witness_principal 1) 20 (Aware 6) witness_accepted_database =
     (Inr \<lparr>mutation_invitation_id = 20, mutation_status = ACCEPTED\<rparr>,
      replace_invitation (flushed witness_accepted_database (witness_accepted\<lparr>inv_sender_hidden_at := Some 6\<rparr>))
        witness_accepted_database)"
proof -
  have acc: "inv_status witness_accepted = ACCEPTED" "inv_responded_at witness_accepted = Some 5"
      "inv_sender_hidden_at witness_accepted = None" "inv_id witness_accepted = 20"
    by (simp_all add: witness_accepted_def stamped_def witness_invitation_def)
  have mem: "witness_accepted \<in> set (db_invitations witness_accepted_database)"
    using addressed_SomeD[OF witness_accepted_addressed] by simp
  have chk: "invitation_check (witness_accepted\<lparr>inv_sender_hidden_at := Some 6\<rparr>)"
    by (rule hide_check[OF inv.row_ok[OF db_ok_tables(5)[OF witness_accepted_ok] mem] acc(1,2)]) simp
  from flush_invitation_run[OF witness_accepted_ok mem _ _ _ chk] acc show ?thesis
    by (simp del: One_nat_def
        add: hide_accepted_invitation_from_sender_def load_owned_run witness_accepted_addressed
        invitation_hide_from_sender_def require_aware_def mutation_result_def inv_pair_def
        replace_invitation_def)
qed

theorem hide_is_permanent_and_idempotent_witness:
  "hide_accepted_invitation_from_sender (witness_principal 1) 20 (Aware 9)
      (replace_invitation (flushed witness_accepted_database (witness_accepted\<lparr>inv_sender_hidden_at := Some 6\<rparr>))
        witness_accepted_database) =
     (Inr \<lparr>mutation_invitation_id = 20, mutation_status = ACCEPTED\<rparr>,
      replace_invitation (flushed witness_accepted_database (witness_accepted\<lparr>inv_sender_hidden_at := Some 6\<rparr>))
        witness_accepted_database)"
  using hide_is_permanent_and_idempotent[OF witness_accepted_ok witness_hide, of 9] by blast

section \<open>Draining the expiry queue\<close>

text \<open>\<open>k\<close> consecutive batches of a worker, each in its own transaction.\<close>

fun expiry_batches :: "(uuid \<Rightarrow> bool) \<Rightarrow> int \<Rightarrow> instant \<Rightarrow> nat \<Rightarrow> database \<Rightarrow> database" where
  "expiry_batches locked n now 0 db = db"
| "expiry_batches locked n now (Suc k) db =
     expiry_batches locked n now k (snd (process_invitation_expiry_batch locked n (Aware now) db))"

lemma process_batch_run:
  assumes "db_ok db" "1 \<le> n" "n \<le> MAX_INVITATION_EXPIRY_BATCH_SIZE"
    and "rows = take (nat n) (due_invitations locked now (db_invitations db))"
  shows "process_invitation_expiry_batch locked n (Aware now) db =
       (Inr \<lparr>report_selected = length rows, report_expired = length rows\<rparr>,
        expire_all now (inv_id ` set rows) db)"
  using expire_batch_run(1)[OF assms]
  by (simp add: process_invitation_expiry_batch_def atomic_tx_def)

lemma due_after:
  "due_invitations locked now (db_invitations (expire_all now ids db)) =
     filter (\<lambda>r. inv_id r \<notin> ids) (due_invitations locked now (db_invitations db))"
proof -
  have "filter (\<lambda>r. expired_pending_predicate now r \<and> \<not> locked (inv_id r))
      (db_invitations (expire_all now ids db)) =
    filter (\<lambda>r. inv_id r \<notin> ids) (filter (\<lambda>r. expired_pending_predicate now r \<and> \<not> locked (inv_id r))
      (db_invitations db))" (is "filter ?p _ = _")
  proof -
    have "filter ?p (map (\<lambda>r. if inv_id r \<in> ids then flushed db (stamped EXPIRED now r) else r) rows) =
        filter (\<lambda>r. inv_id r \<notin> ids) (filter ?p rows)" for rows
      by (induction rows) (auto simp: expired_pending_predicate_def)
    then show ?thesis by (simp add: expire_all_def)
  qed
  then show ?thesis
    by (simp add: due_invitations_def select_by_def filter_sort)
qed

lemma filter_taken:
  "distinct (map f xs) \<Longrightarrow> filter (\<lambda>x. f x \<notin> f ` set (take n xs)) xs = drop n xs"
proof (induction n arbitrary: xs)
  case (Suc n)
  show ?case
  proof (cases xs)
    case (Cons x ys)
    with Suc.prems have d: "distinct (map f ys)" "f x \<notin> f ` set ys" by auto
    have "filter (\<lambda>y. f y \<notin> f ` set (take (Suc n) xs)) xs = filter (\<lambda>y. f y \<notin> f ` set (take n ys)) ys"
      using d(2) by (auto simp: Cons intro!: filter_cong) (metis image_eqI)
    with Suc.IH[OF d(1)] Cons show ?thesis by simp
  qed simp
qed simp

lemma drain_step:
  assumes "db_ok db" "1 \<le> n" "n \<le> MAX_INVITATION_EXPIRY_BATCH_SIZE"
  shows "db_ok (snd (process_invitation_expiry_batch locked n (Aware now) db))"
    and "due_invitations locked now
        (db_invitations (snd (process_invitation_expiry_batch locked n (Aware now) db))) =
      drop (nat n) (due_invitations locked now (db_invitations db))"
proof -
  let ?rows = "take (nat n) (due_invitations locked now (db_invitations db))"
  note run = process_batch_run[OF assms refl, of locked now]
  show "db_ok (snd (process_invitation_expiry_batch locked n (Aware now) db))"
    using expire_batch_run(2)[OF assms refl] by (simp add: run)
  have "distinct (map inv_id (due_invitations locked now (db_invitations db)))"
    unfolding due_invitations_def
    by (intro distinct_map_select_by inv.distinct_keys db_ok_tables(5) assms(1))
  from filter_taken[OF this] show "due_invitations locked now
        (db_invitations (snd (process_invitation_expiry_batch locked n (Aware now) db))) =
      drop (nat n) (due_invitations locked now (db_invitations db))"
    by (simp add: run due_after)
qed

lemma drain:
  assumes "db_ok db" "1 \<le> n" "n \<le> MAX_INVITATION_EXPIRY_BATCH_SIZE"
    and "length (due_invitations locked now (db_invitations db)) \<le> k * nat n"
  shows "db_ok (expiry_batches locked n now k db)
    \<and> due_invitations locked now (db_invitations (expiry_batches locked n now k db)) = []"
  using assms
proof (induction k arbitrary: db)
  case (Suc k)
  note step = drain_step[OF Suc.prems(1-3), of locked now]
  show ?case
    using Suc.IH[OF step(1) Suc.prems(2,3)] Suc.prems(4) by (simp add: step(2))
qed simp


text \<open>The worker drains the queue: when nothing is locked, k batches of n rows expire every due
  invitation as soon as k * n reaches their number; afterwards no stored PENDING invitation has an expiry at
  or before now, so the stored and the effective status agree on every row.\<close>

theorem expiry_batches_drain:
  assumes "db_ok db" "1 \<le> n" "n \<le> MAX_INVITATION_EXPIRY_BATCH_SIZE"
    and "length (due_invitations (\<lambda>_. False) now (db_invitations db)) \<le> k * nat n"
  shows "\<forall>r \<in> set (db_invitations (expiry_batches (\<lambda>_. False) n now k db)).
     effective_invitation_status r now = inv_status r"
proof -
  have "set (due_invitations (\<lambda>_. False) now (db_invitations (expiry_batches (\<lambda>_. False) n now k db))) = {}"
    using drain[OF assms] by simp
  then show ?thesis
    by (auto simp: due_invitations_def effective_invitation_status_def expired_pending_predicate_def)
qed

lemma witness_due: "due_invitations (\<lambda>_. False) (8 * day_us) (db_invitations witness_database) = [witness_invitation]"
  by (simp add: due_invitations_def select_by_def witness_database_def witness_invitation_def
      expired_pending_predicate_def INVITATION_EXPIRY_INTERVAL_def day_us_def)


theorem expiry_batches_drain_witness:
  "list_all (\<lambda>r. effective_invitation_status r (8 * day_us) = inv_status r)
     (db_invitations (expiry_batches (\<lambda>_. False) 20 (8 * day_us) 1 witness_database))"
proof -
  have n: "(1::int) \<le> 20" "(20::int) \<le> MAX_INVITATION_EXPIRY_BATCH_SIZE"
    by (simp_all add: MAX_INVITATION_EXPIRY_BATCH_SIZE_def)
  have one: "length (due_invitations (\<lambda>_. False) (8 * day_us) (db_invitations witness_database)) \<le> 1 * nat 20"
    by (simp add: witness_due)
  show ?thesis
    using expiry_batches_drain[OF witness_database_ok n one] by (simp add: list_all_iff)
qed

end
