(* ===== verification/Preference_Identity.thy ===== *)
theory Preference_Identity
  imports Data_Model
begin

text \<open>
  Identity of custom preferences (\<open>services/preference_identity.py\<close>). NFKC normalisation, the case
  folding of one code point and the general categories come from the Unicode database shipped with
  the Python runtime, which is not part of the repository: they are the record \<open>unicode_db\<close> that the
  definitions take as an argument.
\<close>

record unicode_db =
  uni_nfkc :: "pystr \<Rightarrow> pystr"
  uni_fold :: "nat \<Rightarrow> pystr"
  uni_unsafe_category :: "nat \<Rightarrow> bool"

text \<open>\<open>str.casefold()\<close> replaces each code point by its full case folding.\<close>

definition py_casefold :: "unicode_db \<Rightarrow> pystr \<Rightarrow> pystr" where
  "py_casefold uni s = concat (map (uni_fold uni) s)"

record preference_identity =
  ident_display_label :: pystr
  ident_normalized_key :: pystr

definition collapse_whitespace :: "pystr \<Rightarrow> pystr" where
  "collapse_whitespace value = py_join [32] (py_split value)"

definition contains_unsafe_control :: "unicode_db \<Rightarrow> pystr \<Rightarrow> bool" where
  "contains_unsafe_control uni value = list_ex (\<lambda>c. uni_unsafe_category uni c \<and> c \<noteq> 9) value"

definition require_safe_text :: "unicode_db \<Rightarrow> pystr \<Rightarrow> exn + unit" where
  "require_safe_text uni value =
     (if contains_unsafe_control uni value then Inl PreferenceIdentityError else Inr ())"

definition normalize_preference_identity :: "unicode_db \<Rightarrow> pystr \<Rightarrow> exn + preference_identity" where
  "normalize_preference_identity uni value =
     (if MAX_CUSTOM_PREFERENCE_INPUT_LENGTH < length value then Inl PreferenceIdentityError
      else ebind (require_safe_text uni value) (\<lambda>_.
      let display_label = collapse_whitespace value in
      if display_label = [] then Inl PreferenceIdentityError
      else if MAX_CUSTOM_PREFERENCE_DISPLAY_LABEL_LENGTH < length display_label
      then Inl PreferenceIdentityError
      else let compatibility_form = uni_nfkc uni value;
               normalized_key = py_casefold uni (collapse_whitespace compatibility_form) in
      ebind (require_safe_text uni display_label) (\<lambda>_.
      ebind (require_safe_text uni normalized_key) (\<lambda>_.
      if normalized_key = [] then Inl PreferenceIdentityError
      else if MAX_CUSTOM_PREFERENCE_NORMALIZED_KEY_LENGTH < length normalized_key
      then Inl PreferenceIdentityError
      else Inr \<lparr>ident_display_label = display_label, ident_normalized_key = normalized_key\<rparr>))))"

definition normalize_preference_key :: "unicode_db \<Rightarrow> pystr \<Rightarrow> exn + pystr" where
  "normalize_preference_key uni value =
     ebind (normalize_preference_identity uni value) (\<lambda>i. Inr (ident_normalized_key i))"

section \<open>Splitting and joining words\<close>

definition words_ok :: "pystr list \<Rightarrow> bool" where
  "words_ok ws \<longleftrightarrow> (\<forall>w \<in> set ws. w \<noteq> [] \<and> (\<forall>c \<in> set w. \<not> py_isspace c))"

lemma space_is_space [simp]: "py_isspace 32"
  by (simp add: py_isspace_def)

lemma split_acc_words_ok:
  "(\<forall>c \<in> set acc. \<not> py_isspace c) \<Longrightarrow> words_ok (py_split_acc acc s)"
proof (induction acc s rule: py_split_acc.induct)
  case (2 acc c cs)
  then show ?case by (cases "py_isspace c") (simp_all add: words_ok_def)
qed (simp add: words_ok_def)

lemma split_words_ok: "words_ok (py_split s)"
  by (simp add: split_acc_words_ok)

lemma split_acc_word:
  "(\<forall>c \<in> set w. \<not> py_isspace c) \<Longrightarrow> py_split_acc acc (w @ s) = py_split_acc (rev w @ acc) s"
  by (induction w arbitrary: acc) auto

lemma split_join: "words_ok ws \<Longrightarrow> py_split (py_join [32] ws) = ws"
proof (induction "[32::nat]" ws rule: py_join.induct)
  case (2 w)
  then show ?case using split_acc_word[of w "[]" "[]"] by (simp add: words_ok_def)
next
  case (3 w v ws)
  then have "py_split (py_join [32] (v # ws)) = v # ws" by (simp add: words_ok_def)
  with 3 show ?case
    using split_acc_word[of w "[]" "32 # py_join [32] (v # ws)"] by (simp add: words_ok_def)
qed simp

lemma collapse_idem: "collapse_whitespace (collapse_whitespace s) = collapse_whitespace s"
  by (simp add: collapse_whitespace_def split_join split_words_ok)

lemma join_ends: "words_ok ws \<Longrightarrow> ws \<noteq> [] \<Longrightarrow>
    py_join [32] ws \<noteq> [] \<and> \<not> py_isspace (hd (py_join [32] ws)) \<and> \<not> py_isspace (last (py_join [32] ws))"
  by (induction "[32::nat]" ws rule: py_join.induct) (auto simp: words_ok_def)

lemma collapse_ends:
  "collapse_whitespace s = [] \<or>
     (\<not> py_isspace (hd (collapse_whitespace s)) \<and> \<not> py_isspace (last (collapse_whitespace s)))"
  using join_ends[OF split_words_ok, of s] by (cases "py_split s = []") (auto simp: collapse_whitespace_def)

lemma strip_collapse [simp]: "py_strip (collapse_whitespace s) = collapse_whitespace s"
  using collapse_ends[of s] by (simp add: strip_by_idem_iff)

lemma btrim_collapse [simp]: "pg_btrim (collapse_whitespace s) = collapse_whitespace s"
  using collapse_ends[of s] by (auto simp: strip_by_idem_iff)

section \<open>What an accepted identity satisfies\<close>

lemma normalize_identity_Inr_iff:
  "normalize_preference_identity uni value = Inr i \<longleftrightarrow>
     length value \<le> MAX_CUSTOM_PREFERENCE_INPUT_LENGTH
     \<and> \<not> contains_unsafe_control uni value
     \<and> collapse_whitespace value \<noteq> []
     \<and> length (collapse_whitespace value) \<le> MAX_CUSTOM_PREFERENCE_DISPLAY_LABEL_LENGTH
     \<and> \<not> contains_unsafe_control uni (collapse_whitespace value)
     \<and> \<not> contains_unsafe_control uni (py_casefold uni (collapse_whitespace (uni_nfkc uni value)))
     \<and> py_casefold uni (collapse_whitespace (uni_nfkc uni value)) \<noteq> []
     \<and> length (py_casefold uni (collapse_whitespace (uni_nfkc uni value)))
         \<le> MAX_CUSTOM_PREFERENCE_NORMALIZED_KEY_LENGTH
     \<and> i = \<lparr>ident_display_label = collapse_whitespace value,
           ident_normalized_key = py_casefold uni (collapse_whitespace (uni_nfkc uni value))\<rparr>"
  by (auto simp: normalize_preference_identity_def require_safe_text_def Let_def tx)

text \<open>
  The documented behaviour of case folding the stored key relies on: a folding is never empty and
  contains a space only for a space.
\<close>

definition fold_keeps_spaces :: "unicode_db \<Rightarrow> bool" where
  "fold_keeps_spaces uni \<longleftrightarrow> (\<forall>c. uni_fold uni c \<noteq> [] \<and> (c \<noteq> 32 \<longrightarrow> 32 \<notin> set (uni_fold uni c)))"

lemma casefold_ends:
  assumes "fold_keeps_spaces uni" "s \<noteq> []" "hd s \<noteq> 32" "last s \<noteq> 32"
  shows "py_casefold uni s \<noteq> [] \<and> hd (py_casefold uni s) \<noteq> 32 \<and> last (py_casefold uni s) \<noteq> 32"
proof -
  let ?f = "uni_fold uni"
  from assms(2) obtain a b where s: "s = a # b" by (cases s) auto
  from assms(2) obtain b' a' where s': "s = b' @ [a']" by (cases s rule: rev_cases) auto
  have f: "?f c \<noteq> []" "c \<noteq> 32 \<Longrightarrow> hd (?f c) \<noteq> 32 \<and> last (?f c) \<noteq> 32" for c
    using assms(1) by (auto simp: fold_keeps_spaces_def) (metis hd_in_set last_in_set)+
  have "hd (py_casefold uni s) = hd (?f a)" "py_casefold uni s \<noteq> []"
    using f(1) by (simp_all add: py_casefold_def s)
  moreover have "last (py_casefold uni s) = last (?f a')"
    using f(1) by (simp add: py_casefold_def s')
  moreover have "hd s = a" "last s = a'" by (simp add: s, simp add: s')
  ultimately show ?thesis using f(2)[of a] f(2)[of a'] assms(3,4) by auto
qed

lemma identity_key_trimmed:
  assumes "fold_keeps_spaces uni" "normalize_preference_identity uni value = Inr i"
  shows "pg_btrim (ident_normalized_key i) = ident_normalized_key i"
proof -
  let ?c = "collapse_whitespace (uni_nfkc uni value)"
  from assms(2) have ne: "py_casefold uni ?c \<noteq> []" and key: "ident_normalized_key i = py_casefold uni ?c"
    by (auto simp: normalize_identity_Inr_iff)
  from ne have "?c \<noteq> []" by (auto simp: py_casefold_def)
  with collapse_ends[of "uni_nfkc uni value"] have "hd ?c \<noteq> 32" "last ?c \<noteq> 32" by auto
  from casefold_ends[OF assms(1) \<open>?c \<noteq> []\<close> this] show ?thesis
    by (simp add: key strip_by_idem_iff)
qed

section \<open>Properties\<close>

text \<open>
  An ASCII instance of the Unicode tables, to evaluate closed instances: NFKC is the identity on
  ASCII, folding lowers A to Z, and the unsafe categories are the ASCII controls.
\<close>

definition ascii_fold :: "nat \<Rightarrow> pystr" where
  "ascii_fold c = [if 65 \<le> c \<and> c \<le> 90 then c + 32 else c]"

definition ascii_unicode_db :: unicode_db where
  "ascii_unicode_db = \<lparr>uni_nfkc = (\<lambda>s. s), uni_fold = ascii_fold,
     uni_unsafe_category = (\<lambda>c. c < 32 \<or> c = 127)\<rparr>"

lemma ascii_fold_keeps_spaces: "fold_keeps_spaces ascii_unicode_db"
  by (auto simp: fold_keeps_spaces_def ascii_unicode_db_def ascii_fold_def)

text \<open>Whatever label a user types, if it is accepted as a custom preference then the display label
  and the comparison key that would be stored satisfy every check constraint of the table
  \<open>profile_custom_preferences\<close>: an accepted label can never be rejected by the database. The only
  assumption is that case folding never produces an empty string or a space from another character.\<close>

theorem accepted_preference_is_storable:
  assumes "fold_keeps_spaces uni"
    and "normalize_preference_identity uni value = Inr i"
    and "cust_display_label r = ident_display_label i"
    and "cust_normalized_key r = ident_normalized_key i"
    and "cust_kind r = LANGUAGE \<longleftrightarrow> cust_proficiency r \<noteq> None"
  shows "custom_preference_check r"
proof -
  have "cust_kind r = LANGUAGE \<and> cust_proficiency r \<noteq> None
      \<or> cust_kind r \<in> {INTEREST, ACTIVITY} \<and> cust_proficiency r = None"
    using assms(5) by (cases "cust_kind r") auto
  with identity_key_trimmed[OF assms(1,2)] assms(2-4) show ?thesis
    by (auto simp: custom_preference_check_def normalize_identity_Inr_iff Suc_le_eq)
qed

definition witness_preference :: custom_preference where
  "witness_preference = \<lparr>cust_id = 1, cust_profile_id = 2, cust_kind = INTEREST,
     cust_display_label = u ''Board Games'', cust_normalized_key = u ''board games'',
     cust_proficiency = None, cust_deleted_at = None\<rparr>"

lemma witness_identity:
  "normalize_preference_identity ascii_unicode_db (u ''  Board   Games '') =
     Inr \<lparr>ident_display_label = u ''Board Games'', ident_normalized_key = u ''board games''\<rparr>"
  by (simp add: normalize_preference_identity_def u_def require_safe_text_def contains_unsafe_control_def
      collapse_whitespace_def py_casefold_def ascii_unicode_db_def ascii_fold_def py_isspace_def Let_def
      MAX_CUSTOM_PREFERENCE_INPUT_LENGTH_def MAX_CUSTOM_PREFERENCE_NORMALIZED_KEY_LENGTH_def
      MAX_CUSTOM_PREFERENCE_DISPLAY_LABEL_LENGTH_def)

theorem accepted_preference_is_storable_witness: "custom_preference_check witness_preference"
  by (rule accepted_preference_is_storable[OF ascii_fold_keeps_spaces witness_identity])
    (simp_all add: witness_preference_def)

text \<open>The display label of an accepted preference is canonical: submitting the stored label again
  is accepted whenever its key is, yields the same display label, and the label carries no leading,
  trailing or repeated whitespace. (NFKC is applied to the label here, to the raw input there, so
  the key is claimed equal only where NFKC commutes with whitespace cleanup.)\<close>

theorem display_label_canonical:
  assumes "normalize_preference_identity uni value = Inr i"
    and "uni_nfkc uni (collapse_whitespace value) = collapse_whitespace (uni_nfkc uni value)"
  shows "normalize_preference_identity uni (ident_display_label i) = Inr i
     \<and> py_join [32] (py_split (ident_display_label i)) = ident_display_label i"
proof -
  have "length (collapse_whitespace value) \<le> MAX_CUSTOM_PREFERENCE_INPUT_LENGTH"
    using assms(1) by (simp add: normalize_identity_Inr_iff MAX_CUSTOM_PREFERENCE_INPUT_LENGTH_def
        MAX_CUSTOM_PREFERENCE_NORMALIZED_KEY_LENGTH_def MAX_CUSTOM_PREFERENCE_DISPLAY_LABEL_LENGTH_def)
  with assms show ?thesis
    by (auto simp: normalize_identity_Inr_iff collapse_idem) (simp add: collapse_whitespace_def split_join split_words_ok)
qed

theorem display_label_canonical_witness:
  "normalize_preference_identity ascii_unicode_db (u ''Board Games'') =
     Inr \<lparr>ident_display_label = u ''Board Games'', ident_normalized_key = u ''board games''\<rparr>
   \<and> py_join [32] (py_split (u ''Board Games'')) = u ''Board Games''"
  using display_label_canonical[OF witness_identity] by (simp add: ascii_unicode_db_def)

end
