(* ===== verification/Profile_Completion.thy ===== *)
theory Profile_Completion
  imports Invitation_Lifecycle Preference_Identity
begin

text \<open>
  Who may take part in matching: the capability guard of \<open>services/buddy_access.py\<close>, ownership of the
  profile row (\<open>services/profiles.py\<close>) and the completion and eligibility derivation of
  \<open>services/profile_completion.py\<close>.
\<close>

section \<open>Verified principals\<close>

definition get_verified_buddy_principal :: "user \<Rightarrow> (exn, database, verified_buddy_principal) txn" where
  "get_verified_buddy_principal current_user db =
     (if usr_role current_user \<noteq> USER \<or> \<not> usr_is_active current_user
         \<or> usr_deleted_at current_user \<noteq> None
      then (Inl (BuddyCapabilityError None), db)
      else if usr_email_verified_at current_user = None
      then (Inl (BuddyCapabilityError (Some EMAIL_VERIFICATION_REQUIRED)), db)
      else case find (\<lambda>p. prof_user_id p = usr_id current_user \<and> prof_deleted_at p = None)
                  (db_profiles db) of
             None \<Rightarrow> (Inl (BuddyCapabilityError None), db)
           | Some profile \<Rightarrow>
               if prof_user_id profile \<noteq> usr_id current_user \<or> prof_deleted_at profile \<noteq> None
               then (Inl (BuddyCapabilityError None), db)
               else (Inr \<lparr>principal_user = current_user, principal_profile = profile\<rparr>, db))"

section \<open>The owner's profile row\<close>

definition require_profile_owner :: "user \<Rightarrow> exn + unit" where
  "require_profile_owner owner =
     (if \<not> usr_is_active owner \<or> usr_deleted_at owner \<noteq> None \<or> usr_role owner \<noteq> USER
      then Inl ProfileAccessError else Inr ())"

definition select_own_profile :: "database \<Rightarrow> uuid \<Rightarrow> student_profile option" where
  "select_own_profile db owner_id = find (\<lambda>p. prof_user_id p = owner_id) (db_profiles db)"

text \<open>\<open>StudentProfile(user_id=owner.id)\<close> with the column defaults.\<close>

definition new_profile :: "uuid \<Rightarrow> uuid \<Rightarrow> instant \<Rightarrow> student_profile" where
  "new_profile i owner_id now = \<lparr>prof_id = i, prof_user_id = owner_id, prof_full_name = None,
     prof_display_name = None, prof_student_type = None, prof_nationality = None, prof_major = None,
     prof_study_year = None, prof_bio = None, prof_home_university = None, prof_arrival_date = None,
     prof_departure_date = None, prof_availability = None, prof_preferences = None,
     prof_matching_opt_in = False, prof_version = 1, prof_onboarding_completed_at = None,
     prof_created_at = now, prof_updated_at = now, prof_deleted_at = None\<rparr>"

definition insert_profile :: "student_profile \<Rightarrow> (exn, database, unit) txn" where
  "insert_profile r db =
     (case insert_checked profile_check profile_clash (prof_user_id r \<in> usr_id ` set (db_users db)) r
             (db_profiles db) of
        Inl e \<Rightarrow> (Inl e, db)
      | Inr rows \<Rightarrow> (Inr (), db\<lparr>db_profiles := rows\<rparr>))"

text \<open>\<open>fresh\<close> is the primary key \<open>uuid4\<close> draws for the row.\<close>

definition get_or_create_own_profile :: "uuid \<Rightarrow> user \<Rightarrow> (exn, database, student_profile) txn" where
  "get_or_create_own_profile fresh owner =
     bind_tx (lift_tx (require_profile_owner owner)) (\<lambda>_ db.
     case select_own_profile db (usr_id owner) of
       Some existing \<Rightarrow> (Inr existing, db)
     | None \<Rightarrow>
         let candidate = new_profile fresh (usr_id owner) (db_now db)
         in case atomic_tx (insert_profile candidate) db of
              (Inr _, db') \<Rightarrow> (Inr candidate, db')
            | (Inl e, db') \<Rightarrow>
                if e \<noteq> IntegrityError Unique_violation then (Inl e, db')
                else case select_own_profile db' (usr_id owner) of
                       None \<Rightarrow> (Inl e, db')
                     | Some winner \<Rightarrow> (Inr winner, db'))"

section \<open>Counting what a profile has\<close>

definition count_ready_avatars :: "database \<Rightarrow> uuid \<Rightarrow> nat" where
  "count_ready_avatars db profile_id =
     length (filter (\<lambda>p. photo_profile_id p = profile_id \<and> photo_is_avatar p
       \<and> photo_processing_status p = READY \<and> photo_deleted_at p = None) (db_photos db))"

definition selected_interests :: "database \<Rightarrow> uuid \<Rightarrow> interest list" where
  "selected_interests db profile_id =
     [i. s \<leftarrow> db_profile_interests db, pint_profile_id s = profile_id,
         i \<leftarrow> db_interests db, intr_id i = pint_interest_id s \<and> intr_is_active i \<and> intr_deleted_at i = None]"

definition selected_languages :: "database \<Rightarrow> uuid \<Rightarrow> language list" where
  "selected_languages db profile_id =
     [l. s \<leftarrow> db_profile_languages db, plang_profile_id s = profile_id,
         l \<leftarrow> db_languages db, lang_code l = plang_language_code s \<and> lang_is_active l]"

definition custom_keys :: "database \<Rightarrow> uuid \<Rightarrow> preference_kind \<Rightarrow> pystr list" where
  "custom_keys db profile_id kind =
     map cust_normalized_key (filter (\<lambda>c. cust_profile_id c = profile_id \<and> cust_kind c = kind
       \<and> cust_deleted_at c = None) (db_custom_preferences db))"

definition count_distinct_preferences ::
    "unicode_db \<Rightarrow> (pystr \<times> pystr) list \<Rightarrow> pystr list \<Rightarrow> exn + nat" where
  "count_distinct_preferences uni labels custom =
     ebind (emap (normalize_preference_key uni) (concat (map (\<lambda>(en, de). [en, de]) labels))) (\<lambda>catalog_keys.
     Inr (length labels + card (set custom - set catalog_keys)))"

definition count_valid_interests :: "unicode_db \<Rightarrow> database \<Rightarrow> uuid \<Rightarrow> exn + nat" where
  "count_valid_interests uni db profile_id =
     count_distinct_preferences uni
       (map (\<lambda>i. (intr_label_en i, intr_label_de i)) (selected_interests db profile_id))
       (custom_keys db profile_id INTEREST)"

definition count_valid_languages :: "unicode_db \<Rightarrow> database \<Rightarrow> uuid \<Rightarrow> exn + nat" where
  "count_valid_languages uni db profile_id =
     count_distinct_preferences uni
       (map (\<lambda>l. (lang_label_en l, lang_label_de l)) (selected_languages db profile_id))
       (custom_keys db profile_id LANGUAGE)"

section \<open>Deriving completion\<close>

datatype profile_completion_status = INCOMPLETE | COMPLETE

datatype profile_missing_field =
  Missing_FULL_NAME | Missing_STUDENT_TYPE | Missing_AVATAR | Missing_INTERESTS | Missing_LANGUAGES

record profile_completion_response =
  completion_status :: profile_completion_status
  completion_percentage :: int
  completion_missing_fields :: "profile_missing_field list"
  completion_matching_eligible :: bool
  completion_reasons :: "matching_ineligibility_reason list"

definition profile_missing_fields ::
    "student_profile \<Rightarrow> nat \<Rightarrow> nat \<Rightarrow> nat \<Rightarrow> profile_missing_field list" where
  "profile_missing_fields profile ready_avatar_count valid_interest_count valid_language_count =
     (let full_name = (case prof_full_name profile of Some n \<Rightarrow> py_strip n | None \<Rightarrow> []) in
        (if \<not> (1 \<le> length full_name \<and> length full_name \<le> 120) then [Missing_FULL_NAME] else [])
      @ (if prof_student_type profile = None then [Missing_STUDENT_TYPE] else [])
      @ (if ready_avatar_count \<noteq> 1 then [Missing_AVATAR] else [])
      @ (if \<not> (1 \<le> valid_interest_count \<and> valid_interest_count \<le> 20) then [Missing_INTERESTS] else [])
      @ (if \<not> (1 \<le> valid_language_count \<and> valid_language_count \<le> 10) then [Missing_LANGUAGES] else []))"

definition derive_profile_completion ::
    "user \<Rightarrow> student_profile \<Rightarrow> nat \<Rightarrow> nat \<Rightarrow> nat \<Rightarrow> profile_completion_response" where
  "derive_profile_completion owner profile ready_avatar_count valid_interest_count valid_language_count =
     (let missing_fields = profile_missing_fields profile ready_avatar_count valid_interest_count
                             valid_language_count;
          status = (if missing_fields = [] then COMPLETE else INCOMPLETE);
          reasons =
            (if missing_fields \<noteq> [] then [PROFILE_INCOMPLETE] else [])
            @ (if \<not> usr_is_active owner then [ACCOUNT_INACTIVE] else [])
            @ (if usr_deleted_at owner \<noteq> None then [ACCOUNT_DELETED] else [])
            @ (if usr_role owner = USER \<and> usr_email_verified_at owner = None
               then [EMAIL_VERIFICATION_REQUIRED] else [])
            @ (if \<not> prof_matching_opt_in profile then [MATCHING_OPT_IN_REQUIRED] else []);
          account_is_eligible = (usr_role owner = USER \<and> usr_is_active owner
            \<and> usr_deleted_at owner = None \<and> usr_email_verified_at owner \<noteq> None)
      in \<lparr>completion_status = status,
          completion_percentage = (5 - int (length missing_fields)) * 20,
          completion_missing_fields = missing_fields,
          completion_matching_eligible =
            (status = COMPLETE \<and> account_is_eligible \<and> prof_matching_opt_in profile),
          completion_reasons = reasons\<rparr>)"

definition get_profile_completion ::
    "unicode_db \<Rightarrow> database \<Rightarrow> user \<Rightarrow> student_profile \<Rightarrow> exn + profile_completion_response" where
  "get_profile_completion uni db owner profile =
     (if prof_user_id profile \<noteq> usr_id owner \<or> prof_deleted_at profile \<noteq> None
      then Inl ProfileAccessError
      else ebind (count_valid_interests uni db (prof_id profile)) (\<lambda>interests.
           ebind (count_valid_languages uni db (prof_id profile)) (\<lambda>languages.
           Inr (derive_profile_completion owner profile (count_ready_avatars db (prof_id profile))
                  interests languages))))"

text \<open>The flush of a profile whose \<open>onboarding_completed_at\<close> was set (no \<open>version_id_col\<close> on profiles).\<close>

definition flush_profile :: "student_profile \<Rightarrow> (exn, database, student_profile) txn" where
  "flush_profile r db =
     (let r' = r\<lparr>prof_updated_at := db_now db\<rparr>
      in case update_checked prof_id profile_check profile_clash r' (db_profiles db) of
           Inl e \<Rightarrow> (Inl e, db)
         | Inr rows \<Rightarrow> (Inr r', db\<lparr>db_profiles := rows\<rparr>))"

definition get_own_profile_completion ::
    "unicode_db \<Rightarrow> uuid \<Rightarrow> instant \<Rightarrow> user \<Rightarrow> (exn, database, profile_completion_response) txn" where
  "get_own_profile_completion uni fresh now owner =
     bind_tx (get_or_create_own_profile fresh owner) (\<lambda>profile.
     if prof_deleted_at profile \<noteq> None \<or> prof_user_id profile \<noteq> usr_id owner
     then raise_tx ProfileAccessError
     else bind_tx (\<lambda>db. (get_profile_completion uni db owner profile, db)) (\<lambda>completion.
     if completion_status completion = COMPLETE \<and> prof_onboarding_completed_at profile = None
     then bind_tx (flush_profile (profile\<lparr>prof_onboarding_completed_at := Some now\<rparr>)) (\<lambda>_.
          return_tx completion)
     else return_tx completion))"

section \<open>Lemmas\<close>

lemma missing_fields_Nil_iff:
  "profile_missing_fields p a i l = [] \<longleftrightarrow>
     (\<exists>n. prof_full_name p = Some n \<and> 1 \<le> length (py_strip n) \<and> length (py_strip n) \<le> 120)
     \<and> prof_student_type p \<noteq> None \<and> a = 1 \<and> 1 \<le> i \<and> i \<le> 20 \<and> 1 \<le> l \<and> l \<le> 10"
  by (auto simp: profile_missing_fields_def Let_def split: option.splits)

lemma missing_fields_le: "length (profile_missing_fields p a i l) \<le> 5"
  by (simp add: profile_missing_fields_def Let_def)

lemma derive_eligible_iff:
  "completion_matching_eligible (derive_profile_completion owner p a i l) \<longleftrightarrow>
     profile_missing_fields p a i l = [] \<and> usr_role owner = USER \<and> usr_is_active owner
     \<and> usr_deleted_at owner = None \<and> usr_email_verified_at owner \<noteq> None \<and> prof_matching_opt_in p"
  by (auto simp: derive_profile_completion_def Let_def)

lemma get_completion_Inr_iff:
  "get_profile_completion uni db owner p = Inr c \<longleftrightarrow>
     prof_user_id p = usr_id owner \<and> prof_deleted_at p = None
     \<and> (\<exists>i l. count_valid_interests uni db (prof_id p) = Inr i
         \<and> count_valid_languages uni db (prof_id p) = Inr l
         \<and> c = derive_profile_completion owner p (count_ready_avatars db (prof_id p)) i l)"
  by (auto simp: get_profile_completion_def tx)

section \<open>Properties\<close>

text \<open>The completion response is consistent for every account and profile: a USER is matching-eligible
  exactly when no reason is reported (so the frontend never sees an eligible user with a reason, nor
  an ineligible one without), the status is COMPLETE exactly when no field is missing, and the
  percentage is 20 per present field, between 0 and 100.\<close>

theorem completion_consistent:
  assumes "usr_role owner = USER"
    and "c = derive_profile_completion owner profile a i l"
  shows "(completion_matching_eligible c \<longleftrightarrow> completion_reasons c = [])
     \<and> (completion_status c = COMPLETE \<longleftrightarrow> completion_missing_fields c = [])
     \<and> completion_percentage c = 100 - 20 * int (length (completion_missing_fields c))
     \<and> 0 \<le> completion_percentage c \<and> completion_percentage c \<le> 100
     \<and> distinct (completion_missing_fields c) \<and> distinct (completion_reasons c)"
proof -
  have "length (profile_missing_fields profile a i l) \<le> 5" by (rule missing_fields_le)
  moreover have "distinct (profile_missing_fields profile a i l)"
    by (simp add: profile_missing_fields_def Let_def)
  ultimately show ?thesis
    using assms by (auto simp: derive_profile_completion_def Let_def)
qed

definition witness_user :: user where
  "witness_user = \<lparr>usr_id = 1, usr_email = u ''a@vgu.edu.vn'', usr_password_hash = u ''x'', usr_role = USER,
     usr_is_active = True, usr_email_verified = True, usr_email_verified_at = Some 5,
     usr_last_login = None, usr_semester_id = Some 9, usr_created_at = 0, usr_updated_at = 0,
     usr_deleted_at = None\<rparr>"

theorem completion_consistent_witness:
  "\<not> completion_matching_eligible (derive_profile_completion witness_user (new_profile 7 1 0) 1 2 0)
   \<and> completion_percentage (derive_profile_completion witness_user (new_profile 7 1 0) 1 2 0) = 40"
proof -
  have role: "usr_role witness_user = USER" by (simp add: witness_user_def)
  from completion_consistent[OF role refl, of "new_profile 7 1 0" 1 2 0] show ?thesis
    by (simp add: derive_profile_completion_def profile_missing_fields_def new_profile_def Let_def)
qed

end
