(* ===== verification/Availability.thy ===== *)
theory Availability
  imports Data_Model
begin

text \<open>
  The canonical weekly availability of \<open>schemas/profile.py\<close>: validation of slots, splitting of
  overnight slots and rejection of overlaps. Time zones come from the IANA database of the runtime
  (\<open>zoneinfo\<close>), which is the record \<open>tz_db\<close>: which names exist and how a local wall-clock reading
  (microseconds since 1970-01-01 00:00 local) maps to an instant.
\<close>

record tz_db =
  zone_known :: "pystr \<Rightarrow> bool"
  zone_to_utc :: "pystr \<Rightarrow> int \<Rightarrow> instant"

definition slot_valid :: "availability_slot \<Rightarrow> bool" where
  "slot_valid s \<longleftrightarrow> 1 \<le> slot_weekday s \<and> slot_weekday s \<le> 7
     \<and> 0 \<le> slot_start_minute s \<and> slot_start_minute s \<le> 1439
     \<and> 0 \<le> slot_end_minute s \<and> slot_end_minute s \<le> 1440
     \<and> slot_start_minute s \<noteq> slot_end_minute s"

definition split_slot :: "availability_slot \<Rightarrow> availability_slot list" where
  "split_slot s =
     (if slot_start_minute s < slot_end_minute s then [s]
      else \<lparr>slot_weekday = slot_weekday s, slot_start_minute = slot_start_minute s, slot_end_minute = 1440\<rparr>
           # (if 0 < slot_end_minute s
              then [\<lparr>slot_weekday = (if slot_weekday s = 7 then 1 else slot_weekday s + 1),
                     slot_start_minute = 0, slot_end_minute = slot_end_minute s\<rparr>]
              else []))"

definition slot_key :: "availability_slot \<Rightarrow> int \<times> int \<times> int" where
  "slot_key s = (slot_weekday s, slot_start_minute s, slot_end_minute s)"

text \<open>The overlap scan over the sorted slots, comparing each slot with its predecessor.\<close>

fun slots_disjoint :: "availability_slot option \<Rightarrow> availability_slot list \<Rightarrow> bool" where
  "slots_disjoint previous [] = True"
| "slots_disjoint previous (s # ss) =
     ((case previous of None \<Rightarrow> True
       | Some p \<Rightarrow> \<not> (slot_weekday p = slot_weekday s \<and> slot_start_minute s < slot_end_minute p))
      \<and> slots_disjoint (Some s) ss)"

definition normalized_slots :: "availability_slot list \<Rightarrow> exn + availability_slot list" where
  "normalized_slots slots =
     (let normalized = sort_key slot_key (concat (map split_slot slots))
      in if slots_disjoint None normalized then Inr normalized else Inl ValueError)"

definition validate_timezone :: "tz_db \<Rightarrow> pystr \<Rightarrow> exn + pystr" where
  "validate_timezone tz name =
     (let candidate = py_strip name
      in if candidate = [] \<or> 64 < length candidate \<or> \<not> zone_known tz candidate
         then Inl ValueError else Inr candidate)"

text \<open>\<open>WeeklyAvailability.model_validate\<close> on a stored JSON object.\<close>

definition validate_availability :: "tz_db \<Rightarrow> weekly_availability \<Rightarrow> exn + weekly_availability" where
  "validate_availability tz a =
     ebind (validate_timezone tz (avail_timezone a)) (\<lambda>zone.
     if 100 < length (avail_slots a) \<or> \<not> list_all slot_valid (avail_slots a) then Inl ValueError
     else ebind (normalized_slots (avail_slots a)) (\<lambda>slots.
     Inr \<lparr>avail_timezone = zone, avail_slots = slots\<rparr>))"

section \<open>Coverage\<close>

text \<open>
  The minutes of the week a slot covers, numbered from Monday 00:00: an overnight slot runs past
  midnight into the next weekday, Sunday into Monday.
\<close>

definition week_minute :: "int \<Rightarrow> int \<Rightarrow> int" where
  "week_minute d m = ((d - 1) * 1440 + m) mod 10080"

definition slot_covers :: "availability_slot \<Rightarrow> int \<Rightarrow> bool" where
  "slot_covers s w \<longleftrightarrow>
     (\<exists>m. slot_start_minute s \<le> m
        \<and> m < (if slot_start_minute s < slot_end_minute s then slot_end_minute s
               else 1440 + slot_end_minute s)
        \<and> w = week_minute (slot_weekday s) m)"

lemma split_slot_forward:
  "slot_valid s \<Longrightarrow> x \<in> set (split_slot s) \<Longrightarrow> slot_start_minute x < slot_end_minute x \<and> slot_valid x"
  by (auto simp: split_slot_def slot_valid_def split: if_splits)

lemma week_minute_next_day:
  assumes "1 \<le> d" "d \<le> 7"
  shows "week_minute (if d = 7 then 1 else d + 1) m = week_minute d (1440 + m)"
proof (cases "d = 7")
  case True
  have "(8640 + (1440 + m)) mod 10080 = (m + 10080) mod 10080"
    by (simp add: algebra_simps)
  then show ?thesis by (simp add: True week_minute_def)
qed (simp add: week_minute_def algebra_simps)

lemma split_slot_covers:
  assumes "slot_valid s"
  shows "(\<exists>x \<in> set (split_slot s). slot_covers x w) \<longleftrightarrow> slot_covers s w"
proof (cases "slot_start_minute s < slot_end_minute s")
  case True
  then show ?thesis by (simp add: split_slot_def)
next
  case False
  let ?d = "slot_weekday s"
  let ?late = "\<exists>m. slot_start_minute s \<le> m \<and> m < 1440 \<and> w = week_minute ?d m"
  let ?early = "\<exists>m. 0 \<le> m \<and> m < slot_end_minute s \<and> w = week_minute (if ?d = 7 then 1 else ?d + 1) m"
  have bounds: "1 \<le> ?d" "?d \<le> 7" "slot_start_minute s < 1440" "0 \<le> slot_end_minute s"
    using assms by (auto simp: slot_valid_def)
  have split: "(\<exists>x \<in> set (split_slot s). slot_covers x w) \<longleftrightarrow> ?late \<or> ?early"
    using False bounds by (auto simp: split_slot_def slot_covers_def)
  have early: "?early \<longleftrightarrow> (\<exists>m. 1440 \<le> m \<and> m < 1440 + slot_end_minute s \<and> w = week_minute ?d m)"
  proof
    assume ?early
    then obtain m where "0 \<le> m" "m < slot_end_minute s" "w = week_minute ?d (1440 + m)"
      using week_minute_next_day[OF bounds(1,2)] by metis
    then show "\<exists>m. 1440 \<le> m \<and> m < 1440 + slot_end_minute s \<and> w = week_minute ?d m"
      by (intro exI[of _ "1440 + m"]) simp
  next
    assume "\<exists>m. 1440 \<le> m \<and> m < 1440 + slot_end_minute s \<and> w = week_minute ?d m"
    then obtain m where m: "1440 \<le> m" "m < 1440 + slot_end_minute s" "w = week_minute ?d m" by auto
    have "week_minute (if ?d = 7 then 1 else ?d + 1) (m - 1440) = week_minute ?d m"
      using week_minute_next_day[OF bounds(1,2), of "m - 1440"] by simp
    with m show ?early by (intro exI[of _ "m - 1440"]) simp
  qed
  have "slot_covers s w \<longleftrightarrow> ?late \<or> (\<exists>m. 1440 \<le> m \<and> m < 1440 + slot_end_minute s \<and> w = week_minute ?d m)"
  proof -
    have "slot_covers s w \<longleftrightarrow>
        (\<exists>m. slot_start_minute s \<le> m \<and> m < 1440 + slot_end_minute s \<and> w = week_minute ?d m)"
      using False by (simp add: slot_covers_def)
    moreover have "slot_start_minute s \<le> m \<and> m < 1440 + slot_end_minute s \<longleftrightarrow>
        slot_start_minute s \<le> m \<and> m < 1440 \<or> 1440 \<le> m \<and> m < 1440 + slot_end_minute s" for m
      using bounds by linarith
    ultimately show ?thesis by blast
  qed
  with split early show ?thesis by simp
qed

lemma slots_disjoint_sorted:
  assumes "sorted (map slot_key ss)" "slots_disjoint None ss" "\<forall>s \<in> set ss. slot_start_minute s < slot_end_minute s"
  shows "sorted_wrt (\<lambda>a b. slot_weekday a < slot_weekday b
            \<or> (slot_weekday a = slot_weekday b \<and> slot_end_minute a \<le> slot_start_minute b)) ss"
  using assms
proof (induction ss)
  case (Cons a ss)
  have rest: "slots_disjoint None ss"
    using Cons.prems(2) by (cases ss) auto
  have IH: "sorted_wrt (\<lambda>a b. slot_weekday a < slot_weekday b
            \<or> (slot_weekday a = slot_weekday b \<and> slot_end_minute a \<le> slot_start_minute b)) ss"
    using Cons rest by simp
  have "slot_weekday a < slot_weekday x
      \<or> (slot_weekday a = slot_weekday x \<and> slot_end_minute a \<le> slot_start_minute x)" if "x \<in> set ss" for x
  proof -
    from that obtain b bs where ss: "ss = b # bs" by (cases ss) auto
    have ab: "slot_key a \<le> slot_key b" "\<not> (slot_weekday a = slot_weekday b \<and> slot_start_minute b < slot_end_minute a)"
      using Cons.prems(1,2) by (auto simp: ss)
    have b: "slot_start_minute b < slot_end_minute b" using Cons.prems(3) by (simp add: ss)
    from IH that ss have "x = b \<or> slot_weekday b < slot_weekday x
        \<or> (slot_weekday b = slot_weekday x \<and> slot_end_minute b \<le> slot_start_minute x)" by auto
    with ab b show ?thesis by (auto simp: slot_key_def less_eq_prod_def)
  qed
  with IH show ?case by simp
qed simp

text \<open>Normalisation of weekly slots keeps the availability the user entered: the canonical slots cover
  exactly the minutes of the week the submitted slots cover (overnight slots wrapping to the next
  weekday, Sunday to Monday), every canonical slot is a valid forward slot within one day, and the
  slots are in order and pairwise disjoint.\<close>

theorem normalized_slots_correct:
  assumes "list_all slot_valid slots" and "normalized_slots slots = Inr result"
  shows "(\<forall>w. (\<exists>s \<in> set result. slot_covers s w) \<longleftrightarrow> (\<exists>s \<in> set slots. slot_covers s w))
     \<and> (\<forall>s \<in> set result. slot_valid s \<and> slot_start_minute s < slot_end_minute s)
     \<and> sorted_wrt (\<lambda>a b. slot_weekday a < slot_weekday b
          \<or> (slot_weekday a = slot_weekday b \<and> slot_end_minute a \<le> slot_start_minute b)) result"
proof -
  from assms(2) have res: "result = sort_key slot_key (concat (map split_slot slots))"
    and disj: "slots_disjoint None result"
    by (auto simp: normalized_slots_def Let_def split: if_splits)
  from assms(1) have fwd: "\<forall>s \<in> set result. slot_valid s \<and> slot_start_minute s < slot_end_minute s"
    by (auto simp: res list_all_iff dest: split_slot_forward)
  have "(\<exists>s \<in> set result. slot_covers s w) \<longleftrightarrow> (\<exists>s \<in> set slots. slot_covers s w)" for w
    using assms(1) split_slot_covers by (auto simp: res list_all_iff)
  moreover have "sorted (map slot_key result)" by (simp add: res)
  ultimately show ?thesis using fwd slots_disjoint_sorted[OF _ disj] by blast
qed

definition witness_night :: availability_slot where
  "witness_night = \<lparr>slot_weekday = 7, slot_start_minute = 1380, slot_end_minute = 60\<rparr>"

theorem normalized_slots_correct_witness:
  "(\<exists>s \<in> set [\<lparr>slot_weekday = 1, slot_start_minute = 0, slot_end_minute = 60\<rparr>,
      \<lparr>slot_weekday = 7, slot_start_minute = 1380, slot_end_minute = 1440\<rparr>]. slot_covers s 30)
   \<longleftrightarrow> (\<exists>s \<in> set [witness_night]. slot_covers s 30)"
proof -
  have valid: "list_all slot_valid [witness_night]"
    by (simp add: witness_night_def slot_valid_def)
  have run: "normalized_slots [witness_night] =
      Inr [\<lparr>slot_weekday = 1, slot_start_minute = 0, slot_end_minute = 60\<rparr>,
           \<lparr>slot_weekday = 7, slot_start_minute = 1380, slot_end_minute = 1440\<rparr>]"
    by (simp add: witness_night_def normalized_slots_def split_slot_def slot_key_def Let_def)
  show ?thesis using normalized_slots_correct[OF valid run] by blast
qed

end
