(* ===== verification/Matching_Eligibility.thy ===== *)
theory Matching_Eligibility
  imports Profile_Completion Availability "HOL-Library.Product_Lexorder"
begin

text \<open>
  The eligibility policy of \<open>services/matching_eligibility.py\<close>: the Python guard on one principal, the
  SQL conditions that select candidates, and the privacy-safe projection of profiles
  (\<open>schemas/matching.py\<close>). A SQL join is a list comprehension over the joined tables.
\<close>

section \<open>Principals and the pair rule\<close>

record eligible_matching_principal =
  elig_user_id :: uuid
  elig_profile_id :: uuid
  elig_student_type :: student_type
  elig_semester_id :: "uuid option"

definition get_eligible_matching_principal ::
    "unicode_db \<Rightarrow> database \<Rightarrow> verified_buddy_principal \<Rightarrow> exn + eligible_matching_principal" where
  "get_eligible_matching_principal uni db p =
     (if usr_semester_id (principal_user p) = None then Inl (BuddyCapabilityError None)
      else ebind (get_profile_completion uni db (principal_user p) (principal_profile p)) (\<lambda>completion.
      if \<not> completion_matching_eligible completion
      then Inl (BuddyCapabilityError
             (case completion_reasons completion of [] \<Rightarrow> None | r # _ \<Rightarrow> Some r))
      else case prof_student_type (principal_profile p) of
             None \<Rightarrow> Inl (BuddyCapabilityError None)
           | Some t \<Rightarrow> Inr \<lparr>elig_user_id = usr_id (principal_user p),
               elig_profile_id = prof_id (principal_profile p), elig_student_type = t,
               elig_semester_id = usr_semester_id (principal_user p)\<rparr>))"

definition matching_pair_is_eligible ::
    "eligible_matching_principal \<Rightarrow> eligible_matching_principal \<Rightarrow> bool" where
  "matching_pair_is_eligible current candidate \<longleftrightarrow>
     elig_user_id current \<noteq> elig_user_id candidate
     \<and> elig_profile_id current \<noteq> elig_profile_id candidate
     \<and> elig_student_type current \<noteq> elig_student_type candidate"

section \<open>The candidate query\<close>

definition custom_count :: "database \<Rightarrow> uuid \<Rightarrow> preference_kind \<Rightarrow> nat" where
  "custom_count db profile_id kind =
     length (filter (\<lambda>c. cust_profile_id c = profile_id \<and> cust_kind c = kind
       \<and> cust_deleted_at c = None) (db_custom_preferences db))"

definition interest_count :: "database \<Rightarrow> uuid \<Rightarrow> nat" where
  "interest_count db profile_id =
     length [i. s \<leftarrow> db_profile_interests db, pint_profile_id s = profile_id,
                i \<leftarrow> db_interests db,
                intr_id i = pint_interest_id s \<and> intr_is_active i \<and> intr_deleted_at i = None]
     + custom_count db profile_id INTEREST"

definition language_count :: "database \<Rightarrow> uuid \<Rightarrow> nat" where
  "language_count db profile_id =
     length [l. s \<leftarrow> db_profile_languages db, plang_profile_id s = profile_id,
                l \<leftarrow> db_languages db, lang_code l = plang_language_code s \<and> lang_is_active l]
     + custom_count db profile_id LANGUAGE"

definition active_match_exists :: "database \<Rightarrow> uuid \<Rightarrow> uuid \<Rightarrow> bool" where
  "active_match_exists db current_user_id other_user_id =
     list_ex (\<lambda>m. mat_status m = ACTIVE
       \<and> (mat_participant_one_user_id m = current_user_id
            \<and> mat_participant_two_user_id m = other_user_id
          \<or> mat_participant_two_user_id m = current_user_id
            \<and> mat_participant_one_user_id m = other_user_id)) (db_matches db)"

definition eligible_candidate_conditions ::
    "database \<Rightarrow> eligible_matching_principal \<Rightarrow> user \<Rightarrow> student_profile \<Rightarrow> bool" where
  "eligible_candidate_conditions db current usr p \<longleftrightarrow>
     usr_role usr = USER
     \<and> usr_semester_id usr = elig_semester_id current
     \<and> usr_is_active usr
     \<and> usr_deleted_at usr = None
     \<and> usr_email_verified_at usr \<noteq> None
     \<and> prof_deleted_at p = None
     \<and> prof_user_id p \<noteq> elig_user_id current
     \<and> prof_id p \<noteq> elig_profile_id current
     \<and> prof_student_type p \<noteq> None
     \<and> prof_student_type p \<noteq> Some (elig_student_type current)
     \<and> prof_matching_opt_in p
     \<and> \<not> active_match_exists db (elig_user_id current) (prof_user_id p)
     \<and> (case prof_full_name p of None \<Rightarrow> False
        | Some n \<Rightarrow> 1 \<le> length (pg_btrim n) \<and> length (pg_btrim n) \<le> 120)
     \<and> count_ready_avatars db (prof_id p) = 1
     \<and> 1 \<le> interest_count db (prof_id p) \<and> interest_count db (prof_id p) \<le> 20
     \<and> 1 \<le> language_count db (prof_id p) \<and> language_count db (prof_id p) \<le> 10"

definition ready_avatar_of :: "student_profile \<Rightarrow> profile_photo \<Rightarrow> bool" where
  "ready_avatar_of p ph \<longleftrightarrow> photo_profile_id ph = prof_id p \<and> photo_is_avatar ph
     \<and> photo_processing_status ph = READY \<and> photo_deleted_at ph = None"

definition eligible_candidate_statement ::
    "database \<Rightarrow> eligible_matching_principal \<Rightarrow> int \<Rightarrow> exn + (student_profile \<times> profile_photo) list" where
  "eligible_candidate_statement db current limit =
     (if limit < 1 then Inl ValueError
      else Inr (take (nat limit) (sort_key (\<lambda>row. prof_id (fst row))
        [(p, ph). p \<leftarrow> db_profiles db,
                  usr \<leftarrow> db_users db, usr_id usr = prof_user_id p,
                  ph \<leftarrow> db_photos db, ready_avatar_of p ph,
                  eligible_candidate_conditions db current usr p])))"

section \<open>Safe projections\<close>

datatype catalog_locale = Locale_en | Locale_de

record safe_avatar =
  sav_id :: uuid
  sav_width :: int
  sav_height :: int

record safe_preference =
  spref_id :: "uuid option"
  spref_code :: "pystr option"
  spref_label :: pystr
  spref_is_custom :: bool

record safe_language =
  slang_code :: "pystr option"
  slang_label :: pystr
  slang_proficiency :: language_proficiency
  slang_is_custom :: bool

record safe_profile =
  sp_id :: uuid
  sp_display_name :: "pystr option"
  sp_full_name :: "pystr option"
  sp_student_type :: student_type
  sp_bio :: "pystr option"
  sp_major :: "pystr option"
  sp_study_year :: "int option"
  sp_nationality :: "pystr option"
  sp_home_university :: "pystr option"
  sp_avatar :: safe_avatar
  sp_interests :: "safe_preference list"
  sp_languages :: "safe_language list"
  sp_activities :: "safe_preference list"
  sp_availability :: "weekly_availability option"

definition require_value :: "bool \<Rightarrow> 'a \<Rightarrow> exn + 'a" where
  "require_value ok x = (if ok then Inr x else Inl ValueError)"

definition safe_avatar_model :: "safe_avatar \<Rightarrow> exn + safe_avatar" where
  "safe_avatar_model a = require_value (1 \<le> sav_width a \<and> 1 \<le> sav_height a) a"

definition safe_preference_model :: "safe_preference \<Rightarrow> exn + safe_preference" where
  "safe_preference_model v =
     require_value (1 \<le> length (spref_label v) \<and> length (spref_label v) \<le> 120
       \<and> (spref_id v \<noteq> None \<and> spref_code v \<noteq> None \<and> \<not> spref_is_custom v
          \<or> spref_id v = None \<and> spref_code v = None \<and> spref_is_custom v)) v"

definition safe_language_model :: "safe_language \<Rightarrow> exn + safe_language" where
  "safe_language_model v =
     require_value (1 \<le> length (slang_label v) \<and> length (slang_label v) \<le> 120
       \<and> (slang_code v = None) = slang_is_custom v) v"

definition safe_profile_model :: "safe_profile \<Rightarrow> exn + safe_profile" where
  "safe_profile_model v =
     require_value
       (null_or (sp_display_name v) (\<lambda>s. length s \<le> 80)
        \<and> null_or (sp_full_name v) (\<lambda>s. length s \<le> 120)
        \<and> null_or (sp_bio v) (\<lambda>s. length s \<le> 500)
        \<and> null_or (sp_study_year v) (\<lambda>y. 1 \<le> y \<and> y \<le> 10)
        \<and> 1 \<le> length (sp_interests v) \<and> length (sp_interests v) \<le> 20
        \<and> 1 \<le> length (sp_languages v) \<and> length (sp_languages v) \<le> 10
        \<and> length (sp_activities v) \<le> 20) v"

fun localized :: "catalog_locale \<Rightarrow> pystr \<Rightarrow> pystr \<Rightarrow> pystr" where
  "localized Locale_de label_en label_de = label_de"
| "localized Locale_en label_en label_de = label_en"

text \<open>
  The preference rows of one profile in the order the grouped queries deliver them: catalog rows by
  their catalog order, then custom rows by key.
\<close>

definition custom_rows :: "database \<Rightarrow> uuid \<Rightarrow> preference_kind \<Rightarrow> custom_preference list" where
  "custom_rows db profile_id kind =
     sort_key (\<lambda>c. db_collation db (cust_normalized_key c))
       (filter (\<lambda>c. cust_profile_id c = profile_id \<and> cust_kind c = kind \<and> cust_deleted_at c = None)
         (db_custom_preferences db))"

definition project_interests :: "database \<Rightarrow> catalog_locale \<Rightarrow> uuid \<Rightarrow> exn + safe_preference list" where
  "project_interests db locale profile_id =
     emap safe_preference_model
       (map (\<lambda>i. \<lparr>spref_id = Some (intr_id i), spref_code = Some (intr_code i),
                 spref_label = localized locale (intr_label_en i) (intr_label_de i),
                 spref_is_custom = False\<rparr>)
          (sort_key (\<lambda>i. (db_collation db (intr_category i), db_collation db (intr_code i)))
             (selected_interests db profile_id))
        @ map (\<lambda>c. \<lparr>spref_id = None, spref_code = None, spref_label = cust_display_label c,
                   spref_is_custom = True\<rparr>) (custom_rows db profile_id INTEREST))"

definition selected_activities :: "database \<Rightarrow> uuid \<Rightarrow> activity list" where
  "selected_activities db profile_id =
     [a. s \<leftarrow> db_profile_activities db, pact_profile_id s = profile_id,
         a \<leftarrow> db_activities db, act_id a = pact_activity_id s \<and> act_is_active a \<and> act_deleted_at a = None]"

definition project_activities :: "database \<Rightarrow> catalog_locale \<Rightarrow> uuid \<Rightarrow> exn + safe_preference list" where
  "project_activities db locale profile_id =
     emap safe_preference_model
       (map (\<lambda>a. \<lparr>spref_id = Some (act_id a), spref_code = Some (act_code a),
                 spref_label = localized locale (act_label_en a) (act_label_de a),
                 spref_is_custom = False\<rparr>)
          (sort_key (\<lambda>a. db_collation db (act_code a)) (selected_activities db profile_id))
        @ map (\<lambda>c. \<lparr>spref_id = None, spref_code = None, spref_label = cust_display_label c,
                   spref_is_custom = True\<rparr>) (custom_rows db profile_id ACTIVITY))"

definition project_languages :: "database \<Rightarrow> catalog_locale \<Rightarrow> uuid \<Rightarrow> exn + safe_language list" where
  "project_languages db locale profile_id =
     emap safe_language_model
       (map (\<lambda>(l, proficiency). \<lparr>slang_code = Some (lang_code l),
                 slang_label = localized locale (lang_label_en l) (lang_label_de l),
                 slang_proficiency = proficiency, slang_is_custom = False\<rparr>)
          (sort_key (\<lambda>row. db_collation db (lang_code (fst row)))
             [(l, plang_proficiency s). s \<leftarrow> db_profile_languages db, plang_profile_id s = profile_id,
                l \<leftarrow> db_languages db, lang_code l = plang_language_code s \<and> lang_is_active l])
        @ concat (map (\<lambda>c. case cust_proficiency c of None \<Rightarrow> []
              | Some proficiency \<Rightarrow> [\<lparr>slang_code = None, slang_label = cust_display_label c,
                   slang_proficiency = proficiency, slang_is_custom = True\<rparr>])
            (custom_rows db profile_id LANGUAGE)))"

definition project_safe_profile ::
    "tz_db \<Rightarrow> database \<Rightarrow> catalog_locale \<Rightarrow> student_profile \<times> profile_photo \<Rightarrow> exn + safe_profile option" where
  "project_safe_profile tz db locale row =
     (let profile = fst row; avatar = snd row in
      ebind (project_interests db locale (prof_id profile)) (\<lambda>interests.
      ebind (project_languages db locale (prof_id profile)) (\<lambda>languages.
      ebind (project_activities db locale (prof_id profile)) (\<lambda>activities.
      case prof_student_type profile of
        None \<Rightarrow> Inr None
      | Some t \<Rightarrow>
          ebind (case prof_availability profile of None \<Rightarrow> Inr None
                 | Some a \<Rightarrow> ebind (validate_availability tz a) (\<lambda>v. Inr (Some v))) (\<lambda>availability.
          ebind (safe_avatar_model \<lparr>sav_id = photo_id avatar, sav_width = photo_width avatar,
                   sav_height = photo_height avatar\<rparr>) (\<lambda>safe_avatar.
          ebind (safe_profile_model \<lparr>sp_id = prof_id profile, sp_display_name = prof_display_name profile,
                   sp_full_name = prof_full_name profile, sp_student_type = t, sp_bio = prof_bio profile,
                   sp_major = prof_major profile, sp_study_year = prof_study_year profile,
                   sp_nationality = prof_nationality profile,
                   sp_home_university = prof_home_university profile, sp_avatar = safe_avatar,
                   sp_interests = interests, sp_languages = languages, sp_activities = activities,
                   sp_availability = availability\<rparr>) (\<lambda>p. Inr (Some p))))))))"

definition project_safe_profiles ::
    "tz_db \<Rightarrow> database \<Rightarrow> catalog_locale \<Rightarrow> (student_profile \<times> profile_photo) list
       \<Rightarrow> exn + safe_profile list" where
  "project_safe_profiles tz db locale rows =
     ebind (emap (project_safe_profile tz db locale) rows) (\<lambda>ps.
     Inr (concat (map (\<lambda>p. case p of None \<Rightarrow> [] | Some x \<Rightarrow> [x]) ps)))"

section \<open>Reads\<close>

definition list_eligible_matching_profiles ::
    "tz_db \<Rightarrow> database \<Rightarrow> eligible_matching_principal \<Rightarrow> catalog_locale \<Rightarrow> int
       \<Rightarrow> exn + safe_profile list" where
  "list_eligible_matching_profiles tz db current locale limit =
     ebind (eligible_candidate_statement db current limit) (\<lambda>rows.
     project_safe_profiles tz db locale rows)"

record eligible_matching_candidate =
  cand_principal :: eligible_matching_principal
  cand_profile :: safe_profile

definition current_profile_rows ::
    "database \<Rightarrow> eligible_matching_principal \<Rightarrow> (student_profile \<times> profile_photo) list" where
  "current_profile_rows db current =
     [(p, ph). p \<leftarrow> db_profiles db,
               prof_id p = elig_profile_id current \<and> prof_user_id p = elig_user_id current
               \<and> prof_student_type p = Some (elig_student_type current) \<and> prof_deleted_at p = None,
               ph \<leftarrow> db_photos db, ready_avatar_of p ph]"

definition candidate_of ::
    "eligible_matching_principal \<Rightarrow> student_profile \<times> profile_photo \<Rightarrow> safe_profile
       \<Rightarrow> eligible_matching_candidate" where
  "candidate_of current row sp =
     \<lparr>cand_principal = \<lparr>elig_user_id = prof_user_id (fst row), elig_profile_id = prof_id (fst row),
        elig_student_type = sp_student_type sp, elig_semester_id = elig_semester_id current\<rparr>,
      cand_profile = sp\<rparr>"

definition load_matching_scoring_profiles ::
    "tz_db \<Rightarrow> database \<Rightarrow> eligible_matching_principal \<Rightarrow> catalog_locale \<Rightarrow> int
       \<Rightarrow> exn + (safe_profile option \<times> eligible_matching_candidate list)" where
  "load_matching_scoring_profiles tz db current locale candidate_limit =
     (if candidate_limit < 1 then Inl ValueError
      else if length (current_profile_rows db current) \<noteq> 1 then Inr (None, [])
      else ebind (eligible_candidate_statement db current candidate_limit) (\<lambda>candidate_rows.
      ebind (project_safe_profiles tz db locale (current_profile_rows db current @ candidate_rows)) (\<lambda>projected.
      case projected of
        [] \<Rightarrow> Inr (None, [])
      | first # rest \<Rightarrow>
          if sp_id first \<noteq> elig_profile_id current then Inr (None, [])
          else if length candidate_rows \<noteq> length rest then Inl ValueError
          else Inr (Some first, map (\<lambda>(row, sp). candidate_of current row sp) (zip candidate_rows rest)))))"

definition load_matching_pair_scoring_profiles ::
    "tz_db \<Rightarrow> database \<Rightarrow> eligible_matching_principal \<Rightarrow> eligible_matching_principal \<Rightarrow> catalog_locale
       \<Rightarrow> exn + (safe_profile \<times> safe_profile) option" where
  "load_matching_pair_scoring_profiles tz db a b locale =
     (if \<not> matching_pair_is_eligible a b then Inr None
      else let rows = sort_key (\<lambda>row. prof_id (fst row))
                 [(p, ph). p \<leftarrow> db_profiles db,
                    (prof_id p = elig_profile_id a \<or> prof_id p = elig_profile_id b)
                      \<and> prof_deleted_at p = None,
                    ph \<leftarrow> db_photos db, ready_avatar_of p ph] in
      if length rows \<noteq> 2 then Inr None
      else ebind (project_safe_profiles tz db locale rows) (\<lambda>projected.
      if length projected \<noteq> 2 then Inr None
      else let pick = (\<lambda>e. case (find (\<lambda>p. prof_id p = elig_profile_id e) (rev (map fst rows)),
                                find (\<lambda>p. sp_id p = elig_profile_id e) (rev projected)) of
                 (Some persisted, Some sp) \<Rightarrow>
                    if prof_user_id persisted \<noteq> elig_user_id e
                       \<or> prof_student_type persisted \<noteq> Some (elig_student_type e)
                       \<or> sp_student_type sp \<noteq> elig_student_type e then None else Some sp
               | _ \<Rightarrow> None) in
      case (pick a, pick b) of (Some x, Some y) \<Rightarrow> Inr (Some (x, y)) | _ \<Rightarrow> Inr None))"

definition get_eligible_candidate_avatar ::
    "database \<Rightarrow> eligible_matching_principal \<Rightarrow> uuid \<Rightarrow> profile_photo option" where
  "get_eligible_candidate_avatar db current wanted =
     (case [ph. ph \<leftarrow> db_photos db, photo_id ph = wanted, p \<leftarrow> db_profiles db, ready_avatar_of p ph,
               usr \<leftarrow> db_users db, usr_id usr = prof_user_id p,
               eligible_candidate_conditions db current usr p] of
        [] \<Rightarrow> None | ph # _ \<Rightarrow> Some ph)"

section \<open>What the candidate query selects\<close>

definition candidate_pairs :: "database \<Rightarrow> eligible_matching_principal \<Rightarrow> (student_profile \<times> profile_photo) list" where
  "candidate_pairs db current =
     [(p, ph). p \<leftarrow> db_profiles db,
               usr \<leftarrow> db_users db, usr_id usr = prof_user_id p,
               ph \<leftarrow> db_photos db, ready_avatar_of p ph,
               eligible_candidate_conditions db current usr p]"

lemma statement_run:
  "eligible_candidate_statement db current limit =
     (if limit < 1 then Inl ValueError
      else Inr (take (nat limit) (sort_key (\<lambda>row. prof_id (fst row)) (candidate_pairs db current))))"
  by (simp add: eligible_candidate_statement_def candidate_pairs_def)

lemma set_candidate_pairs:
  "set (candidate_pairs db current) =
     {(p, ph). p \<in> set (db_profiles db) \<and> ph \<in> set (db_photos db) \<and> ready_avatar_of p ph
        \<and> (\<exists>usr \<in> set (db_users db). usr_id usr = prof_user_id p
             \<and> eligible_candidate_conditions db current usr p)}"
  by (auto simp: candidate_pairs_def split: if_splits)

lemma count_ready_avatars_filter:
  "count_ready_avatars db (prof_id p) = length (filter (ready_avatar_of p) (db_photos db))"
  by (simp add: count_ready_avatars_def ready_avatar_of_def[abs_def])

text \<open>Joining one parent row with a child table in which at most one row matches.\<close>

lemma distinct_join:
  assumes "distinct (map k ps)" "\<And>p. p \<in> set ps \<Longrightarrow> length (f p) \<le> 1"
    and "\<And>p x. p \<in> set ps \<Longrightarrow> x \<in> set (f p) \<Longrightarrow> g x = k p"
  shows "distinct (map g (concat (map f ps)))"
  using assms
proof (induction ps)
  case (Cons p ps)
  have "distinct (map g (concat (map f ps)))"
    using Cons by auto
  moreover have "distinct (map g (f p))"
    using Cons.prems(2)[of p] by (cases "f p") auto
  moreover have "g ` set (f p) \<inter> g ` set (concat (map f ps)) = {}"
  proof -
    have "g x \<noteq> g y" if "x \<in> set (f p)" "q \<in> set ps" "y \<in> set (f q)" for x y q
      using that Cons.prems(1) Cons.prems(3)[of p x] Cons.prems(3)[of q y] by (auto simp: image_iff)
    then show ?thesis by auto
  qed
  ultimately show ?case by auto
qed simp

lemma length_concat_le1:
  assumes "\<And>x. x \<in> set xs \<Longrightarrow> length (f x) \<le> (if P x then 1 else 0)" "length (filter P xs) \<le> 1"
  shows "length (concat (map f xs)) \<le> 1"
  using assms
proof (induction xs)
  case (Cons x xs)
  show ?case
  proof (cases "P x")
    case True
    with Cons.prems(2) have "filter P xs = []" by simp
    then have "\<And>y. y \<in> set xs \<Longrightarrow> \<not> P y" by (simp add: filter_empty_conv)
    with Cons.prems(1) have "\<And>y. y \<in> set xs \<Longrightarrow> f y = []" by force
    then have none: "concat (map f xs) = []" by simp
    show ?thesis
      unfolding list.map concat.simps none using Cons.prems(1)[of x] True by simp
  next
    case False
    with Cons.prems have "f x = []" by force
    with Cons False show ?thesis by simp
  qed
qed simp

lemma users_with_id: "db_ok db \<Longrightarrow> length (filter (\<lambda>usr. usr_id usr = i) (db_users db)) \<le> 1"
proof -
  assume ok: "db_ok db"
  have "distinct (map usr_id (filter (\<lambda>usr. usr_id usr = i) (db_users db)))"
    by (rule distinct_map_filter) (rule usr.distinct_keys[OF db_ok_tables(1)[OF ok]])
  moreover have "set (map usr_id (filter (\<lambda>usr. usr_id usr = i) (db_users db))) \<subseteq> {i}" by auto
  ultimately show ?thesis
    by (metis card_mono card.empty card_insert_disjoint distinct_card empty_iff finite.emptyI
        finite.insertI length_map One_nat_def)
qed

lemma join_photos:
  "concat (map (\<lambda>ph. if r ph then if c then [(p, ph)] else [] else []) phs) =
     (if c then map (Pair p) (filter r phs) else [])"
  by (induction phs) auto

lemma candidate_pairs_join:
  "candidate_pairs db current =
     concat (map (\<lambda>p. concat (map (\<lambda>usr.
       if usr_id usr = prof_user_id p \<and> eligible_candidate_conditions db current usr p
       then map (Pair p) (filter (ready_avatar_of p) (db_photos db)) else []) (db_users db))) (db_profiles db))"
  unfolding candidate_pairs_def
  by (intro arg_cong[where f = concat] map_cong refl) (auto simp only: join_photos split: if_splits)

lemma distinct_candidates: 
  assumes "db_ok db"
  shows "distinct (map (\<lambda>row. prof_id (fst row)) (candidate_pairs db current))"
  unfolding candidate_pairs_join
proof (rule distinct_join[where k = prof_id])
  show "distinct (map prof_id (db_profiles db))"
    by (rule prof.distinct_keys[OF db_ok_tables(2)[OF assms]])
  fix p
  show "length (concat (map (\<lambda>usr.
       if usr_id usr = prof_user_id p \<and> eligible_candidate_conditions db current usr p
       then map (Pair p) (filter (ready_avatar_of p) (db_photos db)) else []) (db_users db))) \<le> 1"
  proof (rule length_concat_le1[OF _ users_with_id[OF assms, of "prof_user_id p"]])
    fix usr
    have "length (filter (ready_avatar_of p) (db_photos db)) = 1"
      if "eligible_candidate_conditions db current usr p"
      using that by (simp add: eligible_candidate_conditions_def count_ready_avatars_filter)
    then show "length (if usr_id usr = prof_user_id p \<and> eligible_candidate_conditions db current usr p
        then map (Pair p) (filter (ready_avatar_of p) (db_photos db)) else [])
      \<le> (if usr_id usr = prof_user_id p then 1 else 0)"
      by simp
  qed
qed (auto split: if_splits)

lemma statement_cases:
  assumes "eligible_candidate_statement db current limit = Inr rows"
  shows "1 \<le> limit" "rows = take (nat limit) (sort_key (\<lambda>row. prof_id (fst row)) (candidate_pairs db current))"
    and "set rows \<subseteq> set (candidate_pairs db current)"
  using assms set_take_subset[of "nat limit" "sort_key (\<lambda>row. prof_id (fst row)) (candidate_pairs db current)"]
  by (auto simp: statement_run split: if_splits)

definition principal_of :: "eligible_matching_principal \<Rightarrow> student_profile \<Rightarrow> student_type \<Rightarrow> eligible_matching_principal" where
  "principal_of current p t = \<lparr>elig_user_id = prof_user_id p, elig_profile_id = prof_id p,
     elig_student_type = t, elig_semester_id = elig_semester_id current\<rparr>"

definition sound_candidate ::
    "database \<Rightarrow> eligible_matching_principal \<Rightarrow> student_profile \<times> profile_photo \<Rightarrow> bool" where
  "sound_candidate db current = (\<lambda>(p, ph).
     p \<in> set (db_profiles db) \<and> ph \<in> set (db_photos db) \<and> ready_avatar_of p ph
     \<and> prof_deleted_at p = None \<and> prof_matching_opt_in p
     \<and> (\<exists>t. prof_student_type p = Some t \<and> matching_pair_is_eligible current (principal_of current p t))
     \<and> \<not> active_match_exists db (elig_user_id current) (prof_user_id p)
     \<and> (\<exists>usr \<in> set (db_users db). usr_id usr = prof_user_id p \<and> usr_role usr = USER
          \<and> usr_is_active usr \<and> usr_deleted_at usr = None \<and> usr_email_verified_at usr \<noteq> None
          \<and> usr_semester_id usr = elig_semester_id current))"

lemma pair_is_sound:
  assumes "row \<in> set (candidate_pairs db current)"
  shows "sound_candidate db current row"
proof -
  obtain p ph where row: "row = (p, ph)" by (cases row)
  from assms obtain usr where p: "p \<in> set (db_profiles db)" "ph \<in> set (db_photos db)"
      "ready_avatar_of p ph" and usr: "usr \<in> set (db_users db)" "usr_id usr = prof_user_id p"
      and cond: "eligible_candidate_conditions db current usr p"
    unfolding row set_candidate_pairs by blast
  note c = cond[unfolded eligible_candidate_conditions_def]
  from c obtain t where t: "prof_student_type p = Some t" "t \<noteq> elig_student_type current" by blast
  have "matching_pair_is_eligible current (principal_of current p t)"
    using c t by (simp add: matching_pair_is_eligible_def principal_of_def)
  with t(1) have pair: "\<exists>t. prof_student_type p = Some t \<and> matching_pair_is_eligible current (principal_of current p t)"
    by blast
  have owner: "\<exists>usr \<in> set (db_users db). usr_id usr = prof_user_id p \<and> usr_role usr = USER
          \<and> usr_is_active usr \<and> usr_deleted_at usr = None \<and> usr_email_verified_at usr \<noteq> None
          \<and> usr_semester_id usr = elig_semester_id current"
    by (rule bexI[OF _ usr(1)]) (use usr(2) c in simp)
  show ?thesis
    unfolding sound_candidate_def row prod.case using p pair owner c by (simp only: simp_thms)
qed

text \<open>C29: The candidate query is sound, deterministic and bounded: it returns at most limit profiles, in strictly
  increasing profile id (so no candidate twice, although the query joins users and photos), and each
  is a live profile with its ready avatar whose owner is an active, verified, undeleted USER of the
  requester's semester, forms an eligible pair with the requester, opted in, and has no ACTIVE match with
  the requester.\<close>

theorem candidate_query_sound:
  assumes "db_ok db" "eligible_candidate_statement db current limit = Inr rows"
  shows "int (length rows) \<le> limit
     \<and> sorted_wrt (<) (map (\<lambda>row. prof_id (fst row)) rows)
     \<and> list_all (sound_candidate db current) rows"
proof -
  note rows = statement_cases[OF assms(2)]
  let ?all = "sort_key (\<lambda>row. prof_id (fst row)) (candidate_pairs db current)"
  have all_distinct: "distinct (map (\<lambda>row. prof_id (fst row)) ?all)"
    using distinct_candidates[OF assms(1), of current]
      distinct_map_select_by[of "\<lambda>row. prof_id (fst row)" "candidate_pairs db current" "\<lambda>row. prof_id (fst row)" "\<lambda>_. True"]
    by (simp add: select_by_def)
  then have "sorted_wrt (<) (map (\<lambda>row. prof_id (fst row)) ?all)"
    by (simp add: strict_sorted_iff)
  then have "sorted_wrt (<) (map (\<lambda>row. prof_id (fst row)) rows)"
    by (simp add: rows(2) take_map[symmetric] sorted_wrt_take)
  moreover have "int (length rows) \<le> limit" using rows(1) by (simp add: rows(2))
  moreover have "list_all (sound_candidate db current) rows"
    using rows(3) pair_is_sound by (auto simp: list_all_iff)
  ultimately show ?thesis by blast
qed

section \<open>The SQL conditions and the Python guard\<close>

text \<open>
  The two policies count preferences differently: SQL adds the custom rows to the selected catalog
  entries, Python first drops the custom keys that equal the key of a selected entry's label. They agree
  when no custom key is shadowed in that way, which the preference editor enforces on every save.
\<close>

definition catalog_labels :: "database \<Rightarrow> uuid \<Rightarrow> preference_kind \<Rightarrow> (pystr \<times> pystr) list" where
  "catalog_labels db profile_id kind =
     (case kind of
        INTEREST \<Rightarrow> map (\<lambda>i. (intr_label_en i, intr_label_de i)) (selected_interests db profile_id)
      | LANGUAGE \<Rightarrow> map (\<lambda>l. (lang_label_en l, lang_label_de l)) (selected_languages db profile_id)
      | ACTIVITY \<Rightarrow> [])"

definition no_shadowed_custom :: "unicode_db \<Rightarrow> database \<Rightarrow> uuid \<Rightarrow> preference_kind \<Rightarrow> bool" where
  "no_shadowed_custom uni db profile_id kind \<longleftrightarrow>
     (\<forall>(en, de) \<in> set (catalog_labels db profile_id kind). \<forall>label \<in> {en, de}.
        \<forall>key \<in> set (custom_keys db profile_id kind). normalize_preference_key uni label \<noteq> Inr key)"

lemma distinct_custom_keys:
  assumes "db_ok db"
  shows "distinct (custom_keys db i kind)"
proof -
  let ?own = "\<lambda>c. cust_profile_id c = i \<and> cust_kind c = kind \<and> cust_deleted_at c = None"
  have "distinct (map cust_id (db_custom_preferences db))"
    by (rule cust.distinct_keys[OF db_ok_tables(4)[OF assms]])
  then have "distinct (db_custom_preferences db)" by (simp add: distinct_map)
  moreover have "inj_on cust_normalized_key (set (filter ?own (db_custom_preferences db)))"
    by (rule inj_onI)
      (auto intro!: cust.no_clash[OF db_ok_tables(4)[OF assms]] simp: custom_preference_clash_def)
  ultimately show ?thesis by (simp add: custom_keys_def distinct_map)
qed

lemma count_distinct_unshadowed:
  assumes "count_distinct_preferences uni labels keys = Inr n" "distinct keys"
    and "\<forall>(en, de) \<in> set labels. \<forall>label \<in> {en, de}. \<forall>key \<in> set keys. normalize_preference_key uni label \<noteq> Inr key"
  shows "n = length labels + length keys"
proof -
  from assms(1) obtain cks where
      cks: "emap (normalize_preference_key uni) (concat (map (\<lambda>(en, de). [en, de]) labels)) = Inr cks"
      and n: "n = length labels + card (set keys - set cks)"
    by (auto simp: count_distinct_preferences_def tx)
  have "k \<notin> set cks" if "k \<in> set keys" for k
  proof
    assume "k \<in> set cks"
    with cks obtain label where "label \<in> set (concat (map (\<lambda>(en, de). [en, de]) labels))"
        "normalize_preference_key uni label = Inr k"
      by (blast dest: emap_Inr_mem)
    with assms(3) that show False by fastforce
  qed
  then have "set keys - set cks = set keys" by blast
  with n assms(2) show ?thesis by (simp add: distinct_card)
qed

lemma interest_count_agrees:
  assumes "db_ok db" "count_valid_interests uni db i = Inr n" "no_shadowed_custom uni db i INTEREST"
  shows "interest_count db i = n"
proof -
  have "n = length (selected_interests db i) + length (custom_keys db i INTEREST)"
    using count_distinct_unshadowed[OF assms(2)[unfolded count_valid_interests_def] distinct_custom_keys[OF assms(1)]]
      assms(3) by (simp add: no_shadowed_custom_def catalog_labels_def)
  then show ?thesis
    by (simp add: interest_count_def selected_interests_def custom_count_def custom_keys_def)
qed

lemma language_count_agrees:
  assumes "db_ok db" "count_valid_languages uni db i = Inr n" "no_shadowed_custom uni db i LANGUAGE"
  shows "language_count db i = n"
proof -
  have "n = length (selected_languages db i) + length (custom_keys db i LANGUAGE)"
    using count_distinct_unshadowed[OF assms(2)[unfolded count_valid_languages_def] distinct_custom_keys[OF assms(1)]]
      assms(3) by (simp add: no_shadowed_custom_def catalog_labels_def)
  then show ?thesis
    by (simp add: language_count_def selected_languages_def custom_count_def custom_keys_def)
qed

lemma guard_Inr_iff:
  "get_eligible_matching_principal uni db \<lparr>principal_user = usr, principal_profile = p\<rparr> = Inr e \<longleftrightarrow>
     (\<exists>t i l. usr_semester_id usr \<noteq> None \<and> prof_user_id p = usr_id usr \<and> prof_deleted_at p = None
        \<and> count_valid_interests uni db (prof_id p) = Inr i \<and> count_valid_languages uni db (prof_id p) = Inr l
        \<and> completion_matching_eligible
            (derive_profile_completion usr p (count_ready_avatars db (prof_id p)) i l)
        \<and> prof_student_type p = Some t
        \<and> e = \<lparr>elig_user_id = usr_id usr, elig_profile_id = prof_id p, elig_student_type = t,
               elig_semester_id = usr_semester_id usr\<rparr>)"
proof -
  have "get_eligible_matching_principal uni db \<lparr>principal_user = usr, principal_profile = p\<rparr> = Inr e \<longleftrightarrow>
     usr_semester_id usr \<noteq> None \<and> (\<exists>c. get_profile_completion uni db usr p = Inr c
        \<and> completion_matching_eligible c
        \<and> (\<exists>t. prof_student_type p = Some t
             \<and> e = \<lparr>elig_user_id = usr_id usr, elig_profile_id = prof_id p, elig_student_type = t,
               elig_semester_id = usr_semester_id usr\<rparr>))"
    by (auto simp: get_eligible_matching_principal_def ebind_Inr_iff split: option.splits if_splits)
  then show ?thesis
    unfolding get_completion_Inr_iff by blast
qed

text \<open>C28: The two implementations of the eligibility policy agree: on a valid database, for a profile whose catalog
  labels normalise, with no shadowed custom preference and a full name trimmed the same way by btrim and strip,
  the SQL candidate conditions hold exactly when the Python guard accepts the owner, the pair rule holds, the
  semesters are equal and no ACTIVE match joins the two.\<close>

theorem sql_conditions_match_guard:
  assumes "db_ok db" "usr \<in> set (db_users db)" "usr_id usr = prof_user_id p"
    and "count_valid_interests uni db (prof_id p) = Inr i" "count_valid_languages uni db (prof_id p) = Inr l"
    and "no_shadowed_custom uni db (prof_id p) INTEREST" "no_shadowed_custom uni db (prof_id p) LANGUAGE"
    and "\<forall>n. prof_full_name p = Some n \<longrightarrow> pg_btrim n = py_strip n"
  shows "eligible_candidate_conditions db current usr p \<longleftrightarrow>
     (\<exists>e. get_eligible_matching_principal uni db \<lparr>principal_user = usr, principal_profile = p\<rparr> = Inr e
        \<and> matching_pair_is_eligible current e \<and> elig_semester_id e = elig_semester_id current
        \<and> \<not> active_match_exists db (elig_user_id current) (elig_user_id e))" (is "?sql \<longleftrightarrow> ?guard")
proof -
  have counts: "interest_count db (prof_id p) = i" "language_count db (prof_id p) = l"
    by (rule interest_count_agrees[OF assms(1,4,6)], rule language_count_agrees[OF assms(1,5,7)])
  have name: "(case prof_full_name p of None \<Rightarrow> False
        | Some n \<Rightarrow> 1 \<le> length (pg_btrim n) \<and> length (pg_btrim n) \<le> 120) \<longleftrightarrow>
      (\<exists>n. prof_full_name p = Some n \<and> 1 \<le> length (py_strip n) \<and> length (py_strip n) \<le> 120)"
    using assms(8) by (cases "prof_full_name p") auto
  have sem: "usr_role usr = USER \<Longrightarrow> usr_semester_id usr \<noteq> None"
    using usr.row_ok[OF db_ok_tables(1)[OF assms(1)] assms(2)] by (auto simp: user_check_def)
  let ?ok = "completion_matching_eligible (derive_profile_completion usr p (count_ready_avatars db (prof_id p)) i l)"
  have guard: "?guard \<longleftrightarrow> (\<exists>t. usr_semester_id usr \<noteq> None \<and> prof_deleted_at p = None \<and> ?ok
      \<and> prof_student_type p = Some t \<and> t \<noteq> elig_student_type current
      \<and> elig_user_id current \<noteq> prof_user_id p \<and> elig_profile_id current \<noteq> prof_id p
      \<and> usr_semester_id usr = elig_semester_id current
      \<and> \<not> active_match_exists db (elig_user_id current) (prof_user_id p))"
    unfolding guard_Inr_iff using assms(3-5) by (auto simp: matching_pair_is_eligible_def)
  have ok: "?ok \<longleftrightarrow> (\<exists>n. prof_full_name p = Some n \<and> 1 \<le> length (py_strip n) \<and> length (py_strip n) \<le> 120)
      \<and> prof_student_type p \<noteq> None \<and> count_ready_avatars db (prof_id p) = 1 \<and> 1 \<le> i \<and> i \<le> 20 \<and> 1 \<le> l \<and> l \<le> 10
      \<and> usr_role usr = USER \<and> usr_is_active usr \<and> usr_deleted_at usr = None
      \<and> usr_email_verified_at usr \<noteq> None \<and> prof_matching_opt_in p"
    by (simp only: derive_eligible_iff missing_fields_Nil_iff conj_assoc)
  show ?thesis
    unfolding guard ok eligible_candidate_conditions_def counts name using sem by (cases "prof_student_type p") auto
qed


section \<open>A small population\<close>

definition witness_profile :: "uuid \<Rightarrow> student_type \<Rightarrow> student_profile" where
  "witness_profile i t = (new_profile (10 + i) i 0)\<lparr>prof_full_name := Some (u ''An''),
     prof_student_type := Some t, prof_matching_opt_in := True\<rparr>"

definition witness_photo :: "uuid \<Rightarrow> profile_photo" where
  "witness_photo i = \<lparr>photo_id = 30 + i, photo_profile_id = 10 + i, photo_bucket = PROFILE_IMAGE_BUCKET,
     photo_object_key = [of_nat i], photo_mime_type = u ''image/png'', photo_byte_size = 1, photo_width = 1,
     photo_height = 1, photo_is_avatar = True, photo_processing_status = READY, photo_created_at = 0,
     photo_updated_at = 0, photo_deleted_at = None\<rparr>"

definition witness_custom :: "uuid \<Rightarrow> uuid \<Rightarrow> preference_kind \<Rightarrow> custom_preference" where
  "witness_custom i p kind = \<lparr>cust_id = i, cust_profile_id = p, cust_kind = kind, cust_display_label = [65],
     cust_normalized_key = [97], cust_proficiency = (if kind = LANGUAGE then Some FLUENT else None),
     cust_deleted_at = None\<rparr>"

definition witness_population :: database where
  "witness_population = witness_database\<lparr>
     db_profiles := [witness_profile 1 VIETNAMESE, witness_profile 2 INTERNATIONAL],
     db_photos := [witness_photo 1, witness_photo 2],
     db_custom_preferences := [witness_custom 41 11 INTEREST, witness_custom 42 11 LANGUAGE,
       witness_custom 43 12 INTEREST, witness_custom 44 12 LANGUAGE]\<rparr>"

lemma witness_population_ok: "db_ok witness_population"
proof -
  have "table_ok profile_check profile_clash (db_profiles witness_population)"
    by (simp add: witness_population_def table_ok_def witness_profile_def new_profile_def profile_check_def
        profile_clash_def u_def strip_by_def)
  moreover have "table_ok photo_check photo_clash (db_photos witness_population)"
    by (simp add: witness_population_def table_ok_def witness_photo_def photo_check_def photo_clash_def
        MAX_PROFILE_IMAGE_BYTES_def MAX_PROFILE_IMAGE_PIXELS_def)
  moreover have "table_ok custom_preference_check custom_preference_clash (db_custom_preferences witness_population)"
    by (simp add: witness_population_def table_ok_def witness_custom_def custom_preference_check_def
        custom_preference_clash_def strip_by_def MAX_CUSTOM_PREFERENCE_DISPLAY_LABEL_LENGTH_def
        MAX_CUSTOM_PREFERENCE_NORMALIZED_KEY_LENGTH_def)
  ultimately show ?thesis
    using witness_database_ok
    by (simp add: db_ok_def witness_population_def refs_defs witness_database_def)
qed

definition witness_requester :: eligible_matching_principal where
  "witness_requester = \<lparr>elig_user_id = 1, elig_profile_id = 11, elig_student_type = VIETNAMESE,
     elig_semester_id = Some 9\<rparr>"

lemmas witness_population_defs = witness_population_def witness_database_def witness_profile_def
  witness_photo_def witness_custom_def new_profile_def witness_member_def witness_requester_def

lemma witness_counts:
  "count_ready_avatars witness_population 12 = 1" "interest_count witness_population 12 = 1"
  "language_count witness_population 12 = 1" "selected_interests witness_population 12 = []"
  "selected_languages witness_population 12 = []" "\<not> active_match_exists witness_population i j"
  "custom_keys witness_population 12 INTEREST = [[97]]" "custom_keys witness_population 12 LANGUAGE = [[97]]"
  by (simp_all add: witness_population_defs count_ready_avatars_def interest_count_def custom_count_def
      language_count_def selected_interests_def selected_languages_def active_match_exists_def custom_keys_def)

lemma witness_statement:
  assumes "1 \<le> n"
  shows "eligible_candidate_statement witness_population witness_requester n =
     Inr [(witness_profile 2 INTERNATIONAL, witness_photo 2)]"
proof -
  have "\<not> eligible_candidate_conditions witness_population witness_requester usr (witness_profile 1 VIETNAMESE)" for usr
    by (simp add: eligible_candidate_conditions_def witness_profile_def new_profile_def witness_requester_def)
  moreover have "eligible_candidate_conditions witness_population witness_requester (witness_member 2)
      (witness_profile 2 INTERNATIONAL)"
    using witness_counts
    by (simp add: eligible_candidate_conditions_def witness_profile_def new_profile_def witness_requester_def
        witness_member_def u_def strip_by_def)
  ultimately have "candidate_pairs witness_population witness_requester =
      [(witness_profile 2 INTERNATIONAL, witness_photo 2)]"
    unfolding candidate_pairs_join
    by (simp add: witness_population_def witness_database_def)
      (simp add: witness_profile_def new_profile_def witness_member_def ready_avatar_of_def witness_photo_def)
  then show ?thesis using assms by (cases "nat n") (auto simp: statement_run)
qed

theorem candidate_query_sound_witness:
  "sound_candidate witness_population witness_requester (witness_profile 2 INTERNATIONAL, witness_photo 2)"
  using candidate_query_sound[OF witness_population_ok witness_statement[of 5]] by simp

theorem sql_conditions_match_guard_witness:
  "\<exists>e. get_eligible_matching_principal ascii_unicode_db witness_population
       \<lparr>principal_user = witness_member 2, principal_profile = witness_profile 2 INTERNATIONAL\<rparr> = Inr e
     \<and> matching_pair_is_eligible witness_requester e"
proof -
  have id: "prof_id (witness_profile 2 INTERNATIONAL) = 12" "usr_id (witness_member 2) = prof_user_id (witness_profile 2 INTERNATIONAL)"
    by (simp_all add: witness_profile_def new_profile_def witness_member_def)
  have counts: "count_valid_interests ascii_unicode_db witness_population 12 = Inr 1"
      "count_valid_languages ascii_unicode_db witness_population 12 = Inr 1"
    by (simp_all add: count_valid_interests_def count_valid_languages_def count_distinct_preferences_def witness_counts)
  have shadow: "no_shadowed_custom ascii_unicode_db witness_population 12 INTEREST"
      "no_shadowed_custom ascii_unicode_db witness_population 12 LANGUAGE"
    by (simp_all add: no_shadowed_custom_def catalog_labels_def witness_counts)
  have name: "\<forall>n. prof_full_name (witness_profile 2 INTERNATIONAL) = Some n \<longrightarrow> pg_btrim n = py_strip n"
    by (simp add: witness_profile_def u_def strip_by_def py_isspace_def)
  have mem: "witness_member 2 \<in> set (db_users witness_population)"
    by (simp add: witness_population_def witness_database_def)
  have "eligible_candidate_conditions witness_population witness_requester (witness_member 2)
      (witness_profile 2 INTERNATIONAL)"
    using witness_counts
    by (simp add: eligible_candidate_conditions_def witness_profile_def new_profile_def witness_requester_def
        witness_member_def u_def strip_by_def)
  with sql_conditions_match_guard[OF witness_population_ok mem id(2), unfolded id(1), OF counts shadow name,
      of witness_requester]
  show ?thesis by blast
qed

section \<open>Projections follow their rows\<close>

lemma safe_profile_model_Inr: "safe_profile_model v = Inr w \<Longrightarrow> w = v"
  by (auto simp: safe_profile_model_def require_value_def split: if_split_asm)

lemma project_safe_profile_Inr:
  assumes "project_safe_profile tz db locale row = Inr r"
  shows "(r = None \<longleftrightarrow> prof_student_type (fst row) = None)
     \<and> (\<forall>sp. r = Some sp \<longrightarrow> sp_id sp = prof_id (fst row)
          \<and> prof_student_type (fst row) = Some (sp_student_type sp) \<and> safe_profile_model sp = Inr sp)"
proof (cases "prof_student_type (fst row)")
  case None
  with assms show ?thesis by (simp add: project_safe_profile_def Let_def ebind_Inr_iff)
next
  case (Some t)
  with assms obtain w v where w: "safe_profile_model w = Inr v" "r = Some v" "sp_id w = prof_id (fst row)"
      "sp_student_type w = t"
    by (auto simp: project_safe_profile_def Let_def ebind_Inr_iff)
  from safe_profile_model_Inr[OF w(1)] w Some show ?thesis by auto
qed

lemma projected_rows:
  assumes "project_safe_profiles tz db locale rows = Inr sps"
    and "\<forall>row \<in> set rows. prof_student_type (fst row) \<noteq> None"
  shows "list_all2 (\<lambda>row sp. sp_id sp = prof_id (fst row)
     \<and> prof_student_type (fst row) = Some (sp_student_type sp) \<and> safe_profile_model sp = Inr sp) rows sps"
proof -
  from assms(1) obtain ps where ps: "emap (project_safe_profile tz db locale) rows = Inr ps"
      and sps: "sps = concat (map (\<lambda>p. case p of None \<Rightarrow> [] | Some x \<Rightarrow> [x]) ps)"
    by (auto simp: project_safe_profiles_def ebind_Inr_iff)
  show ?thesis
    using ps assms(2) unfolding sps
  proof (induction rows arbitrary: ps)
    case (Cons row rows)
    then obtain p qs where p: "project_safe_profile tz db locale row = Inr p"
        "emap (project_safe_profile tz db locale) rows = Inr qs" "ps = p # qs"
      by (auto simp: ebind_Inr_iff)
    from project_safe_profile_Inr[OF p(1)] Cons.prems(2) obtain sp where "p = Some sp" "sp_id sp = prof_id (fst row)"
        "prof_student_type (fst row) = Some (sp_student_type sp)" "safe_profile_model sp = Inr sp"
      by auto
    with Cons.IH[OF p(2)] Cons.prems(2) p(3) show ?case by simp
  qed simp
qed

lemma statement_rows_sound:
  "eligible_candidate_statement db current limit = Inr rows \<Longrightarrow> row \<in> set rows \<Longrightarrow> sound_candidate db current row"
  using statement_cases(3) pair_is_sound by blast

lemma load_cases:
  assumes "load_matching_scoring_profiles tz db current locale limit = Inr (me, pool)"
  shows "1 \<le> limit"
    and "me = None \<and> pool = [] \<or> (\<exists>rows first rest. length (current_profile_rows db current) = 1
      \<and> eligible_candidate_statement db current limit = Inr rows
      \<and> project_safe_profiles tz db locale (current_profile_rows db current @ rows) = Inr (first # rest)
      \<and> sp_id first = elig_profile_id current \<and> me = Some first
      \<and> pool = map (\<lambda>(row, sp). candidate_of current row sp) (zip rows rest))"
proof -
  show limit: "1 \<le> limit"
    using assms by (auto simp: load_matching_scoring_profiles_def split: if_split_asm)
  show "me = None \<and> pool = [] \<or> (\<exists>rows first rest. length (current_profile_rows db current) = 1
      \<and> eligible_candidate_statement db current limit = Inr rows
      \<and> project_safe_profiles tz db locale (current_profile_rows db current @ rows) = Inr (first # rest)
      \<and> sp_id first = elig_profile_id current \<and> me = Some first
      \<and> pool = map (\<lambda>(row, sp). candidate_of current row sp) (zip rows rest))"
  proof (cases "length (current_profile_rows db current) = 1")
    case True
    with assms limit obtain rows projected where
        rows: "eligible_candidate_statement db current limit = Inr rows"
          "project_safe_profiles tz db locale (current_profile_rows db current @ rows) = Inr projected"
      by (auto simp: load_matching_scoring_profiles_def ebind_Inr_iff)
    with assms limit True show ?thesis
      by (cases projected) (auto simp: load_matching_scoring_profiles_def split: if_split_asm)
  qed (use assms limit in \<open>simp add: load_matching_scoring_profiles_def\<close>)
qed

lemma pool_requester:
  assumes "load_matching_scoring_profiles tz db current locale limit = Inr (Some m, pool)"
  shows "sp_id m = elig_profile_id current" "sp_student_type m = elig_student_type current"
proof -
  from load_cases(2)[OF assms] obtain rows rest where
      one: "length (current_profile_rows db current) = 1"
      and rows: "eligible_candidate_statement db current limit = Inr rows"
      and proj: "project_safe_profiles tz db locale (current_profile_rows db current @ rows) = Inr (m # rest)"
      and id: "sp_id m = elig_profile_id current"
    by auto
  from one obtain mine where mine: "current_profile_rows db current = [mine]"
    by (cases "current_profile_rows db current") auto
  have "mine \<in> set (current_profile_rows db current)" by (simp add: mine)
  then have typed: "prof_student_type (fst mine) = Some (elig_student_type current)"
    by (auto simp: current_profile_rows_def split: if_splits)
  have "prof_student_type (fst row) \<noteq> None" if "row \<in> set rows" for row
    using statement_rows_sound[OF rows that] by (fastforce simp: sound_candidate_def split: prod.splits)
  with typed projected_rows[OF proj] show "sp_student_type m = elig_student_type current"
    by (auto simp: mine)
  show "sp_id m = elig_profile_id current" by (rule id)
qed

lemma pool_aligned:
  assumes "load_matching_scoring_profiles tz db current locale limit = Inr (me, pool)"
  shows "int (length pool) \<le> limit
     \<and> list_all (\<lambda>c. sp_id (cand_profile c) = elig_profile_id (cand_principal c)
          \<and> sp_student_type (cand_profile c) = elig_student_type (cand_principal c)
          \<and> safe_profile_model (cand_profile c) = Inr (cand_profile c)
          \<and> matching_pair_is_eligible current (cand_principal c)
          \<and> elig_semester_id (cand_principal c) = elig_semester_id current) pool
     \<and> (\<forall>m. me = Some m \<longrightarrow> sp_id m = elig_profile_id current
          \<and> sp_student_type m = elig_student_type current)"
proof (cases "pool = []")
  case True
  with load_cases(1)[OF assms] show ?thesis using pool_requester assms by fastforce
next
  case False
  with load_cases[OF assms] obtain rows first rest where
      one: "1 \<le> limit" "length (current_profile_rows db current) = 1"
      and rows: "eligible_candidate_statement db current limit = Inr rows"
      and proj: "project_safe_profiles tz db locale (current_profile_rows db current @ rows) = Inr (first # rest)"
      and first: "sp_id first = elig_profile_id current" "me = Some first"
      and pool: "pool = map (\<lambda>(row, sp). candidate_of current row sp) (zip rows rest)"
    by blast
  from one(2) obtain mine where mine: "current_profile_rows db current = [mine]"
    by (cases "current_profile_rows db current") auto
  have "mine \<in> set (current_profile_rows db current)" by (simp add: mine)
  then have typed: "prof_student_type (fst mine) = Some (elig_student_type current)"
    by (auto simp: current_profile_rows_def split: if_splits)
  have sound: "sound_candidate db current row" if "row \<in> set rows" for row
    using statement_rows_sound[OF rows that] .
  then have "prof_student_type (fst row) \<noteq> None" if "row \<in> set rows" for row
    using that by (fastforce simp: sound_candidate_def split: prod.splits)
  with typed projected_rows[OF proj] have aligned: "list_all2 (\<lambda>row sp. sp_id sp = prof_id (fst row)
     \<and> prof_student_type (fst row) = Some (sp_student_type sp) \<and> safe_profile_model sp = Inr sp) rows rest"
    by (simp add: mine)
  have "length pool \<le> length rows" by (simp add: pool)
  moreover have "int (length rows) \<le> limit"
    using statement_cases(1,2)[OF rows] by simp
  moreover have "sp_id (cand_profile c) = elig_profile_id (cand_principal c)
          \<and> sp_student_type (cand_profile c) = elig_student_type (cand_principal c)
          \<and> safe_profile_model (cand_profile c) = Inr (cand_profile c)
          \<and> matching_pair_is_eligible current (cand_principal c)
          \<and> elig_semester_id (cand_principal c) = elig_semester_id current" if c: "c \<in> set pool" for c
  proof -
    from c obtain row sp where rs: "(row, sp) \<in> set (zip rows rest)" "c = candidate_of current row sp"
      by (auto simp: pool)
    from rs(1) aligned have al: "sp_id sp = prof_id (fst row)"
        "prof_student_type (fst row) = Some (sp_student_type sp)" "safe_profile_model sp = Inr sp"
      by (auto simp: list_all2_iff)
    from rs(1) have "sound_candidate db current row" by (auto dest: set_zip_leftD intro: sound)
    then obtain t where "prof_student_type (fst row) = Some t"
        "matching_pair_is_eligible current (principal_of current (fst row) t)"
      by (auto simp: sound_candidate_def split: prod.splits)
    with al show ?thesis by (simp add: rs(2) candidate_of_def principal_of_def)
  qed
  ultimately show ?thesis using pool_requester assms by (fastforce simp: list_all_iff)
qed


lemma zip_fst_take: "map (\<lambda>x. f (fst x)) (zip xs ys) = take (length ys) (map f xs)"
proof (induction xs arbitrary: ys)
  case (Cons x xs)
  then show ?case by (cases ys) auto
qed simp

lemma pool_distinct:
  assumes "db_ok db" "load_matching_scoring_profiles tz db current locale limit = Inr (me, pool)"
  shows "distinct (map (\<lambda>c. sp_id (cand_profile c)) pool)"
proof (cases "pool = []")
  case False
  with load_cases(2)[OF assms(2)] obtain rows rest where
      rows: "eligible_candidate_statement db current limit = Inr rows"
      and pool: "pool = map (\<lambda>(row, sp). candidate_of current row sp) (zip rows rest)"
    by blast
  have "distinct (map (\<lambda>row. prof_id (fst row)) rows)"
    using distinct_candidates[OF assms(1), of current]
      distinct_map_select_by[of "\<lambda>row. prof_id (fst row)" "candidate_pairs db current" "\<lambda>row. prof_id (fst row)" "\<lambda>_. True"]
    by (simp add: statement_cases(2)[OF rows] select_by_def take_map[symmetric])
  moreover have "map (\<lambda>c. elig_profile_id (cand_principal c)) pool =
      take (length rest) (map (\<lambda>row. prof_id (fst row)) rows)"
    by (simp add: pool candidate_of_def case_prod_beta comp_def zip_fst_take[of "\<lambda>row. prof_id (fst row)"])
  ultimately have "distinct (map (\<lambda>c. elig_profile_id (cand_principal c)) pool)"
    by simp
  moreover have "map (\<lambda>c. elig_profile_id (cand_principal c)) pool = map (\<lambda>c. sp_id (cand_profile c)) pool"
    using pool_aligned[OF assms(2)] by (auto simp: list_all_iff)
  ultimately show ?thesis by simp
qed simp

text \<open>The scoring pool keeps principals and projections aligned: loading it never fails on the strict zip, every
  candidate's identity and its projected profile come from the same stored row with the same student type, at most
  candidate_limit candidates are returned, each forms an eligible pair with the requester, and each projection
  satisfies the response schema.\<close>

theorem scoring_pool_aligned:
  assumes "load_matching_scoring_profiles tz db current locale limit = Inr (me, pool)"
  shows "int (length pool) \<le> limit
     \<and> list_all (\<lambda>c. sp_id (cand_profile c) = elig_profile_id (cand_principal c)
          \<and> sp_student_type (cand_profile c) = elig_student_type (cand_principal c)
          \<and> safe_profile_model (cand_profile c) = Inr (cand_profile c)
          \<and> matching_pair_is_eligible current (cand_principal c)
          \<and> elig_semester_id (cand_principal c) = elig_semester_id current) pool
     \<and> (\<forall>m. me = Some m \<longrightarrow> sp_id m = elig_profile_id current
          \<and> sp_student_type m = elig_student_type current)"
  using pool_aligned[OF assms] .

lemma witness_projection:
  "project_safe_profile tz witness_population locale (witness_profile i t, witness_photo i) = r \<Longrightarrow>
     i = 1 \<or> i = 2 \<Longrightarrow> \<exists>sp. r = Inr (Some sp) \<and> sp_id sp = 10 + i"
  by (auto simp: project_safe_profile_def Let_def project_interests_def project_languages_def
      project_activities_def selected_interests_def selected_activities_def custom_rows_def
      witness_population_def witness_database_def witness_profile_def new_profile_def witness_custom_def
      witness_photo_def safe_preference_model_def safe_language_model_def safe_avatar_model_def
      safe_profile_model_def require_value_def u_def)

definition witness_tz :: tz_db where
  "witness_tz = \<lparr>zone_known = \<lambda>_. True, zone_to_utc = \<lambda>_ t. t\<rparr>"

lemma witness_load:
  assumes "1 \<le> n"
  obtains me c where "load_matching_scoring_profiles witness_tz witness_population witness_requester Locale_en n =
      Inr (Some me, [c])"
proof -
  obtain a where a: "project_safe_profile witness_tz witness_population Locale_en (witness_profile 1 VIETNAMESE, witness_photo 1)
      = Inr (Some a)" "sp_id a = 11"
    using witness_projection[OF refl, of 1] by fastforce
  obtain b where b: "project_safe_profile witness_tz witness_population Locale_en (witness_profile 2 INTERNATIONAL, witness_photo 2)
      = Inr (Some b)" "sp_id b = 12"
    using witness_projection[OF refl, of 2] by fastforce
  have mine: "current_profile_rows witness_population witness_requester = [(witness_profile 1 VIETNAMESE, witness_photo 1)]"
    by (simp add: current_profile_rows_def ready_avatar_of_def witness_population_defs)
  have "load_matching_scoring_profiles witness_tz witness_population witness_requester Locale_en n =
      Inr (Some a, [candidate_of witness_requester (witness_profile 2 INTERNATIONAL, witness_photo 2) b])"
    using a b assms by (simp add: load_matching_scoring_profiles_def mine witness_statement project_safe_profiles_def)
      (simp add: witness_requester_def)
  then show ?thesis by (rule that)
qed

theorem scoring_pool_aligned_witness:
  "\<exists>me pool. load_matching_scoring_profiles witness_tz witness_population witness_requester Locale_en 5 = Inr (me, pool)
     \<and> list_all (\<lambda>c. sp_id (cand_profile c) = elig_profile_id (cand_principal c)) pool \<and> length pool = 1"
proof -
  obtain me c where run: "load_matching_scoring_profiles witness_tz witness_population witness_requester Locale_en 5 =
      Inr (Some me, [c])"
    using witness_load[of 5] by auto
  from scoring_pool_aligned[OF run] run show ?thesis by (auto simp: list_all_iff)
qed

end
