(* ===== verification/Matching_Scoring.thy ===== *)
theory Matching_Scoring
  imports Matching_Eligibility
begin

text \<open>
  The compatibility score of \<open>services/matching_scoring.py\<close>. Fractions are \<open>rat\<close>, aware UTC
  datetimes are microseconds, and the dataclass checks of \<open>__post_init__\<close> are constructors that may
  raise. The locale \<open>similarity\<close> is what the score relies on from each signal; every signal of the code
  is an interpretation.
\<close>

section \<open>Score objects\<close>

record compatibility_weights =
  weight_interests :: int
  weight_activities :: int
  weight_availability :: int
  weight_languages :: int
  weight_major :: int

definition compatibility_weights_model :: "compatibility_weights \<Rightarrow> exn + compatibility_weights" where
  "compatibility_weights_model w =
     (let values = [weight_interests w, weight_activities w, weight_availability w, weight_languages w,
                    weight_major w]
      in require_value (\<not> (list_ex (\<lambda>v. v < 0) values \<or> sum_list values \<noteq> 100)) w)"

definition COMPATIBILITY_WEIGHTS :: compatibility_weights where
  "COMPATIBILITY_WEIGHTS = \<lparr>weight_interests = 40, weight_activities = 35, weight_availability = 15,
     weight_languages = 5, weight_major = 5\<rparr>"

record signal_breakdown =
  sig_similarity :: rat
  sig_weight :: int
  sig_points :: rat

definition signal_breakdown_model :: "signal_breakdown \<Rightarrow> exn + signal_breakdown" where
  "signal_breakdown_model s =
     (if \<not> (0 \<le> sig_similarity s \<and> sig_similarity s \<le> 1) then Inl ValueError
      else if sig_weight s < 0 \<or> sig_points s \<noteq> sig_similarity s * of_int (sig_weight s)
      then Inl ValueError else Inr s)"

record compatibility_breakdown =
  bd_interests :: signal_breakdown
  bd_activities :: signal_breakdown
  bd_availability :: signal_breakdown
  bd_languages :: signal_breakdown
  bd_major :: signal_breakdown

record compatibility_score =
  cs_precise_score :: rat
  cs_score :: int
  cs_breakdown :: compatibility_breakdown
  cs_reference_week_start :: date

text \<open>\<open>date.weekday()\<close>: Monday is 0; 1970-01-01 was a Thursday.\<close>

definition py_weekday :: "date \<Rightarrow> int" where
  "py_weekday d = (d + 3) mod 7"

definition compatibility_score_model :: "compatibility_score \<Rightarrow> exn + compatibility_score" where
  "compatibility_score_model c =
     (let b = cs_breakdown c in
      if cs_precise_score c \<noteq> sig_points (bd_interests b) + sig_points (bd_activities b)
           + sig_points (bd_availability b) + sig_points (bd_languages b) + sig_points (bd_major b)
      then Inl ValueError
      else if \<not> (0 \<le> cs_precise_score c \<and> cs_precise_score c \<le> 100)
              \<or> \<not> (0 \<le> cs_score c \<and> cs_score c \<le> 100) then Inl ValueError
      else if py_weekday (cs_reference_week_start c) \<noteq> 0 then Inl ValueError
      else Inr c)"

section \<open>Identities\<close>

text \<open>
  The identity tuples \<open>("custom", key)\<close>, \<open>("catalog", str(id))\<close> and \<open>("catalog", code)\<close>; \<open>str\<close> is
  injective on UUIDs.
\<close>

datatype signal_identity = Custom_identity pystr | Catalog_id_identity uuid | Catalog_code_identity pystr

definition normalized_custom_key :: "unicode_db \<Rightarrow> pystr \<Rightarrow> pystr option" where
  "normalized_custom_key uni label =
     (case normalize_preference_key uni label of Inl _ \<Rightarrow> None | Inr key \<Rightarrow> Some key)"

fun preference_identities :: "unicode_db \<Rightarrow> safe_preference list \<Rightarrow> signal_identity set" where
  "preference_identities uni [] = {}"
| "preference_identities uni (v # vs) =
     (if spref_is_custom v
      then (case normalized_custom_key uni (spref_label v) of None \<Rightarrow> {} | Some key \<Rightarrow> {Custom_identity key})
      else (case spref_id v of None \<Rightarrow> {} | Some i \<Rightarrow> {Catalog_id_identity i}))
     \<union> preference_identities uni vs"

fun language_identities :: "unicode_db \<Rightarrow> safe_language list \<Rightarrow> signal_identity set" where
  "language_identities uni [] = {}"
| "language_identities uni (v # vs) =
     (if slang_is_custom v
      then (case normalized_custom_key uni (slang_label v) of None \<Rightarrow> {} | Some key \<Rightarrow> {Custom_identity key})
      else (case slang_code v of None \<Rightarrow> {} | Some code \<Rightarrow> {Catalog_code_identity (py_casefold uni code)}))
     \<union> language_identities uni vs"

definition jaccard :: "'a set \<Rightarrow> 'a set \<Rightarrow> rat" where
  "jaccard left right =
     (if left \<union> right = {} then 0 else Fract (int (card (left \<inter> right))) (int (card (left \<union> right))))"

definition exact_overlap :: "'a set \<Rightarrow> 'a set \<Rightarrow> rat" where
  "exact_overlap left right = (if left \<inter> right \<noteq> {} then 1 else 0)"

definition normalized_major :: "unicode_db \<Rightarrow> pystr option \<Rightarrow> pystr option" where
  "normalized_major uni value =
     (case value of None \<Rightarrow> None
      | Some v \<Rightarrow> (case normalize_preference_key uni v of Inl _ \<Rightarrow> None | Inr key \<Rightarrow> Some key))"

definition major_similarity :: "unicode_db \<Rightarrow> pystr option \<Rightarrow> pystr option \<Rightarrow> rat" where
  "major_similarity uni left right =
     (case (normalized_major uni left, normalized_major uni right) of
        (Some l, Some r) \<Rightarrow> if l = r then 1 else 0
      | _ \<Rightarrow> 0)"

section \<open>Weekly availability as UTC intervals\<close>

definition minute_us :: int where
  "minute_us = 60000000"

definition local_minute :: "tz_db \<Rightarrow> date \<Rightarrow> int \<Rightarrow> int \<Rightarrow> pystr \<Rightarrow> instant" where
  "local_minute tz reference_week_start weekday minute zone =
     (let local_date = reference_week_start + (weekday - 1);
          (local_date', minute') = (if minute = 1440 then (local_date + 1, 0) else (local_date, minute))
      in zone_to_utc tz zone (local_date' * day_us + minute' * minute_us))"

definition slot_interval :: "tz_db \<Rightarrow> date \<Rightarrow> pystr \<Rightarrow> availability_slot \<Rightarrow> instant \<times> instant" where
  "slot_interval tz week zone s =
     (local_minute tz week (slot_weekday s) (slot_start_minute s) zone,
      local_minute tz week (slot_weekday s) (slot_end_minute s) zone)"

text \<open>The merge loop; the list \<open>merged\<close> is kept last element first.\<close>

fun merge_interval :: "(instant \<times> instant) list \<Rightarrow> instant \<times> instant \<Rightarrow> (instant \<times> instant) list" where
  "merge_interval [] (start, finish) = [(start, finish)]"
| "merge_interval ((previous_start, previous_end) # merged) (start, finish) =
     (if previous_end < start then (start, finish) # (previous_start, previous_end) # merged
      else (previous_start, max previous_end finish) # merged)"

definition merged_utc_intervals ::
    "tz_db \<Rightarrow> weekly_availability option \<Rightarrow> date \<Rightarrow> (instant \<times> instant) list" where
  "merged_utc_intervals tz availability reference_week_start =
     (case availability of None \<Rightarrow> []
      | Some a \<Rightarrow>
          (let intervals = filter (\<lambda>(start, finish). start < finish)
                 (map (slot_interval tz reference_week_start (avail_timezone a)) (avail_slots a))
           in rev (foldl merge_interval [] (sort intervals))))"

definition duration_microseconds :: "(instant \<times> instant) list \<Rightarrow> int" where
  "duration_microseconds intervals = sum_list (map (\<lambda>(start, finish). finish - start) intervals)"

fun intersection_microseconds :: "(instant \<times> instant) list \<Rightarrow> (instant \<times> instant) list \<Rightarrow> int" where
  "intersection_microseconds ((left_start, left_end) # left) ((right_start, right_end) # right) =
     (let start = max left_start right_start; finish = min left_end right_end in
      (if start < finish then finish - start else 0)
      + (if left_end \<le> right_end
         then intersection_microseconds left ((right_start, right_end) # right)
         else intersection_microseconds ((left_start, left_end) # left) right))"
| "intersection_microseconds _ _ = 0"

definition availability_similarity ::
    "tz_db \<Rightarrow> date \<Rightarrow> weekly_availability option \<Rightarrow> weekly_availability option \<Rightarrow> rat" where
  "availability_similarity tz reference_week_start left right =
     (let left_intervals = merged_utc_intervals tz left reference_week_start;
          right_intervals = merged_utc_intervals tz right reference_week_start;
          intersection = intersection_microseconds left_intervals right_intervals;
          union = duration_microseconds left_intervals + duration_microseconds right_intervals - intersection
      in if union = 0 then 0 else Fract intersection union)"

section \<open>The score\<close>

definition signal :: "rat \<Rightarrow> int \<Rightarrow> exn + signal_breakdown" where
  "signal similarity weight = signal_breakdown_model
     \<lparr>sig_similarity = similarity, sig_weight = weight, sig_points = similarity * of_int weight\<rparr>"

definition round_half_up :: "rat \<Rightarrow> int" where
  "round_half_up value =
     (let (numerator, denominator) = quotient_of value;
          whole = numerator div denominator; remainder = numerator mod denominator
      in whole + (if denominator \<le> remainder * 2 then 1 else 0))"

definition require_eligible_safe_pair ::
    "eligible_matching_principal \<Rightarrow> eligible_matching_principal \<Rightarrow> safe_profile \<Rightarrow> safe_profile \<Rightarrow> exn + unit" where
  "require_eligible_safe_pair current candidate current_profile candidate_profile =
     (if \<not> (elig_profile_id current = sp_id current_profile
             \<and> elig_profile_id candidate = sp_id candidate_profile
             \<and> elig_student_type current = sp_student_type current_profile
             \<and> elig_student_type candidate = sp_student_type candidate_profile)
         \<or> \<not> matching_pair_is_eligible current candidate
      then Inl MatchingScoringError else Inr ())"

definition score_eligible_pair ::
    "unicode_db \<Rightarrow> tz_db \<Rightarrow> eligible_matching_principal \<Rightarrow> eligible_matching_principal
       \<Rightarrow> safe_profile \<Rightarrow> safe_profile \<Rightarrow> date \<Rightarrow> exn + compatibility_score" where
  "score_eligible_pair uni tz current candidate current_profile candidate_profile reference_week_start =
     (if py_weekday reference_week_start \<noteq> 0 then Inl MatchingScoringError
      else ebind (require_eligible_safe_pair current candidate current_profile candidate_profile) (\<lambda>_.
      ebind (signal (jaccard (preference_identities uni (sp_interests current_profile))
                             (preference_identities uni (sp_interests candidate_profile)))
               (weight_interests COMPATIBILITY_WEIGHTS)) (\<lambda>interests.
      ebind (signal (jaccard (preference_identities uni (sp_activities current_profile))
                             (preference_identities uni (sp_activities candidate_profile)))
               (weight_activities COMPATIBILITY_WEIGHTS)) (\<lambda>activities.
      ebind (signal (availability_similarity tz reference_week_start (sp_availability current_profile)
                       (sp_availability candidate_profile))
               (weight_availability COMPATIBILITY_WEIGHTS)) (\<lambda>availability.
      ebind (signal (exact_overlap (language_identities uni (sp_languages current_profile))
                                   (language_identities uni (sp_languages candidate_profile)))
               (weight_languages COMPATIBILITY_WEIGHTS)) (\<lambda>languages.
      ebind (signal (major_similarity uni (sp_major current_profile) (sp_major candidate_profile))
               (weight_major COMPATIBILITY_WEIGHTS)) (\<lambda>major.
      let precise_score = sig_points interests + sig_points activities + sig_points availability
            + sig_points languages + sig_points major
      in compatibility_score_model
           \<lparr>cs_precise_score = precise_score, cs_score = round_half_up precise_score,
            cs_breakdown = \<lparr>bd_interests = interests, bd_activities = activities,
              bd_availability = availability, bd_languages = languages, bd_major = major\<rparr>,
            cs_reference_week_start = reference_week_start\<rparr>)))))))"

lemma weights_valid: "compatibility_weights_model COMPATIBILITY_WEIGHTS = Inr COMPATIBILITY_WEIGHTS"
  by (simp add: compatibility_weights_model_def require_value_def COMPATIBILITY_WEIGHTS_def)

section \<open>Intervals as sets of instants\<close>

definition covered :: "(instant \<times> instant) list \<Rightarrow> instant set" where
  "covered xs = (\<Union>(s, e) \<in> set xs. {s..<e})"

text \<open>Non-empty intervals in increasing order with a gap between neighbours.\<close>

definition separated :: "(instant \<times> instant) list \<Rightarrow> bool" where
  "separated xs \<longleftrightarrow> list_all (\<lambda>(s, e). s < e) xs \<and> sorted_wrt (\<lambda>(s, e) (s', e'). e < s') xs"

lemma covered_simps [simp]:
  "covered [] = {}" "covered ((s, e) # xs) = {s..<e} \<union> covered xs" "covered (xs @ ys) = covered xs \<union> covered ys"
  "covered (rev xs) = covered xs"
  by (auto simp: covered_def)

lemma finite_covered [simp]: "finite (covered xs)"
  by (auto simp: covered_def)

lemma covered_cong_set: "set xs = set ys \<Longrightarrow> covered xs = covered ys"
  by (simp add: covered_def)

lemma separated_Cons:
  "separated ((s, e) # xs) \<longleftrightarrow> s < e \<and> (\<forall>(s', e') \<in> set xs. e < s') \<and> separated xs"
  by (auto simp: separated_def)

lemma covered_after: "\<forall>(s, e) \<in> set xs. b < s \<Longrightarrow> separated xs \<Longrightarrow> t \<in> covered xs \<Longrightarrow> b < t"
  by (auto simp: covered_def)

lemma duration_covered: "separated xs \<Longrightarrow> duration_microseconds xs = int (card (covered xs))"
proof (induction xs)
  case (Cons x xs)
  obtain s e where x: "x = (s, e)" by (cases x)
  from Cons.prems have sep: "s < e" "\<forall>(s', e') \<in> set xs. e < s'" "separated xs"
    by (auto simp: x separated_Cons)
  have "{s..<e} \<inter> covered xs = {}"
    using covered_after[OF sep(2,3)] by fastforce
  then have "card (covered (x # xs)) = card {s..<e} + card (covered xs)"
    by (simp add: x card_Un_disjoint)
  with Cons.IH[OF sep(3)] sep(1) show ?case
    by (simp add: x duration_microseconds_def)
qed (simp add: duration_microseconds_def)

text \<open>The merge loop keeps the accumulator separated and adds exactly the new interval.\<close>

lemma merge_step:
  assumes "separated (rev acc)" "s < e" "\<forall>(s', e') \<in> set acc. s' \<le> s"
  shows "separated (rev (merge_interval acc (s, e)))"
    and "covered (merge_interval acc (s, e)) = covered acc \<union> {s..<e}"
    and "\<forall>(s', e') \<in> set (merge_interval acc (s, e)). s' \<le> s"
proof -
  have "separated (rev (merge_interval acc (s, e)))
    \<and> covered (merge_interval acc (s, e)) = covered acc \<union> {s..<e}
    \<and> (\<forall>(s', e') \<in> set (merge_interval acc (s, e)). s' \<le> s)"
  proof (cases acc)
    case Nil
    then show ?thesis using assms(2) by (simp add: separated_def)
  next
    case (Cons p rest)
    obtain ps pe where p: "p = (ps, pe)" by (cases p)
    have sep: "separated (rev rest)" "ps < pe" "\<forall>(s', e') \<in> set rest. e' < ps"
      using assms(1) by (auto simp: Cons p separated_def sorted_wrt_append)
    show ?thesis
    proof (cases "pe < s")
      case True
      have "separated (rev rest @ [(ps, pe)] @ [(s, e)])"
        using sep True assms(2) by (fastforce simp: separated_def sorted_wrt_append)
      then show ?thesis using True assms(3) by (auto simp: Cons p)
    next
      case False
      have "separated (rev rest @ [(ps, max pe e)])"
        using sep assms(2) by (auto simp: separated_def sorted_wrt_append)
      moreover have "ps \<le> s" using assms(3) by (simp add: Cons p)
      then have "{ps..<max pe e} = {ps..<pe} \<union> {s..<e}"
        using False sep(2) assms(2) by auto
      ultimately show ?thesis using False assms(3) by (auto simp: Cons p)
    qed
  qed
  then show "separated (rev (merge_interval acc (s, e)))"
    and "covered (merge_interval acc (s, e)) = covered acc \<union> {s..<e}"
    and "\<forall>(s', e') \<in> set (merge_interval acc (s, e)). s' \<le> s" by auto
qed

lemma merge_loop:
  assumes "sorted xs" "list_all (\<lambda>(s, e). s < e) xs" "separated (rev acc)"
    and "\<forall>(s', e') \<in> set acc. \<forall>(s, e) \<in> set xs. s' \<le> s"
  shows "separated (rev (foldl merge_interval acc xs))
     \<and> covered (foldl merge_interval acc xs) = covered acc \<union> covered xs"
  using assms
proof (induction xs arbitrary: acc)
  case (Cons x xs)
  obtain s e where x: "x = (s, e)" by (cases x)
  have prem: "s < e" "\<forall>(s', e') \<in> set acc. s' \<le> s" "list_all (\<lambda>(s, e). s < e) xs" "sorted xs"
    using Cons.prems by (auto simp: x)
  note step = merge_step[OF Cons.prems(3) prem(1,2)]
  have "s \<le> s'" if "(s', e') \<in> set xs" for s' e'
    using Cons.prems(1) that by (auto simp: x less_eq_prod_def)
  with step(3) have "\<forall>(s', e') \<in> set (merge_interval acc (s, e)). \<forall>(s, e) \<in> set xs. s' \<le> s"
    by fastforce
  from Cons.IH[OF prem(4,3) step(1) this] step(2) show ?case by (auto simp: x)
qed simp

definition availability_instants :: "tz_db \<Rightarrow> date \<Rightarrow> weekly_availability option \<Rightarrow> instant set" where
  "availability_instants tz week availability =
     (case availability of None \<Rightarrow> {}
      | Some a \<Rightarrow> covered (map (slot_interval tz week (avail_timezone a)) (avail_slots a)))"

lemma merged_correct:
  "separated (merged_utc_intervals tz a week)"
  "covered (merged_utc_intervals tz a week) = availability_instants tz week a"
proof -
  have "separated (merged_utc_intervals tz a week)
     \<and> covered (merged_utc_intervals tz a week) = availability_instants tz week a"
  proof (cases a)
    case (Some x)
    let ?xs = "map (slot_interval tz week (avail_timezone x)) (avail_slots x)"
    let ?ys = "filter (\<lambda>(start, finish). start < finish) ?xs"
    have "list_all (\<lambda>(s, e). s < e) (sort ?ys)"
      by (simp add: list_all_iff)
    from merge_loop[of "sort ?ys" "[]", OF _ this] have
        m: "separated (rev (foldl merge_interval [] (sort ?ys)))"
           "covered (foldl merge_interval [] (sort ?ys)) = covered (sort ?ys)"
      by (auto simp: separated_def)
    have "covered (sort ?ys) = covered ?ys" by (rule covered_cong_set) simp
    also have "covered ?ys = covered ?xs" by (force simp: covered_def)
    finally show ?thesis
      using m by (simp add: merged_utc_intervals_def Some availability_instants_def Let_def)
  qed (simp add: merged_utc_intervals_def availability_instants_def separated_def)
  then show "separated (merged_utc_intervals tz a week)"
    "covered (merged_utc_intervals tz a week) = availability_instants tz week a" by auto
qed

lemma card_interval_inter:
  "int (card ({ls..<le} \<inter> {rs..<re})) = (if max ls rs < min le re then min le re - max ls rs else 0)"
  for ls le rs re :: int
proof -
  have "{ls..<le} \<inter> {rs..<re} = {max ls rs..<min le re}" by auto
  then show ?thesis by (auto simp: max_def min_def)
qed

text \<open>The two-pointer walk measures the intersection.\<close>

lemma intersection_correct:
  "separated xs \<Longrightarrow> separated ys \<Longrightarrow>
     intersection_microseconds xs ys = int (card (covered xs \<inter> covered ys))"
proof (induction xs ys rule: intersection_microseconds.induct)
  case (1 ls le left rs re right)
  have l: "ls < le" "\<forall>(s, e) \<in> set left. le < s" "separated left"
    and r: "rs < re" "\<forall>(s, e) \<in> set right. re < s" "separated right"
    using "1.prems" by (auto simp: separated_Cons)
  note afterl = covered_after[OF l(2,3)] and afterr = covered_after[OF r(2,3)]
  show ?case
  proof (cases "le \<le> re")
    case True
    have "covered ((ls, le) # left) \<inter> covered ((rs, re) # right)
        = ({ls..<le} \<inter> {rs..<re}) \<union> (covered left \<inter> covered ((rs, re) # right))"
      using True afterr by fastforce
    moreover have "({ls..<le} \<inter> {rs..<re}) \<inter> (covered left \<inter> covered ((rs, re) # right)) = {}"
      using afterl by fastforce
    ultimately have "int (card (covered ((ls, le) # left) \<inter> covered ((rs, re) # right)))
        = int (card ({ls..<le} \<inter> {rs..<re})) + int (card (covered left \<inter> covered ((rs, re) # right)))"
      by (simp add: card_Un_disjoint)
    with "1.IH"(1)[OF refl refl True l(3) "1.prems"(2)] True show ?thesis
      unfolding card_interval_inter by (simp add: Let_def)
  next
    case False
    have "covered ((ls, le) # left) \<inter> covered ((rs, re) # right)
        = ({ls..<le} \<inter> {rs..<re}) \<union> (covered ((ls, le) # left) \<inter> covered right)"
      using False afterl by fastforce
    moreover have "({ls..<le} \<inter> {rs..<re}) \<inter> (covered ((ls, le) # left) \<inter> covered right) = {}"
      using afterr by fastforce
    ultimately have "int (card (covered ((ls, le) # left) \<inter> covered ((rs, re) # right)))
        = int (card ({ls..<le} \<inter> {rs..<re})) + int (card (covered ((ls, le) # left) \<inter> covered right))"
      by (simp add: card_Un_disjoint)
    with "1.IH"(2)[OF refl refl False "1.prems"(1) r(3)] False show ?thesis
      unfolding card_interval_inter by (simp add: Let_def)
  qed
qed simp_all

section \<open>Similarities\<close>

locale similarity =
  fixes sim :: "'a \<Rightarrow> 'a \<Rightarrow> rat"
  assumes sym: "sim a b = sim b a"
    and nonneg: "0 \<le> sim a b"
    and le_one: "sim a b \<le> 1"
begin

lemma signal_ok: "0 \<le> w \<Longrightarrow> signal (sim a b) w =
    Inr \<lparr>sig_similarity = sim a b, sig_weight = w, sig_points = sim a b * of_int w\<rparr>"
  by (simp add: signal_def signal_breakdown_model_def nonneg le_one)

lemma points_nonneg: "0 \<le> w \<Longrightarrow> 0 \<le> sim a b * of_int w"
  by (simp add: nonneg)

lemma points_le: "0 \<le> w \<Longrightarrow> sim a b * of_int w \<le> of_int w"
  using mult_right_mono[OF le_one, of "of_int w" a b] by simp

end

lemma jaccard_bounds: "0 \<le> jaccard a b" "jaccard a b \<le> 1"
proof -
  have "0 \<le> jaccard a b \<and> jaccard a b \<le> 1"
  proof (cases "finite (a \<union> b)")
    case True
    then have "card (a \<inter> b) \<le> card (a \<union> b)" by (intro card_mono) auto
    with True show ?thesis
      by (auto simp: jaccard_def zero_le_Fract_iff Fract_le_one_iff card_gt_0_iff)
  next
    case False
    then show ?thesis by (auto simp: jaccard_def rat_number_collapse)
  qed
  then show "0 \<le> jaccard a b" "jaccard a b \<le> 1" by auto
qed

interpretation jaccard: similarity "jaccard :: 'a set \<Rightarrow> 'a set \<Rightarrow> rat"
  by unfold_locales (simp_all add: jaccard_bounds, simp add: jaccard_def Un_commute Int_commute)

interpretation overlap: similarity "exact_overlap :: 'a set \<Rightarrow> 'a set \<Rightarrow> rat"
  by unfold_locales (auto simp: exact_overlap_def)

interpretation major: similarity "major_similarity uni" for uni
  by unfold_locales (auto simp: major_similarity_def split: option.splits)

text \<open>The availability signal is the Jaccard index of the two sets of available instants.\<close>

lemma availability_jaccard:
  "availability_similarity tz week a b = jaccard (availability_instants tz week a) (availability_instants tz week b)"
proof -
  let ?l = "merged_utc_intervals tz a week" and ?r = "merged_utc_intervals tz b week"
  let ?A = "availability_instants tz week a" and ?B = "availability_instants tz week b"
  have fin: "finite ?A" "finite ?B" using finite_covered merged_correct(2) by metis+
  have inter: "intersection_microseconds ?l ?r = int (card (?A \<inter> ?B))"
    by (simp add: intersection_correct merged_correct)
  have "card ?A + card ?B = card (?A \<union> ?B) + card (?A \<inter> ?B)"
    by (rule card_Un_Int[OF fin])
  then have union: "duration_microseconds ?l + duration_microseconds ?r - int (card (?A \<inter> ?B))
      = int (card (?A \<union> ?B))"
    by (simp add: duration_covered merged_correct)
  have "card (?A \<union> ?B) = 0 \<longleftrightarrow> ?A \<union> ?B = {}" using fin by (simp only: card_eq_0_iff finite_Un simp_thms)
  then show ?thesis
    unfolding availability_similarity_def Let_def inter union jaccard_def by simp
qed

interpretation availability: similarity "availability_similarity tz week" for tz week
  by unfold_locales (auto simp: availability_jaccard jaccard_bounds intro: jaccard.sym)

section \<open>Rounding\<close>

lemma half_up_div:
  fixes n d :: int
  assumes "0 < d"
  shows "n div d + (if d \<le> n mod d * 2 then 1 else 0) = (2 * n + d) div (2 * d)"
proof -
  define q r where "q = n div d" and "r = n mod d"
  have n: "n = d * q + r" by (simp add: q_def r_def)
  have r: "0 \<le> r" "r < d" using assms by (auto simp: r_def)
  have "2 * n + d = (2 * r + d) + q * (2 * d)" by (simp add: n algebra_simps)
  then have "(2 * n + d) div (2 * d) = q + (2 * r + d) div (2 * d)"
    using assms by (simp only: div_mult_self1)
  also have "(2 * r + d) div (2 * d) = (if d \<le> r * 2 then 1 else 0)"
    using r assms by (auto intro!: div_pos_pos_trivial int_div_pos_eq[where r = "2 * r - d"])
  finally show ?thesis by (simp add: q_def r_def)
qed

lemma round_half_up_floor: "round_half_up x = \<lfloor>x + 1/2\<rfloor>"
proof -
  obtain n d where q: "quotient_of x = (n, d)" by (cases "quotient_of x")
  then have d: "0 < d" and x: "x = of_int n / of_int d"
    by (auto intro: quotient_of_denom_pos quotient_of_div)
  have "x + 1/2 = of_int (2 * n + d) / of_int (2 * d)"
    using d by (simp add: x field_simps)
  then have "\<lfloor>x + 1/2\<rfloor> = (2 * n + d) div (2 * d)"
    by (simp only: floor_divide_of_int_eq)
  with half_up_div[OF d, of n] show ?thesis
    by (simp add: round_half_up_def q)
qed

section \<open>Properties\<close>

definition exact_score :: "unicode_db \<Rightarrow> tz_db \<Rightarrow> date \<Rightarrow> safe_profile \<Rightarrow> safe_profile \<Rightarrow> rat" where
  "exact_score uni tz week a b =
     40 * jaccard (preference_identities uni (sp_interests a)) (preference_identities uni (sp_interests b))
     + 35 * jaccard (preference_identities uni (sp_activities a)) (preference_identities uni (sp_activities b))
     + 15 * jaccard (availability_instants tz week (sp_availability a)) (availability_instants tz week (sp_availability b))
     + 5 * exact_overlap (language_identities uni (sp_languages a)) (language_identities uni (sp_languages b))
     + 5 * major_similarity uni (sp_major a) (sp_major b)"

lemma exact_score_bounds: "0 \<le> exact_score uni tz week a b" "exact_score uni tz week a b \<le> 100"
  using jaccard.nonneg[of "preference_identities uni (sp_interests a)" "preference_identities uni (sp_interests b)"]
    jaccard.le_one[of "preference_identities uni (sp_interests a)" "preference_identities uni (sp_interests b)"]
    jaccard.nonneg[of "preference_identities uni (sp_activities a)" "preference_identities uni (sp_activities b)"]
    jaccard.le_one[of "preference_identities uni (sp_activities a)" "preference_identities uni (sp_activities b)"]
    jaccard.nonneg[of "availability_instants tz week (sp_availability a)" "availability_instants tz week (sp_availability b)"]
    jaccard.le_one[of "availability_instants tz week (sp_availability a)" "availability_instants tz week (sp_availability b)"]
    overlap.nonneg[of "language_identities uni (sp_languages a)" "language_identities uni (sp_languages b)"]
    overlap.le_one[of "language_identities uni (sp_languages a)" "language_identities uni (sp_languages b)"]
    major.nonneg[of uni "sp_major a" "sp_major b"] major.le_one[of uni "sp_major a" "sp_major b"]
  unfolding exact_score_def by linarith+

lemma score_run:
  assumes "py_weekday week = 0" "require_eligible_safe_pair current candidate a b = Inr ()"
  shows "\<exists>bd. score_eligible_pair uni tz current candidate a b week =
     Inr \<lparr>cs_precise_score = exact_score uni tz week a b, cs_score = \<lfloor>exact_score uni tz week a b + 1/2\<rfloor>,
          cs_breakdown = bd, cs_reference_week_start = week\<rparr>
     \<and> sig_weight (bd_interests bd) + sig_weight (bd_activities bd) + sig_weight (bd_availability bd)
       + sig_weight (bd_languages bd) + sig_weight (bd_major bd) = 100"
proof -
  note bounds = exact_score_bounds[of uni tz week a b]
  have floor: "0 \<le> \<lfloor>exact_score uni tz week a b + 1/2\<rfloor>" "\<lfloor>exact_score uni tz week a b + 1/2\<rfloor> \<le> 100"
    using bounds by (simp, linarith)
  show ?thesis
    using assms bounds floor
    by (simp add: score_eligible_pair_def jaccard.signal_ok overlap.signal_ok major.signal_ok
        availability.signal_ok COMPATIBILITY_WEIGHTS_def compatibility_score_model_def Let_def
        round_half_up_floor exact_score_def availability_jaccard mult.commute)
qed


text \<open>C39: The availability signal computed by sorting, merging and a two-pointer walk over UTC intervals is the
  exact Jaccard index of the two sets of available instants (microseconds), whatever the slots, time zones and
  daylight-saving gaps: the merged lists are ordered, disjoint, non-empty intervals that cover exactly those sets,
  and the walk measures their intersection.\<close>

theorem availability_signal_is_jaccard:
  "separated (merged_utc_intervals tz a week)
   \<and> covered (merged_utc_intervals tz a week) = availability_instants tz week a
   \<and> intersection_microseconds (merged_utc_intervals tz a week) (merged_utc_intervals tz b week) =
       int (card (availability_instants tz week a \<inter> availability_instants tz week b))
   \<and> availability_similarity tz week a b =
       jaccard (availability_instants tz week a) (availability_instants tz week b)"
  by (simp add: merged_correct intersection_correct availability_jaccard)

text \<open>Scoring a pair raises exactly when the reference week does not begin on a Monday or the pair is not an
  eligible pair of its own profiles, and then always MatchingScoringError: no dataclass check ever fires.
  Otherwise the precise score is the exact weighted sum 40/35/15/5/5 of the similarities, between 0 and 100, and
  the displayed score is that sum rounded half up.\<close>

theorem score_is_weighted_sum:
  shows "(py_weekday week \<noteq> 0 \<or> require_eligible_safe_pair current candidate a b \<noteq> Inr () \<longrightarrow>
       score_eligible_pair uni tz current candidate a b week = Inl MatchingScoringError)
   \<and> (py_weekday week = 0 \<and> require_eligible_safe_pair current candidate a b = Inr () \<longrightarrow>
       (\<exists>s. score_eligible_pair uni tz current candidate a b week = Inr s
          \<and> cs_precise_score s = exact_score uni tz week a b
          \<and> cs_score s = \<lfloor>exact_score uni tz week a b + 1/2\<rfloor>
          \<and> 0 \<le> cs_precise_score s \<and> cs_precise_score s \<le> 100
          \<and> 0 \<le> cs_score s \<and> cs_score s \<le> 100 \<and> cs_reference_week_start s = week))"
proof (intro conjI impI)
  assume "py_weekday week \<noteq> 0 \<or> require_eligible_safe_pair current candidate a b \<noteq> Inr ()"
  moreover have "require_eligible_safe_pair current candidate a b \<noteq> Inr () \<Longrightarrow>
      require_eligible_safe_pair current candidate a b = Inl MatchingScoringError"
    by (auto simp: require_eligible_safe_pair_def split: if_split_asm)
  ultimately show "score_eligible_pair uni tz current candidate a b week = Inl MatchingScoringError"
    by (auto simp: score_eligible_pair_def)
next
  assume "py_weekday week = 0 \<and> require_eligible_safe_pair current candidate a b = Inr ()"
  with score_run[of week current candidate a b uni tz] exact_score_bounds[of uni tz week a b]
  show "\<exists>s. score_eligible_pair uni tz current candidate a b week = Inr s
          \<and> cs_precise_score s = exact_score uni tz week a b
          \<and> cs_score s = \<lfloor>exact_score uni tz week a b + 1/2\<rfloor>
          \<and> 0 \<le> cs_precise_score s \<and> cs_precise_score s \<le> 100
          \<and> 0 \<le> cs_score s \<and> cs_score s \<le> 100 \<and> cs_reference_week_start s = week"
    by (auto simp: le_floor_iff floor_le_iff)
qed

definition witness_safe_profile :: "uuid \<Rightarrow> student_type \<Rightarrow> safe_profile" where
  "witness_safe_profile i t = \<lparr>sp_id = 10 + i, sp_display_name = None, sp_full_name = Some (u ''An''),
     sp_student_type = t, sp_bio = None, sp_major = None, sp_study_year = None, sp_nationality = None,
     sp_home_university = None, sp_avatar = \<lparr>sav_id = 30 + i, sav_width = 1, sav_height = 1\<rparr>,
     sp_interests = [\<lparr>spref_id = Some 7, spref_code = Some [120], spref_label = [88], spref_is_custom = False\<rparr>],
     sp_languages = [\<lparr>slang_code = Some [101, 110], slang_label = [88], slang_proficiency = FLUENT,
       slang_is_custom = False\<rparr>],
     sp_activities = [], sp_availability = None\<rparr>"

definition witness_candidate :: eligible_matching_principal where
  "witness_candidate = \<lparr>elig_user_id = 2, elig_profile_id = 12, elig_student_type = INTERNATIONAL,
     elig_semester_id = Some 9\<rparr>"

lemma witness_pair: "require_eligible_safe_pair witness_requester witness_candidate
    (witness_safe_profile 1 VIETNAMESE) (witness_safe_profile 2 INTERNATIONAL) = Inr ()"
  by (simp add: require_eligible_safe_pair_def witness_requester_def witness_candidate_def
      witness_safe_profile_def matching_pair_is_eligible_def)

theorem score_is_weighted_sum_witness:
  "\<exists>s. score_eligible_pair ascii_unicode_db witness_tz witness_requester
      witness_candidate (witness_safe_profile 1 VIETNAMESE) (witness_safe_profile 2 INTERNATIONAL) 4 = Inr s
    \<and> cs_precise_score s = 45 \<and> cs_score s = 45"
proof -
  let ?tz = "witness_tz"
  have monday: "py_weekday 4 = 0" by (simp add: py_weekday_def)
  have exact: "exact_score ascii_unicode_db ?tz 4 (witness_safe_profile 1 VIETNAMESE)
      (witness_safe_profile 2 INTERNATIONAL) = 45"
    by (simp add: exact_score_def witness_safe_profile_def jaccard_def exact_overlap_def major_similarity_def
        normalized_major_def availability_instants_def one_rat)
  from score_is_weighted_sum[of 4 witness_requester witness_candidate "witness_safe_profile 1 VIETNAMESE"
      "witness_safe_profile 2 INTERNATIONAL" ascii_unicode_db ?tz]
  obtain s where "score_eligible_pair ascii_unicode_db ?tz witness_requester witness_candidate
      (witness_safe_profile 1 VIETNAMESE) (witness_safe_profile 2 INTERNATIONAL) 4 = Inr s"
      "cs_precise_score s = 45" "cs_score s = \<lfloor>(45::rat) + 1/2\<rfloor>"
    unfolding exact using monday witness_pair by blast
  moreover have "\<lfloor>(45::rat) + 1/2\<rfloor> = 45" by (simp add: floor_eq_iff)
  ultimately show ?thesis by auto
qed

text \<open>The score is symmetric: exchanging the requester and the candidate, with their profiles, gives the same
  result, breakdown and error.\<close>

theorem score_symmetric:
  "score_eligible_pair uni tz current candidate a b week = score_eligible_pair uni tz candidate current b a week"
proof -
  have "require_eligible_safe_pair current candidate a b = require_eligible_safe_pair candidate current b a"
    by (auto simp: require_eligible_safe_pair_def matching_pair_is_eligible_def)
  then show ?thesis
    by (simp only: score_eligible_pair_def
        jaccard.sym[of "preference_identities uni (sp_interests a)"]
        jaccard.sym[of "preference_identities uni (sp_activities a)"]
        availability.sym[of tz week "sp_availability a"]
        overlap.sym[of "language_identities uni (sp_languages a)"]
        major.sym[of uni "sp_major a"])
qed

end
