(* ===== verification/Matching_Recommendations.thy ===== *)
theory Matching_Recommendations
  imports Matching_Scoring
begin

text \<open>
  The ranked recommendation page of \<open>services/matching_recommendations.py\<close>. The public numbers are
  Python floats: \<open>float64\<close> is the correctly rounded IEEE double of a rational (round half to even, the
  normal range), and \<open>round(x, 6)\<close> is the correctly rounded six-digit decimal read back as a double.
\<close>

section \<open>Doubles\<close>

definition round_half_even :: "rat \<Rightarrow> int" where
  "round_half_even x =
     (let f = \<lfloor>x\<rfloor>; d = x - of_int f
      in if d < 1/2 then f else if 1/2 < d then f + 1 else if even f then f else f + 1)"

fun bit_length :: "nat \<Rightarrow> nat" where
  "bit_length n = (if n = 0 then 0 else Suc (bit_length (n div 2)))"

declare bit_length.simps [simp del]

definition pow2 :: "int \<Rightarrow> rat" where
  "pow2 e = (if 0 \<le> e then 2 ^ nat e else 1 / 2 ^ nat (- e))"

text \<open>The exponent of the leading bit of a positive rational.\<close>

definition binade :: "rat \<Rightarrow> int" where
  "binade x =
     (let (n, d) = quotient_of x; e = int (bit_length (nat n)) - int (bit_length (nat d))
      in if pow2 e \<le> x then e else e - 1)"

definition float64 :: "rat \<Rightarrow> rat" where
  "float64 x = (if x \<le> 0 then 0 else let ulp = pow2 (binade x - 52) in of_int (round_half_even (x / ulp)) * ulp)"

definition py_round :: "rat \<Rightarrow> nat \<Rightarrow> rat" where
  "py_round x digits = float64 (of_int (round_half_even (x * 10 ^ digits)) / 10 ^ digits)"

section \<open>The response\<close>

definition DEFAULT_RECOMMENDATION_PAGE_SIZE :: int where
  "DEFAULT_RECOMMENDATION_PAGE_SIZE = 20"

definition MAX_RECOMMENDATION_PAGE_SIZE :: int where
  "MAX_RECOMMENDATION_PAGE_SIZE = 50"

definition MAX_RECOMMENDATION_CANDIDATES :: nat where
  "MAX_RECOMMENDATION_CANDIDATES = 500"

text \<open>\<open>now\<close> is the UTC instant of the call.\<close>

definition current_reference_week_start :: "instant \<Rightarrow> date" where
  "current_reference_week_start now =
     (let current_date = now div day_us in current_date - py_weekday current_date)"

record signal_explanation =
  sx_similarity :: rat
  sx_weight :: int
  sx_points :: rat

record compatibility_explanation =
  cx_interests :: signal_explanation
  cx_activities :: signal_explanation
  cx_availability :: signal_explanation
  cx_languages :: signal_explanation
  cx_major :: signal_explanation

record matching_recommendation =
  rec_profile :: safe_profile
  rec_score :: int
  rec_explanation :: compatibility_explanation

record recommendation_list =
  rl_items :: "matching_recommendation list"
  rl_page :: int
  rl_page_size :: int
  rl_total :: int
  rl_total_pages :: int
  rl_reference_week_start :: date

definition public_number :: "rat \<Rightarrow> rat" where
  "public_number value = py_round (float64 value) 6"

definition signal_explanation_model :: "signal_explanation \<Rightarrow> exn + signal_explanation" where
  "signal_explanation_model x =
     require_value (0 \<le> sx_similarity x \<and> sx_similarity x \<le> 1 \<and> 0 \<le> sx_weight x \<and> sx_weight x \<le> 100
       \<and> 0 \<le> sx_points x \<and> sx_points x \<le> 100) x"

definition public_signal :: "signal_breakdown \<Rightarrow> exn + signal_explanation" where
  "public_signal s = signal_explanation_model
     \<lparr>sx_similarity = public_number (sig_similarity s), sx_weight = sig_weight s,
      sx_points = public_number (sig_points s)\<rparr>"

definition project_compatibility_explanation :: "compatibility_score \<Rightarrow> exn + compatibility_explanation" where
  "project_compatibility_explanation score =
     (let b = cs_breakdown score in
      ebind (public_signal (bd_interests b)) (\<lambda>interests.
      ebind (public_signal (bd_activities b)) (\<lambda>activities.
      ebind (public_signal (bd_availability b)) (\<lambda>availability.
      ebind (public_signal (bd_languages b)) (\<lambda>languages.
      ebind (public_signal (bd_major b)) (\<lambda>major.
      Inr \<lparr>cx_interests = interests, cx_activities = activities, cx_availability = availability,
           cx_languages = languages, cx_major = major\<rparr>))))))"

definition matching_recommendation_model ::
    "compatibility_score \<times> safe_profile \<Rightarrow> exn + matching_recommendation" where
  "matching_recommendation_model scored =
     ebind (project_compatibility_explanation (fst scored)) (\<lambda>explanation.
     require_value (0 \<le> cs_score (fst scored) \<and> cs_score (fst scored) \<le> 100)
       \<lparr>rec_profile = snd scored, rec_score = cs_score (fst scored), rec_explanation = explanation\<rparr>)"

definition recommendation_list_model :: "recommendation_list \<Rightarrow> exn + recommendation_list" where
  "recommendation_list_model r =
     require_value (1 \<le> rl_page r \<and> 1 \<le> rl_page_size r \<and> rl_page_size r \<le> 50 \<and> 0 \<le> rl_total r
       \<and> 0 \<le> rl_total_pages r) r"

definition list_ranked_matching_recommendations ::
    "unicode_db \<Rightarrow> tz_db \<Rightarrow> database \<Rightarrow> eligible_matching_principal \<Rightarrow> catalog_locale \<Rightarrow> int \<Rightarrow> int \<Rightarrow> date
       \<Rightarrow> exn + recommendation_list" where
  "list_ranked_matching_recommendations uni tz db current locale page page_size reference_week_start =
     (if page < 1 then Inl ValueError
      else if \<not> (1 \<le> page_size \<and> page_size \<le> MAX_RECOMMENDATION_PAGE_SIZE) then Inl ValueError
      else if py_weekday reference_week_start \<noteq> 0 then Inl ValueError
      else ebind (load_matching_scoring_profiles tz db current locale (int MAX_RECOMMENDATION_CANDIDATES + 1))
             (\<lambda>(current_profile, candidates).
      case current_profile of
        None \<Rightarrow> Inl MatchingRecommendationStateError
      | Some current_profile \<Rightarrow>
          if MAX_RECOMMENDATION_CANDIDATES < length candidates then Inl MatchingRecommendationCapacityError
          else ebind (emap (\<lambda>candidate.
                  ebind (score_eligible_pair uni tz current (cand_principal candidate) current_profile
                           (cand_profile candidate) reference_week_start) (\<lambda>score.
                  Inr (score, cand_profile candidate))) candidates) (\<lambda>scored.
          let ranked = sort_key (\<lambda>item. (- cs_precise_score (fst item), sp_id (snd item))) scored;
              total = length ranked;
              start = nat ((page - 1) * page_size)
          in ebind (emap matching_recommendation_model (take (nat page_size) (drop start ranked))) (\<lambda>items.
             recommendation_list_model
               \<lparr>rl_items = items, rl_page = page, rl_page_size = page_size, rl_total = int total,
                rl_total_pages = (if total \<noteq> 0 then \<lceil>float64 (of_nat total / of_int page_size)\<rceil> else 0),
                rl_reference_week_start = reference_week_start\<rparr>))))"

section \<open>Rounding to a double\<close>

lemma round_half_even_error: "\<bar>of_int (round_half_even x) - x\<bar> \<le> 1/2"
proof -
  have "of_int \<lfloor>x\<rfloor> \<le> x" "x < of_int \<lfloor>x\<rfloor> + 1" by linarith+
  then show ?thesis unfolding round_half_even_def Let_def by (simp split: if_split)
qed

lemma round_half_even_le: "x \<le> of_int n \<Longrightarrow> round_half_even x \<le> n"
proof -
  assume le: "x \<le> of_int n"
  then have "\<lfloor>x\<rfloor> \<le> n" by (metis floor_mono floor_of_int)
  moreover have "\<lfloor>x\<rfloor> + 1 \<le> n" if "of_int \<lfloor>x\<rfloor> < x"
  proof -
    from that le have "of_int \<lfloor>x\<rfloor> < (of_int n :: rat)" by simp
    then show ?thesis by simp
  qed
  moreover have "\<lfloor>x\<rfloor> = n \<or> \<lfloor>x\<rfloor> < n" using calculation(1) by auto
  ultimately show ?thesis by (auto simp: round_half_even_def Let_def)
qed

lemma round_half_even_ge: "of_int n \<le> x \<Longrightarrow> n \<le> round_half_even x"
proof -
  assume "of_int n \<le> x"
  then have "n \<le> \<lfloor>x\<rfloor>" by (simp add: le_floor_iff)
  then show ?thesis by (auto simp: round_half_even_def Let_def)
qed

lemma bit_length_bounds: "0 < n \<Longrightarrow> 2 ^ (bit_length n - 1) \<le> n \<and> n < 2 ^ bit_length n \<and> 0 < bit_length n"
proof (induction n rule: bit_length.induct)
  case (1 n)
  show ?case
  proof (cases "n div 2 = 0")
    case True
    with 1(2) have "n = 1" by auto
    then show ?thesis by (simp add: bit_length.simps[of "Suc 0"] bit_length.simps[of 0])
  next
    case False
    with 1 have ih: "2 ^ (bit_length (n div 2) - 1) \<le> n div 2" "n div 2 < 2 ^ bit_length (n div 2)"
        "0 < bit_length (n div 2)" by auto
    have unfold: "bit_length n = Suc (bit_length (n div 2))"
      using 1(2) by (simp add: bit_length.simps[of n])
    have "2 ^ bit_length (n div 2) = 2 * (2 ^ (bit_length (n div 2) - 1) :: nat)"
      using ih(3) by (metis Suc_diff_1 power_Suc)
    with ih(1,2) show ?thesis by (simp add: unfold) linarith
  qed
qed

lemma pow2_pos [simp]: "0 < pow2 e" "pow2 e \<noteq> 0"
  by (simp_all add: pow2_def)

lemma pow2_diff: "pow2 (int a - int b) = 2 ^ a / 2 ^ b"
proof (cases "b \<le> a")
  case True
  then have "(2::rat) ^ a = 2 ^ (a - b) * 2 ^ b" by (simp add: power_add[symmetric])
  with True show ?thesis by (simp add: pow2_def nat_diff_distrib of_nat_diff)
next
  case False
  then have "(2::rat) ^ b = 2 ^ (b - a) * 2 ^ a" by (simp add: power_add[symmetric])
  moreover have "nat (int b - int a) = b - a" by simp
  ultimately show ?thesis using False by (simp add: pow2_def)
qed

lemma pow2_add: "pow2 (a + b) = pow2 a * pow2 b"
proof -
  obtain m n where a: "a = int m - int n" by (metis diff_0_right diff_zero int_cases2 minus_diff_eq of_nat_0 uminus_add_conv_diff add.right_neutral)
  obtain k l where b: "b = int k - int l" by (metis diff_0_right diff_zero int_cases2 minus_diff_eq of_nat_0 uminus_add_conv_diff add.right_neutral)
  have "a + b = int (m + k) - int (n + l)" by (simp add: a b)
  then show ?thesis by (simp only: pow2_diff a b) (simp add: power_add)
qed

lemma binade_bounds:
  assumes "0 < x"
  shows "pow2 (binade x) \<le> x" "x < 2 * pow2 (binade x)"
proof -
  obtain n d where q: "quotient_of x = (n, d)" by (cases "quotient_of x")
  have d: "0 < d" and x: "x = of_int n / of_int d"
    using q by (auto intro: quotient_of_denom_pos quotient_of_div)
  with assms have n: "0 < n" by (simp add: zero_less_divide_iff)
  let ?a = "bit_length (nat n)" and ?b = "bit_length (nat d)"
  have bn: "2 ^ (?a - 1) \<le> nat n" "nat n < 2 ^ ?a" "0 < ?a"
    using bit_length_bounds[of "nat n"] n by auto
  have bd: "2 ^ (?b - 1) \<le> nat d" "nat d < 2 ^ ?b" "0 < ?b"
    using bit_length_bounds[of "nat d"] d by auto
  have nr: "of_nat (nat n) = (of_int n :: rat)" "of_nat (nat d) = (of_int d :: rat)" using n d by simp_all
  have N: "2 ^ (?a - 1) \<le> (of_int n :: rat)" "(of_int n :: rat) < 2 ^ ?a"
    using bn(1,2) by (metis nr(1) of_nat_le_iff of_nat_less_iff of_nat_numeral of_nat_power)+
  have D: "2 ^ (?b - 1) \<le> (of_int d :: rat)" "(of_int d :: rat) < 2 ^ ?b"
    using bd(1,2) by (metis nr(2) of_nat_le_iff of_nat_less_iff of_nat_numeral of_nat_power)+
  have ea: "(2::rat) ^ ?a = 2 * 2 ^ (?a - 1)" and eb: "(2::rat) ^ ?b = 2 * 2 ^ (?b - 1)"
    using bn(3) bd(3) by (metis Suc_diff_1 power_Suc)+
  let ?e = "int ?a - int ?b"
  have lo: "pow2 ?e / 2 \<le> x"
  proof -
    have "pow2 ?e / 2 = 2 ^ (?a - 1) / 2 ^ ?b" by (simp add: pow2_diff ea)
    also have "\<dots> \<le> of_int n / of_int d"
      by (rule frac_le) (use N D d n in \<open>auto intro: order_less_imp_le\<close>)
    finally show ?thesis by (simp add: x)
  qed
  have hi: "x < 2 * pow2 ?e"
  proof -
    have "of_int n / of_int d < 2 ^ ?a / (2::rat) ^ (?b - 1)"
      by (rule frac_less) (use N D d n in auto)
    also have "\<dots> = 2 * pow2 ?e" by (simp add: pow2_diff eb)
    finally show ?thesis by (simp add: x)
  qed
  have half: "pow2 (?e - 1) = pow2 ?e / 2"
    using pow2_add[of "?e - 1" 1] by (simp add: pow2_def)
  show "pow2 (binade x) \<le> x" "x < 2 * pow2 (binade x)"
    using lo hi half by (auto simp: binade_def q Let_def)
qed

lemma float64_error: "0 \<le> x \<Longrightarrow> \<bar>float64 x - x\<bar> \<le> x / 2 ^ 53"
proof (cases "x = 0")
  case False
  assume "0 \<le> x"
  with False have x: "0 < x" by simp
  define e where "e = binade x"
  define ulp where "ulp = pow2 (e - 52)"
  have ulp: "0 < ulp" "pow2 e = ulp * 2 ^ 52"
    using pow2_add[of "e - 52" 52] by (simp_all add: ulp_def) (simp add: pow2_def)
  have f: "float64 x - x = (of_int (round_half_even (x / ulp)) - x / ulp) * ulp"
    using x ulp(1) by (simp add: float64_def Let_def e_def[symmetric] ulp_def[symmetric] left_diff_distrib)
  have "\<bar>float64 x - x\<bar> \<le> 1/2 * ulp"
    unfolding f abs_mult using round_half_even_error[of "x / ulp"] ulp(1) by (intro mult_mono) auto
  also have "1/2 * ulp = pow2 e / 2 ^ 53" by (simp add: ulp(2))
  also have "\<dots> \<le> x / 2 ^ 53"
    using binade_bounds(1)[OF x] by (simp add: e_def divide_right_mono)
  finally show ?thesis .
qed (simp add: float64_def)

lemma float64_nonneg [simp]: "0 \<le> float64 x"
proof (cases "x \<le> 0")
  case False
  then have "0 \<le> round_half_even (x / pow2 (binade x - 52))"
    by (intro round_half_even_ge) (simp add: less_imp_le)
  with False show ?thesis by (simp add: float64_def Let_def less_imp_le)
qed (simp add: float64_def)

text \<open>Rounding never crosses a small integer, which is itself a double.\<close>

lemma float64_le_int:
  assumes "x \<le> of_int n" "n \<le> 2 ^ 52"
  shows "float64 x \<le> max 0 (of_int n)"
proof (cases "x \<le> 0")
  case False
  then have x: "0 < x" by simp
  define e where "e = binade x"
  have "e \<le> 52"
  proof (rule ccontr)
    assume "\<not> e \<le> 52"
    then have "pow2 e = 2 ^ nat e" "53 \<le> nat e" by (auto simp: pow2_def)
    then have "2 ^ 53 \<le> pow2 e" by (metis power_increasing one_le_numeral)
    with binade_bounds(1)[OF x] assms(1) have "2 ^ 53 \<le> (of_int n :: rat)" by (simp add: e_def)
    moreover have "(of_int n :: rat) \<le> 2 ^ 52"
      using assms(2) by (metis of_int_le_iff of_int_numeral of_int_power)
    ultimately show False by simp
  qed
  then obtain k where k: "52 - e = int k" by (metis diff_ge_0_iff_ge nonneg_int_cases)
  have one: "pow2 (e - 52) * 2 ^ k = 1"
  proof -
    have "pow2 (e - 52) * pow2 (52 - e) = pow2 0" using pow2_add[of "e - 52" "52 - e"] by simp
    then show ?thesis unfolding k by (simp add: pow2_def[of "int k"] pow2_def[of 0])
  qed
  have "pow2 (e - 52) \<noteq> 0" by simp
  moreover have "x * 2 ^ k * pow2 (e - 52) = x"
    using one by (simp add: mult.assoc mult.commute[of "2 ^ k"])
  ultimately have "x / pow2 (e - 52) = x * 2 ^ k" by (simp add: nonzero_divide_eq_eq)
  also have "\<dots> \<le> of_int (n * 2 ^ k)" using assms(1) by simp
  finally have "round_half_even (x / pow2 (e - 52)) \<le> n * 2 ^ k"
    by (rule round_half_even_le)
  then have "of_int (round_half_even (x / pow2 (e - 52))) * pow2 (e - 52) \<le> of_int (n * 2 ^ k) * pow2 (e - 52)"
    by (intro mult_right_mono) (auto simp: less_imp_le simp del: of_int_mult)
  also have "of_int (n * 2 ^ k) * pow2 (e - 52) = of_int n"
    using one by (simp add: mult.assoc mult.commute)
  finally show ?thesis using x by (simp add: float64_def Let_def e_def)
qed (simp add: float64_def)

lemma py_round_bounds:
  assumes "0 \<le> x" "x \<le> of_int n" "0 \<le> n" "n \<le> 100"
  shows "0 \<le> py_round x 6" "py_round x 6 \<le> of_int n"
proof -
  have "round_half_even (x * 10 ^ 6) \<le> n * 10 ^ 6"
    by (rule round_half_even_le) (use assms(2) in simp)
  then have "of_int (round_half_even (x * 10 ^ 6)) / 10 ^ 6 \<le> (of_int n :: rat)"
    by (simp add: divide_le_eq)
  from float64_le_int[OF this] assms(3,4) show "py_round x 6 \<le> of_int n"
    by (simp add: py_round_def)
  show "0 \<le> py_round x 6" by (simp add: py_round_def)
qed

lemma public_number_bounds:
  assumes "0 \<le> x" "x \<le> of_int n" "0 \<le> n" "n \<le> 100"
  shows "0 \<le> public_number x" "public_number x \<le> of_int n"
proof -
  have "float64 x \<le> of_int n" using float64_le_int[OF assms(2)] assms(3,4) by simp
  then show "0 \<le> public_number x" "public_number x \<le> of_int n"
    using py_round_bounds[OF float64_nonneg _ assms(3,4)] by (simp_all add: public_number_def)
qed

lemma public_number_error:
  assumes "0 \<le> x" "x \<le> 100"
  shows "\<bar>public_number x - x\<bar> \<le> 1 / 10 ^ 6"
proof -
  define y where "y = float64 x"
  define z :: rat where "z = of_int (round_half_even (y * 10 ^ 6)) / 10 ^ 6"
  have y: "\<bar>y - x\<bar> \<le> x / 2 ^ 53" "0 \<le> y" "y \<le> 100"
    using float64_error[OF assms(1)] float64_le_int[of x 100] assms(2) by (simp_all add: y_def)
  have "\<bar>of_int (round_half_even (y * 10 ^ 6)) - y * 10 ^ 6\<bar> \<le> 1/2" by (rule round_half_even_error)
  then have zy: "\<bar>z - y\<bar> \<le> 1 / (2 * 10 ^ 6)" by (simp add: z_def abs_le_iff field_simps)
  have "0 \<le> round_half_even (y * 10 ^ 6)" using y(2) by (intro round_half_even_ge) simp
  then have z0: "0 \<le> z" by (simp add: z_def)
  have fz: "\<bar>float64 z - z\<bar> \<le> z / 2 ^ 53" by (rule float64_error[OF z0])
  have "z \<le> 101" using zy y(3) by (simp only: abs_le_iff) (simp; linarith)
  then have "z / 2 ^ 53 \<le> 101 / 2 ^ 53" by (simp add: divide_right_mono)
  moreover have "x / 2 ^ 53 \<le> 100 / 2 ^ 53" using assms(2) by (simp add: divide_right_mono)
  moreover have "(101 / 2 ^ 53 :: rat) + 100 / 2 ^ 53 + 1 / (2 * 10 ^ 6) \<le> 1 / 10 ^ 6" by simp
  ultimately have "\<bar>float64 z - x\<bar> \<le> 1 / 10 ^ 6"
    using y(1) zy fz by linarith
  then show ?thesis by (simp add: public_number_def py_round_def y_def z_def)
qed

section \<open>The ranking and its pages\<close>

lemma public_signal_ok:
  assumes "0 \<le> sig_similarity s" "sig_similarity s \<le> 1" "0 \<le> sig_weight s" "sig_weight s \<le> 100"
    and "0 \<le> sig_points s" "sig_points s \<le> 100"
  shows "public_signal s = Inr \<lparr>sx_similarity = public_number (sig_similarity s), sx_weight = sig_weight s,
      sx_points = public_number (sig_points s)\<rparr>"
  using assms public_number_bounds[of "sig_similarity s" 1] public_number_bounds[of "sig_points s" 100]
  by (simp add: public_signal_def signal_explanation_model_def require_value_def)

definition signal_in_range :: "signal_breakdown \<Rightarrow> bool" where
  "signal_in_range s \<longleftrightarrow> 0 \<le> sig_similarity s \<and> sig_similarity s \<le> 1 \<and> 0 \<le> sig_weight s \<and> sig_weight s \<le> 100
     \<and> 0 \<le> sig_points s \<and> sig_points s \<le> 100"

lemma signal_Inr_range:
  assumes "signal x w = Inr s" "w \<le> 100"
  shows "signal_in_range s"
proof -
  from assms(1) have s: "s = \<lparr>sig_similarity = x, sig_weight = w, sig_points = x * of_int w\<rparr>"
      "0 \<le> x" "x \<le> 1" "0 \<le> w"
    by (auto simp: signal_def signal_breakdown_model_def split: if_split_asm)
  have "x * of_int w \<le> 1 * 100"
    by (rule mult_mono) (use s(2-4) assms(2) in auto)
  with s assms(2) show ?thesis by (simp add: signal_in_range_def)
qed

lemma score_Inr_range:
  assumes "score_eligible_pair uni tz current candidate a b week = Inr s"
  shows "signal_in_range (bd_interests (cs_breakdown s)) \<and> signal_in_range (bd_activities (cs_breakdown s))
    \<and> signal_in_range (bd_availability (cs_breakdown s)) \<and> signal_in_range (bd_languages (cs_breakdown s))
    \<and> signal_in_range (bd_major (cs_breakdown s)) \<and> 0 \<le> cs_score s \<and> cs_score s \<le> 100"
  using assms
  by (auto simp: score_eligible_pair_def ebind_Inr_iff COMPATIBILITY_WEIGHTS_def compatibility_score_model_def
      Let_def split: if_split_asm dest: signal_Inr_range)

definition recommendation_of :: "compatibility_score \<times> safe_profile \<Rightarrow> matching_recommendation" where
  "recommendation_of scored =
     (let sx = (\<lambda>s. \<lparr>sx_similarity = public_number (sig_similarity s), sx_weight = sig_weight s,
                    sx_points = public_number (sig_points s)\<rparr>);
          b = cs_breakdown (fst scored)
      in \<lparr>rec_profile = snd scored, rec_score = cs_score (fst scored),
          rec_explanation = \<lparr>cx_interests = sx (bd_interests b), cx_activities = sx (bd_activities b),
            cx_availability = sx (bd_availability b), cx_languages = sx (bd_languages b),
            cx_major = sx (bd_major b)\<rparr>\<rparr>)"

lemma recommendation_ok:
  assumes "score_eligible_pair uni tz current candidate a b week = Inr s"
  shows "matching_recommendation_model (s, p) = Inr (recommendation_of (s, p))"
proof -
  have sig: "public_signal x = Inr \<lparr>sx_similarity = public_number (sig_similarity x), sx_weight = sig_weight x,
      sx_points = public_number (sig_points x)\<rparr>" if "signal_in_range x" for x
    using that by (intro public_signal_ok) (auto simp: signal_in_range_def)
  from score_Inr_range[OF assms] show ?thesis
    by (simp add: matching_recommendation_model_def project_compatibility_explanation_def sig Let_def
        recommendation_of_def require_value_def)
qed

lemma emap_all: "(\<And>x. x \<in> set xs \<Longrightarrow> f x = Inr (g x)) \<Longrightarrow> emap f xs = Inr (map g xs)"
  by (induction xs) auto

lemma pages_concat: "concat (map (\<lambda>k. take n (drop (k * n) xs)) [0..<m]) = take (m * n) xs"
proof (induction m)
  case (Suc m)
  have "take (Suc m * n) xs = take (m * n) xs @ take n (drop (m * n) xs)"
    by (metis add.commute mult_Suc take_add)
  with Suc show ?case by simp
qed simp

text \<open>The page count is the exact ceiling: the float division cannot reach past the next integer.\<close>

lemma float64_ceiling:
  assumes "0 < t" "t \<le> 500" "1 \<le> p" "p \<le> 50"
  shows "\<lceil>float64 (of_nat t / of_int p)\<rceil> = \<lceil>of_nat t / (of_int p :: rat)\<rceil>"
proof -
  define x :: rat where "x = of_nat t / of_int p"
  have p: "0 < (of_int p :: rat)" using assms(3) by simp
  have x0: "0 < x" using assms(1) p by (simp add: x_def)
  have "x \<le> of_nat t / 1"
    unfolding x_def by (rule divide_left_mono) (use assms(3) p in auto)
  then have x500: "x \<le> 500" using assms(2) by (simp add: order_trans[of _ "of_nat t"])
  have up: "float64 x \<le> of_int \<lceil>x\<rceil>"
  proof -
    have "\<lceil>x\<rceil> \<le> 500" using x500 by (simp add: ceiling_le_iff)
    moreover have "0 \<le> \<lceil>x\<rceil>" using x0 by linarith
    ultimately show ?thesis using float64_le_int[of x "\<lceil>x\<rceil>"] by (simp add: le_of_int_ceiling)
  qed
  have gap: "of_int (\<lceil>x\<rceil> - 1) + 1 / 50 \<le> x"
  proof -
    have "of_int (\<lceil>x\<rceil> - 1) < x" by linarith
    then have "of_int (\<lceil>x\<rceil> - 1) * of_int p < (of_nat t :: rat)"
      using p by (simp add: x_def pos_less_divide_eq)
    then have "of_int ((\<lceil>x\<rceil> - 1) * p) < (of_int (int t) :: rat)" by simp
    then have "(\<lceil>x\<rceil> - 1) * p < int t" by (simp only: of_int_less_iff)
    then have "(\<lceil>x\<rceil> - 1) * p + 1 \<le> int t" by simp
    then have "of_int ((\<lceil>x\<rceil> - 1) * p + 1) \<le> (of_int (int t) :: rat)" by (simp only: of_int_le_iff)
    then have "of_int (\<lceil>x\<rceil> - 1) * of_int p + 1 \<le> (of_nat t :: rat)" by simp
    then have "(of_int (\<lceil>x\<rceil> - 1) * of_int p + 1) / of_int p \<le> x"
      unfolding x_def using p by (intro divide_right_mono) auto
    moreover have "(of_int (\<lceil>x\<rceil> - 1) * of_int p + 1) / of_int p = of_int (\<lceil>x\<rceil> - 1) + 1 / (of_int p :: rat)"
      using p by (simp add: add_divide_distrib)
    moreover have "1 / 50 \<le> 1 / (of_int p :: rat)"
      by (rule divide_left_mono) (use assms(3,4) p in auto)
    ultimately show ?thesis by linarith
  qed
  have "\<bar>float64 x - x\<bar> \<le> x / 2 ^ 53" using x0 by (intro float64_error) simp
  moreover have "x / 2 ^ 53 \<le> 500 / 2 ^ 53" using x500 by (simp add: divide_right_mono)
  moreover have "(500 / 2 ^ 53 :: rat) < 1 / 50" by simp
  ultimately have "of_int (\<lceil>x\<rceil> - 1) < float64 x" using gap by linarith
  with up have "\<lceil>float64 x\<rceil> = \<lceil>x\<rceil>" by (intro ceiling_unique) auto
  then show ?thesis by (simp add: x_def)
qed

definition rank_key :: "compatibility_score \<times> safe_profile \<Rightarrow> rat \<times> uuid" where
  "rank_key item = (- cs_precise_score (fst item), sp_id (snd item))"

text \<open>The ranking of a pool: the scored candidates, best first, ties by profile id.\<close>

definition scored_candidate ::
    "unicode_db \<Rightarrow> tz_db \<Rightarrow> eligible_matching_principal \<Rightarrow> safe_profile \<Rightarrow> date \<Rightarrow> eligible_matching_candidate
       \<Rightarrow> compatibility_score \<times> safe_profile" where
  "scored_candidate uni tz current me week c =
     (projr (score_eligible_pair uni tz current (cand_principal c) me (cand_profile c) week), cand_profile c)"

definition ranking ::
    "unicode_db \<Rightarrow> tz_db \<Rightarrow> eligible_matching_principal \<Rightarrow> safe_profile \<Rightarrow> date
       \<Rightarrow> eligible_matching_candidate list \<Rightarrow> (compatibility_score \<times> safe_profile) list" where
  "ranking uni tz current me week pool = sort_key rank_key (map (scored_candidate uni tz current me week) pool)"

lemma candidate_scores:
  assumes "load_matching_scoring_profiles tz db current locale limit = Inr (Some me, pool)"
    and "py_weekday week = 0" "c \<in> set pool"
  shows "score_eligible_pair uni tz current (cand_principal c) me (cand_profile c) week =
      Inr (fst (scored_candidate uni tz current me week c))"
    and "cs_precise_score (fst (scored_candidate uni tz current me week c)) = exact_score uni tz week me (cand_profile c)"
proof -
  have "require_eligible_safe_pair current (cand_principal c) me (cand_profile c) = Inr ()"
    using pool_aligned[OF assms(1)] pool_requester[OF assms(1)] assms(3)
    by (auto simp: require_eligible_safe_pair_def list_all_iff)
  from score_run[OF assms(2) this, of uni tz]
  show "score_eligible_pair uni tz current (cand_principal c) me (cand_profile c) week =
      Inr (fst (scored_candidate uni tz current me week c))"
    and "cs_precise_score (fst (scored_candidate uni tz current me week c)) = exact_score uni tz week me (cand_profile c)"
    by (auto simp: scored_candidate_def)
qed

lemma page_run:
  assumes "load_matching_scoring_profiles tz db current locale (int MAX_RECOMMENDATION_CANDIDATES + 1) = Inr (Some me, pool)"
    and "length pool \<le> MAX_RECOMMENDATION_CANDIDATES" "py_weekday week = 0"
    and "1 \<le> page" "1 \<le> page_size" "page_size \<le> MAX_RECOMMENDATION_PAGE_SIZE"
  shows "list_ranked_matching_recommendations uni tz db current locale page page_size week =
     Inr \<lparr>rl_items = map recommendation_of (take (nat page_size) (drop (nat ((page - 1) * page_size))
              (ranking uni tz current me week pool))),
          rl_page = page, rl_page_size = page_size, rl_total = int (length pool),
          rl_total_pages = \<lceil>of_nat (length pool) / (of_int page_size :: rat)\<rceil>,
          rl_reference_week_start = week\<rparr>"
proof -
  let ?sc = "scored_candidate uni tz current me week"
  have scored: "emap (\<lambda>candidate.
          ebind (score_eligible_pair uni tz current (cand_principal candidate) me (cand_profile candidate) week)
            (\<lambda>score. Inr (score, cand_profile candidate))) pool = Inr (map ?sc pool)"
    by (rule emap_all) (simp add: candidate_scores(1)[OF assms(1,3)], simp add: scored_candidate_def)
  have items: "emap matching_recommendation_model (take n (drop k (ranking uni tz current me week pool))) =
      Inr (map recommendation_of (take n (drop k (ranking uni tz current me week pool))))" for n k
  proof (rule emap_all)
    fix x assume "x \<in> set (take n (drop k (ranking uni tz current me week pool)))"
    then have "x \<in> set (ranking uni tz current me week pool)" by (blast dest: in_set_takeD in_set_dropD)
    then obtain c where c: "c \<in> set pool" "x = ?sc c" by (auto simp: ranking_def)
    from recommendation_ok[OF candidate_scores(1)[OF assms(1,3) c(1)], of uni "cand_profile c"]
    show "matching_recommendation_model x = Inr (recommendation_of x)"
      by (simp add: c(2) scored_candidate_def)
  qed
  have pages: "(if length pool \<noteq> 0 then \<lceil>float64 (of_nat (length pool) / of_int page_size)\<rceil> else 0) =
      \<lceil>of_nat (length pool) / (of_int page_size :: rat)\<rceil>"
    using float64_ceiling[of "length pool" page_size] assms(2,5,6)
    by (simp add: MAX_RECOMMENDATION_CANDIDATES_def MAX_RECOMMENDATION_PAGE_SIZE_def)
  have "0 \<le> \<lceil>of_nat (length pool) / (of_int page_size :: rat)\<rceil>"
    using assms(5) by (simp add: le_ceiling_iff less_le_trans[of "-1" 0])
  then have model: "recommendation_list_model \<lparr>rl_items = items, rl_page = page, rl_page_size = page_size,
      rl_total = int (length pool), rl_total_pages = \<lceil>of_nat (length pool) / (of_int page_size :: rat)\<rceil>,
      rl_reference_week_start = week\<rparr> = Inr \<lparr>rl_items = items, rl_page = page, rl_page_size = page_size,
      rl_total = int (length pool), rl_total_pages = \<lceil>of_nat (length pool) / (of_int page_size :: rat)\<rceil>,
      rl_reference_week_start = week\<rparr>" for items
    using assms(4-6) by (simp add: recommendation_list_model_def require_value_def MAX_RECOMMENDATION_PAGE_SIZE_def)
  have guards: "(page < 1) = False" "(\<not> (1 \<le> page_size \<and> page_size \<le> MAX_RECOMMENDATION_PAGE_SIZE)) = False"
      "(py_weekday week \<noteq> 0) = False" "(MAX_RECOMMENDATION_CANDIDATES < length pool) = False"
    using assms(2-6) by auto
  have total: "length (ranking uni tz current me week pool) = length pool" by (simp add: ranking_def)
  have sorted: "sort_key (\<lambda>item. (- cs_precise_score (fst item), sp_id (snd item))) (map ?sc pool) =
      ranking uni tz current me week pool"
    by (simp only: ranking_def rank_key_def[abs_def])
  show ?thesis
    unfolding list_ranked_matching_recommendations_def guards if_False assms(1) ebind_simps prod.case
      option.case scored Let_def sorted total items pages
    by (rule model)
qed

lemma ranking_facts:
  assumes "db_ok db" "load_matching_scoring_profiles tz db current locale limit = Inr (Some me, pool)"
  shows "sorted_wrt (<) (map rank_key (ranking uni tz current me week pool))"
    and "distinct (map snd (ranking uni tz current me week pool))"
    and "set (map snd (ranking uni tz current me week pool)) = cand_profile ` set pool"
proof -
  let ?r = "ranking uni tz current me week pool"
  have "distinct (map (\<lambda>x. sp_id (snd x)) (map (scored_candidate uni tz current me week) pool))"
    using pool_distinct[OF assms] by (simp add: comp_def scored_candidate_def)
  then have ids: "distinct (map (\<lambda>x. sp_id (snd x)) ?r)"
    using distinct_map_select_by[of "\<lambda>x. sp_id (snd x)" "map (scored_candidate uni tz current me week) pool" rank_key "\<lambda>_. True"]
    by (simp add: ranking_def select_by_def)
  then have "distinct (map rank_key ?r)"
    by (auto simp: distinct_map inj_on_def rank_key_def)
  then show "sorted_wrt (<) (map rank_key ?r)"
    by (simp add: strict_sorted_iff ranking_def)
  show "distinct (map snd ?r)"
    using ids by (auto simp: distinct_map inj_on_def)
  show "set (map snd ?r) = cand_profile ` set pool"
    by (force simp: ranking_def scored_candidate_def image_iff)
qed

definition page_items ::
    "unicode_db \<Rightarrow> tz_db \<Rightarrow> database \<Rightarrow> eligible_matching_principal \<Rightarrow> catalog_locale \<Rightarrow> int \<Rightarrow> date \<Rightarrow> int
       \<Rightarrow> matching_recommendation list" where
  "page_items uni tz db current locale page_size week page =
     (case list_ranked_matching_recommendations uni tz db current locale page page_size week of
        Inl _ \<Rightarrow> [] | Inr r \<Rightarrow> rl_items r)"

lemma pages_cover:
  assumes "1 \<le> n"
  shows "concat (map (\<lambda>k. take (nat n) (drop (nat (int k * n)) xs)) [0..<nat \<lceil>of_nat (length xs) / (of_int n :: rat)\<rceil>]) = xs"
proof -
  let ?m = "nat \<lceil>of_nat (length xs) / (of_int n :: rat)\<rceil>"
  have "nat (int k * n) = k * nat n" for k using assms by (simp add: nat_mult_distrib)
  then have "concat (map (\<lambda>k. take (nat n) (drop (nat (int k * n)) xs)) [0..<?m]) = take (?m * nat n) xs"
    by (simp only: pages_concat)
  moreover have "length xs \<le> ?m * nat n"
  proof -
    have n: "0 < (of_int n :: rat)" using assms by simp
    have c: "of_nat (length xs) / of_int n \<le> (of_int \<lceil>of_nat (length xs) / (of_int n :: rat)\<rceil> :: rat)"
      by (rule le_of_int_ceiling)
    then have "(of_nat (length xs) :: rat) \<le> of_int (\<lceil>of_nat (length xs) / (of_int n :: rat)\<rceil> * n)"
      using c unfolding pos_divide_le_eq[OF n] by simp
    then have "(of_int (int (length xs)) :: rat) \<le> of_int (\<lceil>of_nat (length xs) / (of_int n :: rat)\<rceil> * n)" by simp
    then have "int (length xs) \<le> \<lceil>of_nat (length xs) / (of_int n :: rat)\<rceil> * n" by (simp only: of_int_le_iff)
    moreover have "0 \<le> \<lceil>of_nat (length xs) / (of_int n :: rat)\<rceil>"
      using n by (simp add: le_ceiling_iff less_le_trans[of "-1" 0])
    ultimately show ?thesis using assms by (simp add: nat_mult_distrib[symmetric] le_nat_iff)
  qed
  ultimately show ?thesis by simp
qed

text \<open>C38: Within the limits a recommendation page never fails: for a loaded pool of at most 500 candidates, any page
  from 1 on of 1 to 50 items is returned, its items are that slice of one ranking, no response check fires although
  the numbers are rounded floats, and the page count is the exact ceiling of total / page size. The ranking is strictly
  ordered by (descending exact score, ascending profile id).\<close>

theorem recommendation_page_is_ranking_slice:
  assumes "db_ok db"
    and "load_matching_scoring_profiles tz db current locale (int MAX_RECOMMENDATION_CANDIDATES + 1) = Inr (Some me, pool)"
    and "length pool \<le> MAX_RECOMMENDATION_CANDIDATES" "py_weekday week = 0"
    and "1 \<le> page" "1 \<le> page_size" "page_size \<le> MAX_RECOMMENDATION_PAGE_SIZE"
  shows "(\<exists>r. list_ranked_matching_recommendations uni tz db current locale page page_size week = Inr r
       \<and> rl_items r = map recommendation_of (take (nat page_size) (drop (nat ((page - 1) * page_size))
              (ranking uni tz current me week pool)))
       \<and> rl_total r = int (length pool)
       \<and> rl_total_pages r = \<lceil>of_nat (length pool) / (of_int page_size :: rat)\<rceil>)
     \<and> sorted_wrt (<) (map rank_key (ranking uni tz current me week pool))"
  using page_run[OF assms(2-7), of uni] ranking_facts(1)[OF assms(1,2), of uni week] by simp

lemma witness_limits:
  "int MAX_RECOMMENDATION_CANDIDATES + 1 = 501" "py_weekday 4 = 0" "(1::int) \<le> 1" "(1::int) \<le> 20"
  "(20::int) \<le> MAX_RECOMMENDATION_PAGE_SIZE" "length [c] \<le> MAX_RECOMMENDATION_CANDIDATES"
  by (simp_all add: MAX_RECOMMENDATION_CANDIDATES_def MAX_RECOMMENDATION_PAGE_SIZE_def py_weekday_def)

theorem recommendation_page_is_ranking_slice_witness:
  "\<exists>r. list_ranked_matching_recommendations ascii_unicode_db witness_tz witness_population witness_requester Locale_en 1 20 4
     = Inr r \<and> rl_total r = 1 \<and> rl_total_pages r = 1"
proof -
  obtain me c where run: "load_matching_scoring_profiles witness_tz witness_population witness_requester Locale_en
      (int MAX_RECOMMENDATION_CANDIDATES + 1) = Inr (Some me, [c])"
    using witness_load[of "int MAX_RECOMMENDATION_CANDIDATES + 1"] by auto
  have "\<lceil>1 / (20 :: rat)\<rceil> = 1" by (simp add: ceiling_eq_iff)
  with recommendation_page_is_ranking_slice[OF witness_population_ok run witness_limits(6,2,3,4,5),
      of ascii_unicode_db]
  show ?thesis by auto
qed

text \<open>Turning through all pages of a stable pool shows every candidate exactly once: the concatenation of pages 1 to
  total_pages is duplicate free, holds exactly the candidates of the pool, and is the whole ranking in order.\<close>

theorem recommendation_pages_partition:
  assumes "db_ok db"
    and "load_matching_scoring_profiles tz db current locale (int MAX_RECOMMENDATION_CANDIDATES + 1) = Inr (Some me, pool)"
    and "length pool \<le> MAX_RECOMMENDATION_CANDIDATES" "py_weekday week = 0"
    and "1 \<le> page_size" "page_size \<le> MAX_RECOMMENDATION_PAGE_SIZE"
    and "total_pages = \<lceil>of_nat (length pool) / (of_int page_size :: rat)\<rceil>"
    and "shown = concat (map (\<lambda>k. page_items uni tz db current locale page_size week (int k + 1)) [0..<nat total_pages])"
  shows "shown = map recommendation_of (ranking uni tz current me week pool)
     \<and> distinct (map rec_profile shown) \<and> set (map rec_profile shown) = cand_profile ` set pool"
proof -
  let ?r = "ranking uni tz current me week pool"
  have page: "page_items uni tz db current locale page_size week (int k + 1) =
      map recommendation_of (take (nat page_size) (drop (nat (int k * page_size)) ?r))" for k
    using page_run[OF assms(2-4) _ assms(5,6), of "int k + 1" uni] by (simp add: page_items_def)
  have "length ?r = length pool" by (simp add: ranking_def)
  then have "concat (map (\<lambda>k. take (nat page_size) (drop (nat (int k * page_size)) ?r)) [0..<nat total_pages]) = ?r"
    using pages_cover[OF assms(5), of ?r] by (simp add: assms(7))
  then have shown: "shown = map recommendation_of ?r"
    unfolding assms(8) page by (metis (no_types, lifting) map_concat map_map comp_def list.map_cong0)
  have profiles: "map rec_profile shown = map snd ?r" by (simp add: shown recommendation_of_def Let_def)
  show ?thesis unfolding profiles using shown ranking_facts(2,3)[OF assms(1,2), of uni week] by blast
qed

theorem recommendation_pages_partition_witness:
  "length (concat (map (\<lambda>k. page_items ascii_unicode_db witness_tz witness_population witness_requester Locale_en 20 4
      (int k + 1)) [0..<1])) = 1"
proof -
  obtain me c where run: "load_matching_scoring_profiles witness_tz witness_population witness_requester Locale_en
      (int MAX_RECOMMENDATION_CANDIDATES + 1) = Inr (Some me, [c])"
    using witness_load[of "int MAX_RECOMMENDATION_CANDIDATES + 1"] by auto
  have one: "(1::int) = \<lceil>of_nat (length [c]) / (of_int 20 :: rat)\<rceil>" by (simp add: ceiling_eq_iff)
  from recommendation_pages_partition[OF witness_population_ok run witness_limits(6,2,4,5) one refl, of ascii_unicode_db]
  have "concat (map (\<lambda>k. page_items ascii_unicode_db witness_tz witness_population witness_requester Locale_en 20 4
      (int k + 1)) [0..<nat 1]) = map recommendation_of (ranking ascii_unicode_db witness_tz witness_requester me 4 [c])"
    by blast
  then show ?thesis by (simp add: ranking_def)
qed

text \<open>The public number of an exact value between 0 and 100 is within one millionth of it and stays inside the
  range of the response schema: [0, n] for any integer bound n of the value.\<close>

theorem public_number_accurate:
  assumes "0 \<le> x" "x \<le> of_int n" "0 \<le> n" "n \<le> 100"
  shows "\<bar>public_number x - x\<bar> \<le> 1 / 10 ^ 6 \<and> 0 \<le> public_number x \<and> public_number x \<le> of_int n"
proof -
  have "x \<le> 100" using assms(2,4) by (metis of_int_le_iff of_int_numeral order_trans)
  with assms public_number_bounds[OF assms] public_number_error[of x] show ?thesis by simp
qed

theorem public_number_accurate_witness:
  "public_number (1/3) \<le> 1 \<and> \<bar>public_number (1/3) - 1/3\<bar> \<le> 1 / 10 ^ 6"
  using public_number_accurate[of "1/3" 1] by simp

end
