(* ===== verification/Email_Outbox.thy ===== *)
theory Email_Outbox
  imports Database
begin

text \<open>
  The transactional outbox (\<open>services/email_outbox.py\<close>): validation and enqueueing of events, leases,
  delivery with bounded retries, and the canonical e-mail address of \<open>services/auth.py\<close>. The e-mail
  provider, the template renderers and the delivery resolvers are arguments: they are protocols the
  worker only calls. A worker's clock calls are numbered, so any sequence of readings is allowed.
\<close>

section \<open>Canonical addresses\<close>

definition MAX_EMAIL_LENGTH :: nat where
  "MAX_EMAIL_LENGTH = 254"

definition MAX_EMAIL_LOCAL_PART_LENGTH :: nat where
  "MAX_EMAIL_LOCAL_PART_LENGTH = 64"

definition ascii_upper :: "nat \<Rightarrow> bool" where
  "ascii_upper c \<longleftrightarrow> 65 \<le> c \<and> c \<le> 90"

definition ascii_alnum :: "nat \<Rightarrow> bool" where
  "ascii_alnum c \<longleftrightarrow> ascii_upper c \<or> ascii_lower c \<or> ascii_digit c"

text \<open>The classes of \<open>_EMAIL_LOCAL_PART_PATTERN\<close> and \<open>_EMAIL_DOMAIN_LABEL_PATTERN\<close>.\<close>

definition email_local_char :: "nat \<Rightarrow> bool" where
  "email_local_char c \<longleftrightarrow> ascii_alnum c \<or> c \<in> set (u ''!#$%&*+/=?^_`{|}~.-'') \<or> c = 39"

definition email_domain_label :: "pystr \<Rightarrow> bool" where
  "email_domain_label s \<longleftrightarrow> s \<noteq> [] \<and> length s \<le> 63 \<and> ascii_alnum (hd s) \<and> ascii_alnum (last s)
     \<and> list_all (\<lambda>c. ascii_alnum c \<or> c = 45) s"

text \<open>\<open>str.casefold()\<close> on ASCII.\<close>

definition ascii_casefold :: "nat \<Rightarrow> nat" where
  "ascii_casefold c = (if ascii_upper c then c + 32 else c)"

definition canonicalize_email :: "pystr \<Rightarrow> exn + pystr" where
  "canonicalize_email email =
     (let candidate = py_strip email in
      if candidate = [] \<or> \<not> list_all (\<lambda>c. c < 128) candidate \<or> MAX_EMAIL_LENGTH < length candidate
         \<or> count_list candidate 64 \<noteq> 1
      then Inl EmailValidationError
      else let local_part = takeWhile (\<lambda>c. c \<noteq> 64) candidate;
               domain = tl (dropWhile (\<lambda>c. c \<noteq> 64) candidate);
               domain_labels = split_on 46 domain in
           if local_part = [] \<or> MAX_EMAIL_LOCAL_PART_LENGTH < length local_part
              \<or> hd local_part = 46 \<or> last local_part = 46 \<or> is_infix [46, 46] local_part
              \<or> \<not> list_all email_local_char local_part
              \<or> length domain_labels < 2 \<or> \<not> list_all email_domain_label domain_labels
           then Inl EmailValidationError
           else Inr (map ascii_casefold local_part @ [64] @ map ascii_casefold domain))"

section \<open>Enqueueing\<close>

definition OUTBOX_LEASE_TTL :: int where
  "OUTBOX_LEASE_TTL = 5 * 60 * 1000000"

definition MAX_DELIVERY_ATTEMPTS :: int where
  "MAX_DELIVERY_ATTEMPTS = 5"

definition MAX_OUTBOX_BATCH_SIZE :: int where
  "MAX_OUTBOX_BATCH_SIZE = 100"

definition DEFAULT_OUTBOX_BATCH_SIZE :: int where
  "DEFAULT_OUTBOX_BATCH_SIZE = 20"

definition MAX_RETRY_DELAY :: int where
  "MAX_RETRY_DELAY = 3600 * 1000000"

text \<open>\<open>_EVENT_TYPE\<close>: \<open>^[A-Z][A-Z0-9_]{0,99}$\<close> with \<open>fullmatch\<close>.\<close>

fun event_type_format :: "pystr \<Rightarrow> bool" where
  "event_type_format [] = False"
| "event_type_format (c # cs) =
     (ascii_upper c \<and> length cs \<le> 99 \<and> list_all (\<lambda>c. ascii_upper c \<or> ascii_digit c \<or> c = 95) cs)"

text \<open>
  \<open>_SENSITIVE_PAYLOAD_KEY.search\<close>: the pattern is ASCII, and \<open>re.IGNORECASE\<close> on \<open>str\<close> identifies with an
  ASCII letter its other case and four more code points (U+0130, U+0131, U+017F and U+212A).
\<close>

definition re_ignorecase :: "nat \<Rightarrow> nat" where
  "re_ignorecase c =
     (if ascii_upper c then c + 32 else if c = 304 \<or> c = 305 then 105 else if c = 383 then 115
      else if c = 8490 then 107 else c)"

definition SENSITIVE_WORDS :: "pystr list" where
  "SENSITIVE_WORDS = map u [''token'', ''secret'', ''password'', ''authorization'', ''credential'',
     ''apikey'', ''api_key'', ''api-key'']"

definition sensitive_key :: "pystr \<Rightarrow> bool" where
  "sensitive_key key \<longleftrightarrow> list_ex (\<lambda>word. is_infix word (map re_ignorecase key)) SENSITIVE_WORDS"

fun contains_sensitive_key :: "pyval \<Rightarrow> bool"
  and sensitive_items :: "(pyval \<times> pyval) list \<Rightarrow> bool"
  and sensitive_elements :: "pyval list \<Rightarrow> bool" where
  "contains_sensitive_key (PyDict items) = sensitive_items items"
| "contains_sensitive_key (PyList xs) = sensitive_elements xs"
| "contains_sensitive_key (PyTuple xs) = sensitive_elements xs"
| "contains_sensitive_key _ = False"
| "sensitive_items [] = False"
| "sensitive_items ((key, nested) # items) =
     ((case key of PyStr s \<Rightarrow> sensitive_key s | _ \<Rightarrow> True) \<or> contains_sensitive_key nested \<or> sensitive_items items)"
| "sensitive_elements [] = False"
| "sensitive_elements (x # xs) = (contains_sensitive_key x \<or> sensitive_elements xs)"

text \<open>
  \<open>json.dumps(..., allow_nan=False)\<close> accepts the value: only JSON types and finite floats. The keys are
  strings here, because \<open>_contains_sensitive_key\<close> has rejected any other key.
\<close>

fun json_safe :: "pyval \<Rightarrow> bool"
  and json_safe_items :: "(pyval \<times> pyval) list \<Rightarrow> bool"
  and json_safe_elements :: "pyval list \<Rightarrow> bool" where
  "json_safe (PyFloat f) = (case f of Finite _ \<Rightarrow> True | _ \<Rightarrow> False)"
| "json_safe (PyDict items) = json_safe_items items"
| "json_safe (PyList xs) = json_safe_elements xs"
| "json_safe (PyTuple xs) = json_safe_elements xs"
| "json_safe PyOther = False"
| "json_safe _ = True"
| "json_safe_items [] = True"
| "json_safe_items ((key, nested) # items) = (json_safe nested \<and> json_safe_items items)"
| "json_safe_elements [] = True"
| "json_safe_elements (x # xs) = (json_safe x \<and> json_safe_elements xs)"

definition validated_payload :: "(pyval \<times> pyval) list \<Rightarrow> exn + pyval" where
  "validated_payload payload =
     (if contains_sensitive_key (PyDict payload) then Inl OutboxValidationError
      else if \<not> json_safe (PyDict payload) then Inl OutboxValidationError
      else Inr (PyDict payload))"

definition validate_identifier :: "nat \<Rightarrow> pystr \<Rightarrow> exn + pystr" where
  "validate_identifier maximum value =
     (let normalized = py_strip value in
      if normalized = [] \<or> maximum < length normalized \<or> 13 \<in> set normalized \<or> 10 \<in> set normalized
      then Inl OutboxValidationError else Inr normalized)"

text \<open>\<open>fresh\<close> is the primary key drawn for the row.\<close>

definition enqueue_transactional_email ::
    "uuid \<Rightarrow> pystr \<Rightarrow> uuid \<Rightarrow> uuid option \<Rightarrow> pystr \<Rightarrow> pystr \<Rightarrow> (pyval \<times> pyval) list \<Rightarrow> clock_value
       \<Rightarrow> (exn, database, transactional_outbox) txn" where
  "enqueue_transactional_email fresh event_type aggregate_id recipient_user_id recipient_email idempotency_key
       payload clock =
     bind_tx (lift_tx (validate_identifier 100 event_type)) (\<lambda>normalized_event_type.
     bind_tx (require_tx (event_type_format normalized_event_type) OutboxValidationError) (\<lambda>_.
     bind_tx (lift_tx (validate_identifier 256 idempotency_key)) (\<lambda>normalized_key.
     bind_tx (rethrow_tx (\<lambda>e. if e = EmailValidationError then OutboxValidationError else e)
                (lift_tx (canonicalize_email recipient_email))) (\<lambda>normalized_email.
     bind_tx (lift_tx (aware ValueError clock)) (\<lambda>current_time.
     bind_tx (lift_tx (validated_payload payload)) (\<lambda>validated.
     let outbox = \<lparr>obx_id = fresh, obx_event_type = normalized_event_type, obx_aggregate_id = aggregate_id,
           obx_recipient_user_id = recipient_user_id, obx_recipient_email = normalized_email,
           obx_idempotency_key = normalized_key, obx_payload = validated, obx_attempts = 0,
           obx_next_attempt_at = current_time, obx_lease_owner = None, obx_lease_expires_at = None,
           obx_sent_at = None, obx_failed_at = None, obx_provider_message_id = None,
           obx_last_error_code = None, obx_created_at = current_time, obx_updated_at = current_time,
           obx_deleted_at = None\<rparr>
     in bind_tx (insert_outbox outbox) (\<lambda>_. return_tx outbox)))))))"

section \<open>Leases\<close>

definition outbox_ready :: "instant \<Rightarrow> transactional_outbox \<Rightarrow> bool" where
  "outbox_ready current_time r \<longleftrightarrow>
     obx_deleted_at r = None \<and> obx_sent_at r = None \<and> obx_failed_at r = None
     \<and> obx_next_attempt_at r \<le> current_time
     \<and> (case obx_lease_expires_at r of None \<Rightarrow> True | Some t \<Rightarrow> t \<le> current_time)"

definition lease_row :: "pystr \<Rightarrow> instant \<Rightarrow> transactional_outbox \<Rightarrow> transactional_outbox" where
  "lease_row owner current_time r = r\<lparr>obx_lease_owner := Some owner,
     obx_lease_expires_at := Some (current_time + OUTBOX_LEASE_TTL), obx_updated_at := current_time\<rparr>"

text \<open>\<open>locked\<close> says which rows other transactions hold at the moment of the query.\<close>

definition claim_transactional_outbox ::
    "(uuid \<Rightarrow> bool) \<Rightarrow> pystr \<Rightarrow> int \<Rightarrow> clock_value \<Rightarrow> (exn, database, uuid list) txn" where
  "claim_transactional_outbox locked worker_id batch_size clock =
     bind_tx (lift_tx (validate_identifier 100 worker_id)) (\<lambda>normalized_worker_id.
     bind_tx (require_tx (1 \<le> batch_size \<and> batch_size \<le> MAX_OUTBOX_BATCH_SIZE) OutboxValidationError) (\<lambda>_.
     bind_tx (lift_tx (aware ValueError clock)) (\<lambda>current_time.
     bind_tx (query_tx (\<lambda>db. take (nat batch_size)
        (select_by (\<lambda>r. (obx_next_attempt_at r, obx_id r))
           (\<lambda>r. outbox_ready current_time r \<and> \<not> locked (obx_id r)) (db_outbox db)))) (\<lambda>claimed.
     bind_tx (for_tx flush_outbox (map (lease_row normalized_worker_id current_time) claimed)) (\<lambda>_.
     return_tx (map obx_id claimed))))))"

section \<open>Delivery\<close>

record rendered_email =
  ren_subject :: pystr
  ren_text_body :: pystr
  ren_html_body :: "pystr option"

record outbound_email =
  out_recipient_email :: pystr
  out_subject :: pystr
  out_text_body :: pystr
  out_html_body :: "pystr option"

definition outbound_email_model :: "outbound_email \<Rightarrow> exn + outbound_email" where
  "outbound_email_model m =
     (if py_strip (out_recipient_email m) = [] \<or> 320 < length (out_recipient_email m)
         \<or> 13 \<in> set (out_recipient_email m) \<or> 10 \<in> set (out_recipient_email m) then Inl ValueError
      else if py_strip (out_subject m) = [] \<or> 13 \<in> set (out_subject m) \<or> 10 \<in> set (out_subject m)
      then Inl ValueError
      else if py_strip (out_text_body m) = [] then Inl ValueError
      else if (case out_html_body m of None \<Rightarrow> False | Some h \<Rightarrow> py_strip h = []) then Inl ValueError
      else Inr m)"

text \<open>
  The constructors of \<open>EmailTemplateRegistry\<close> and \<open>EmailDeliveryResolverRegistry\<close>: an allowlist from event
  types to entries, refused when a type is malformed or repeated.
\<close>

fun email_registry :: "(pystr \<times> 'r) list \<Rightarrow> exn + (pystr \<times> 'r) list" where
  "email_registry [] = Inr []"
| "email_registry ((event_type, entry) # rest) =
     (if \<not> event_type_format event_type \<or> event_type \<in> set (map fst rest) then Inl ValueError
      else ebind (email_registry rest) (\<lambda>r. Inr ((event_type, entry) # r)))"

type_synonym renderer = "pyval \<Rightarrow> exn + rendered_email"
type_synonym resolver = "database \<Rightarrow> uuid \<Rightarrow> uuid option \<Rightarrow> pyval \<Rightarrow> exn + pystr \<times> pyval"

definition render_template :: "(pystr \<times> renderer) list \<Rightarrow> pystr \<Rightarrow> pyval \<Rightarrow> exn + rendered_email" where
  "render_template templates event_type payload =
     (case map_of templates event_type of
        None \<Rightarrow> Inl (EmailTemplateError (u ''template_unregistered''))
      | Some renderer \<Rightarrow>
          (case ebind (renderer payload) (\<lambda>content.
                  ebind (outbound_email_model \<lparr>out_recipient_email = u ''validation@example.invalid'',
                    out_subject = ren_subject content, out_text_body = ren_text_body content,
                    out_html_body = ren_html_body content\<rparr>) (\<lambda>_. Inr content)) of
             Inr content \<Rightarrow> Inr content
           | Inl (EmailTemplateError code) \<Rightarrow> Inl (EmailTemplateError code)
           | Inl _ \<Rightarrow> Inl (EmailTemplateError (u ''template_render_failed''))))"

definition resolve_delivery ::
    "(pystr \<times> resolver) list \<Rightarrow> database \<Rightarrow> transactional_outbox \<Rightarrow> exn + pystr \<times> pyval" where
  "resolve_delivery resolvers db r =
     (case map_of resolvers (obx_event_type r) of
        None \<Rightarrow> Inr (obx_recipient_email r, obx_payload r)
      | Some resolver \<Rightarrow> resolver db (obx_aggregate_id r) (obx_recipient_user_id r) (obx_payload r))"

record email_work_item =
  item_outbox_id :: uuid
  item_event_type :: pystr
  item_recipient_email :: pystr
  item_idempotency_key :: pystr
  item_payload :: pyval

definition load_work_item ::
    "database \<Rightarrow> uuid \<Rightarrow> pystr \<Rightarrow> clock_value \<Rightarrow> (pystr \<times> resolver) list \<Rightarrow> exn + email_work_item option" where
  "load_work_item db outbox_id worker_id clock resolvers =
     ebind (aware ValueError clock) (\<lambda>current_time.
     case find (\<lambda>r. obx_id r = outbox_id) (db_outbox db) of
       None \<Rightarrow> Inr None
     | Some row \<Rightarrow>
         if obx_deleted_at row \<noteq> None \<or> obx_sent_at row \<noteq> None \<or> obx_failed_at row \<noteq> None
            \<or> obx_lease_owner row \<noteq> Some worker_id
            \<or> (case obx_lease_expires_at row of None \<Rightarrow> True | Some t \<Rightarrow> t \<le> current_time)
         then Inr None
         else ebind (resolve_delivery resolvers db row) (\<lambda>(recipient_email, payload).
              Inr (Some \<lparr>item_outbox_id = obx_id row, item_event_type = obx_event_type row,
                item_recipient_email = recipient_email, item_idempotency_key = obx_idempotency_key row,
                item_payload = payload\<rparr>)))"

text \<open>
  A \<open>timedelta\<close> holds the raw delay for at most 40 attempts; the worker asks for it below the fifth only.
\<close>

definition retry_delay :: "int \<Rightarrow> int" where
  "retry_delay attempts = min (2 ^ nat (max (attempts - 1) 0) * 60 * 1000000) MAX_RETRY_DELAY"

datatype delivery_outcome = Outcome_sent | Outcome_retry | Outcome_failed | Outcome_skipped

text \<open>The failure the worker records: an \<open>EmailDeliveryError\<close> or an \<open>EmailTemplateError\<close>.\<close>

datatype delivery_failure = Delivery_failure bool pystr | Template_failure pystr

fun failure_code :: "delivery_failure \<Rightarrow> pystr" where
  "failure_code (Delivery_failure retryable code) = code"
| "failure_code (Template_failure code) = code"

fun failure_retryable :: "delivery_failure \<Rightarrow> bool" where
  "failure_retryable (Delivery_failure retryable code) = retryable"
| "failure_retryable (Template_failure code) = False"

definition finalized_row ::
    "instant \<Rightarrow> pystr option \<Rightarrow> delivery_failure option \<Rightarrow> transactional_outbox
       \<Rightarrow> exn + delivery_outcome \<times> transactional_outbox" where
  "finalized_row current_time provider_message_id failure row =
     (let row' = row\<lparr>obx_attempts := obx_attempts row + 1, obx_lease_owner := None,
            obx_lease_expires_at := None, obx_updated_at := current_time\<rparr>
      in case failure of
           None \<Rightarrow>
             (case provider_message_id of
                None \<Rightarrow> Inl RuntimeError
              | Some i \<Rightarrow> Inr (Outcome_sent, row'\<lparr>obx_sent_at := Some current_time,
                    obx_provider_message_id := Some i, obx_last_error_code := None\<rparr>))
         | Some f \<Rightarrow>
             (let row'' = row'\<lparr>obx_last_error_code := Some (failure_code f)\<rparr>
              in if failure_retryable f \<and> obx_attempts row'' < MAX_DELIVERY_ATTEMPTS
                 then Inr (Outcome_retry, row''\<lparr>obx_next_attempt_at :=
                        current_time + retry_delay (obx_attempts row'')\<rparr>)
                 else Inr (Outcome_failed, row''\<lparr>obx_failed_at := Some current_time\<rparr>)))"

definition finalize_delivery ::
    "uuid \<Rightarrow> pystr \<Rightarrow> pystr option \<Rightarrow> delivery_failure option \<Rightarrow> clock_value
       \<Rightarrow> (exn, database, delivery_outcome) txn" where
  "finalize_delivery outbox_id worker_id provider_message_id failure clock db =
     (case find (\<lambda>r. obx_id r = outbox_id) (db_outbox db) of
        None \<Rightarrow> (Inr Outcome_skipped, db)
      | Some row \<Rightarrow>
          if obx_deleted_at row \<noteq> None \<or> obx_sent_at row \<noteq> None \<or> obx_failed_at row \<noteq> None
             \<or> obx_lease_owner row \<noteq> Some worker_id
          then (Inr Outcome_skipped, db)
          else atomic_tx (bind_tx (lift_tx (aware ValueError clock)) (\<lambda>current_time.
               bind_tx (lift_tx (finalized_row current_time provider_message_id failure row)) (\<lambda>(outcome, row').
               bind_tx (flush_outbox row') (\<lambda>_. return_tx outcome)))) db)"

type_synonym provider = "outbound_email \<Rightarrow> pystr \<Rightarrow> exn + pystr"

text \<open>The \<open>try\<close> block of \<open>_deliver_one\<close>: nothing to do, or what the delivery attempt gave.\<close>

definition attempt_delivery ::
    "database \<Rightarrow> uuid \<Rightarrow> pystr \<Rightarrow> provider \<Rightarrow> (pystr \<times> renderer) list \<Rightarrow> (pystr \<times> resolver) list
       \<Rightarrow> clock_value \<Rightarrow> exn + pystr option" where
  "attempt_delivery db outbox_id worker_id provider templates resolvers clock =
     ebind (load_work_item db outbox_id worker_id clock resolvers) (\<lambda>item.
     case item of
       None \<Rightarrow> Inr None
     | Some i \<Rightarrow>
         ebind (render_template templates (item_event_type i) (item_payload i)) (\<lambda>content.
         ebind (outbound_email_model \<lparr>out_recipient_email = item_recipient_email i,
             out_subject = ren_subject content, out_text_body = ren_text_body content,
             out_html_body = ren_html_body content\<rparr>) (\<lambda>message.
         ebind (provider message (item_idempotency_key i)) (\<lambda>provider_message_id.
         Inr (Some provider_message_id)))))"

fun delivery_failure_of :: "exn \<Rightarrow> delivery_failure" where
  "delivery_failure_of (EmailDeliveryError retryable code) = Delivery_failure retryable code"
| "delivery_failure_of (EmailTemplateError code) = Template_failure code"
| "delivery_failure_of _ = Delivery_failure True (u ''worker_unavailable'')"

definition deliver_one ::
    "uuid \<Rightarrow> pystr \<Rightarrow> provider \<Rightarrow> (pystr \<times> renderer) list \<Rightarrow> (pystr \<times> resolver) list
       \<Rightarrow> clock_value \<Rightarrow> clock_value \<Rightarrow> (exn, database, delivery_outcome) txn" where
  "deliver_one outbox_id worker_id provider templates resolvers load_clock finalize_clock db =
     (case attempt_delivery db outbox_id worker_id provider templates resolvers load_clock of
        Inr None \<Rightarrow> (Inr Outcome_skipped, db)
      | Inr (Some i) \<Rightarrow> finalize_delivery outbox_id worker_id (Some i) None finalize_clock db
      | Inl e \<Rightarrow> finalize_delivery outbox_id worker_id None (Some (delivery_failure_of e)) finalize_clock db)"

record outbox_worker_report =
  owr_claimed :: nat
  owr_sent :: nat
  owr_retry_scheduled :: nat
  owr_terminal_failed :: nat
  owr_skipped :: nat

definition process_transactional_outbox_batch ::
    "(uuid \<Rightarrow> bool) \<Rightarrow> pystr \<Rightarrow> provider \<Rightarrow> (pystr \<times> renderer) list \<Rightarrow> (pystr \<times> resolver) list
       \<Rightarrow> int \<Rightarrow> (nat \<Rightarrow> clock_value) \<Rightarrow> (exn, database, outbox_worker_report) txn" where
  "process_transactional_outbox_batch locked worker_id provider templates resolvers batch_size clock =
     bind_tx (atomic_tx (claim_transactional_outbox locked worker_id batch_size (clock 0))) (\<lambda>claimed_ids.
     bind_tx (for_tx (\<lambda>(k, outbox_id). deliver_one outbox_id worker_id provider templates resolvers
                        (clock (2 * k + 1)) (clock (2 * k + 2)))
                (zip [0..<length claimed_ids] claimed_ids)) (\<lambda>outcomes.
     return_tx \<lparr>owr_claimed = length claimed_ids, owr_sent = count_list outcomes Outcome_sent,
       owr_retry_scheduled = count_list outcomes Outcome_retry,
       owr_terminal_failed = count_list outcomes Outcome_failed,
       owr_skipped = count_list outcomes Outcome_skipped\<rparr>))"

section \<open>Canonical addresses are fixed points\<close>

lemma ascii_casefold_simps [simp]:
  "ascii_casefold (ascii_casefold c) = ascii_casefold c"
  "ascii_casefold c = 64 \<longleftrightarrow> c = 64" "ascii_casefold c = 46 \<longleftrightarrow> c = 46"
  "ascii_casefold c < 128 \<longleftrightarrow> c < 128"
  by (auto simp: ascii_casefold_def ascii_upper_def)

lemma ascii_alnum_fold [simp]: "ascii_alnum (ascii_casefold c) \<longleftrightarrow> ascii_alnum c"
  by (auto simp: ascii_casefold_def ascii_alnum_def ascii_upper_def ascii_lower_def ascii_digit_def)

lemma local_char_fold [simp]: "email_local_char (ascii_casefold c) \<longleftrightarrow> email_local_char c"
proof (cases "ascii_upper c")
  case True
  then have "email_local_char c" by (simp add: email_local_char_def ascii_alnum_def)
  moreover have "ascii_alnum (ascii_casefold c)" using True by (simp only: ascii_alnum_fold) (simp add: ascii_alnum_def)
  ultimately show ?thesis by (simp add: email_local_char_def)
qed (simp add: ascii_casefold_def)

lemma casefold_map_id [simp]: "map ascii_casefold (map ascii_casefold s) = map ascii_casefold s"
  by simp

lemma split_on_map: "(\<And>c. f c = d \<longleftrightarrow> c = d) \<Longrightarrow> split_on d (map f s) = map (map f) (split_on d s)"
  by (induction s) (auto split: list.splits)

lemma split_on_ne: "split_on d s \<noteq> []"
  by (induction s) (auto split: list.splits)

lemma is_infix_append: "is_infix sub s \<longleftrightarrow> (\<exists>a b. s = a @ sub @ b)"
proof
  assume "is_infix sub s"
  then obtain i where "take (length sub) (drop i s) = sub" by (auto simp: is_infix_def)
  then have "drop i s = sub @ drop (length sub) (drop i s)" by (metis append_take_drop_id)
  then show "\<exists>a b. s = a @ sub @ b" by (metis append_take_drop_id)
next
  assume "\<exists>a b. s = a @ sub @ b"
  then obtain a b where "s = a @ sub @ b" by blast
  then show "is_infix sub s"
    unfolding is_infix_def by (intro bexI[of _ "length a"]) auto
qed

lemma dots_fold [simp]: "is_infix [46, 46] (map ascii_casefold s) \<longleftrightarrow> is_infix [46, 46] s"
proof -
  have "map ascii_casefold x = [46, 46] \<longleftrightarrow> x = [46, 46]" for x
    by (cases x rule: remdups_adj.cases) auto
  then show ?thesis by (simp add: is_infix_def take_map drop_map)
qed

lemma at_fold [simp]: "64 \<in> ascii_casefold ` S \<longleftrightarrow> 64 \<in> S"
  using ascii_casefold_simps(2) by (metis (no_types, lifting) image_iff)

lemma label_fold [simp]: "email_domain_label (map ascii_casefold s) \<longleftrightarrow> email_domain_label s"
proof -
  have "ascii_alnum (ascii_casefold c) \<or> ascii_casefold c = 45 \<longleftrightarrow> ascii_alnum c \<or> c = 45" for c
    by (cases "ascii_upper c") (auto simp: ascii_casefold_def ascii_alnum_def ascii_upper_def ascii_lower_def)
  then have "list_all (\<lambda>c. ascii_alnum c \<or> c = 45) (map ascii_casefold s) \<longleftrightarrow>
      list_all (\<lambda>c. ascii_alnum c \<or> c = 45) s"
    by (simp add: list.pred_map comp_def del: ascii_alnum_fold)
  then show ?thesis
    by (cases "s = []") (simp_all add: email_domain_label_def hd_map last_map)
qed

lemma split_on_Nil_iff: "split_on d s = [[]] \<longleftrightarrow> s = []"
  by (cases s) (auto split: list.splits simp: split_on_ne)

lemma last_split_on: "s \<noteq> [] \<Longrightarrow> last (split_on d s) \<noteq> [] \<Longrightarrow> last s = last (last (split_on d s))"
proof (induction s)
  case (Cons c s)
  show ?case
  proof (cases s)
    case (Cons c' s')
    with Cons.IH Cons.prems split_on_ne[of d s] split_on_Nil_iff[of d s] show ?thesis
      by (cases "split_on d s") (auto split: if_split_asm)
  qed (use Cons in \<open>auto split: if_split_asm\<close>)
qed simp

text \<open>The shape of an accepted address.\<close>

definition email_parts_ok :: "pystr \<Rightarrow> pystr \<Rightarrow> bool" where
  "email_parts_ok local_part domain \<longleftrightarrow>
     local_part \<noteq> [] \<and> length local_part \<le> MAX_EMAIL_LOCAL_PART_LENGTH
     \<and> hd local_part \<noteq> 46 \<and> last local_part \<noteq> 46 \<and> \<not> is_infix [46, 46] local_part
     \<and> list_all email_local_char local_part
     \<and> 2 \<le> length (split_on 46 domain) \<and> list_all email_domain_label (split_on 46 domain)
     \<and> 64 \<notin> set local_part \<and> 64 \<notin> set domain \<and> list_all (\<lambda>c. c < 128) (local_part @ domain)
     \<and> length local_part + 1 + length domain \<le> MAX_EMAIL_LENGTH"

lemma email_split:
  assumes "count_list s (64::nat) = 1"
  shows "\<exists>l d. s = l @ [64] @ d \<and> 64 \<notin> set l \<and> 64 \<notin> set d
     \<and> takeWhile (\<lambda>c. c \<noteq> 64) s = l \<and> tl (dropWhile (\<lambda>c. c \<noteq> 64) s) = d"
proof -
  let ?l = "takeWhile (\<lambda>c. c \<noteq> 64) s" and ?r = "dropWhile (\<lambda>c. c \<noteq> 64) s"
  have s: "s = ?l @ ?r" by simp
  have l: "64 \<notin> set ?l" by (auto dest: set_takeWhileD)
  have "?r \<noteq> []"
  proof
    assume "?r = []"
    then have "64 \<notin> set s" unfolding dropWhile_eq_Nil_conv by blast
    then have "count_list s 64 = 0" by (simp add: count_list_0_iff)
    with assms show False by simp
  qed
  then have r: "?r = [64] @ tl ?r" using hd_dropWhile[of "\<lambda>c. c \<noteq> 64" s] by (metis append_Cons append_Nil list.collapse)
  have "count_list s 64 = count_list ?l 64 + count_list ?r 64"
    by (metis s count_list_append)
  with assms have "count_list (tl ?r) 64 = 0"
    by (subst (asm) r) (simp add: count_list_0_iff[THEN iffD2, OF l])
  then have "64 \<notin> set (tl ?r)" by (simp add: count_list_0_iff)
  with s r l show ?thesis by metis
qed

lemma canonicalize_Inr:
  assumes "canonicalize_email e = Inr c"
  obtains l d where "email_parts_ok l d" "py_strip e = l @ [64] @ d"
    "c = map ascii_casefold l @ [64] @ map ascii_casefold d"
proof -
  let ?s = "py_strip e"
  from assms have ok: "?s \<noteq> []" "list_all (\<lambda>c. c < 128) ?s" "length ?s \<le> MAX_EMAIL_LENGTH" "count_list ?s 64 = 1"
    by (auto simp: canonicalize_email_def Let_def split: if_split_asm)
  from email_split[OF ok(4)] obtain l d where ld: "?s = l @ [64] @ d" "64 \<notin> set l" "64 \<notin> set d"
      "takeWhile (\<lambda>c. c \<noteq> 64) ?s = l" "tl (dropWhile (\<lambda>c. c \<noteq> 64) ?s) = d" by blast
  have "email_parts_ok l d \<and> c = map ascii_casefold l @ [64] @ map ascii_casefold d"
    using assms ok ld(2,3) unfolding canonicalize_email_def Let_def ld(4,5)
    by (auto simp: email_parts_ok_def not_less ld(1) split: if_split_asm)
  with ld(1) that show ?thesis by blast
qed

lemma count_single: "64 \<notin> set l \<Longrightarrow> 64 \<notin> set d \<Longrightarrow> count_list (l @ [64] @ d) (64::nat) = 1"
  by (simp add: count_list_0_iff)

lemma local_char_not_space: "email_local_char c \<Longrightarrow> \<not> py_isspace c"
  by (auto simp: email_local_char_def ascii_alnum_def ascii_upper_def ascii_lower_def ascii_digit_def u_def
      py_isspace_def)

lemma alnum_not_space: "ascii_alnum c \<Longrightarrow> \<not> py_isspace c"
  by (auto simp: ascii_alnum_def ascii_upper_def ascii_lower_def ascii_digit_def py_isspace_def)

lemma parts_strip:
  assumes "email_parts_ok l d"
  shows "py_strip (l @ [64] @ d) = l @ [64] @ d"
proof -
  note ok = assms[unfolded email_parts_ok_def]
  from ok have labels: "2 \<le> length (split_on 46 d)" "list_all email_domain_label (split_on 46 d)" by auto
  then have "email_domain_label (last (split_on 46 d))"
    using split_on_ne[of 46 d] by (simp add: list_all_iff)
  then have lab: "last (split_on 46 d) \<noteq> []" "ascii_alnum (last (last (split_on 46 d)))"
    by (auto simp: email_domain_label_def)
  have dne: "d \<noteq> []" using labels(1) by (cases d) auto
  have "last (l @ [64] @ d) = last (last (split_on 46 d))"
    using last_split_on[OF dne lab(1)] dne by simp
  then have last: "\<not> py_isspace (last (l @ [64] @ d))" using alnum_not_space[OF lab(2)] by simp
  have "email_local_char (hd l)" using ok by (simp add: list_all_iff)
  then have hd: "\<not> py_isspace (hd (l @ [64] @ d))" using ok local_char_not_space by simp
  show ?thesis using hd last unfolding strip_by_idem_iff by blast
qed

lemma canonicalize_parts:
  assumes "email_parts_ok l d"
  shows "canonicalize_email (l @ [64] @ d) = Inr (map ascii_casefold l @ [64] @ map ascii_casefold d)"
proof -
  note ok = assms[unfolded email_parts_ok_def] and strip = parts_strip[OF assms]
  have cnt: "count_list (l @ [64] @ d) 64 = 1" using ok by (intro count_single) auto
  have "\<And>x. x \<in> set l \<Longrightarrow> x \<noteq> 64" using ok by auto
  then have tw: "takeWhile (\<lambda>c. c \<noteq> 64) (l @ [64] @ d) = l" "tl (dropWhile (\<lambda>c. c \<noteq> 64) (l @ [64] @ d)) = d"
    by (simp_all add: takeWhile_append2 dropWhile_append2)
  show ?thesis
    unfolding canonicalize_email_def Let_def strip tw cnt using ok by (auto simp: not_less)
qed

lemma parts_fold: "email_parts_ok l d \<Longrightarrow> email_parts_ok (map ascii_casefold l) (map ascii_casefold d)"
  by (auto simp: email_parts_ok_def hd_map last_map list.pred_map comp_def split_on_map)

text \<open>Every accepted e-mail address is stored in a canonical form: canonicalising it again, or with surrounding
  whitespace, changes nothing, it is ASCII without whitespace, at most 254 characters, contains exactly one at
  sign, and fits the outbox and user columns.\<close>

theorem canonical_email_fixed_point:
  assumes "canonicalize_email e = Inr c"
  shows "canonicalize_email c = Inr c \<and> py_strip c = c \<and> c \<noteq> [] \<and> length c \<le> MAX_EMAIL_LENGTH
     \<and> list_all (\<lambda>x. x < 128) c \<and> count_list c 64 = 1 \<and> length c = length (py_strip e)"
proof -
  from canonicalize_Inr[OF assms] obtain l d where ld: "email_parts_ok l d" "py_strip e = l @ [64] @ d"
      "c = map ascii_casefold l @ [64] @ map ascii_casefold d" .
  have ok: "email_parts_ok (map ascii_casefold l) (map ascii_casefold d)" using ld(1) by (rule parts_fold)
  from canonicalize_parts[OF ok] have again: "canonicalize_email c = Inr c" by (simp add: ld(3))
  have strip: "py_strip c = c" using parts_strip[OF ok] by (simp add: ld(3))
  from again have facts: "c \<noteq> []" "list_all (\<lambda>c. c < 128) c" "length c \<le> MAX_EMAIL_LENGTH" "count_list c 64 = 1"
    by (auto simp: canonicalize_email_def Let_def strip split: if_split_asm)
  have "length c = length (py_strip e)" using ld(2,3) by simp
  with again facts strip show ?thesis by blast
qed

section \<open>What an accepted event is\<close>

text \<open>A key occurs in a payload at some depth: in the value itself or in any nested value.\<close>

inductive key_occurs :: "pyval \<Rightarrow> pyval \<Rightarrow> bool" where
  here: "(key, nested) \<in> set items \<Longrightarrow> key_occurs key (PyDict items)"
| in_dict: "(k, nested) \<in> set items \<Longrightarrow> key_occurs key nested \<Longrightarrow> key_occurs key (PyDict items)"
| in_list: "x \<in> set xs \<Longrightarrow> key_occurs key x \<Longrightarrow> key_occurs key (PyList xs)"
| in_tuple: "x \<in> set xs \<Longrightarrow> key_occurs key x \<Longrightarrow> key_occurs key (PyTuple xs)"

inductive_simps key_occurs_simps [simp]:
  "key_occurs key (PyDict items)" "key_occurs key (PyList xs)" "key_occurs key (PyTuple xs)"
  "key_occurs key PyNone" "key_occurs key (PyBool b)" "key_occurs key (PyInt i)" "key_occurs key (PyFloat f)"
  "key_occurs key (PyStr s)" "key_occurs key PyOther"

definition forbidden_key :: "pyval \<Rightarrow> bool" where
  "forbidden_key key = (case key of PyStr s \<Rightarrow> sensitive_key s | _ \<Rightarrow> True)"

lemma contains_sensitive_key_iff:
  "contains_sensitive_key v \<longleftrightarrow> (\<exists>key. key_occurs key v \<and> forbidden_key key)"
  "sensitive_items items \<longleftrightarrow>
     (\<exists>(key, nested) \<in> set items. forbidden_key key \<or> (\<exists>k. key_occurs k nested \<and> forbidden_key k))"
  "sensitive_elements xs \<longleftrightarrow> (\<exists>x \<in> set xs. \<exists>k. key_occurs k x \<and> forbidden_key k)"
  by (induction v and items and xs
      rule: contains_sensitive_key_sensitive_items_sensitive_elements.induct)
     (auto simp: forbidden_key_def)

text \<open>The recursive sensitive-key filter is exact: it rejects a payload if and only if some mapping at some
  depth (through nested mappings, lists and tuples) has a key that is not a string or contains a sensitive word.\<close>

theorem sensitive_filter_exact:
  "contains_sensitive_key v \<longleftrightarrow> (\<exists>key. key_occurs key v \<and> forbidden_key key)"
  by (rule contains_sensitive_key_iff)

lemma validate_identifier_Inr:
  "validate_identifier n v = Inr x \<longleftrightarrow>
     x = py_strip v \<and> x \<noteq> [] \<and> length x \<le> n \<and> 13 \<notin> set x \<and> 10 \<notin> set x"
  by (auto simp: validate_identifier_def Let_def not_less)

lemma enqueue_Inr:
  assumes "enqueue_transactional_email fresh ev agg uid email key payload clock db = (Inr row, db')"
  shows "\<exists>t. clock = Aware t \<and> canonicalize_email email = Inr (obx_recipient_email row)
     \<and> row = \<lparr>obx_id = fresh, obx_event_type = py_strip ev, obx_aggregate_id = agg, obx_recipient_user_id = uid,
           obx_recipient_email = obx_recipient_email row, obx_idempotency_key = py_strip key,
           obx_payload = PyDict payload, obx_attempts = 0, obx_next_attempt_at = t, obx_lease_owner = None,
           obx_lease_expires_at = None, obx_sent_at = None, obx_failed_at = None,
           obx_provider_message_id = None, obx_last_error_code = None, obx_created_at = t,
           obx_updated_at = t, obx_deleted_at = None\<rparr>
     \<and> event_type_format (py_strip ev) \<and> \<not> contains_sensitive_key (PyDict payload) \<and> json_safe (PyDict payload)
     \<and> insert_outbox row db = (Inr (), db')"
  using assms
  unfolding enqueue_transactional_email_def
  by (auto simp: tx Let_def validate_identifier_Inr validated_payload_def simp del: contains_sensitive_key.simps
      json_safe.simps split: if_split_asm)

lemma enqueue_db_ok:
  "db_ok db \<Longrightarrow> enqueue_transactional_email fresh ev agg uid email key payload clock db = (Inr row, db') \<Longrightarrow> db_ok db'"
  using enqueue_Inr[of fresh ev agg uid email key payload clock db row db'] insert_outbox_db_ok by blast

text \<open>An enqueued event is valid and undelivered: the database stays well formed and gains exactly one row,
  with no attempts, due immediately and unleased, addressed to the canonical recipient, with a new idempotency
  key and a payload in which no mapping at any depth has a forbidden key.\<close>

theorem enqueued_event_is_valid:
  assumes "db_ok db"
    and "enqueue_transactional_email fresh ev agg uid email key payload clock db = (Inr row, db')"
  shows "db_ok db' \<and> db' = db\<lparr>db_outbox := db_outbox db @ [row]\<rparr>
     \<and> clock = Aware (obx_created_at row) \<and> outbox_ready (obx_created_at row) row
     \<and> obx_attempts row = 0 \<and> obx_lease_owner row = None
     \<and> obx_idempotency_key row \<notin> set (map obx_idempotency_key (db_outbox db))
     \<and> obx_id row \<notin> set (map obx_id (db_outbox db))
     \<and> canonicalize_email email = Inr (obx_recipient_email row)
     \<and> (\<nexists>k. key_occurs k (obx_payload row) \<and> forbidden_key k)
     \<and> event_type_format (obx_event_type row)"
proof -
  from enqueue_Inr[OF assms(2)] obtain t where t: "clock = Aware t"
      "canonicalize_email email = Inr (obx_recipient_email row)"
    and row: "row = \<lparr>obx_id = fresh, obx_event_type = py_strip ev, obx_aggregate_id = agg, obx_recipient_user_id = uid,
           obx_recipient_email = obx_recipient_email row, obx_idempotency_key = py_strip key,
           obx_payload = PyDict payload, obx_attempts = 0, obx_next_attempt_at = t, obx_lease_owner = None,
           obx_lease_expires_at = None, obx_sent_at = None, obx_failed_at = None,
           obx_provider_message_id = None, obx_last_error_code = None, obx_created_at = t,
           obx_updated_at = t, obx_deleted_at = None\<rparr>"
    and ok: "event_type_format (py_strip ev)" "\<not> contains_sensitive_key (PyDict payload)"
      "insert_outbox row db = (Inr (), db')" by blast
  from row have fields: "obx_event_type row = py_strip ev" "obx_payload row = PyDict payload" "obx_attempts row = 0"
      "obx_next_attempt_at row = t" "obx_lease_owner row = None" "obx_lease_expires_at row = None"
      "obx_sent_at row = None" "obx_failed_at row = None" "obx_created_at row = t" "obx_deleted_at row = None"
    by (metis transactional_outbox.select_convs)+
  from ok(3)[unfolded insert_outbox_Inr] have "db' = db\<lparr>db_outbox := db_outbox db @ [row]\<rparr>"
      "obx_idempotency_key row \<notin> set (map obx_idempotency_key (db_outbox db))"
      "obx_id row \<notin> set (map obx_id (db_outbox db))"
    by (auto simp: outbox_clash_def)
  moreover have "\<nexists>k. key_occurs k (obx_payload row) \<and> forbidden_key k"
    using ok(2) unfolding contains_sensitive_key_iff(1) fields by blast
  ultimately show ?thesis
    using t fields ok(1) enqueue_db_ok[OF assms] by (simp add: outbox_ready_def)
qed

section \<open>Flushing a row\<close>

definition outbox_content :: "transactional_outbox \<Rightarrow> uuid \<times> pystr \<times> uuid \<times> uuid option \<times> pystr \<times> pystr \<times> pyval" where
  "outbox_content r = (obx_id r, obx_event_type r, obx_aggregate_id r, obx_recipient_user_id r,
     obx_recipient_email r, obx_idempotency_key r, obx_payload r)"

text \<open>Replacing the row of one identifier.\<close>

definition put_row :: "transactional_outbox \<Rightarrow> transactional_outbox list \<Rightarrow> transactional_outbox list" where
  "put_row r rows = update_where (\<lambda>x. obx_id x = obx_id r) (\<lambda>_. r) rows"

lemma flush_row:
  assumes ok: "db_ok db" and old: "old \<in> set (db_outbox db)"
    and same: "outbox_content r = outbox_content old" and check: "outbox_check r"
  shows "flush_outbox r db = (Inr (), db\<lparr>db_outbox := put_row r (db_outbox db)\<rparr>)"
    and "db_ok (db\<lparr>db_outbox := put_row r (db_outbox db)\<rparr>)"
proof -
  from same have keys: "obx_id r = obx_id old" "obx_idempotency_key r = obx_idempotency_key old"
      "obx_recipient_user_id r = obx_recipient_user_id old"
    by (auto simp: outbox_content_def)
  have upd: "update_checked obx_id outbox_check outbox_clash r (db_outbox db) = Inr (put_row r (db_outbox db))"
    unfolding put_row_def
    by (rule obx.update_checked_succeeds[OF db_ok_tables(9)[OF ok] old keys(1) check])
       (simp add: outbox_clash_def keys)
  then show "flush_outbox r db = (Inr (), db\<lparr>db_outbox := put_row r (db_outbox db)\<rparr>)"
    by (simp add: flush_outbox_def)
  from obx.update_checked_ok[OF db_ok_tables(9)[OF ok] upd] have "table_ok outbox_check outbox_clash (put_row r (db_outbox db))"
    by blast
  moreover have "list_all (outbox_refs db) (put_row r (db_outbox db))"
    using ok old keys(3) by (auto simp: put_row_def db_ok_def list_all_iff set_update_where outbox_refs_def)
  ultimately show "db_ok (db\<lparr>db_outbox := put_row r (db_outbox db)\<rparr>)"
    using ok by (auto simp: db_ok_def refs_defs list_all_iff)
qed

lemma put_row_mem:
  "table_ok outbox_check outbox_clash rows \<Longrightarrow> old \<in> set rows \<Longrightarrow> obx_id r = obx_id old \<Longrightarrow>
     x \<in> set (put_row r rows) \<longleftrightarrow> x = r \<or> (x \<in> set rows \<and> obx_id x \<noteq> obx_id r)"
  unfolding put_row_def obx.mem_update by auto

lemma find_put_row:
  "find (\<lambda>x. obx_id x = i) (put_row r rows) =
     (if i = obx_id r then map_option (\<lambda>_. r) (find (\<lambda>x. obx_id x = i) rows) else find (\<lambda>x. obx_id x = i) rows)"
  by (induction rows) (auto simp: put_row_def update_where_def)

end
