(* ===== verification/Account_Model.thy ===== *)
theory Account_Model
  imports Email_Outbox
begin

text \<open>
  The persisted state of accounts and semesters: \<open>app/models/refresh_session.py\<close>, \<open>email_verification.py\<close>
  and \<open>semester.py\<close>, the triggers of migration 0017 that guard them, and the database of the account
  services, which extends the one of the Buddy services by these tables. The in-memory lifecycle methods of
  operations and backups are here as well.
\<close>

section \<open>Semesters\<close>

datatype semester_status = Semester_CURRENT | Semester_CLOSED

datatype semester_operation_type = Operation_RESET | Operation_RESTORE

datatype semester_operation_state =
  Operation_REQUESTED | Operation_RUNNING | Operation_SUCCEEDED | Operation_FAILED

datatype semester_backup_state =
  Backup_CREATING | Backup_READY | Backup_RESTORE_BLOCKED_NEW_DATA | Backup_EXPIRED | Backup_FAILED

definition SEMESTER_BACKUP_RETENTION :: int where
  "SEMESTER_BACKUP_RETENTION = 30 * day_us"

definition semester_backup_expires_at :: "clock_value \<Rightarrow> exn + instant" where
  "semester_backup_expires_at reset_completed_at =
     ebind (aware ValueError reset_completed_at) (\<lambda>t. Inr (t + SEMESTER_BACKUP_RETENTION))"

record semester =
  sem_id :: uuid
  sem_status :: semester_status
  sem_started_at :: instant
  sem_closed_at :: "instant option"
  sem_reset_operation_id :: "uuid option"
  sem_student_accounts_created :: int
  sem_first_student_created_at :: "instant option"
  sem_created_at :: instant
  sem_updated_at :: instant

definition semester_check :: "semester \<Rightarrow> bool" where
  "semester_check r \<longleftrightarrow>
     sem_student_accounts_created r \<ge> 0
     \<and> (sem_student_accounts_created r = 0 \<and> sem_first_student_created_at r = None
        \<or> sem_student_accounts_created r > 0 \<and> sem_first_student_created_at r \<noteq> None)
     \<and> (sem_status r = Semester_CURRENT \<and> sem_closed_at r = None \<and> sem_reset_operation_id r = None
        \<or> sem_status r = Semester_CLOSED \<and> sem_closed_at r \<noteq> None \<and> sem_reset_operation_id r \<noteq> None)"

definition semester_clash :: "semester \<Rightarrow> semester \<Rightarrow> bool" where
  "semester_clash a b \<longleftrightarrow> sem_id a = sem_id b
     \<or> sem_status a = Semester_CURRENT \<and> sem_status b = Semester_CURRENT"

text \<open>The trigger \<open>enforce_semester_boundary\<close>: which updates of a semester are accepted.\<close>

definition enforce_semester_boundary :: "semester \<Rightarrow> semester \<Rightarrow> bool" where
  "enforce_semester_boundary old new \<longleftrightarrow> \<not> (
     sem_id new \<noteq> sem_id old
     \<or> sem_started_at new \<noteq> sem_started_at old
     \<or> sem_created_at new \<noteq> sem_created_at old
     \<or> sem_student_accounts_created new < sem_student_accounts_created old
     \<or> (sem_first_student_created_at old \<noteq> None
        \<and> sem_first_student_created_at new \<noteq> sem_first_student_created_at old)
     \<or> (sem_status old = Semester_CLOSED \<and> new \<noteq> old)
     \<or> (sem_status old = Semester_CURRENT \<and> sem_status new = Semester_CURRENT
        \<and> (sem_closed_at new \<noteq> None \<or> sem_reset_operation_id new \<noteq> None))
     \<or> (sem_status old = Semester_CURRENT
        \<and> sem_status new \<noteq> Semester_CURRENT \<and> sem_status new \<noteq> Semester_CLOSED))"

section \<open>Reset and restore operations\<close>

record semester_operation =
  sop_id :: uuid
  sop_operation_type :: semester_operation_type
  sop_state :: semester_operation_state
  sop_semester_id :: uuid
  sop_admin_actor_id :: uuid
  sop_backup_id :: "uuid option"
  sop_requested_at :: instant
  sop_started_at :: "instant option"
  sop_completed_at :: "instant option"
  sop_affected_counts :: pyval
  sop_result_summary :: pyval
  sop_failure_code :: "pystr option"
  sop_created_at :: instant
  sop_updated_at :: instant

fun is_json_object :: "pyval \<Rightarrow> bool" where
  "is_json_object (PyDict _) = True"
| "is_json_object _ = False"

definition operation_lifecycle :: "semester_operation \<Rightarrow> bool" where
  "operation_lifecycle r =
     (case sop_state r of
        Operation_REQUESTED \<Rightarrow> sop_started_at r = None \<and> sop_completed_at r = None \<and> sop_failure_code r = None
      | Operation_RUNNING \<Rightarrow> sop_started_at r \<noteq> None \<and> sop_completed_at r = None \<and> sop_failure_code r = None
      | Operation_SUCCEEDED \<Rightarrow> sop_started_at r \<noteq> None \<and> sop_completed_at r \<noteq> None \<and> sop_failure_code r = None
      | Operation_FAILED \<Rightarrow> sop_completed_at r \<noteq> None \<and> sop_failure_code r \<noteq> None)"

definition operation_check :: "semester_operation \<Rightarrow> bool" where
  "operation_check r \<longleftrightarrow>
     is_json_object (sop_affected_counts r) \<and> is_json_object (sop_result_summary r)
     \<and> null_or (sop_failure_code r) (btrim_between 1 100)
     \<and> operation_lifecycle r
     \<and> null_or (sop_started_at r) (\<lambda>t. sop_requested_at r \<le> t)
     \<and> null_or (sop_completed_at r) (\<lambda>t. sop_requested_at r \<le> t)
     \<and> (case (sop_started_at r, sop_completed_at r) of (Some a, Some c) \<Rightarrow> a \<le> c | _ \<Rightarrow> True)"

definition operation_clash :: "semester_operation \<Rightarrow> semester_operation \<Rightarrow> bool" where
  "operation_clash a b \<longleftrightarrow> sop_id a = sop_id b
     \<or> sop_state a = Operation_RUNNING \<and> sop_state b = Operation_RUNNING"

text \<open>The methods \<open>start\<close>, \<open>succeed\<close> and \<open>fail\<close>.\<close>

definition operation_start :: "clock_value \<Rightarrow> semester_operation \<Rightarrow> exn + semester_operation" where
  "operation_start moment r =
     (if sop_state r \<noteq> Operation_REQUESTED then Inl SemesterStateTransitionError
      else ebind (aware ValueError moment) (\<lambda>t.
        Inr (r\<lparr>sop_started_at := Some t, sop_state := Operation_RUNNING\<rparr>)))"

definition operation_succeed ::
    "clock_value \<Rightarrow> (pyval \<times> pyval) list option \<Rightarrow> semester_operation \<Rightarrow> exn + semester_operation" where
  "operation_succeed moment result_summary r =
     (if sop_state r \<noteq> Operation_RUNNING then Inl SemesterStateTransitionError
      else ebind (aware ValueError moment) (\<lambda>t.
        Inr (r\<lparr>sop_completed_at := Some t,
               sop_result_summary := PyDict (case result_summary of None \<Rightarrow> [] | Some d \<Rightarrow> d),
               sop_failure_code := None, sop_state := Operation_SUCCEEDED\<rparr>)))"

definition operation_fail :: "clock_value \<Rightarrow> pystr \<Rightarrow> semester_operation \<Rightarrow> exn + semester_operation" where
  "operation_fail moment code_text r =
     (if sop_state r \<noteq> Operation_REQUESTED \<and> sop_state r \<noteq> Operation_RUNNING
      then Inl SemesterStateTransitionError
      else let code = py_strip code_text in
        if \<not> (1 \<le> length code \<and> length code \<le> 100) then Inl ValueError
        else ebind (aware ValueError moment) (\<lambda>t.
          Inr (r\<lparr>sop_completed_at := Some t, sop_failure_code := Some code, sop_state := Operation_FAILED\<rparr>)))"

text \<open>The update half of the trigger \<open>enforce_semester_operation\<close>.\<close>

definition operation_update_allowed :: "semester_operation \<Rightarrow> semester_operation \<Rightarrow> bool" where
  "operation_update_allowed old new \<longleftrightarrow> \<not> (
     sop_id new \<noteq> sop_id old
     \<or> sop_operation_type new \<noteq> sop_operation_type old
     \<or> sop_semester_id new \<noteq> sop_semester_id old
     \<or> sop_admin_actor_id new \<noteq> sop_admin_actor_id old
     \<or> sop_requested_at new \<noteq> sop_requested_at old
     \<or> sop_created_at new \<noteq> sop_created_at old
     \<or> (sop_state old = Operation_REQUESTED
        \<and> sop_state new \<notin> {Operation_REQUESTED, Operation_RUNNING, Operation_FAILED})
     \<or> (sop_state old = Operation_RUNNING
        \<and> sop_state new \<notin> {Operation_RUNNING, Operation_SUCCEEDED, Operation_FAILED})
     \<or> (sop_state old \<in> {Operation_SUCCEEDED, Operation_FAILED} \<and> new \<noteq> old))"

section \<open>Backups\<close>

record semester_backup =
  bak_id :: uuid
  bak_source_semester_id :: uuid
  bak_source_boundary_at :: instant
  bak_created_by_operation_id :: uuid
  bak_state :: semester_backup_state
  bak_database_manifest_location :: "pystr option"
  bak_database_manifest_checksum :: "pystr option"
  bak_database_row_counts :: pyval
  bak_avatar_manifest_location :: "pystr option"
  bak_avatar_manifest_checksum :: "pystr option"
  bak_avatar_object_count :: int
  bak_verified_at :: "instant option"
  bak_expires_at :: "instant option"
  bak_restored_at :: "instant option"
  bak_restored_by_admin_id :: "uuid option"
  bak_restore_operation_id :: "uuid option"
  bak_failure_code :: "pystr option"
  bak_created_at :: instant
  bak_updated_at :: instant

definition backup_lifecycle :: "semester_backup \<Rightarrow> bool" where
  "backup_lifecycle r =
     (case bak_state r of
        Backup_CREATING \<Rightarrow> bak_expires_at r = None \<and> bak_failure_code r = None
      | Backup_FAILED \<Rightarrow> bak_failure_code r \<noteq> None
      | _ \<Rightarrow> bak_verified_at r \<noteq> None \<and> bak_expires_at r \<noteq> None
             \<and> bak_database_manifest_location r \<noteq> None \<and> bak_database_manifest_checksum r \<noteq> None
             \<and> bak_avatar_manifest_location r \<noteq> None \<and> bak_avatar_manifest_checksum r \<noteq> None
             \<and> bak_failure_code r = None)"

definition backup_check :: "semester_backup \<Rightarrow> bool" where
  "backup_check r \<longleftrightarrow>
     is_json_object (bak_database_row_counts r) \<and> 0 \<le> bak_avatar_object_count r
     \<and> null_or (bak_failure_code r) (btrim_between 1 100)
     \<and> backup_lifecycle r
     \<and> null_or (bak_verified_at r) (\<lambda>t. bak_source_boundary_at r \<le> t)
     \<and> (case (bak_expires_at r, bak_verified_at r) of (Some e, Some v) \<Rightarrow> v < e | _ \<Rightarrow> True)
     \<and> (bak_restored_at r = None \<or> bak_verified_at r \<noteq> None)
     \<and> (bak_restored_at r = None \<and> bak_restored_by_admin_id r = None \<and> bak_restore_operation_id r = None
        \<or> bak_restored_at r \<noteq> None \<and> bak_restored_by_admin_id r \<noteq> None \<and> bak_restore_operation_id r \<noteq> None)"

definition backup_clash :: "semester_backup \<Rightarrow> semester_backup \<Rightarrow> bool" where
  "backup_clash a b \<longleftrightarrow> bak_id a = bak_id b
     \<or> bak_created_by_operation_id a = bak_created_by_operation_id b
     \<or> bak_restore_operation_id a \<noteq> None \<and> bak_restore_operation_id a = bak_restore_operation_id b"

text \<open>The edges \<open>transition_to\<close> allows.\<close>

fun backup_edges :: "semester_backup_state \<Rightarrow> semester_backup_state list" where
  "backup_edges Backup_CREATING = [Backup_READY, Backup_FAILED]"
| "backup_edges Backup_READY = [Backup_RESTORE_BLOCKED_NEW_DATA, Backup_EXPIRED]"
| "backup_edges Backup_RESTORE_BLOCKED_NEW_DATA = [Backup_EXPIRED]"
| "backup_edges Backup_EXPIRED = []"
| "backup_edges Backup_FAILED = []"

definition transition_to :: "semester_backup_state \<Rightarrow> semester_backup \<Rightarrow> exn + semester_backup" where
  "transition_to state r =
     (if state \<in> set (backup_edges (bak_state r)) then Inr (r\<lparr>bak_state := state\<rparr>)
      else Inl SemesterStateTransitionError)"

text \<open>The update half of the trigger \<open>enforce_semester_backup\<close>.\<close>

definition backup_update_allowed :: "semester_backup \<Rightarrow> semester_backup \<Rightarrow> bool" where
  "backup_update_allowed old new \<longleftrightarrow> \<not> (
     bak_id new \<noteq> bak_id old
     \<or> bak_source_semester_id new \<noteq> bak_source_semester_id old
     \<or> bak_source_boundary_at new \<noteq> bak_source_boundary_at old
     \<or> bak_created_by_operation_id new \<noteq> bak_created_by_operation_id old
     \<or> bak_created_at new \<noteq> bak_created_at old
     \<or> (bak_state old = Backup_CREATING
        \<and> bak_state new \<notin> {Backup_CREATING, Backup_READY, Backup_FAILED})
     \<or> (bak_state old = Backup_READY
        \<and> bak_state new \<notin> {Backup_READY, Backup_RESTORE_BLOCKED_NEW_DATA, Backup_EXPIRED})
     \<or> (bak_state old = Backup_RESTORE_BLOCKED_NEW_DATA
        \<and> bak_state new \<notin> {Backup_RESTORE_BLOCKED_NEW_DATA, Backup_EXPIRED})
     \<or> (bak_state old \<in> {Backup_EXPIRED, Backup_FAILED} \<and> new \<noteq> old)
     \<or> (bak_state old = Backup_RESTORE_BLOCKED_NEW_DATA \<and> bak_restored_at new \<noteq> None))"

section \<open>Sessions and verification tokens\<close>

record refresh_session =
  rs_id :: uuid
  rs_user_id :: uuid
  rs_refresh_token_id :: uuid
  rs_expires_at :: instant
  rs_revoked_at :: "instant option"
  rs_created_at :: instant
  rs_updated_at :: instant
  rs_deleted_at :: "instant option"

definition refresh_session_clash :: "refresh_session \<Rightarrow> refresh_session \<Rightarrow> bool" where
  "refresh_session_clash a b \<longleftrightarrow> rs_id a = rs_id b \<or> rs_refresh_token_id a = rs_refresh_token_id b"

record email_verification_token =
  evt_id :: uuid
  evt_user_id :: uuid
  evt_token_digest :: "nat list"
  evt_email_snapshot :: pystr
  evt_expires_at :: instant
  evt_consumed_at :: "instant option"
  evt_superseded_at :: "instant option"
  evt_created_at :: instant
  evt_updated_at :: instant
  evt_deleted_at :: "instant option"

definition verification_token_check :: "email_verification_token \<Rightarrow> bool" where
  "verification_token_check r \<longleftrightarrow> length (evt_token_digest r) > 0
     \<and> length (pg_btrim (evt_email_snapshot r)) > 0 \<and> evt_created_at r < evt_expires_at r"

text \<open>The predicate of the partial unique index: neither consumed nor superseded nor deleted.\<close>

definition active_token :: "email_verification_token \<Rightarrow> bool" where
  "active_token r \<longleftrightarrow> evt_consumed_at r = None \<and> evt_superseded_at r = None \<and> evt_deleted_at r = None"

definition verification_token_clash :: "email_verification_token \<Rightarrow> email_verification_token \<Rightarrow> bool" where
  "verification_token_clash a b \<longleftrightarrow> evt_id a = evt_id b \<or> evt_token_digest a = evt_token_digest b
     \<or> active_token a \<and> active_token b \<and> evt_user_id a = evt_user_id b"

interpretation sem: constrained_table sem_id semester_check semester_clash
  by unfold_locales (auto simp: semester_clash_def)

interpretation sop: constrained_table sop_id operation_check operation_clash
  by unfold_locales (auto simp: operation_clash_def)

interpretation bak: constrained_table bak_id backup_check backup_clash
  by unfold_locales (unfold backup_clash_def, metis+)

interpretation rses: constrained_table rs_id "\<lambda>_. True" refresh_session_clash
  by unfold_locales (auto simp: refresh_session_clash_def)

interpretation evt: constrained_table evt_id verification_token_check verification_token_clash
  by unfold_locales (auto simp: verification_token_clash_def)

end
