(* ===== verification/Account_Database.thy ===== *)
theory Account_Database
  imports Account_Model
begin

text \<open>
  The database of the account services: the Buddy tables of theory Database with semesters, semester
  operations, backups, refresh sessions and verification tokens beside them. Inserting a user runs the trigger
  \<open>stamp_user_semester\<close> of migration 0017. Every statement keeps the database well formed (\<open>accounts_ok\<close>).
\<close>

record account_db =
  acc_db :: database
  acc_semesters :: "semester list"
  acc_operations :: "semester_operation list"
  acc_backups :: "semester_backup list"
  acc_sessions :: "refresh_session list"
  acc_tokens :: "email_verification_token list"
  acc_statement_time :: instant

text \<open>\<open>statement_timestamp()\<close> is \<open>acc_statement_time\<close>; \<open>now()\<close> is \<open>db_now\<close>.\<close>

definition user_refs :: "account_db \<Rightarrow> user \<Rightarrow> bool" where
  "user_refs s r \<longleftrightarrow> null_or (usr_semester_id r) (\<lambda>i. i \<in> sem_id ` set (acc_semesters s))"

definition session_refs :: "account_db \<Rightarrow> refresh_session \<Rightarrow> bool" where
  "session_refs s r \<longleftrightarrow> rs_user_id r \<in> usr_id ` set (db_users (acc_db s))"

definition token_refs :: "account_db \<Rightarrow> email_verification_token \<Rightarrow> bool" where
  "token_refs s r \<longleftrightarrow> evt_user_id r \<in> usr_id ` set (db_users (acc_db s))"

definition accounts_ok :: "account_db \<Rightarrow> bool" where
  "accounts_ok s \<longleftrightarrow> db_ok (acc_db s)
     \<and> table_ok semester_check semester_clash (acc_semesters s)
     \<and> table_ok (\<lambda>_. True) refresh_session_clash (acc_sessions s)
     \<and> table_ok verification_token_check verification_token_clash (acc_tokens s)
     \<and> db_semester_ids (acc_db s) = map sem_id (acc_semesters s)
     \<and> list_all (user_refs s) (db_users (acc_db s))
     \<and> list_all (session_refs s) (acc_sessions s)
     \<and> list_all (token_refs s) (acc_tokens s)"

lemmas account_refs_defs = user_refs_def session_refs_def token_refs_def

lemma accounts_ok_tables:
  assumes "accounts_ok s"
  shows "db_ok (acc_db s)"
    and "table_ok user_check user_clash (db_users (acc_db s))"
    and "table_ok semester_check semester_clash (acc_semesters s)"
    and "table_ok (\<lambda>_. True) refresh_session_clash (acc_sessions s)"
    and "table_ok verification_token_check verification_token_clash (acc_tokens s)"
  using assms by (auto simp: accounts_ok_def dest: db_ok_tables(1))

section \<open>One row changes\<close>

text \<open>Replacing the row of one key: how the flush of one changed object acts on its table.\<close>

definition replace_row :: "('r \<Rightarrow> uuid) \<Rightarrow> 'r \<Rightarrow> 'r list \<Rightarrow> 'r list" where
  "replace_row key r rows = update_where (\<lambda>x. key x = key r) (\<lambda>_. r) rows"

lemma replace_row_Nil [simp]: "replace_row key r [] = []"
  by (simp add: replace_row_def update_where_def)

lemma replace_row_Cons:
  "replace_row key r (x # xs) = (if key x = key r then r else x) # replace_row key r xs"
  by (simp add: replace_row_def update_where_def)

lemma set_replace_row:
  "x \<in> set (replace_row key r rows) \<longleftrightarrow>
     (x = r \<and> key r \<in> key ` set rows) \<or> (x \<in> set rows \<and> key x \<noteq> key r)"
  by (induction rows) (auto simp: replace_row_Cons)

lemma keys_replace_row [simp]: "key ` set (replace_row key r rows) = key ` set rows"
  by (induction rows) (auto simp: replace_row_Cons)

lemma map_key_replace_row [simp]: "map key (replace_row key r rows) = map key rows"
  by (induction rows) (auto simp: replace_row_Cons)

lemma find_replace_row:
  "find (\<lambda>x. key x = i) (replace_row key r rows) =
     (if i = key r \<and> i \<in> key ` set rows then Some r else find (\<lambda>x. key x = i) rows)"
  by (induction rows) (auto simp: replace_row_Cons)

section \<open>Statements\<close>

text \<open>
  \<open>session.add\<close> and an ORM flush on the table \<open>get\<close> of the state: no \<open>UPDATE\<close> when no attribute changed, otherwise
  \<open>onupdate=func.now()\<close> stamps \<open>updated_at\<close>. The value of a flush is the object after it.
\<close>

definition insert_row ::
    "('s \<Rightarrow> 'r list) \<Rightarrow> ('r list \<Rightarrow> 's \<Rightarrow> 's) \<Rightarrow> ('r \<Rightarrow> bool) \<Rightarrow> ('r \<Rightarrow> 'r \<Rightarrow> bool) \<Rightarrow> ('s \<Rightarrow> 'r \<Rightarrow> bool) \<Rightarrow> 'r
       \<Rightarrow> (exn, 's, unit) txn" where
  "insert_row get put check clash refs r s =
     (case insert_checked check clash (refs s r) r (get s) of
        Inl e \<Rightarrow> (Inl e, s)
      | Inr rows \<Rightarrow> (Inr (), put rows s))"

definition flush_row ::
    "('s \<Rightarrow> 'r list) \<Rightarrow> ('r list \<Rightarrow> 's \<Rightarrow> 's) \<Rightarrow> ('s \<Rightarrow> 'r \<Rightarrow> 'r) \<Rightarrow> ('r \<Rightarrow> uuid) \<Rightarrow> ('r \<Rightarrow> bool) \<Rightarrow> ('r \<Rightarrow> 'r \<Rightarrow> bool)
       \<Rightarrow> 'r \<Rightarrow> (exn, 's, 'r) txn" where
  "flush_row get put stamp key check clash r s =
     (if r \<in> set (get s) then (Inr r, s)
      else case update_checked key check clash (stamp s r) (get s) of
             Inl e \<Rightarrow> (Inl e, s)
           | Inr rows \<Rightarrow> (Inr (stamp s r), put rows s))"

definition set_users :: "user list \<Rightarrow> account_db \<Rightarrow> account_db" where
  "set_users rows s = s\<lparr>acc_db := (acc_db s)\<lparr>db_users := rows\<rparr>\<rparr>"

definition flush_user :: "user \<Rightarrow> (exn, account_db, user) txn" where
  "flush_user = flush_row (\<lambda>s. db_users (acc_db s)) set_users
     (\<lambda>s r. r\<lparr>usr_updated_at := db_now (acc_db s)\<rparr>) usr_id user_check user_clash"

definition insert_session :: "refresh_session \<Rightarrow> (exn, account_db, unit) txn" where
  "insert_session = insert_row acc_sessions (\<lambda>rows s. s\<lparr>acc_sessions := rows\<rparr>)
     (\<lambda>_. True) refresh_session_clash session_refs"

definition flush_session :: "refresh_session \<Rightarrow> (exn, account_db, refresh_session) txn" where
  "flush_session = flush_row acc_sessions (\<lambda>rows s. s\<lparr>acc_sessions := rows\<rparr>)
     (\<lambda>s r. r\<lparr>rs_updated_at := db_now (acc_db s)\<rparr>) rs_id (\<lambda>_. True) refresh_session_clash"

definition insert_token :: "email_verification_token \<Rightarrow> (exn, account_db, unit) txn" where
  "insert_token = insert_row acc_tokens (\<lambda>rows s. s\<lparr>acc_tokens := rows\<rparr>)
     verification_token_check verification_token_clash token_refs"

definition flush_token :: "email_verification_token \<Rightarrow> (exn, account_db, email_verification_token) txn" where
  "flush_token = flush_row acc_tokens (\<lambda>rows s. s\<lparr>acc_tokens := rows\<rparr>)
     (\<lambda>s r. r\<lparr>evt_updated_at := db_now (acc_db s)\<rparr>) evt_id verification_token_check verification_token_clash"

text \<open>An \<open>UPDATE\<close> of a semester passes the trigger \<open>enforce_semester_boundary\<close>.\<close>

definition update_semester :: "semester \<Rightarrow> semester \<Rightarrow> (exn, account_db, unit) txn" where
  "update_semester old r s =
     (if \<not> enforce_semester_boundary old r then (Inl (IntegrityError Check_violation), s)
      else case update_checked sem_id semester_check semester_clash r (acc_semesters s) of
             Inl e \<Rightarrow> (Inl e, s)
           | Inr rows \<Rightarrow> (Inr (), s\<lparr>acc_semesters := rows\<rparr>))"

definition current_semester :: "account_db \<Rightarrow> semester option" where
  "current_semester s = find (\<lambda>x. sem_status x = Semester_CURRENT) (acc_semesters s)"

text \<open>The update of the boundary marker when a student account is added to the CURRENT semester.\<close>

definition count_student :: "instant \<Rightarrow> semester \<Rightarrow> semester" where
  "count_student statement_time x =
     x\<lparr>sem_student_accounts_created := sem_student_accounts_created x + 1,
       sem_first_student_created_at := (case sem_first_student_created_at x of
          None \<Rightarrow> Some statement_time | Some t \<Rightarrow> Some t),
       sem_updated_at := statement_time\<rparr>"

definition stamp_user_semester :: "user \<Rightarrow> (exn, account_db, user) txn" where
  "stamp_user_semester r s =
     (if usr_role r \<noteq> USER then (Inr r, s)
      else let target = (case usr_semester_id r of
                 None \<Rightarrow> current_semester s
               | Some i \<Rightarrow> find (\<lambda>x. sem_id x = i) (acc_semesters s))
        in if usr_semester_id r = None \<and> target = None then (Inl (IntegrityError Check_violation), s)
           else let r' = (if usr_semester_id r = None then r\<lparr>usr_semester_id := map_option sem_id target\<rparr> else r)
             in case target of
                  Some x \<Rightarrow>
                    if sem_status x = Semester_CURRENT
                    then bind_tx (update_semester x (count_student (acc_statement_time s) x)) (\<lambda>_.
                      return_tx r') s
                    else (Inr r', s)
                | None \<Rightarrow> (Inr r', s))"

definition insert_user :: "user \<Rightarrow> (exn, account_db, unit) txn" where
  "insert_user r =
     bind_tx (stamp_user_semester r) (\<lambda>r' s.
       case insert_checked user_check user_clash (user_refs s r') r' (db_users (acc_db s)) of
         Inl e \<Rightarrow> (Inl e, s)
       | Inr rows \<Rightarrow> (Inr (), set_users rows s))"

section \<open>What the statements do\<close>

lemma set_users_simps [simp]:
  "db_users (acc_db (set_users rows s)) = rows" "acc_semesters (set_users rows s) = acc_semesters s"
  "acc_sessions (set_users rows s) = acc_sessions s" "acc_tokens (set_users rows s) = acc_tokens s"
  "acc_operations (set_users rows s) = acc_operations s" "acc_backups (set_users rows s) = acc_backups s"
  "acc_statement_time (set_users rows s) = acc_statement_time s"
  "db_now (acc_db (set_users rows s)) = db_now (acc_db s)"
  "db_outbox (acc_db (set_users rows s)) = db_outbox (acc_db s)"
  "db_semester_ids (acc_db (set_users rows s)) = db_semester_ids (acc_db s)"
  by (simp_all add: set_users_def)

lemma update_checked_Inr_iff:
  "update_checked key check clash r rows = Inr rows' \<longleftrightarrow>
     check r \<and> (\<forall>x \<in> set rows. key x \<noteq> key r \<longrightarrow> \<not> clash r x) \<and> rows' = replace_row key r rows"
  by (auto simp: update_checked_def list_ex_iff replace_row_def)

lemma insert_checked_Inr_iff:
  "insert_checked check clash refs r rows = Inr rows' \<longleftrightarrow>
     check r \<and> (\<forall>x \<in> set rows. \<not> clash r x) \<and> refs \<and> rows' = rows @ [r]"
  by (auto simp: insert_checked_def list_ex_iff)

lemma insert_row_Inr:
  "insert_row get put check clash refs r s = (Inr x, s') \<longleftrightarrow>
     check r \<and> (\<forall>y \<in> set (get s). \<not> clash r y) \<and> refs s r \<and> s' = put (get s @ [r]) s"
  by (auto simp: insert_row_def insert_checked_def list_ex_iff split: sum.splits if_splits)

lemma insert_row_Inl: "insert_row get put check clash refs r s = (Inl e, s') \<Longrightarrow> s' = s \<and> (\<exists>c. e = IntegrityError c)"
  by (auto simp: insert_row_def insert_checked_def split: sum.splits if_splits)

lemma flush_row_Inr:
  "flush_row get put stamp key check clash r s = (Inr r', s') \<longleftrightarrow>
     (r \<in> set (get s) \<and> r' = r \<and> s' = s)
     \<or> (r \<notin> set (get s) \<and> r' = stamp s r \<and> check r'
        \<and> (\<forall>x \<in> set (get s). key x \<noteq> key r' \<longrightarrow> \<not> clash r' x)
        \<and> s' = put (replace_row key r' (get s)) s)"
  by (auto simp: flush_row_def update_checked_def list_ex_iff replace_row_def split: sum.splits if_splits)

lemma flush_row_Inl: "flush_row get put stamp key check clash r s = (Inl e, s') \<Longrightarrow> s' = s \<and> (\<exists>c. e = IntegrityError c)"
  by (auto simp: flush_row_def update_checked_def split: sum.splits if_splits)

lemmas account_statements = flush_user_def insert_session_def flush_session_def insert_token_def flush_token_def

lemma update_semester_Inr:
  "update_semester old r s = (Inr x, s') \<longleftrightarrow>
     enforce_semester_boundary old r \<and> semester_check r
     \<and> (\<forall>y \<in> set (acc_semesters s). sem_id y \<noteq> sem_id r \<longrightarrow> \<not> semester_clash r y)
     \<and> s' = s\<lparr>acc_semesters := replace_row sem_id r (acc_semesters s)\<rparr>"
  by (auto simp: update_semester_def update_checked_def list_ex_iff replace_row_def split: sum.splits if_splits)

lemma current_semester_SomeD:
  "current_semester s = Some x \<Longrightarrow> x \<in> set (acc_semesters s) \<and> sem_status x = Semester_CURRENT"
  unfolding current_semester_def by (rule find_SomeD)

lemma count_student_simps [simp]:
  "sem_id (count_student t x) = sem_id x" "sem_status (count_student t x) = sem_status x"
  "sem_started_at (count_student t x) = sem_started_at x" "sem_closed_at (count_student t x) = sem_closed_at x"
  "sem_student_accounts_created (count_student t x) = sem_student_accounts_created x + 1"
  "sem_reset_operation_id (count_student t x) = sem_reset_operation_id x"
  "sem_created_at (count_student t x) = sem_created_at x"
  "sem_first_student_created_at (count_student t x) \<noteq> None"
  by (auto simp: count_student_def split: option.split)

text \<open>Counting a student in the CURRENT semester always passes the trigger and the constraints.\<close>

lemma count_student_runs:
  assumes "table_ok semester_check semester_clash (acc_semesters s)" "x \<in> set (acc_semesters s)"
    and "sem_status x = Semester_CURRENT"
  shows "update_semester x (count_student t x) s =
     (Inr (), s\<lparr>acc_semesters := replace_row sem_id (count_student t x) (acc_semesters s)\<rparr>)"
proof -
  from sem.row_ok[OF assms(1,2)] assms(3) have x: "sem_student_accounts_created x \<ge> 0" "sem_closed_at x = None"
      "sem_reset_operation_id x = None" by (auto simp: semester_check_def)
  then have ok: "semester_check (count_student t x)"
    using assms(3) by (auto simp: semester_check_def)
  have tr: "enforce_semester_boundary x (count_student t x)"
    using x assms(3) by (auto simp: enforce_semester_boundary_def count_student_def split: option.splits)
  have "\<not> semester_clash (count_student t x) y"
    if "y \<in> set (acc_semesters s)" "sem_id y \<noteq> sem_id (count_student t x)" for y
  proof
    assume "semester_clash (count_student t x) y"
    then have "semester_clash x y" using assms(3) by (auto simp: semester_clash_def)
    from sem.no_clash[OF assms(1,2) that(1) this] that(2) show False by simp
  qed
  with ok tr show ?thesis by (auto simp: update_semester_Inr)
qed

section \<open>The statements keep the database well formed\<close>

text \<open>Only the identifiers of the users matter to the other tables.\<close>

lemma accounts_ok_users:
  assumes "accounts_ok s" "table_ok user_check user_clash rows" "list_all (user_refs s) rows"
    and "usr_id ` set (db_users (acc_db s)) \<subseteq> usr_id ` set rows"
  shows "accounts_ok (set_users rows s)"
proof -
  have "db_ok ((acc_db s)\<lparr>db_users := rows\<rparr>)"
    using assms(1,2,4) unfolding accounts_ok_def db_ok_def refs_defs list_all_iff null_or_def
    by (auto split: option.splits)
  then show ?thesis
    using assms unfolding accounts_ok_def account_refs_defs list_all_iff set_users_def by auto
qed

text \<open>A flush and an insert keep their own table well formed; what the others rely on is the reference each row holds.\<close>

context constrained_table
begin

lemma flush_row_table:
  assumes "flush_row get put stamp key check clash r s = (Inr r', s')" "table_ok check clash (get s)"
    and "\<And>r. key (stamp s r) = key r" "old \<in> set (get s)" "key r = key old"
  shows "(s' = s \<and> r' = r \<or> s' = put (replace_row key r' (get s)) s \<and> r' = stamp s r)
     \<and> table_ok check clash (replace_row key r' (get s)) \<and> r' \<in> set (replace_row key r' (get s))"
proof (cases "r \<in> set (get s)")
  case True
  then have "replace_row key r (get s) = get s"
    using key_inj[OF assms(2) True] by (fastforce simp: replace_row_def update_where_def intro!: map_idI)
  with True assms(1,2) show ?thesis by (auto simp: flush_row_Inr)
next
  case False
  with assms(1) have h: "r' = stamp s r" "update_checked key check clash r' (get s) = Inr (replace_row key r' (get s))"
      "s' = put (replace_row key r' (get s)) s"
    by (auto simp: flush_row_Inr update_checked_Inr_iff)
  have "r' \<in> set (replace_row key r' (get s))" using h(1) assms(3-5) by (auto simp: set_replace_row)
  with update_checked_ok[OF assms(2) h(2)] h show ?thesis by (simp add: replace_row_def)
qed

lemma insert_row_table:
  assumes "insert_row get put check clash refs r s = (Inr x, s')" "table_ok check clash (get s)"
  shows "table_ok check clash (get s @ [r])"
  using assms(1) insert_checked_ok[OF assms(2), of True r "get s @ [r]"]
  by (auto simp: insert_row_Inr insert_checked_Inr_iff)

end

lemma flush_user_ok:
  assumes "accounts_ok s" "flush_user r s = (Inr r', s')" "old \<in> set (db_users (acc_db s))"
    and "usr_id r = usr_id old" "usr_semester_id r = usr_semester_id old"
  shows "accounts_ok s'"
proof -
  note flushed = usr.flush_row_table[OF assms(2)[unfolded flush_user_def] accounts_ok_tables(2)[OF assms(1)] _ assms(3,4)]
  moreover have "list_all (user_refs s) (replace_row usr_id r' (db_users (acc_db s)))"
    using assms(1,3,5) flushed by (auto simp: accounts_ok_def list_all_iff set_replace_row user_refs_def)
  ultimately show ?thesis using assms(1) by (auto intro: accounts_ok_users)
qed

lemma insert_session_ok:
  assumes "accounts_ok s" "insert_session r s = (Inr x, s')"
  shows "accounts_ok s'"
  using rses.insert_row_table[OF assms(2)[unfolded insert_session_def] accounts_ok_tables(4)[OF assms(1)]] assms
  unfolding accounts_ok_def account_refs_defs list_all_iff insert_session_def insert_row_Inr by auto

lemma flush_session_ok:
  assumes "accounts_ok s" "flush_session r s = (Inr r', s')" "old \<in> set (acc_sessions s)"
    and "rs_id r = rs_id old" "rs_user_id r = rs_user_id old"
  shows "accounts_ok s'"
  using rses.flush_row_table[OF assms(2)[unfolded flush_session_def] accounts_ok_tables(4)[OF assms(1)] _ assms(3,4)] assms
  unfolding accounts_ok_def account_refs_defs list_all_iff by (auto simp: set_replace_row)

lemma insert_token_ok:
  assumes "accounts_ok s" "insert_token r s = (Inr x, s')"
  shows "accounts_ok s'"
  using evt.insert_row_table[OF assms(2)[unfolded insert_token_def] accounts_ok_tables(5)[OF assms(1)]] assms
  unfolding accounts_ok_def account_refs_defs list_all_iff insert_token_def insert_row_Inr by auto

lemma flush_token_ok:
  assumes "accounts_ok s" "flush_token r s = (Inr r', s')" "old \<in> set (acc_tokens s)"
    and "evt_id r = evt_id old" "evt_user_id r = evt_user_id old"
  shows "accounts_ok s'"
  using evt.flush_row_table[OF assms(2)[unfolded flush_token_def] accounts_ok_tables(5)[OF assms(1)] _ assms(3,4)] assms
  unfolding accounts_ok_def account_refs_defs list_all_iff by (auto simp: set_replace_row)

lemma update_semester_ok:
  assumes "accounts_ok s" "update_semester old r s = (Inr x, s')"
  shows "accounts_ok s'"
proof -
  from assms(2) have h: "s' = s\<lparr>acc_semesters := replace_row sem_id r (acc_semesters s)\<rparr>"
      "update_checked sem_id semester_check semester_clash r (acc_semesters s) =
        Inr (replace_row sem_id r (acc_semesters s))"
    by (auto simp: update_semester_Inr update_checked_Inr_iff)
  from sem.update_checked_ok[OF accounts_ok_tables(3)[OF assms(1)] h(2), folded replace_row_def] h(1) assms(1) show ?thesis
    unfolding accounts_ok_def account_refs_defs by auto
qed

end
