(* ===== verification/Buddy_Matches.thy ===== *)
theory Buddy_Matches
  imports Matching_Recommendations
begin

text \<open>
  The ACTIVE match policy (\<open>services/buddy_match_policy.py\<close>), \<open>canonical_user_pair\<close> of
  \<open>models/buddy_match.py\<close> and the activation of a match (\<open>services/buddy_matches.py\<close>). A session holds at most one
  changed invitation that is not yet flushed (the factory sets \<open>autoflush=False\<close>): \<open>dirty\<close> is that object, which
  a later \<open>SELECT\<close> of its row returns and which \<open>begin_nested()\<close> flushes.
\<close>

section \<open>Pairs and users\<close>

definition canonical_user_pair :: "uuid \<Rightarrow> uuid \<Rightarrow> exn + uuid \<times> uuid" where
  "canonical_user_pair first_user_id second_user_id =
     (if first_user_id = second_user_id then Inl ValueError
      else Inr (if first_user_id < second_user_id then (first_user_id, second_user_id)
                else (second_user_id, first_user_id)))"

definition available_user :: "user option \<Rightarrow> bool" where
  "available_user usr = (case usr of None \<Rightarrow> False
     | Some r \<Rightarrow> usr_role r = USER \<and> usr_is_active r \<and> usr_deleted_at r = None)"

definition user_by_id :: "database \<Rightarrow> uuid \<Rightarrow> user option" where
  "user_by_id db i = find (\<lambda>r. usr_id r = i) (db_users db)"

definition lock_current_buddy_users :: "uuid list \<Rightarrow> database \<Rightarrow> exn + user list" where
  "lock_current_buddy_users user_ids db =
     (let ordered_ids = remdups (sort user_ids) in
      if ordered_ids = [] then Inl BuddyParticipantStateError
      else if \<not> list_all (\<lambda>i. available_user (user_by_id db i)) ordered_ids then Inl BuddyParticipantStateError
      else Inr (map (\<lambda>i. the (user_by_id db i)) ordered_ids))"

definition has_active_buddy_match :: "uuid \<Rightarrow> database \<Rightarrow> bool" where
  "has_active_buddy_match user_id db =
     list_ex (\<lambda>m. mat_status m = ACTIVE
        \<and> (mat_participant_one_user_id m = user_id \<or> mat_participant_two_user_id m = user_id)) (db_matches db)"

section \<open>The score snapshot\<close>

text \<open>\<open>date.isoformat()\<close>: the proleptic Gregorian date of a day number, four-digit year.\<close>

definition civil_date :: "date \<Rightarrow> int \<times> int \<times> int" where
  "civil_date day =
     (let z = day + 719468; era = z div 146097; doe = z mod 146097;
          yoe = (doe - doe div 1460 + doe div 36524 - doe div 146096) div 365;
          doy = doe - (365 * yoe + yoe div 4 - yoe div 100);
          mp = (5 * doy + 2) div 153;
          d = doy - (153 * mp + 2) div 5 + 1;
          m = (if mp < 10 then mp + 3 else mp - 9)
      in (yoe + era * 400 + (if m \<le> 2 then 1 else 0), m, d))"

fun decimal_digits :: "nat \<Rightarrow> int \<Rightarrow> pystr" where
  "decimal_digits 0 n = []"
| "decimal_digits (Suc k) n = decimal_digits k (n div 10) @ [nat (48 + n mod 10)]"

definition iso_date :: "date \<Rightarrow> pystr" where
  "iso_date day = (case civil_date day of (y, m, d) \<Rightarrow>
     decimal_digits 4 y @ [45] @ decimal_digits 2 m @ [45] @ decimal_digits 2 d)"

definition signal_json :: "signal_explanation \<Rightarrow> pyval" where
  "signal_json x = PyDict [(PyStr (u ''similarity''), PyFloat (Finite (sx_similarity x))),
     (PyStr (u ''weight''), PyInt (sx_weight x)), (PyStr (u ''points''), PyFloat (Finite (sx_points x)))]"

definition compatibility_score_snapshot :: "compatibility_score \<Rightarrow> exn + pyval" where
  "compatibility_score_snapshot score =
     ebind (project_compatibility_explanation score) (\<lambda>x.
     Inr (PyDict [(PyStr (u ''reference_week_start''), PyStr (iso_date (cs_reference_week_start score))),
       (PyStr (u ''interests''), signal_json (cx_interests x)),
       (PyStr (u ''activities''), signal_json (cx_activities x)),
       (PyStr (u ''availability''), signal_json (cx_availability x)),
       (PyStr (u ''languages''), signal_json (cx_languages x)),
       (PyStr (u ''major''), signal_json (cx_major x))]))"

section \<open>Locking the participants\<close>

record locked_buddy_participants =
  lock_sender_user :: user
  lock_recipient_user :: user
  lock_sender_profile :: student_profile
  lock_recipient_profile :: student_profile

definition profile_by_user :: "database \<Rightarrow> uuid \<Rightarrow> student_profile option" where
  "profile_by_user db i = find (\<lambda>p. prof_user_id p = i) (db_profiles db)"

definition opposite_types :: "student_type option \<Rightarrow> student_type option \<Rightarrow> bool" where
  "opposite_types a b \<longleftrightarrow> {a, b} = {Some VIETNAMESE, Some INTERNATIONAL}"

definition lock_buddy_match_participants :: "invitation \<Rightarrow> database \<Rightarrow> exn + locked_buddy_participants" where
  "lock_buddy_match_participants r db =
     ebind (canonical_user_pair (inv_sender_id r) (inv_recipient_id r)) (\<lambda>(low, high).
     ebind (case lock_current_buddy_users [low, high] db of
              Inl BuddyParticipantStateError \<Rightarrow> Inl (BuddyMatchActivationError Match_PARTICIPANT_STATE_INVALID)
            | other \<Rightarrow> other) (\<lambda>users.
     case (find (\<lambda>x. usr_id x = inv_sender_id r) users, find (\<lambda>x. usr_id x = inv_recipient_id r) users,
           profile_by_user db (inv_sender_id r), profile_by_user db (inv_recipient_id r)) of
       (Some sender_user, Some recipient_user, Some sender_profile, Some recipient_profile) \<Rightarrow>
         if prof_deleted_at sender_profile \<noteq> None \<or> prof_deleted_at recipient_profile \<noteq> None
            \<or> usr_semester_id sender_user = None
            \<or> usr_semester_id sender_user \<noteq> usr_semester_id recipient_user
         then Inl (BuddyMatchActivationError Match_PARTICIPANT_STATE_INVALID)
         else if \<not> opposite_types (prof_student_type sender_profile) (prof_student_type recipient_profile)
         then Inl (BuddyMatchActivationError Match_OPPOSITE_TYPES_REQUIRED)
         else Inr \<lparr>lock_sender_user = sender_user, lock_recipient_user = recipient_user,
                lock_sender_profile = sender_profile, lock_recipient_profile = recipient_profile\<rparr>
     | _ \<Rightarrow> Inl (BuddyMatchActivationError Match_PARTICIPANT_STATE_INVALID)))"

definition active_pair_exists :: "uuid \<Rightarrow> uuid \<Rightarrow> database \<Rightarrow> exn + bool" where
  "active_pair_exists first_user_id second_user_id db =
     ebind (canonical_user_pair first_user_id second_user_id) (\<lambda>pair.
     Inr (list_ex (\<lambda>m. mat_pair m = pair \<and> mat_status m = ACTIVE) (db_matches db)))"

section \<open>Activation\<close>

definition session_view :: "invitation option \<Rightarrow> uuid \<Rightarrow> database \<Rightarrow> invitation option" where
  "session_view dirty i db =
     (case find (\<lambda>r. inv_id r = i \<and> inv_deleted_at r = None) (db_invitations db) of
        None \<Rightarrow> None
      | Some row \<Rightarrow> (case dirty of None \<Rightarrow> Some row | Some r \<Rightarrow> Some (if inv_id r = i then r else row)))"

definition flush_dirty :: "invitation option \<Rightarrow> (exn, database, unit) txn" where
  "flush_dirty dirty =
     (case dirty of None \<Rightarrow> return_tx () | Some r \<Rightarrow> bind_tx (flush_invitation r) (\<lambda>_. return_tx ()))"

definition activate_buddy_match ::
    "uuid \<Rightarrow> invitation option \<Rightarrow> uuid \<Rightarrow> compatibility_score \<Rightarrow> locked_buddy_participants option \<Rightarrow> clock_value
       \<Rightarrow> (exn, database, buddy_match) txn" where
  "activate_buddy_match fresh dirty accepted_invitation_id compatibility locked_participants clock =
     bind_tx (lift_tx (aware ValueError clock)) (\<lambda>activated_at.
     bind_tx (query_tx (session_view dirty accepted_invitation_id)) (\<lambda>found.
     case found of
       None \<Rightarrow> raise_tx (BuddyMatchActivationError Match_INVITATION_NOT_ACCEPTED)
     | Some observed \<Rightarrow>
     if inv_status observed \<noteq> ACCEPTED then raise_tx (BuddyMatchActivationError Match_INVITATION_NOT_ACCEPTED)
     else bind_tx (case locked_participants of
         None \<Rightarrow> (\<lambda>db. (lock_buddy_match_participants observed db, db))
       | Some p \<Rightarrow>
           if usr_id (lock_sender_user p) \<noteq> inv_sender_id observed
              \<or> usr_id (lock_recipient_user p) \<noteq> inv_recipient_id observed
              \<or> prof_user_id (lock_sender_profile p) \<noteq> inv_sender_id observed
              \<or> prof_user_id (lock_recipient_profile p) \<noteq> inv_recipient_id observed
           then raise_tx (BuddyMatchActivationError Match_PARTICIPANT_STATE_INVALID)
           else return_tx p) (\<lambda>participants.
     bind_tx (query_tx (session_view dirty accepted_invitation_id)) (\<lambda>locked.
     case locked of
       None \<Rightarrow> raise_tx (BuddyMatchActivationError Match_INVITATION_NOT_ACCEPTED)
     | Some row \<Rightarrow>
     if inv_status row \<noteq> ACCEPTED \<or> inv_sender_id row \<noteq> inv_sender_id observed
        \<or> inv_recipient_id row \<noteq> inv_recipient_id observed
     then raise_tx (BuddyMatchActivationError Match_INVITATION_NOT_ACCEPTED)
     else bind_tx (\<lambda>db. (active_pair_exists (inv_sender_id row) (inv_recipient_id row) db, db)) (\<lambda>pair_exists.
     bind_tx (require_tx (\<not> pair_exists) (BuddyMatchActivationError Match_ACTIVE_PAIR_EXISTS)) (\<lambda>_.
     case usr_semester_id (lock_sender_user participants) of
       None \<Rightarrow> raise_tx (BuddyMatchActivationError Match_PARTICIPANT_STATE_INVALID)
     | Some semester_id \<Rightarrow>
     if usr_semester_id (lock_recipient_user participants) \<noteq> Some semester_id
     then raise_tx (BuddyMatchActivationError Match_PARTICIPANT_STATE_INVALID)
     else bind_tx (lift_tx (compatibility_score_snapshot compatibility)) (\<lambda>score_breakdown.
     let buddy_match = \<lparr>mat_id = fresh, mat_participant_one_user_id = inv_sender_id row,
           mat_participant_two_user_id = inv_recipient_id row,
           mat_participant_one_profile_id = prof_id (lock_sender_profile participants),
           mat_participant_two_profile_id = prof_id (lock_recipient_profile participants),
           mat_status = ACTIVE, mat_accepted_invitation_id = inv_id row, mat_semester_id = semester_id,
           mat_score = cs_score compatibility, mat_score_breakdown = score_breakdown,
           mat_activated_at = activated_at, mat_created_at = activated_at, mat_updated_at = activated_at,
           mat_deleted_at = None\<rparr>
     in bind_tx (rethrow_tx (\<lambda>e. if e = IntegrityError Unique_violation
                               then BuddyMatchActivationError Match_ACTIVE_PAIR_EXISTS else e)
            (bind_tx (flush_dirty dirty) (\<lambda>_. atomic_tx (insert_match buddy_match)))) (\<lambda>_.
        return_tx buddy_match))))))))"

end
