(* ===== verification/Invitation_Sending.thy ===== *)
theory Invitation_Sending
  imports Buddy_Matches Email_Outbox
begin

text \<open>
  Creation of invitations (\<open>services/invitation_sending.py\<close>): canonical messages, locking and revalidation of the
  pair, the pending and active pair policies, the pending limit, and the e-mail event staged in the same
  transaction. \<open>other\<close> is what concurrent transactions commit while this one waits for its row locks.
\<close>

section \<open>UUIDs as text\<close>

definition hex_digit :: "nat \<Rightarrow> nat" where
  "hex_digit n = (if n < 10 then 48 + n else 87 + n)"

fun hex_digits :: "nat \<Rightarrow> nat \<Rightarrow> pystr" where
  "hex_digits 0 n = []"
| "hex_digits (Suc k) n = hex_digits k (n div 16) @ [hex_digit (n mod 16)]"

text \<open>\<open>str(UUID)\<close>: 32 hexadecimal digits in groups of 8, 4, 4, 4 and 12.\<close>

definition uuid_str :: "uuid \<Rightarrow> pystr" where
  "uuid_str i = (let h = hex_digits 32 i in
     take 8 h @ [45] @ take 4 (drop 8 h) @ [45] @ take 4 (drop 12 h) @ [45] @ take 4 (drop 16 h) @ [45] @ drop 20 h)"

section \<open>Messages\<close>

definition MAX_INVITATION_MESSAGE_WORDS :: nat where
  "MAX_INVITATION_MESSAGE_WORDS = 500"

definition MAX_OUTGOING_PENDING_INVITATIONS :: nat where
  "MAX_OUTGOING_PENDING_INVITATIONS = 30"

definition MATCHING_INVITATION_CREATED :: pystr where
  "MATCHING_INVITATION_CREATED = u ''MATCHING_INVITATION_CREATED''"

record canonical_invitation_message =
  cim_value :: pystr
  cim_word_count :: nat
  cim_code_point_count :: nat

definition canonicalize_invitation_message :: "pystr \<Rightarrow> exn + canonical_invitation_message" where
  "canonicalize_invitation_message message =
     (let canonical = py_strip message; code_point_count = length canonical in
      if MAX_INVITATION_MESSAGE_CODE_POINTS < code_point_count
      then Inl (InvitationSendError Send_MESSAGE_TOO_MANY_CODE_POINTS)
      else let word_count = word_runs False canonical in
        if MAX_INVITATION_MESSAGE_WORDS < word_count then Inl (InvitationSendError Send_MESSAGE_TOO_MANY_WORDS)
        else Inr \<lparr>cim_value = canonical, cim_word_count = word_count, cim_code_point_count = code_point_count\<rparr>)"

section \<open>Locking the pair\<close>

definition is_available_user :: "user option \<Rightarrow> bool" where
  "is_available_user usr = (case usr of None \<Rightarrow> False
     | Some r \<Rightarrow> usr_role r = USER \<and> usr_is_active r \<and> usr_deleted_at r = None \<and> usr_email_verified_at r \<noteq> None)"

definition capability_as :: "exn \<Rightarrow> exn + 'a \<Rightarrow> exn + 'a" where
  "capability_as reason r = (case r of Inl (BuddyCapabilityError _) \<Rightarrow> Inl reason | _ \<Rightarrow> r)"

definition recipient_of_profile :: "uuid \<Rightarrow> uuid \<Rightarrow> database \<Rightarrow> exn + uuid" where
  "recipient_of_profile sender_user_id recipient_profile_id db =
     (case find (\<lambda>p. prof_id p = recipient_profile_id \<and> prof_deleted_at p = None) (db_profiles db) of
        None \<Rightarrow> Inl (InvitationSendError Send_RECIPIENT_INELIGIBLE)
      | Some p \<Rightarrow> if prof_user_id p = sender_user_id then Inl (InvitationSendError Send_SELF_NOT_ALLOWED)
                  else Inr (prof_user_id p))"

text \<open>What follows the wait for the row locks.\<close>

definition revalidate_pair ::
    "unicode_db \<Rightarrow> uuid \<Rightarrow> uuid \<Rightarrow> uuid \<Rightarrow> database
       \<Rightarrow> exn + user \<times> user \<times> eligible_matching_principal \<times> eligible_matching_principal" where
  "revalidate_pair uni sender_user_id recipient_user_id recipient_profile_id db =
     (case user_by_id db sender_user_id of
        None \<Rightarrow> Inl (InvitationSendError Send_SENDER_INELIGIBLE)
      | Some sender_user \<Rightarrow>
     if \<not> is_available_user (Some sender_user) then Inl (InvitationSendError Send_SENDER_INELIGIBLE)
     else case user_by_id db recipient_user_id of
        None \<Rightarrow> Inl (InvitationSendError Send_RECIPIENT_INELIGIBLE)
      | Some recipient_user \<Rightarrow>
     if \<not> is_available_user (Some recipient_user) then Inl (InvitationSendError Send_RECIPIENT_INELIGIBLE)
     else if usr_semester_id sender_user = None then Inl (InvitationSendError Send_SENDER_INELIGIBLE)
     else if usr_semester_id recipient_user = None \<or> usr_semester_id recipient_user \<noteq> usr_semester_id sender_user
     then Inl (InvitationSendError Send_RECIPIENT_INELIGIBLE)
     else case profile_by_user db sender_user_id of
        None \<Rightarrow> Inl (InvitationSendError Send_SENDER_INELIGIBLE)
      | Some sender_profile \<Rightarrow>
     if prof_deleted_at sender_profile \<noteq> None then Inl (InvitationSendError Send_SENDER_INELIGIBLE)
     else case profile_by_user db recipient_user_id of
        None \<Rightarrow> Inl (InvitationSendError Send_RECIPIENT_INELIGIBLE)
      | Some recipient_profile \<Rightarrow>
     if prof_id recipient_profile \<noteq> recipient_profile_id \<or> prof_deleted_at recipient_profile \<noteq> None
     then Inl (InvitationSendError Send_RECIPIENT_INELIGIBLE)
     else ebind (capability_as (InvitationSendError Send_SENDER_INELIGIBLE)
                   (get_eligible_matching_principal uni db
                      \<lparr>principal_user = sender_user, principal_profile = sender_profile\<rparr>)) (\<lambda>sender.
          ebind (capability_as (InvitationSendError Send_RECIPIENT_INELIGIBLE)
                   (get_eligible_matching_principal uni db
                      \<lparr>principal_user = recipient_user, principal_profile = recipient_profile\<rparr>)) (\<lambda>recipient.
          if \<not> matching_pair_is_eligible sender recipient
          then Inl (InvitationSendError Send_RECIPIENT_INELIGIBLE)
          else Inr (sender_user, recipient_user, sender, recipient))))"

definition commit_others :: "(database \<Rightarrow> database) \<Rightarrow> (exn, database, unit) txn" where
  "commit_others other db = (Inr (), other db)"

definition lock_and_revalidate_pair ::
    "unicode_db \<Rightarrow> (database \<Rightarrow> database) \<Rightarrow> uuid \<Rightarrow> uuid
       \<Rightarrow> (exn, database, user \<times> user \<times> eligible_matching_principal \<times> eligible_matching_principal) txn" where
  "lock_and_revalidate_pair uni other sender_user_id recipient_profile_id =
     bind_tx (\<lambda>db. (recipient_of_profile sender_user_id recipient_profile_id db, db)) (\<lambda>recipient_user_id.
     bind_tx (commit_others other) (\<lambda>_.
     (\<lambda>db. (revalidate_pair uni sender_user_id recipient_user_id recipient_profile_id db, db))))"

section \<open>Pair and capacity policies\<close>

definition expire_or_reject_pending_pair :: "uuid \<Rightarrow> uuid \<Rightarrow> instant \<Rightarrow> (exn, database, unit) txn" where
  "expire_or_reject_pending_pair sender_user_id recipient_user_id moment =
     bind_tx (lift_tx (canonical_user_pair sender_user_id recipient_user_id)) (\<lambda>pair.
     bind_tx (query_tx (\<lambda>db. find (\<lambda>r. inv_pair r = pair \<and> inv_status r = PENDING) (db_invitations db))) (\<lambda>pending.
     case pending of
       None \<Rightarrow> return_tx ()
     | Some r \<Rightarrow>
         if moment < inv_expires_at r then raise_tx (InvitationSendError Send_PENDING_EXISTS)
         else bind_tx (lift_tx (invitation_expire (Aware moment) r)) (\<lambda>r'.
              bind_tx (flush_invitation r') (\<lambda>_. return_tx ()))))"

definition reject_active_pair :: "uuid \<Rightarrow> uuid \<Rightarrow> (exn, database, unit) txn" where
  "reject_active_pair sender_user_id recipient_user_id =
     bind_tx (lift_tx (canonical_user_pair sender_user_id recipient_user_id)) (\<lambda>pair.
     bind_tx (query_tx (\<lambda>db. list_ex (\<lambda>m. mat_pair m = pair \<and> mat_status m = ACTIVE) (db_matches db))) (\<lambda>active.
     require_tx (\<not> active) (InvitationSendError Send_ACTIVE_PAIR_EXISTS)))"

definition pending_count :: "uuid \<Rightarrow> instant \<Rightarrow> database \<Rightarrow> nat" where
  "pending_count sender_user_id moment db =
     length (filter (\<lambda>r. inv_sender_id r = sender_user_id \<and> effective_pending_predicate moment r) (db_invitations db))"

definition require_pending_capacity :: "uuid \<Rightarrow> instant \<Rightarrow> (exn, database, unit) txn" where
  "require_pending_capacity sender_user_id moment =
     bind_tx (query_tx (pending_count sender_user_id moment)) (\<lambda>n.
     require_tx (n < MAX_OUTGOING_PENDING_INVITATIONS) (InvitationSendError Send_PENDING_LIMIT_REACHED))"

section \<open>Sending\<close>

definition created_event_key :: "uuid \<Rightarrow> pystr" where
  "created_event_key i = u ''matching-invitation-created:'' @ uuid_str i"

definition send_matching_invitation ::
    "unicode_db \<Rightarrow> (database \<Rightarrow> database) \<Rightarrow> uuid \<Rightarrow> uuid \<Rightarrow> eligible_matching_principal \<Rightarrow> uuid \<Rightarrow> pystr \<Rightarrow> clock_value
       \<Rightarrow> (exn, database, invitation) txn" where
  "send_matching_invitation uni other fresh fresh_event sender recipient_profile_id message clock =
     bind_tx (lift_tx (canonicalize_invitation_message message)) (\<lambda>canonical_message.
     bind_tx (lift_tx (aware ValueError clock)) (\<lambda>current_time.
     bind_tx (lock_and_revalidate_pair uni other (elig_user_id sender) recipient_profile_id)
       (\<lambda>(sender_user, recipient_user, locked_sender, locked_recipient).
     bind_tx (expire_or_reject_pending_pair (elig_user_id locked_sender) (elig_user_id locked_recipient) current_time) (\<lambda>_.
     bind_tx (reject_active_pair (elig_user_id locked_sender) (elig_user_id locked_recipient)) (\<lambda>_.
     bind_tx (require_pending_capacity (elig_user_id locked_sender) current_time) (\<lambda>_.
     bind_tx (lift_tx (invitation_expires_at (Aware current_time))) (\<lambda>expires_at.
     let row = \<lparr>inv_id = fresh, inv_sender_id = elig_user_id locked_sender,
           inv_recipient_id = elig_user_id locked_recipient, inv_message = cim_value canonical_message,
           inv_status = PENDING, inv_expires_at = expires_at, inv_responded_at = None, inv_cancelled_at = None,
           inv_expired_at = None, inv_sender_hidden_at = None, inv_version = 1, inv_created_at = current_time,
           inv_updated_at = current_time, inv_deleted_at = None\<rparr>
     in bind_tx (rethrow_tx (\<lambda>e. if e = IntegrityError Unique_violation
                               then InvitationSendError Send_PENDING_EXISTS else e)
                   (atomic_tx (insert_invitation row))) (\<lambda>_.
        bind_tx (enqueue_transactional_email fresh_event MATCHING_INVITATION_CREATED fresh
                   (Some (usr_id recipient_user)) (usr_email recipient_user) (created_event_key fresh)
                   [(PyStr (u ''invitation_id''), PyStr (uuid_str fresh))] (Aware current_time)) (\<lambda>_.
        return_tx row)))))))))"

end
