(* ===== verification/Auth_Tokens.thy ===== *)
theory Auth_Tokens
  imports Account_Database Invitation_Sending
begin

text \<open>
  Access and refresh tokens (\<open>services/tokens.py\<close>): creation, verification and the preparation of a rotation. The
  package PyJWT is the argument \<open>lib\<close>, and \<open>wall\<close> is the system time its verification reads. \<open>UUID(text)\<close> is written
  out; the table of decimal digits outside ASCII that \<open>int(text, 16)\<close> consults is the argument \<open>dec\<close>.
\<close>

section \<open>UUID from text\<close>

text \<open>\<open>s.replace(sub, "")\<close> for a non-empty \<open>sub\<close>.\<close>

fun py_remove :: "nat \<Rightarrow> pystr \<Rightarrow> pystr \<Rightarrow> pystr" where
  "py_remove 0 sub s = s"
| "py_remove (Suc k) sub [] = []"
| "py_remove (Suc k) sub (c # cs) =
     (if take (length sub) (c # cs) = sub then py_remove k sub (drop (length sub) (c # cs))
      else c # py_remove k sub cs)"

definition py_replace_empty :: "pystr \<Rightarrow> pystr \<Rightarrow> pystr" where
  "py_replace_empty sub s = py_remove (Suc (length s)) sub s"

definition hex_value :: "nat \<Rightarrow> nat option" where
  "hex_value c = (if 48 \<le> c \<and> c \<le> 57 then Some (c - 48) else if 97 \<le> c \<and> c \<le> 102 then Some (c - 87)
     else if 65 \<le> c \<and> c \<le> 70 then Some (c - 55) else None)"

text \<open>
  \<open>PyLong_FromString\<close> in base 16 after the sign and prefix: digits with single underscores between them, then
  spaces to the end. The accumulator is None until the first digit; \<open>gap\<close> is an underscore just read.
\<close>

definition c_isspace :: "nat \<Rightarrow> bool" where
  "c_isspace c \<longleftrightarrow> (9 \<le> c \<and> c \<le> 13) \<or> c = 32"

fun hex_scan :: "nat option \<Rightarrow> bool \<Rightarrow> pystr \<Rightarrow> nat option" where
  "hex_scan acc gap [] = (if gap then None else acc)"
| "hex_scan acc gap (c # cs) =
     (case hex_value c of
        Some v \<Rightarrow> hex_scan (Some ((case acc of None \<Rightarrow> 0 | Some n \<Rightarrow> n) * 16 + v)) False cs
      | None \<Rightarrow> if c = 95 then (if gap \<or> acc = None then None else hex_scan acc True cs)
                else if gap \<or> \<not> list_all c_isspace (c # cs) then None else acc)"

text \<open>The conversion \<open>int\<close> applies to text outside ASCII first: other spaces to a space, decimal digits to ASCII.\<close>

definition to_ascii_digit :: "(nat \<Rightarrow> nat option) \<Rightarrow> nat \<Rightarrow> nat" where
  "to_ascii_digit dec c =
     (if c < 127 then c else if py_isspace c then 32 else case dec c of Some d \<Rightarrow> 48 + d | None \<Rightarrow> 63)"

definition py_int16 :: "(nat \<Rightarrow> nat option) \<Rightarrow> pystr \<Rightarrow> int option" where
  "py_int16 dec s =
     (let t = (if list_all (\<lambda>c. c < 128) s then s else map (to_ascii_digit dec) s);
          t1 = dropWhile c_isspace t;
          neg = (t1 \<noteq> [] \<and> hd t1 = 45);
          t2 = (if t1 \<noteq> [] \<and> (hd t1 = 43 \<or> hd t1 = 45) then tl t1 else t1);
          prefixed = (length t2 \<ge> 2 \<and> t2 ! 0 = 48 \<and> (t2 ! 1 = 120 \<or> t2 ! 1 = 88));
          t3 = (if prefixed then drop 2 t2 else t2);
          t4 = (if prefixed \<and> t3 \<noteq> [] \<and> hd t3 = 95 then tl t3 else t3)
      in map_option (\<lambda>n. if neg then - int n else int n) (hex_scan None False t4))"

definition py_uuid :: "(nat \<Rightarrow> nat option) \<Rightarrow> pystr \<Rightarrow> exn + uuid" where
  "py_uuid dec s =
     (let h = py_replace_empty [45] (strip_by (\<lambda>c. c = 123 \<or> c = 125)
                (py_replace_empty (u ''uuid:'') (py_replace_empty (u ''urn:'') s)))
      in if length h \<noteq> 32 then Inl ValueError
         else case py_int16 dec h of
                None \<Rightarrow> Inl ValueError
              | Some n \<Rightarrow> if 0 \<le> n \<and> n < 2 ^ 128 then Inr (nat n) else Inl ValueError)"

section \<open>Claims and pairs\<close>

definition JWT_ALGORITHM :: pystr where "JWT_ALGORITHM = u ''HS256''"
definition JWT_ISSUER :: pystr where "JWT_ISSUER = u ''vgu-buddy-api''"
definition JWT_AUDIENCE :: pystr where "JWT_AUDIENCE = u ''vgu-buddy-web''"
definition JWT_CLOCK_SKEW :: int where "JWT_CLOCK_SKEW = 30 * 1000000"
definition ACCESS_TOKEN_TTL :: int where "ACCESS_TOKEN_TTL = 15 * 60 * 1000000"
definition REFRESH_TOKEN_TTL :: int where "REFRESH_TOKEN_TTL = 7 * day_us"

datatype token_type = Access_token | Refresh_token

fun token_type_value :: "token_type \<Rightarrow> pystr" where
  "token_type_value Access_token = u ''access''"
| "token_type_value Refresh_token = u ''refresh''"

fun role_value :: "user_role \<Rightarrow> pystr" where
  "role_value USER = u ''USER''"
| "role_value ADMIN = u ''ADMIN''"

definition role_of_value :: "pystr \<Rightarrow> exn + user_role" where
  "role_of_value s = (if s = role_value USER then Inr USER else if s = role_value ADMIN then Inr ADMIN
     else Inl ValueError)"

record access_token_claims =
  atc_user_id :: uuid
  atc_role :: user_role
  atc_session_id :: uuid
  atc_token_id :: uuid
  atc_issued_at :: instant
  atc_expires_at :: instant

record refresh_token_claims =
  rtc_user_id :: uuid
  rtc_session_id :: uuid
  rtc_token_id :: uuid
  rtc_issued_at :: instant
  rtc_expires_at :: instant

record token_pair =
  tp_access_token :: pystr
  tp_refresh_token :: pystr
  tp_access_expires_at :: instant
  tp_refresh_expires_at :: instant
  tp_session_id :: uuid
  tp_access_token_id :: uuid
  tp_refresh_token_id :: uuid

record refresh_token_rotation =
  rot_consumed_token_id :: uuid
  rot_replacement :: token_pair

record auth_token_settings =
  ats_signing_key :: "nat list"
  ats_secure_cookies :: bool

text \<open>\<open>_utc_now\<close>: an aware instant cut to whole seconds.\<close>

definition second_us :: int where
  "second_us = 1000000"

definition whole_seconds :: "clock_value \<Rightarrow> exn + instant" where
  "whole_seconds c = ebind (aware ValueError c) (\<lambda>t. Inr (t - t mod second_us))"

section \<open>The JWT package\<close>

datatype payload_value = Claim_str pystr | Claim_time instant

record jwt_options =
  opt_algorithms :: "pystr list"
  opt_audience :: pystr
  opt_issuer :: pystr
  opt_leeway :: int
  opt_require :: "pystr list"

text \<open>
  \<open>jwt.encode(payload, key, algorithm, headers)\<close> and \<open>jwt.decode_complete(token, key, ...)\<close> at the system time; None
  when the latter raises \<open>PyJWTError\<close>.
\<close>

record pyjwt =
  jwt_encode :: "(pystr \<times> payload_value) list \<Rightarrow> nat list \<Rightarrow> pystr \<Rightarrow> (pystr \<times> pystr) list \<Rightarrow> pystr"
  jwt_decode_complete ::
    "instant \<Rightarrow> pystr \<Rightarrow> nat list \<Rightarrow> jwt_options \<Rightarrow> ((pystr \<times> pyval) list \<times> (pystr \<times> pyval) list) option"

text \<open>A \<open>datetime\<close> claim is written as its whole seconds.\<close>

fun json_claim :: "payload_value \<Rightarrow> pyval" where
  "json_claim (Claim_str s) = PyStr s"
| "json_claim (Claim_time t) = PyInt (t div second_us)"

definition time_claim :: "(pystr \<times> payload_value) list \<Rightarrow> pystr \<Rightarrow> (instant \<Rightarrow> bool) \<Rightarrow> bool" where
  "time_claim payload k p =
     (case map_of payload k of Some (Claim_time t) \<Rightarrow> p (t div second_us * second_us) | _ \<Rightarrow> True)"

definition claims_accepted :: "instant \<Rightarrow> jwt_options \<Rightarrow> pystr \<Rightarrow> (pystr \<times> payload_value) list \<Rightarrow> bool" where
  "claims_accepted wall opts alg payload \<longleftrightarrow>
     alg \<in> set (opt_algorithms opts)
     \<and> map_of payload (u ''iss'') = Some (Claim_str (opt_issuer opts))
     \<and> map_of payload (u ''aud'') = Some (Claim_str (opt_audience opts))
     \<and> list_all (\<lambda>k. k \<in> fst ` set payload) (opt_require opts)
     \<and> time_claim payload (u ''iat'') (\<lambda>t. t \<le> wall + opt_leeway opts)
     \<and> time_claim payload (u ''nbf'') (\<lambda>t. t \<le> wall + opt_leeway opts)
     \<and> time_claim payload (u ''exp'') (\<lambda>t. wall - opt_leeway opts < t)"

text \<open>
  What the package documents about a token it encoded and decodes with the same key: the header and payload are the
  ones encoded, and it is accepted when the algorithm, issuer and audience are the expected ones, no required claim is
  missing and the time claims are within the leeway.
\<close>

definition pyjwt_contract :: "pyjwt \<Rightarrow> bool" where
  "pyjwt_contract lib \<longleftrightarrow> (\<forall>payload key alg headers wall opts.
     (\<forall>header claims. jwt_decode_complete lib wall (jwt_encode lib payload key alg headers) key opts = Some (header, claims) \<longrightarrow>
        claims = map (\<lambda>(k, v). (k, json_claim v)) payload
        \<and> map_of header (u ''alg'') = Some (PyStr alg)
        \<and> (\<forall>v. map_of headers (u ''typ'') = Some v \<longrightarrow> map_of header (u ''typ'') = Some (PyStr v)))
     \<and> (claims_accepted wall opts alg payload \<longrightarrow>
        jwt_decode_complete lib wall (jwt_encode lib payload key alg headers) key opts \<noteq> None))"

section \<open>Creation\<close>

definition token_payload ::
    "uuid \<Rightarrow> uuid \<Rightarrow> uuid \<Rightarrow> token_type \<Rightarrow> instant \<Rightarrow> instant \<Rightarrow> user_role option \<Rightarrow> (pystr \<times> payload_value) list" where
  "token_payload user_id session_id token_id type issued_at expires_at role =
     [(u ''iss'', Claim_str JWT_ISSUER), (u ''aud'', Claim_str JWT_AUDIENCE),
      (u ''sub'', Claim_str (uuid_str user_id)), (u ''sid'', Claim_str (uuid_str session_id)),
      (u ''jti'', Claim_str (uuid_str token_id)), (u ''token_type'', Claim_str (token_type_value type)),
      (u ''iat'', Claim_time issued_at), (u ''nbf'', Claim_time issued_at), (u ''exp'', Claim_time expires_at)]
     @ (case role of None \<Rightarrow> [] | Some r \<Rightarrow> [(u ''role'', Claim_str (role_value r))])"

definition encode_token ::
    "pyjwt \<Rightarrow> auth_token_settings \<Rightarrow> uuid \<Rightarrow> uuid \<Rightarrow> uuid \<Rightarrow> token_type \<Rightarrow> instant \<Rightarrow> instant \<Rightarrow> user_role option \<Rightarrow> pystr" where
  "encode_token lib settings user_id session_id token_id type issued_at expires_at role =
     jwt_encode lib (token_payload user_id session_id token_id type issued_at expires_at role)
       (ats_signing_key settings) JWT_ALGORITHM [(u ''typ'', u ''JWT'')]"

definition create_token_pair ::
    "pyjwt \<Rightarrow> auth_token_settings \<Rightarrow> uuid \<Rightarrow> uuid \<Rightarrow> uuid \<Rightarrow> user_role \<Rightarrow> uuid \<Rightarrow> clock_value \<Rightarrow> exn + token_pair" where
  "create_token_pair lib settings session_id access_token_id refresh_token_id role user_id clock =
     ebind (whole_seconds clock) (\<lambda>issued_at.
       let access_expires_at = issued_at + ACCESS_TOKEN_TTL; refresh_expires_at = issued_at + REFRESH_TOKEN_TTL in
       Inr \<lparr>tp_access_token = encode_token lib settings user_id session_id access_token_id Access_token issued_at
              access_expires_at (Some role),
            tp_refresh_token = encode_token lib settings user_id session_id refresh_token_id Refresh_token issued_at
              refresh_expires_at None,
            tp_access_expires_at = access_expires_at, tp_refresh_expires_at = refresh_expires_at,
            tp_session_id = session_id, tp_access_token_id = access_token_id,
            tp_refresh_token_id = refresh_token_id\<rparr>)"

section \<open>Verification\<close>

definition decode_options :: "token_type \<Rightarrow> jwt_options" where
  "decode_options expected_type =
     \<lparr>opt_algorithms = [JWT_ALGORITHM], opt_audience = JWT_AUDIENCE, opt_issuer = JWT_ISSUER,
      opt_leeway = JWT_CLOCK_SKEW,
      opt_require = [u ''iss'', u ''aud'', u ''sub'', u ''sid'', u ''jti'', u ''token_type'', u ''iat'', u ''nbf'', u ''exp'']
        @ (if expected_type = Access_token then [u ''role''] else [])\<rparr>"

definition decode_token ::
    "pyjwt \<Rightarrow> instant \<Rightarrow> pystr \<Rightarrow> token_type \<Rightarrow> auth_token_settings \<Rightarrow> exn + (pystr \<times> pyval) list" where
  "decode_token lib wall token expected_type settings =
     (case jwt_decode_complete lib wall token (ats_signing_key settings) (decode_options expected_type) of
        None \<Rightarrow> Inl TokenValidationError
      | Some (header, payload) \<Rightarrow>
          if map_of header (u ''alg'') \<noteq> Some (PyStr JWT_ALGORITHM)
             \<or> map_of header (u ''typ'') \<noteq> Some (PyStr (u ''JWT''))
             \<or> map_of payload (u ''token_type'') \<noteq> Some (PyStr (token_type_value expected_type))
          then Inl TokenValidationError else Inr payload)"

definition read_uuid_claim :: "(nat \<Rightarrow> nat option) \<Rightarrow> (pystr \<times> pyval) list \<Rightarrow> pystr \<Rightarrow> exn + uuid" where
  "read_uuid_claim dec payload claim =
     (case map_of payload claim of Some (PyStr s) \<Rightarrow> py_uuid dec s | _ \<Rightarrow> Inl TokenValidationError)"

text \<open>\<open>datetime.fromtimestamp(v, tz=UTC)\<close> accepts the years 1 to 9999.\<close>

definition read_timestamp_claim :: "(pystr \<times> pyval) list \<Rightarrow> pystr \<Rightarrow> exn + instant" where
  "read_timestamp_claim payload claim =
     (case map_of payload claim of
        Some (PyInt v) \<Rightarrow>
          if - 62135596800 \<le> v \<and> v \<le> 253402300799 then Inr (v * second_us) else Inl ValueError
      | _ \<Rightarrow> Inl TokenValidationError)"

text \<open>Every error of the reading becomes \<open>TokenValidationError\<close>.\<close>

definition untrusted :: "exn + 'a \<Rightarrow> exn + 'a" where
  "untrusted r = (case r of Inl _ \<Rightarrow> Inl TokenValidationError | Inr x \<Rightarrow> Inr x)"

definition read_common_claims ::
    "(nat \<Rightarrow> nat option) \<Rightarrow> (pystr \<times> pyval) list \<Rightarrow> int \<Rightarrow> exn + (uuid \<times> uuid \<times> uuid \<times> instant \<times> instant)" where
  "read_common_claims dec payload expected_ttl = untrusted (
     ebind (read_uuid_claim dec payload (u ''sub'')) (\<lambda>user_id.
     ebind (read_uuid_claim dec payload (u ''sid'')) (\<lambda>session_id.
     ebind (read_uuid_claim dec payload (u ''jti'')) (\<lambda>token_id.
     ebind (read_timestamp_claim payload (u ''iat'')) (\<lambda>issued_at.
     ebind (read_timestamp_claim payload (u ''nbf'')) (\<lambda>not_before.
     ebind (read_timestamp_claim payload (u ''exp'')) (\<lambda>expires_at.
     if not_before \<noteq> issued_at \<or> expires_at - issued_at \<noteq> expected_ttl then Inl TokenValidationError
     else Inr (user_id, session_id, token_id, issued_at, expires_at))))))))"

definition verify_access_token ::
    "pyjwt \<Rightarrow> (nat \<Rightarrow> nat option) \<Rightarrow> instant \<Rightarrow> pystr \<Rightarrow> auth_token_settings \<Rightarrow> exn + access_token_claims" where
  "verify_access_token lib dec wall token settings = untrusted (
     ebind (decode_token lib wall token Access_token settings) (\<lambda>payload.
     ebind (read_common_claims dec payload ACCESS_TOKEN_TTL) (\<lambda>(user_id, session_id, token_id, issued_at, expires_at).
     ebind (case map_of payload (u ''role'') of Some (PyStr s) \<Rightarrow> role_of_value s | _ \<Rightarrow> Inl TokenValidationError) (\<lambda>role.
     Inr \<lparr>atc_user_id = user_id, atc_role = role, atc_session_id = session_id, atc_token_id = token_id,
          atc_issued_at = issued_at, atc_expires_at = expires_at\<rparr>))))"

definition verify_refresh_token ::
    "pyjwt \<Rightarrow> (nat \<Rightarrow> nat option) \<Rightarrow> instant \<Rightarrow> pystr \<Rightarrow> auth_token_settings \<Rightarrow> exn + refresh_token_claims" where
  "verify_refresh_token lib dec wall token settings = untrusted (
     ebind (decode_token lib wall token Refresh_token settings) (\<lambda>payload.
     ebind (read_common_claims dec payload REFRESH_TOKEN_TTL) (\<lambda>(user_id, session_id, token_id, issued_at, expires_at).
     Inr \<lparr>rtc_user_id = user_id, rtc_session_id = session_id, rtc_token_id = token_id,
          rtc_issued_at = issued_at, rtc_expires_at = expires_at\<rparr>)))"

definition prepare_refresh_rotation ::
    "pyjwt \<Rightarrow> (nat \<Rightarrow> nat option) \<Rightarrow> instant \<Rightarrow> auth_token_settings \<Rightarrow> uuid \<Rightarrow> uuid \<Rightarrow> pystr \<Rightarrow> user_role \<Rightarrow> clock_value
       \<Rightarrow> exn + refresh_token_rotation" where
  "prepare_refresh_rotation lib dec wall settings fresh_access fresh_refresh refresh_token current_role clock =
     ebind (verify_refresh_token lib dec wall refresh_token settings) (\<lambda>claims.
     ebind (create_token_pair lib settings (rtc_session_id claims) fresh_access fresh_refresh current_role
              (rtc_user_id claims) clock) (\<lambda>replacement.
     Inr \<lparr>rot_consumed_token_id = rtc_token_id claims, rot_replacement = replacement\<rparr>))"

section \<open>A UUID reads back from its text\<close>

lemma py_remove_absent: "hd sub \<notin> set s \<Longrightarrow> sub \<noteq> [] \<Longrightarrow> py_remove k sub s = s"
  by (induction k sub s rule: py_remove.induct) (auto simp: neq_Nil_conv split: if_splits)

lemma py_remove_char: "length s < k \<Longrightarrow> py_remove k [c] s = filter (\<lambda>x. x \<noteq> c) s"
  by (induction k "[c]" s rule: py_remove.induct) auto

lemma hex_digits_set: "c \<in> set (hex_digits k n) \<Longrightarrow> (48 \<le> c \<and> c \<le> 57) \<or> (97 \<le> c \<and> c \<le> 102)"
proof (induction k arbitrary: n)
  case (Suc k)
  have "(48 \<le> hex_digit m \<and> hex_digit m \<le> 57) \<or> (97 \<le> hex_digit m \<and> hex_digit m \<le> 102)" if "m < 16" for m
    using that by (auto simp: hex_digit_def)
  from this[of "n mod 16"] Suc show ?case by auto
qed simp

lemma length_hex_digits: "length (hex_digits k n) = k"
  by (induction k arbitrary: n) auto

lemma hex_value_digit: "n < 16 \<Longrightarrow> hex_value (hex_digit n) = Some n"
  by (auto simp: hex_value_def hex_digit_def)

lemma hex_scan_all:
  "(\<And>c. c \<in> set s \<Longrightarrow> hex_value c \<noteq> None) \<Longrightarrow>
     hex_scan (Some a) False s = Some (foldl (\<lambda>a c. a * 16 + the (hex_value c)) a s)"
proof (induction s arbitrary: a)
  case (Cons c s)
  then obtain v where "hex_value c = Some v" by fastforce
  with Cons show ?case by simp
qed simp

lemma foldl_hex_digits: "foldl (\<lambda>a c. a * 16 + the (hex_value c)) a (hex_digits k n) = a * 16 ^ k + n mod 16 ^ k"
proof (induction k arbitrary: n)
  case (Suc k)
  have "n mod 16 ^ Suc k = n div 16 mod 16 ^ k * 16 + n mod 16"
    by (simp add: mod_mult2_eq[of n 16 "16 ^ k"] algebra_simps)
  with Suc show ?case by (simp add: hex_value_digit algebra_simps)
qed simp

lemma hex_scan_digits:
  assumes "0 < k"
  shows "hex_scan None False (hex_digits k n) = Some (n mod 16 ^ k)"
proof -
  have some: "hex_value c \<noteq> None" if "c \<in> set (hex_digits k n)" for c
    using hex_digits_set[OF that] by (auto simp: hex_value_def)
  from assms obtain c cs where h: "hex_digits k n = c # cs"
    using length_hex_digits[of k n] by (cases "hex_digits k n") auto
  with some obtain v where "hex_value c = Some v" by auto
  with h have "hex_scan None False (hex_digits k n) = hex_scan (Some 0) False (hex_digits k n)" by simp
  also have "\<dots> = Some (n mod 16 ^ k)"
    using hex_scan_all[OF some, where a = 0] by (simp add: foldl_hex_digits)
  finally show ?thesis .
qed

lemma uuid_str_set: "c \<in> set (uuid_str i) \<Longrightarrow> c = 45 \<or> (48 \<le> c \<and> c \<le> 57) \<or> (97 \<le> c \<and> c \<le> 102)"
  using hex_digits_set[of c 32 i] by (auto simp: uuid_str_def Let_def dest: in_set_takeD in_set_dropD)

lemma take_drop_step: "take n (drop m h) @ drop (m + n) h = drop m h"
  by (metis append_take_drop_id drop_drop add.commute)

lemma uuid_str_digits: "filter (\<lambda>x. x \<noteq> 45) (uuid_str i) = hex_digits 32 i"
proof -
  let ?h = "hex_digits 32 i"
  have no: "45 \<notin> set ?h" using hex_digits_set[of 45 32 i] by auto
  then have "filter (\<lambda>x. x \<noteq> 45) (take n (drop m ?h)) = take n (drop m ?h)"
      "filter (\<lambda>x. x \<noteq> 45) (take n ?h) = take n ?h" "filter (\<lambda>x. x \<noteq> 45) (drop m ?h) = drop m ?h" for n m
    by (intro filter_True; auto dest!: in_set_takeD in_set_dropD)+
  then have "filter (\<lambda>x. x \<noteq> 45) (uuid_str i) =
      take 8 (drop 0 ?h) @ take 4 (drop 8 ?h) @ take 4 (drop 12 ?h) @ take 4 (drop 16 ?h) @ drop 20 ?h"
    by (simp add: uuid_str_def Let_def)
  then show ?thesis
    using take_drop_step[of 8 0 ?h] take_drop_step[of 4 8 ?h] take_drop_step[of 4 12 ?h] take_drop_step[of 4 16 ?h]
    by simp
qed

lemma py_uuid_str: "i < 2 ^ 128 \<Longrightarrow> py_uuid dec (uuid_str i) = Inr i"
proof -
  assume i: "i < 2 ^ 128"
  let ?s = "uuid_str i" and ?h = "hex_digits 32 i"
  have absent: "117 \<notin> set ?s" "123 \<notin> set ?s" "125 \<notin> set ?s"
    using uuid_str_set[of 117 i] uuid_str_set[of 123 i] uuid_str_set[of 125 i] by auto
  then have rem: "py_replace_empty (u ''uuid:'') (py_replace_empty (u ''urn:'') ?s) = ?s"
    by (simp add: py_replace_empty_def py_remove_absent u_def)
  have ends: "hd ?s \<in> set ?s" "last ?s \<in> set ?s" if "?s \<noteq> []" using that by auto
  have strip: "strip_by (\<lambda>c. c = 123 \<or> c = 125) ?s = ?s"
    unfolding strip_by_idem_iff using absent(2,3) ends by metis
  have h: "py_replace_empty [45] ?s = ?h" by (simp add: py_replace_empty_def py_remove_char uuid_str_digits)
  have len: "length ?h = 32" by (rule length_hex_digits)
  have chars: "(48 \<le> c \<and> c \<le> 57) \<or> (97 \<le> c \<and> c \<le> 102)" if "c \<in> set ?h" for c using hex_digits_set that by blast
  from len obtain a b r where abr: "?h = a # b # r" by (cases ?h; cases "tl ?h") auto
  have ab: "a \<in> set ?h" "b \<in> set ?h" by (auto simp: abr)
  have ascii: "list_all (\<lambda>c. c < 128) ?h" using chars by (fastforce simp: list_all_iff)
  have first: "\<not> c_isspace a" "a \<noteq> 43" "a \<noteq> 45" "b \<noteq> 120" "b \<noteq> 88"
    using chars[OF ab(1)] chars[OF ab(2)] by (auto simp: c_isspace_def)
  have "py_int16 dec ?h = map_option int (hex_scan None False ?h)"
    using ascii first unfolding abr by (simp add: py_int16_def Let_def del: hex_scan.simps)
  also have "\<dots> = Some (int i)"
    using i hex_scan_digits[of 32 i] by simp
  finally have "py_int16 dec ?h = Some (int i)" .
  moreover have "int i < 2 ^ 128" using i by (metis of_nat_less_numeral_power_cancel_iff)
  ultimately show ?thesis using len by (simp add: py_uuid_def rem strip h)
qed

section \<open>Issued tokens verify\<close>

lemmas claim_keys = u_def JWT_ISSUER_def JWT_AUDIENCE_def JWT_ALGORITHM_def

lemma payload_claims:
  fixes p :: "(pystr \<times> payload_value) list"
  assumes "p = token_payload uid sid tid type t e role"
  shows "map_of p (u ''iss'') = Some (Claim_str JWT_ISSUER)" "map_of p (u ''aud'') = Some (Claim_str JWT_AUDIENCE)"
    "map_of p (u ''sub'') = Some (Claim_str (uuid_str uid))" "map_of p (u ''sid'') = Some (Claim_str (uuid_str sid))"
    "map_of p (u ''jti'') = Some (Claim_str (uuid_str tid))"
    "map_of p (u ''token_type'') = Some (Claim_str (token_type_value type))"
    "map_of p (u ''iat'') = Some (Claim_time t)" "map_of p (u ''nbf'') = Some (Claim_time t)"
    "map_of p (u ''exp'') = Some (Claim_time e)"
    "map_of p (u ''role'') = map_option (\<lambda>r. Claim_str (role_value r)) role"
  unfolding assms token_payload_def u_def by (simp_all split: option.split)

lemma map_of_json: "map_of (map (\<lambda>(k, v). (k, json_claim v)) p) k = map_option json_claim (map_of p k)"
  by (induction p) auto

definition issued_in_range :: "instant \<Rightarrow> int \<Rightarrow> bool" where
  "issued_in_range t ttl \<longleftrightarrow> t mod second_us = 0 \<and> - 62135596800 * second_us \<le> t \<and> t + ttl \<le> 253402300799 * second_us
     \<and> ttl mod second_us = 0 \<and> 0 \<le> ttl"

lemma whole_claims:
  assumes "issued_in_range t ttl"
  shows "t div second_us * second_us = t" "(t + ttl) div second_us * second_us = t + ttl"
    "- 62135596800 \<le> t div second_us" "t div second_us \<le> 253402300799"
    "- 62135596800 \<le> (t + ttl) div second_us" "(t + ttl) div second_us \<le> 253402300799"
proof -
  define a b where "a = t div second_us" and "b = ttl div second_us"
  have eq: "t = a * second_us" "ttl = b * second_us" using assms by (auto simp: a_def b_def issued_in_range_def)
  have sum: "t + ttl = (a + b) * second_us" by (simp add: eq algebra_simps)
  have "second_us > 0" by (simp add: second_us_def)
  then have div: "t div second_us = a" "(t + ttl) div second_us = a + b" unfolding sum by (simp_all add: eq)
  have "- 62135596800 * second_us \<le> a * second_us" "(a + b) * second_us \<le> 253402300799 * second_us" "0 \<le> b * second_us"
    using assms unfolding issued_in_range_def sum by (simp_all add: eq)
  with \<open>second_us > 0\<close> have "- 62135596800 \<le> a" "a + b \<le> 253402300799" "0 \<le> b"
    by (simp_all add: zero_le_mult_iff del: mult_minus_left)
  then show "t div second_us * second_us = t" "(t + ttl) div second_us * second_us = t + ttl"
    "- 62135596800 \<le> t div second_us" "t div second_us \<le> 253402300799"
    "- 62135596800 \<le> (t + ttl) div second_us" "(t + ttl) div second_us \<le> 253402300799"
    unfolding div sum by (simp_all add: eq)
qed

lemma pyjwt_payload:
  assumes "pyjwt_contract lib"
    and "jwt_decode_complete lib wall (jwt_encode lib payload key alg headers) key opts = Some (header, claims)"
  shows "claims = map (\<lambda>(k, v). (k, json_claim v)) payload \<and> map_of header (u ''alg'') = Some (PyStr alg)
    \<and> (\<forall>v. map_of headers (u ''typ'') = Some v \<longrightarrow> map_of header (u ''typ'') = Some (PyStr v))"
  using assms unfolding pyjwt_contract_def by blast

lemma pyjwt_decodes:
  assumes "pyjwt_contract lib" "claims_accepted wall opts alg payload"
  obtains header where "jwt_decode_complete lib wall (jwt_encode lib payload key alg headers) key opts
      = Some (header, map (\<lambda>(k, v). (k, json_claim v)) payload)"
    "map_of header (u ''alg'') = Some (PyStr alg)"
    "\<And>v. map_of headers (u ''typ'') = Some v \<Longrightarrow> map_of header (u ''typ'') = Some (PyStr v)"
proof -
  from assms obtain header claims where d: "jwt_decode_complete lib wall (jwt_encode lib payload key alg headers) key opts
      = Some (header, claims)" unfolding pyjwt_contract_def by (metis not_None_eq prod.exhaust)
  from pyjwt_payload[OF assms(1) d] d show ?thesis by (intro that[of header]) auto
qed

lemma decode_own_token:
  assumes "pyjwt_contract lib" "issued_in_range t ttl" "t \<le> wall + JWT_CLOCK_SKEW" "wall - JWT_CLOCK_SKEW < t + ttl"
    and p: "p = token_payload uid sid tid type t (t + ttl) role" and role: "role \<noteq> None \<longleftrightarrow> type = Access_token"
  shows "decode_token lib wall (encode_token lib settings uid sid tid type t (t + ttl) role) type settings
    = Inr (map (\<lambda>(k, v). (k, json_claim v)) p)"
proof -
  note claims = payload_claims[OF p]
  have "claims_accepted wall (decode_options type) JWT_ALGORITHM p"
    unfolding claims_accepted_def time_claim_def claims using assms(2-4) role whole_claims[OF assms(2)] p
    by (cases type) (auto simp: decode_options_def token_payload_def)
  from pyjwt_decodes[OF assms(1) this] obtain header where d: "jwt_decode_complete lib wall
      (jwt_encode lib p (ats_signing_key settings) JWT_ALGORITHM [(u ''typ'', u ''JWT'')])
      (ats_signing_key settings) (decode_options type) = Some (header, map (\<lambda>(k, v). (k, json_claim v)) p)"
      "map_of header (u ''alg'') = Some (PyStr JWT_ALGORITHM)" "map_of header (u ''typ'') = Some (PyStr (u ''JWT''))"
    by (metis map_of_Cons_code(2))
  then show ?thesis
    unfolding decode_token_def encode_token_def p[symmetric] by (simp add: map_of_json claims)
qed

lemma decode_other_type:
  assumes "pyjwt_contract lib" "type \<noteq> type'"
  shows "decode_token lib wall (encode_token lib settings uid sid tid type t e role) type' settings = Inl TokenValidationError"
proof (cases "jwt_decode_complete lib wall (encode_token lib settings uid sid tid type t e role)
    (ats_signing_key settings) (decode_options type')")
  case None
  then show ?thesis by (simp add: decode_token_def)
next
  case (Some a)
  then obtain header claims where a: "jwt_decode_complete lib wall (encode_token lib settings uid sid tid type t e role)
    (ats_signing_key settings) (decode_options type') = Some (header, claims)" by (cases a) auto
  then have "claims = map (\<lambda>(k, v). (k, json_claim v)) (token_payload uid sid tid type t e role)"
    unfolding encode_token_def by (rule pyjwt_payload[OF assms(1), THEN conjunct1])
  then have "map_of claims (u ''token_type'') = Some (PyStr (token_type_value type))"
    by (simp add: map_of_json payload_claims(6)[OF refl])
  moreover have "token_type_value type \<noteq> token_type_value type'" using assms(2) by (cases type; cases type') (auto simp: u_def)
  ultimately show ?thesis using a by (simp add: decode_token_def)
qed

lemma common_claims:
  assumes "issued_in_range t ttl" "uid < 2 ^ 128" "sid < 2 ^ 128" "tid < 2 ^ 128"
  shows "read_common_claims dec (map (\<lambda>(k, v). (k, json_claim v)) (token_payload uid sid tid type t (t + ttl) role)) ttl
    = Inr (uid, sid, tid, t, t + ttl)"
  using assms(2-) whole_claims[OF assms(1)]
  by (simp add: read_common_claims_def read_uuid_claim_def read_timestamp_claim_def map_of_json
      payload_claims[OF refl] py_uuid_str untrusted_def)

lemma role_of_value: "role_of_value (role_value r) = Inr r"
  by (cases r) (simp_all add: role_of_value_def u_def)

lemma refresh_token_verifies:
  assumes "pyjwt_contract lib" "issued_in_range t REFRESH_TOKEN_TTL"
    and "t \<le> wall + JWT_CLOCK_SKEW" "wall - JWT_CLOCK_SKEW < t + REFRESH_TOKEN_TTL"
    and "uid < 2 ^ 128" "sid < 2 ^ 128" "tid < 2 ^ 128"
  shows "verify_refresh_token lib dec wall
      (encode_token lib settings uid sid tid Refresh_token t (t + REFRESH_TOKEN_TTL) None) settings
    = Inr \<lparr>rtc_user_id = uid, rtc_session_id = sid, rtc_token_id = tid, rtc_issued_at = t,
        rtc_expires_at = t + REFRESH_TOKEN_TTL\<rparr>"
  using decode_own_token[OF assms(1-4) refl, of None Refresh_token settings uid sid tid]
    common_claims[OF assms(2,5-7)]
  by (simp add: verify_refresh_token_def untrusted_def)

lemma access_token_verifies:
  assumes "pyjwt_contract lib" "issued_in_range t ACCESS_TOKEN_TTL"
    and "t \<le> wall + JWT_CLOCK_SKEW" "wall - JWT_CLOCK_SKEW < t + ACCESS_TOKEN_TTL"
    and "uid < 2 ^ 128" "sid < 2 ^ 128" "tid < 2 ^ 128"
  shows "verify_access_token lib dec wall
      (encode_token lib settings uid sid tid Access_token t (t + ACCESS_TOKEN_TTL) (Some role)) settings
    = Inr \<lparr>atc_user_id = uid, atc_role = role, atc_session_id = sid, atc_token_id = tid, atc_issued_at = t,
        atc_expires_at = t + ACCESS_TOKEN_TTL\<rparr>"
  using decode_own_token[OF assms(1-4) refl, of "Some role" Access_token settings uid sid tid]
    common_claims[OF assms(2,5-7)]
  by (simp add: verify_access_token_def untrusted_def map_of_json payload_claims[OF refl] role_of_value)

lemma verify_wrong_type:
  assumes "pyjwt_contract lib"
  shows "verify_refresh_token lib dec wall (encode_token lib settings uid sid tid Access_token t e role) settings
      = Inl TokenValidationError"
    and "verify_access_token lib dec wall (encode_token lib settings uid sid tid Refresh_token t e role) settings
      = Inl TokenValidationError"
  using decode_other_type[OF assms, of Access_token Refresh_token] decode_other_type[OF assms, of Refresh_token Access_token]
  by (simp_all add: verify_refresh_token_def verify_access_token_def untrusted_def)

text \<open>The range of clocks in which all dates of a pair are valid, in whole seconds.\<close>

definition issue_time_ok :: "instant \<Rightarrow> bool" where
  "issue_time_ok t \<longleftrightarrow> - 62135596800 * second_us \<le> t - t mod second_us
     \<and> t + REFRESH_TOKEN_TTL \<le> 253402300799 * second_us"

lemma issue_time_ranges:
  assumes "issue_time_ok t"
  shows "issued_in_range (t - t mod second_us) REFRESH_TOKEN_TTL" "issued_in_range (t - t mod second_us) ACCESS_TOKEN_TTL"
proof -
  define w where "w = t - t mod second_us"
  have "w \<le> t" by (simp add: w_def second_us_def)
  moreover have "w mod second_us = 0" by (simp add: w_def minus_mod_eq_mult_div)
  moreover have "- 62135596800 * second_us \<le> w" "t + REFRESH_TOKEN_TTL \<le> 253402300799 * second_us"
    using assms by (simp_all add: issue_time_ok_def w_def)
  ultimately show "issued_in_range (t - t mod second_us) REFRESH_TOKEN_TTL" "issued_in_range (t - t mod second_us) ACCESS_TOKEN_TTL"
    unfolding w_def[symmetric] issued_in_range_def
    by (simp_all add: REFRESH_TOKEN_TTL_def ACCESS_TOKEN_TTL_def day_us_def second_us_def)
qed

text \<open>C40: The tokens of an issued pair verify, each by its own verifier only: the refresh token gives back the user, the
  session, its identifier and its seven-day lifetime, the access token the role as well and fifteen minutes; an access
  token is never accepted as a refresh token nor the reverse.\<close>

theorem issued_pair_verifies:
  assumes "pyjwt_contract lib" "issue_time_ok t"
    and "create_token_pair lib settings sid aid rid role uid (Aware t) = Inr pair"
    and "uid < 2 ^ 128" "sid < 2 ^ 128" "aid < 2 ^ 128" "rid < 2 ^ 128"
    and "t - t mod second_us \<le> wall + JWT_CLOCK_SKEW" "wall - JWT_CLOCK_SKEW < tp_access_expires_at pair"
  shows "verify_refresh_token lib dec wall (tp_refresh_token pair) settings
      = Inr \<lparr>rtc_user_id = uid, rtc_session_id = sid, rtc_token_id = rid, rtc_issued_at = t - t mod second_us,
          rtc_expires_at = tp_refresh_expires_at pair\<rparr>
    \<and> verify_access_token lib dec wall (tp_access_token pair) settings
      = Inr \<lparr>atc_user_id = uid, atc_role = role, atc_session_id = sid, atc_token_id = aid,
          atc_issued_at = t - t mod second_us, atc_expires_at = tp_access_expires_at pair\<rparr>
    \<and> verify_refresh_token lib dec wall (tp_access_token pair) settings = Inl TokenValidationError
    \<and> verify_access_token lib dec wall (tp_refresh_token pair) settings = Inl TokenValidationError
    \<and> tp_refresh_expires_at pair = t - t mod second_us + REFRESH_TOKEN_TTL
    \<and> tp_access_expires_at pair = t - t mod second_us + ACCESS_TOKEN_TTL"
proof -
  let ?t = "t - t mod second_us"
  from assms(3) have p: "pair = \<lparr>tp_access_token = encode_token lib settings uid sid aid Access_token ?t (?t + ACCESS_TOKEN_TTL) (Some role),
      tp_refresh_token = encode_token lib settings uid sid rid Refresh_token ?t (?t + REFRESH_TOKEN_TTL) None,
      tp_access_expires_at = ?t + ACCESS_TOKEN_TTL, tp_refresh_expires_at = ?t + REFRESH_TOKEN_TTL,
      tp_session_id = sid, tp_access_token_id = aid, tp_refresh_token_id = rid\<rparr>"
    by (simp add: create_token_pair_def whole_seconds_def Let_def)
  have wall: "wall - JWT_CLOCK_SKEW < ?t + ACCESS_TOKEN_TTL" "wall - JWT_CLOCK_SKEW < ?t + REFRESH_TOKEN_TTL"
    using assms(9) by (simp_all add: p ACCESS_TOKEN_TTL_def REFRESH_TOKEN_TTL_def day_us_def)
  note range = issue_time_ranges[OF assms(2)]
  show ?thesis unfolding p
    by (simp only: token_pair.select_convs verify_wrong_type[OF assms(1)] simp_thms
        refresh_token_verifies[OF assms(1) range(1) assms(8) wall(2) assms(4,5,7)]
        access_token_verifies[OF assms(1) range(2) assms(8) wall(1) assms(4,5,6)])
qed

section \<open>An instance of the package\<close>

text \<open>A token that spells out its header and claims, each string after its length.\<close>

fun enc_value :: "payload_value \<Rightarrow> nat list" where
  "enc_value (Claim_str s) = 0 # length s # s"
| "enc_value (Claim_time t) = [1, nat t, nat (- t)]"

fun enc_entries :: "(pystr \<times> payload_value) list \<Rightarrow> nat list" where
  "enc_entries [] = [0]"
| "enc_entries ((k, v) # r) = 1 # length k # k @ enc_value v @ enc_entries r"

fun dec_value :: "nat list \<Rightarrow> payload_value \<times> nat list" where
  "dec_value (t # a # r) = (if t = 0 then (Claim_str (take a r), drop a r)
     else (Claim_time (int a - int (hd r)), tl r))"
| "dec_value r = (Claim_str [], r)"

fun dec_entries :: "nat \<Rightarrow> nat list \<Rightarrow> (pystr \<times> payload_value) list \<times> nat list" where
  "dec_entries (Suc n) (Suc _ # a # r) =
     (let (v, r') = dec_value (drop a r); (es, r'') = dec_entries n r' in ((take a r, v) # es, r''))"
| "dec_entries n (0 # r) = ([], r)"
| "dec_entries n r = ([], r)"

lemma dec_enc_value: "dec_value (enc_value v @ r) = (v, r)"
  by (cases v) auto

lemma dec_enc_entries: "length es \<le> n \<Longrightarrow> dec_entries n (enc_entries es @ r) = (es, r)"
proof (induction es arbitrary: n)
  case (Cons e es)
  then obtain m where "n = Suc m" "length es \<le> m" by (cases n) auto
  with Cons.IH[of m] show ?case by (cases e) (simp add: dec_enc_value)
qed simp

definition sample_jwt :: pyjwt where
  "sample_jwt = \<lparr>jwt_encode = \<lambda>payload key alg headers.
       enc_entries ((u ''alg'', Claim_str alg) # map (\<lambda>(k, v). (k, Claim_str v)) headers) @ enc_entries payload,
     jwt_decode_complete = \<lambda>wall token key opts.
       (let (header, rest) = dec_entries (length token) token; (payload, _) = dec_entries (length rest) rest in
        case map_of header (u ''alg'') of
          Some (Claim_str alg) \<Rightarrow>
            if claims_accepted wall opts alg payload
            then Some (map (\<lambda>(k, v). (k, json_claim v)) header, map (\<lambda>(k, v). (k, json_claim v)) payload) else None
        | _ \<Rightarrow> None)\<rparr>"

lemma length_enc_entries: "length es \<le> length (enc_entries es)"
  by (induction es rule: enc_entries.induct) auto

lemma sample_jwt_decode:
  "jwt_decode_complete sample_jwt wall (jwt_encode sample_jwt payload key alg headers) key opts =
     (if claims_accepted wall opts alg payload
      then Some ((u ''alg'', PyStr alg) # map (\<lambda>(k, v). (k, PyStr v)) headers, map (\<lambda>(k, v). (k, json_claim v)) payload)
      else None)"
proof -
  let ?h = "(u ''alg'', Claim_str alg) # map (\<lambda>(k, v). (k, Claim_str v)) headers"
  have "length ?h \<le> length (enc_entries ?h @ enc_entries payload)" using length_enc_entries[of ?h] by simp
  then have 1: "dec_entries (length (enc_entries ?h @ enc_entries payload)) (enc_entries ?h @ enc_entries payload) = (?h, enc_entries payload)"
    by (rule dec_enc_entries)
  have 2: "dec_entries (length (enc_entries payload)) (enc_entries payload) = (payload, [])"
    using dec_enc_entries[OF length_enc_entries, of payload "[]"] by simp
  show ?thesis using 1 2 unfolding sample_jwt_def
    by (simp add: comp_def case_prod_unfold del: enc_entries.simps(2) length_append)
qed

lemma sample_jwt_contract: "pyjwt_contract sample_jwt"
  unfolding pyjwt_contract_def sample_jwt_decode by (auto simp: map_of_map u_def)

lemma issued_pair_verifies_witness:
  "\<exists>pair. create_token_pair sample_jwt \<lparr>ats_signing_key = replicate 32 7, ats_secure_cookies = True\<rparr> 20 30 40 USER 10
       (Aware 1700000000123456) = Inr pair
     \<and> map_sum id rtc_token_id (verify_refresh_token sample_jwt (\<lambda>_. None) 1700000005000000 (tp_refresh_token pair)
         \<lparr>ats_signing_key = replicate 32 7, ats_secure_cookies = True\<rparr>) = Inr 40"
proof -
  let ?s = "\<lparr>ats_signing_key = replicate 32 7, ats_secure_cookies = True\<rparr>"
  obtain pair where p: "create_token_pair sample_jwt ?s 20 30 40 USER 10 (Aware 1700000000123456) = Inr pair"
      "tp_access_expires_at pair = 1700000900000000"
    by (simp add: create_token_pair_def whole_seconds_def second_us_def Let_def ACCESS_TOKEN_TTL_def)
  have "issue_time_ok 1700000000123456" by (simp add: issue_time_ok_def second_us_def REFRESH_TOKEN_TTL_def day_us_def)
  from issued_pair_verifies[OF sample_jwt_contract this p(1), where wall = 1700000005000000 and dec = "\<lambda>_. None"] p
  show ?thesis by (auto simp: second_us_def JWT_CLOCK_SKEW_def)
qed

end
