(* ===== verification/Accounts.thy ===== *)
theory Accounts
  imports Account_Database Profile_Completion
begin

text \<open>
  Registration, administrator creation, password login and role checks (\<open>services/auth.py\<close>,
  \<open>services/passwords.py\<close>). The bcrypt package is the argument \<open>bc\<close>; a \<open>gensalt\<close> result and the \<open>uuid4\<close> of a new
  row are arguments too.
\<close>

section \<open>Passwords\<close>

definition BCRYPT_MAX_PASSWORD_BYTES :: nat where
  "BCRYPT_MAX_PASSWORD_BYTES = 72"

text \<open>\<open>str.encode("utf-8")\<close>: lone surrogates cannot be encoded.\<close>

definition is_surrogate :: "nat \<Rightarrow> bool" where
  "is_surrogate c \<longleftrightarrow> 55296 \<le> c \<and> c \<le> 57343"

definition utf8_char :: "nat \<Rightarrow> nat list" where
  "utf8_char c =
     (if c < 128 then [c]
      else if c < 2048 then [192 + c div 64, 128 + c mod 64]
      else if c < 65536 then [224 + c div 4096, 128 + c div 64 mod 64, 128 + c mod 64]
      else [240 + c div 262144, 128 + c div 4096 mod 64, 128 + c div 64 mod 64, 128 + c mod 64])"

definition utf8_encode :: "pystr \<Rightarrow> exn + nat list" where
  "utf8_encode s = (if list_ex is_surrogate s then Inl UnicodeEncodeError else Inr (concat (map utf8_char s)))"

definition encode_password :: "pystr \<Rightarrow> exn + nat list" where
  "encode_password password =
     ebind (utf8_encode password) (\<lambda>encoded.
       if encoded = [] then Inl PasswordHashingError
       else if BCRYPT_MAX_PASSWORD_BYTES < length encoded then Inl PasswordHashingError
       else Inr encoded)"

text \<open>\<open>bcrypt.hashpw(password, salt)\<close>, and \<open>bcrypt.checkpw\<close>, which raises \<open>ValueError\<close> (None) on a malformed hash.\<close>

record bcrypt_lib =
  bcrypt_hashpw :: "nat list \<Rightarrow> nat list \<Rightarrow> nat list"
  bcrypt_checkpw :: "nat list \<Rightarrow> nat list \<Rightarrow> bool option"

text \<open>What the package documents: a hash is a non-empty ASCII string, and its own password matches it.\<close>

definition bcrypt_contract :: "bcrypt_lib \<Rightarrow> bool" where
  "bcrypt_contract bc \<longleftrightarrow> (\<forall>p salt. bcrypt_hashpw bc p salt \<noteq> [] \<and> list_all (\<lambda>c. c < 128) (bcrypt_hashpw bc p salt)
     \<and> bcrypt_checkpw bc p (bcrypt_hashpw bc p salt) = Some True)"

definition hash_password :: "bcrypt_lib \<Rightarrow> nat list \<Rightarrow> pystr \<Rightarrow> exn + pystr" where
  "hash_password bc salt password =
     ebind (encode_password password) (\<lambda>encoded.
       let hashed = bcrypt_hashpw bc encoded salt in
       if list_all (\<lambda>c. c < 128) hashed then Inr hashed else Inl ValueError)"

text \<open>\<open>verify_password\<close> answers False where \<open>_encode_password\<close>, the ASCII encoding or \<open>checkpw\<close> raise.\<close>

definition verify_password :: "bcrypt_lib \<Rightarrow> pystr \<Rightarrow> pystr \<Rightarrow> bool" where
  "verify_password bc password password_hash =
     (case encode_password password of
        Inl _ \<Rightarrow> False
      | Inr encoded \<Rightarrow>
          if list_all (\<lambda>c. c < 128) password_hash
          then (case bcrypt_checkpw bc encoded password_hash of None \<Rightarrow> False | Some b \<Rightarrow> b)
          else False)"

lemma verify_own_hash:
  "bcrypt_contract bc \<Longrightarrow> hash_password bc salt password = Inr h \<Longrightarrow> verify_password bc password h"
  by (auto simp: hash_password_def verify_password_def bcrypt_contract_def ebind_Inr_iff Let_def split: if_splits)

section \<open>Accounts\<close>

definition MIN_ADMIN_PASSWORD_CHARACTERS :: nat where
  "MIN_ADMIN_PASSWORD_CHARACTERS = 15"

definition DUMMY_PASSWORD_HASH :: pystr where
  "DUMMY_PASSWORD_HASH = u ''$2b$12$iLQsp2jeX5jeoHycNLdy5.liN8K13POvlFVK/GUSa8uml6fCZEUW6''"

text \<open>A unique violation becomes the sanitized error, any other \<open>IntegrityError\<close> propagates; both roll back.\<close>

definition unique_as :: "exn \<Rightarrow> exn \<Rightarrow> exn" where
  "unique_as sanitized e = (if e = IntegrityError Unique_violation then sanitized else e)"

definition new_account :: "uuid \<Rightarrow> pystr \<Rightarrow> pystr \<Rightarrow> user_role \<Rightarrow> bool \<Rightarrow> uuid option \<Rightarrow> instant \<Rightarrow> user" where
  "new_account fresh email password_hash role verified semester_id created =
     \<lparr>usr_id = fresh, usr_email = email, usr_password_hash = password_hash, usr_role = role, usr_is_active = True,
      usr_email_verified = verified, usr_email_verified_at = None, usr_last_login = None,
      usr_semester_id = semester_id, usr_created_at = created, usr_updated_at = created, usr_deleted_at = None\<rparr>"

definition register_user ::
    "bcrypt_lib \<Rightarrow> nat list \<Rightarrow> uuid \<Rightarrow> pystr \<Rightarrow> pystr \<Rightarrow> (exn, account_db, user) txn" where
  "register_user bc salt fresh email password =
     bind_tx (lift_tx (canonicalize_email email)) (\<lambda>canonical_email.
     bind_tx (lift_tx (hash_password bc salt password)) (\<lambda>password_hash.
     bind_tx (query_tx current_semester) (\<lambda>current.
     case current of
       None \<Rightarrow> raise_tx AccountRegistrationError
     | Some semester \<Rightarrow>
         bind_tx (query_tx (\<lambda>s. db_now (acc_db s))) (\<lambda>now.
         let account = new_account fresh canonical_email password_hash USER False (Some (sem_id semester)) now in
         bind_tx (rethrow_tx (unique_as AccountRegistrationError) (atomic_tx (insert_user account))) (\<lambda>_.
         return_tx account)))))"

definition create_admin ::
    "bcrypt_lib \<Rightarrow> nat list \<Rightarrow> uuid \<Rightarrow> pystr \<Rightarrow> pystr \<Rightarrow> (exn, account_db, user) txn" where
  "create_admin bc salt fresh email password =
     bind_tx (rethrow_tx (\<lambda>e. if e = EmailValidationError \<or> e = PasswordHashingError then AdminCreationError else e)
       (bind_tx (lift_tx (canonicalize_email email)) (\<lambda>canonical_email.
        bind_tx (require_tx (MIN_ADMIN_PASSWORD_CHARACTERS \<le> length password) AdminCreationError) (\<lambda>_.
        bind_tx (lift_tx (hash_password bc salt password)) (\<lambda>password_hash.
        return_tx (canonical_email, password_hash)))))) (\<lambda>(canonical_email, password_hash).
     bind_tx (query_tx (\<lambda>s. db_now (acc_db s))) (\<lambda>now.
     let account = new_account fresh canonical_email password_hash ADMIN True None now in
     bind_tx (rethrow_tx (unique_as AdminCreationError) (atomic_tx (insert_user account))) (\<lambda>_.
     return_tx account)))"

definition user_by_email :: "pystr \<Rightarrow> account_db \<Rightarrow> user option" where
  "user_by_email email s = find (\<lambda>x. usr_email x = email) (db_users (acc_db s))"

definition authenticate_user ::
    "bcrypt_lib \<Rightarrow> pystr \<Rightarrow> pystr \<Rightarrow> clock_value \<Rightarrow> (exn, account_db, user) txn" where
  "authenticate_user bc email password clock =
     bind_tx (rethrow_tx (\<lambda>e. if e = EmailValidationError then AuthenticationError else e)
                (lift_tx (canonicalize_email email))) (\<lambda>canonical_email.
     bind_tx (query_tx (user_by_email canonical_email)) (\<lambda>found.
     let password_hash = (case found of None \<Rightarrow> DUMMY_PASSWORD_HASH | Some x \<Rightarrow> usr_password_hash x);
         password_matches = verify_password bc password password_hash
     in case found of
          None \<Rightarrow> raise_tx AuthenticationError
        | Some x \<Rightarrow>
            if \<not> password_matches \<or> \<not> usr_is_active x \<or> usr_deleted_at x \<noteq> None
            then raise_tx AuthenticationError
            else bind_tx (lift_tx (aware ValueError clock)) (\<lambda>t.
                 flush_user (x\<lparr>usr_last_login := Some t\<rparr>))))"

definition verify_user_role :: "user \<Rightarrow> user_role \<Rightarrow> exn + user" where
  "verify_user_role account required_role =
     (if \<not> usr_is_active account \<or> usr_deleted_at account \<noteq> None \<or> usr_role account \<noteq> required_role
      then Inl RoleVerificationError else Inr account)"

section \<open>What registration and login do\<close>

lemma new_account_simps [simp]:
  "usr_id (new_account i e h r v sid c) = i" "usr_email (new_account i e h r v sid c) = e"
  "usr_password_hash (new_account i e h r v sid c) = h" "usr_role (new_account i e h r v sid c) = r"
  "usr_is_active (new_account i e h r v sid c)" "usr_email_verified (new_account i e h r v sid c) = v"
  "usr_email_verified_at (new_account i e h r v sid c) = None" "usr_last_login (new_account i e h r v sid c) = None"
  "usr_semester_id (new_account i e h r v sid c) = sid" "usr_deleted_at (new_account i e h r v sid c) = None"
  by (simp_all add: new_account_def)

lemma insert_student_Inr:
  assumes ok: "accounts_ok s" and cur: "current_semester s = Some x"
    and a: "usr_role a = USER" "usr_semester_id a = Some (sem_id x)"
  shows "insert_user a s = (Inr (), s') \<longleftrightarrow>
     user_check a \<and> (\<forall>y \<in> set (db_users (acc_db s)). \<not> user_clash a y)
     \<and> s' = set_users (db_users (acc_db s) @ [a])
          (s\<lparr>acc_semesters := replace_row sem_id (count_student (acc_statement_time s) x) (acc_semesters s)\<rparr>)"
proof -
  from current_semester_SomeD[OF cur] have x: "x \<in> set (acc_semesters s)" "sem_status x = Semester_CURRENT" by auto
  from sem.find_key[OF accounts_ok_tables(3)[OF ok] x(1)] count_student_runs[OF accounts_ok_tables(3)[OF ok] x]
  have "stamp_user_semester a s = (Inr a,
      s\<lparr>acc_semesters := replace_row sem_id (count_student (acc_statement_time s) x) (acc_semesters s)\<rparr>)"
    using a x(2) by (simp add: stamp_user_semester_def)
  moreover have refs: "user_refs
      (s\<lparr>acc_semesters := replace_row sem_id (count_student (acc_statement_time s) x) (acc_semesters s)\<rparr>) a = True"
    using a(2) x(1) by (simp add: user_refs_def)
  ultimately have "insert_user a s =
      (case insert_checked user_check user_clash True a (db_users (acc_db s)) of
         Inl e \<Rightarrow> (Inl e, s\<lparr>acc_semesters := replace_row sem_id (count_student (acc_statement_time s) x) (acc_semesters s)\<rparr>)
       | Inr rows \<Rightarrow> (Inr (), set_users rows
           (s\<lparr>acc_semesters := replace_row sem_id (count_student (acc_statement_time s) x) (acc_semesters s)\<rparr>)))"
    using refs by (simp add: insert_user_def)
  then show ?thesis by (auto simp: insert_checked_def list_ex_iff split: sum.splits if_splits)
qed

lemma insert_student_ok:
  assumes ok: "accounts_ok s" and cur: "current_semester s = Some x"
    and a: "usr_role a = USER" "usr_semester_id a = Some (sem_id x)" and ins: "insert_user a s = (Inr (), s')"
  shows "accounts_ok s'"
proof -
  let ?s = "s\<lparr>acc_semesters := replace_row sem_id (count_student (acc_statement_time s) x) (acc_semesters s)\<rparr>"
  from ins insert_student_Inr[OF ok cur a] have h: "user_check a" "\<forall>y \<in> set (db_users (acc_db s)). \<not> user_clash a y"
      "s' = set_users (db_users (acc_db s) @ [a]) ?s" by auto
  from current_semester_SomeD[OF cur] have x: "x \<in> set (acc_semesters s)" "sem_status x = Semester_CURRENT" by auto
  have "accounts_ok ?s"
    using update_semester_ok[OF ok count_student_runs[OF accounts_ok_tables(3)[OF ok] x]] .
  moreover have "insert_checked user_check user_clash True a (db_users (acc_db s)) = Inr (db_users (acc_db s) @ [a])"
    using h by (simp add: insert_checked_Inr_iff)
  from usr.insert_checked_ok[OF accounts_ok_tables(2)[OF ok] this]
  have "table_ok user_check user_clash (db_users (acc_db s) @ [a])" by simp
  moreover have "user_refs ?s a" using a(2) x(1) by (simp add: user_refs_def)
  moreover have "user_refs ?s = user_refs s" by (intro ext) (simp add: user_refs_def)
  then have "list_all (user_refs ?s) (db_users (acc_db s))" using ok by (simp add: accounts_ok_def)
  ultimately show ?thesis unfolding h(3) by (intro accounts_ok_users) auto
qed

lemma register_user_Inr:
  assumes ok: "accounts_ok s" and reg: "register_user bc salt fresh email password s = (Inr a, s')"
  obtains x h where "current_semester s = Some x" "canonicalize_email email = Inr (usr_email a)"
    "hash_password bc salt password = Inr h"
    "a = new_account fresh (usr_email a) h USER False (Some (sem_id x)) (db_now (acc_db s))"
    "\<forall>y \<in> set (db_users (acc_db s)). \<not> user_clash a y"
    "s' = set_users (db_users (acc_db s) @ [a])
        (s\<lparr>acc_semesters := replace_row sem_id (count_student (acc_statement_time s) x) (acc_semesters s)\<rparr>)"
    "accounts_ok s'"
proof -
  from reg obtain e h x where steps: "canonicalize_email email = Inr e" "hash_password bc salt password = Inr h"
      "current_semester s = Some x"
      "a = new_account fresh e h USER False (Some (sem_id x)) (db_now (acc_db s))"
      "insert_user a s = (Inr (), s')"
    by (auto simp: register_user_def tx Let_def split: option.splits)
  then have a: "usr_role a = USER" "usr_semester_id a = Some (sem_id x)" "usr_email a = e" by auto
  from steps insert_student_Inr[OF ok steps(3) a(1,2)] insert_student_ok[OF ok steps(3) a(1,2) steps(5)] a(3)
  show ?thesis by (intro that[of x h]) auto
qed

lemma user_by_email_SomeD: "user_by_email e s = Some x \<Longrightarrow> x \<in> set (db_users (acc_db s)) \<and> usr_email x = e"
  unfolding user_by_email_def by (rule find_SomeD)

lemma user_by_email_find:
  "accounts_ok s \<Longrightarrow> x \<in> set (db_users (acc_db s)) \<Longrightarrow> user_by_email (usr_email x) s = Some x"
  unfolding user_by_email_def
  by (rule find_unique) (auto intro: usr.no_clash[OF accounts_ok_tables(2)] simp: user_clash_def)

text \<open>A change of the other columns of a user keeps its unique columns, so its flush passes.\<close>

lemma flush_user_runs:
  assumes ok: "accounts_ok s" and old: "old \<in> set (db_users (acc_db s))"
    and r: "usr_id r = usr_id old" "usr_email r = usr_email old" "user_check r"
  shows "\<exists>r'. flush_user r s = (Inr r', set_users (replace_row usr_id r' (db_users (acc_db s))) s)
     \<and> (r' = r \<or> r' = r\<lparr>usr_updated_at := db_now (acc_db s)\<rparr>)"
proof (cases "r \<in> set (db_users (acc_db s))")
  case True
  then have "replace_row usr_id r (db_users (acc_db s)) = db_users (acc_db s)"
    using usr.key_inj[OF accounts_ok_tables(2)[OF ok] True]
    by (fastforce simp: replace_row_def update_where_def intro!: map_idI)
  with True show ?thesis by (auto simp: flush_user_def flush_row_def set_users_def)
next
  case False
  let ?r = "r\<lparr>usr_updated_at := db_now (acc_db s)\<rparr>"
  have "\<not> user_clash ?r x" if "x \<in> set (db_users (acc_db s))" "usr_id x \<noteq> usr_id ?r" for x
    using usr.no_clash[OF accounts_ok_tables(2)[OF ok] old that(1)] that(2) r by (auto simp: user_clash_def)
  moreover have "user_check ?r" using r(3) by (simp add: user_check_def)
  ultimately have "flush_user r s = (Inr ?r, set_users (replace_row usr_id ?r (db_users (acc_db s))) s)"
    using False unfolding flush_user_def by (subst flush_row_Inr) auto
  then show ?thesis by blast
qed

lemma authenticate_Inr:
  assumes "accounts_ok s" "authenticate_user bc email password clock s = (Inr a, s1)"
  shows "accounts_ok s1 \<and> acc_sessions s1 = acc_sessions s \<and> acc_tokens s1 = acc_tokens s
    \<and> acc_semesters s1 = acc_semesters s
    \<and> (\<exists>x \<in> set (db_users (acc_db s)). usr_id a = usr_id x \<and> usr_email a = usr_email x
         \<and> usr_email_verified_at a = usr_email_verified_at x \<and> usr_role a = usr_role x
         \<and> s1 = set_users (replace_row usr_id a (db_users (acc_db s))) s)"
proof -
  from assms(2) obtain x t where x: "x \<in> set (db_users (acc_db s))"
      "flush_user (x\<lparr>usr_last_login := Some t\<rparr>) s = (Inr a, s1)"
    by (auto simp: authenticate_user_def tx Let_def dest!: user_by_email_SomeD split: option.splits if_splits)
  from flush_user_ok[OF assms(1) x(2,1)] have ok: "accounts_ok s1" by simp
  from usr.flush_row_table[OF x(2)[unfolded flush_user_def] accounts_ok_tables(2)[OF assms(1)] _ x(1)]
  have "a = x\<lparr>usr_last_login := Some t\<rparr> \<and> s1 = s \<or> s1 = set_users (replace_row usr_id a (db_users (acc_db s))) s
      \<and> a = x\<lparr>usr_last_login := Some t, usr_updated_at := db_now (acc_db s)\<rparr>" by auto
  moreover from flush_user_runs[OF assms(1) x(1), of "x\<lparr>usr_last_login := Some t\<rparr>"] x(2)
    usr.row_ok[OF accounts_ok_tables(2)[OF assms(1)] x(1)]
  have "s1 = set_users (replace_row usr_id a (db_users (acc_db s))) s" by (auto simp: user_check_def)
  ultimately show ?thesis using ok x(1) by (auto intro!: bexI[of _ x])
qed

definition valid_credentials :: "bcrypt_lib \<Rightarrow> pystr \<Rightarrow> pystr \<Rightarrow> account_db \<Rightarrow> user \<Rightarrow> bool" where
  "valid_credentials bc email password s x \<longleftrightarrow> x \<in> set (db_users (acc_db s))
     \<and> canonicalize_email email = Inr (usr_email x) \<and> verify_password bc password (usr_password_hash x)
     \<and> usr_is_active x \<and> usr_deleted_at x = None"

lemma canonicalize_email_Inl: "canonicalize_email e = Inl x \<Longrightarrow> x = EmailValidationError"
  by (auto simp: canonicalize_email_def Let_def split: if_splits)

lemma login_cases:
  assumes ok: "accounts_ok s"
  obtains (accepted) x x' where "valid_credentials bc email password s x"
      "authenticate_user bc email password (Aware t) s
         = (Inr x', set_users (replace_row usr_id x' (db_users (acc_db s))) s)"
      "x' = x\<lparr>usr_last_login := Some t\<rparr> \<or> x' = x\<lparr>usr_last_login := Some t, usr_updated_at := db_now (acc_db s)\<rparr>"
  | (refused) "\<And>x. \<not> valid_credentials bc email password s x"
      "authenticate_user bc email password (Aware t) s = (Inl AuthenticationError, s)"
proof (cases "canonicalize_email email")
  case (Inl e)
  with canonicalize_email_Inl[OF Inl] show ?thesis
    by (intro refused) (auto simp: authenticate_user_def valid_credentials_def rethrow_tx_def lift_tx_def bind_tx_def)
next
  case (Inr c)
  show ?thesis
  proof (cases "\<exists>x. valid_credentials bc email password s x")
    case True
    then obtain x where x: "valid_credentials bc email password s x" by blast
    with Inr have v: "x \<in> set (db_users (acc_db s))" "c = usr_email x" by (auto simp: valid_credentials_def)
    have "user_check (x\<lparr>usr_last_login := Some t\<rparr>)"
      using usr.row_ok[OF accounts_ok_tables(2)[OF ok] v(1)] by (simp add: user_check_def)
    from flush_user_runs[OF ok v(1), of "x\<lparr>usr_last_login := Some t\<rparr>"] this obtain x' where
        "flush_user (x\<lparr>usr_last_login := Some t\<rparr>) s
           = (Inr x', set_users (replace_row usr_id x' (db_users (acc_db s))) s)"
        "x' = x\<lparr>usr_last_login := Some t\<rparr> \<or> x' = x\<lparr>usr_last_login := Some t, usr_updated_at := db_now (acc_db s)\<rparr>"
      by auto
    moreover have "authenticate_user bc email password (Aware t) s = flush_user (x\<lparr>usr_last_login := Some t\<rparr>) s"
      using Inr x v(2) user_by_email_find[OF ok v(1)]
      by (simp add: authenticate_user_def valid_credentials_def rethrow_tx_def)
    ultimately show ?thesis using x by (intro accepted) auto
  next
    case False
    have "authenticate_user bc email password (Aware t) s = (Inl AuthenticationError, s)"
    proof (cases "user_by_email c s")
      case None
      with Inr show ?thesis by (simp add: authenticate_user_def rethrow_tx_def)
    next
      case (Some x)
      with False Inr user_by_email_SomeD[OF Some] have "\<not> verify_password bc password (usr_password_hash x)
          \<or> \<not> usr_is_active x \<or> usr_deleted_at x \<noteq> None"
        by (auto simp: valid_credentials_def)
      with Inr Some show ?thesis by (auto simp: authenticate_user_def rethrow_tx_def)
    qed
    with False show ?thesis by (intro refused) auto
  qed
qed

section \<open>Properties\<close>

lemma registered_account_authenticates:
  assumes ok: "accounts_ok s" and bc: "bcrypt_contract bc"
    and reg: "register_user bc salt fresh email password s = (Inr a, s')"
  shows "valid_credentials bc email password s' a"
proof -
  from register_user_Inr[OF ok reg] obtain x h where h: "canonicalize_email email = Inr (usr_email a)"
      "hash_password bc salt password = Inr h"
      "a = new_account fresh (usr_email a) h USER False (Some (sem_id x)) (db_now (acc_db s))"
      "s' = set_users (db_users (acc_db s) @ [a])
        (s\<lparr>acc_semesters := replace_row sem_id (count_student (acc_statement_time s) x) (acc_semesters s)\<rparr>)"
    by metis
  have "usr_password_hash a = h" "usr_is_active a" "usr_deleted_at a = None" by (subst h(3), simp)+
  with h verify_own_hash[OF bc h(2)] show ?thesis by (simp add: valid_credentials_def)
qed

text \<open>C17: A successful registration adds exactly one account: a USER of the CURRENT semester with the canonical address,
  active and with an unverified e-mail, so the Buddy capability guard refuses it. The only other change is the
  registration counter of that semester, and the database stays well formed.\<close>

theorem registration_is_least_privilege:
  assumes "accounts_ok s" "register_user bc salt fresh email password s = (Inr a, s')"
  shows "accounts_ok s'
     \<and> canonicalize_email email = Inr (usr_email a) \<and> usr_role a = USER \<and> usr_is_active a
     \<and> \<not> is_current_email_verified a
     \<and> get_verified_buddy_principal a db = (Inl (BuddyCapabilityError (Some EMAIL_VERIFICATION_REQUIRED)), db)
     \<and> (\<exists>x. current_semester s = Some x \<and> usr_semester_id a = Some (sem_id x)
          \<and> s' = set_users (db_users (acc_db s) @ [a])
               (s\<lparr>acc_semesters := replace_row sem_id (count_student (acc_statement_time s) x) (acc_semesters s)\<rparr>))"
proof -
  from register_user_Inr[OF assms] obtain x h where h: "current_semester s = Some x"
      "canonicalize_email email = Inr (usr_email a)"
      "a = new_account fresh (usr_email a) h USER False (Some (sem_id x)) (db_now (acc_db s))"
      "s' = set_users (db_users (acc_db s) @ [a])
        (s\<lparr>acc_semesters := replace_row sem_id (count_student (acc_statement_time s) x) (acc_semesters s)\<rparr>)"
      "accounts_ok s'" by metis
  have "usr_role a = USER" "usr_is_active a" "usr_deleted_at a = None" "usr_email_verified_at a = None"
      "usr_semester_id a = Some (sem_id x)" by (subst h(3), simp)+
  with h show ?thesis by (auto simp: is_current_email_verified_def get_verified_buddy_principal_def)
qed

text \<open>C18: Login is exact. If some account has the given canonical address and password and is neither deactivated nor
  deleted, login returns it and changes nothing but that row's login and update times; in every other case it
  raises the one generic \<open>AuthenticationError\<close> and changes nothing, so an unknown address, a wrong password and a
  deactivated account cannot be told apart.\<close>

theorem login_is_exact:
  assumes "accounts_ok s"
  shows "(\<exists>x x'. valid_credentials bc email password s x
        \<and> authenticate_user bc email password (Aware t) s
            = (Inr x', set_users (replace_row usr_id x' (db_users (acc_db s))) s)
        \<and> x' \<in> {x\<lparr>usr_last_login := Some t\<rparr>, x\<lparr>usr_last_login := Some t, usr_updated_at := db_now (acc_db s)\<rparr>})
     \<or> ((\<forall>x. \<not> valid_credentials bc email password s x)
        \<and> authenticate_user bc email password (Aware t) s = (Inl AuthenticationError, s))"
  using assms by (cases rule: login_cases[of s bc email password t]) auto

text \<open>An account can log in with the address and the password it was registered with, given the documented
  behaviour of bcrypt.\<close>

theorem registered_account_can_log_in:
  assumes "accounts_ok s" "bcrypt_contract bc" "register_user bc salt fresh email password s = (Inr a, s')"
  shows "\<exists>x' s''. authenticate_user bc email password (Aware t) s' = (Inr x', s'') \<and> usr_id x' = usr_id a"
proof -
  from registered_account_authenticates[OF assms] have v: "valid_credentials bc email password s' a" .
  from register_user_Inr[OF assms(1,3)] have ok: "accounts_ok s'" by metis
  then show ?thesis
  proof (cases rule: login_cases[of s' bc email password t])
    case (accepted x x')
    with v ok have "x = a"
      by (auto simp: valid_credentials_def user_clash_def intro: usr.no_clash[OF accounts_ok_tables(2)])
    with accepted show ?thesis by auto
  qed (use v in auto)
qed

section \<open>Instances\<close>

definition sample_bcrypt :: bcrypt_lib where
  "sample_bcrypt = \<lparr>bcrypt_hashpw = \<lambda>p salt. 36 # concat (map (\<lambda>n. replicate n 48 @ [46]) p),
     bcrypt_checkpw = \<lambda>p h. Some (h = 36 # concat (map (\<lambda>n. replicate n 48 @ [46]) p))\<rparr>"

lemma sample_bcrypt_contract: "bcrypt_contract sample_bcrypt"
  by (auto simp: bcrypt_contract_def sample_bcrypt_def list_all_iff)

definition empty_database :: database where
  "empty_database = \<lparr>db_users = [], db_profiles = [], db_photos = [], db_interests = [], db_languages = [],
     db_activities = [], db_profile_interests = [], db_profile_languages = [], db_profile_activities = [],
     db_custom_preferences = [], db_invitations = [], db_matches = [], db_conversations = [], db_messages = [],
     db_outbox = [], db_semester_ids = [9], db_now = 100, db_collation = length\<rparr>"

definition sample_semester :: semester where
  "sample_semester = \<lparr>sem_id = 9, sem_status = Semester_CURRENT, sem_started_at = 1, sem_closed_at = None,
     sem_reset_operation_id = None, sem_student_accounts_created = 0, sem_first_student_created_at = None,
     sem_created_at = 1, sem_updated_at = 1\<rparr>"

definition fresh_accounts :: account_db where
  "fresh_accounts = \<lparr>acc_db = empty_database, acc_semesters = [sample_semester], acc_operations = [], acc_backups = [],
     acc_sessions = [], acc_tokens = [], acc_statement_time = 100\<rparr>"

definition sample_account :: user where
  "sample_account = new_account 7 (u ''a@b.co'') [36, 48, 48, 46] USER False (Some 9) 100"

lemma fresh_accounts_ok: "accounts_ok fresh_accounts"
  by (simp add: accounts_ok_def fresh_accounts_def empty_database_def db_ok_def table_ok_def sample_semester_def
      semester_check_def)

lemma sample_registration:
  "\<exists>s'. register_user sample_bcrypt [] 7 (u ''a@b.co'') [2] fresh_accounts = (Inr sample_account, s')"
proof -
  have e: "canonicalize_email (u ''a@b.co'') = Inr (u ''a@b.co'')"
    by (simp_all add: canonicalize_email_def u_def strip_by_def py_isspace_def MAX_EMAIL_LENGTH_def
      MAX_EMAIL_LOCAL_PART_LENGTH_def is_infix_def email_local_char_def ascii_alnum_def ascii_lower_def
      ascii_upper_def ascii_digit_def email_domain_label_def ascii_casefold_def)
  have h: "hash_password sample_bcrypt [] [2] = Inr [36, 48, 48, 46]"
    by (simp add: hash_password_def encode_password_def utf8_encode_def is_surrogate_def utf8_char_def
        BCRYPT_MAX_PASSWORD_BYTES_def sample_bcrypt_def numeral_2_eq_2)
  have cur: "current_semester fresh_accounts = Some sample_semester"
    by (simp add: current_semester_def fresh_accounts_def sample_semester_def)
  have now: "db_now (acc_db fresh_accounts) = 100" and ids: "sem_id sample_semester = 9"
    by (simp_all add: fresh_accounts_def empty_database_def sample_semester_def)
  have chk: "user_check sample_account"
    by (simp add: user_check_def sample_account_def u_def strip_by_def)
  have "insert_user sample_account fresh_accounts = (Inr (), set_users ([] @ [sample_account])
      (fresh_accounts\<lparr>acc_semesters := replace_row sem_id (count_student (acc_statement_time fresh_accounts) sample_semester)
        (acc_semesters fresh_accounts)\<rparr>))"
    using chk ids by (subst insert_student_Inr[OF fresh_accounts_ok cur])
      (simp_all add: sample_account_def fresh_accounts_def empty_database_def)
  then show ?thesis
    unfolding register_user_def by (simp add: e h cur now ids Let_def sample_account_def rethrow_tx_def atomic_tx_def)
qed

lemma registration_is_least_privilege_witness:
  "\<exists>s'. register_user sample_bcrypt [] 7 (u ''a@b.co'') [2] fresh_accounts = (Inr sample_account, s')
     \<and> \<not> is_current_email_verified sample_account"
  using sample_registration registration_is_least_privilege[OF fresh_accounts_ok] by metis

lemma login_is_exact_witness:
  "authenticate_user sample_bcrypt (u ''a@b.co'') [2] (Aware 5) fresh_accounts = (Inl AuthenticationError, fresh_accounts)"
  using login_is_exact[OF fresh_accounts_ok, of sample_bcrypt "u ''a@b.co''" "[2]" 5]
  by (auto simp: valid_credentials_def fresh_accounts_def empty_database_def)

lemma registered_account_can_log_in_witness:
  "\<exists>s' x' s''. register_user sample_bcrypt [] 7 (u ''a@b.co'') [2] fresh_accounts = (Inr sample_account, s')
     \<and> authenticate_user sample_bcrypt (u ''a@b.co'') [2] (Aware 200) s' = (Inr x', s'') \<and> usr_id x' = 7"
  using sample_registration registered_account_can_log_in[OF fresh_accounts_ok sample_bcrypt_contract]
  by (metis new_account_simps(1) sample_account_def)

end
