(* ===== verification/Refresh_Sessions.thy ===== *)
theory Refresh_Sessions
  imports Auth_Tokens Accounts
begin

text \<open>
  Refresh sessions (\<open>services/refresh_sessions.py\<close>) and the endpoints that commit them (\<open>api/auth.py\<close>: login,
  refresh, logout and CSRF recovery). A session row is one token family: it knows the one refresh token that may still
  be used. \<open>others\<close> is what concurrent transactions commit while a rotation waits for the lock of the user row.
\<close>

section \<open>The services\<close>

definition session_by_id :: "uuid \<Rightarrow> account_db \<Rightarrow> refresh_session option" where
  "session_by_id i s = find (\<lambda>x. rs_id x = i) (acc_sessions s)"

definition account_by_id :: "uuid \<Rightarrow> account_db \<Rightarrow> user option" where
  "account_by_id i s = find (\<lambda>x. usr_id x = i) (db_users (acc_db s))"

definition create_refresh_session :: "user \<Rightarrow> token_pair \<Rightarrow> (exn, account_db, refresh_session) txn" where
  "create_refresh_session account pair =
     bind_tx (query_tx (\<lambda>s. db_now (acc_db s))) (\<lambda>created.
     let row = \<lparr>rs_id = tp_session_id pair, rs_user_id = usr_id account, rs_refresh_token_id = tp_refresh_token_id pair,
           rs_expires_at = tp_refresh_expires_at pair, rs_revoked_at = None, rs_created_at = created,
           rs_updated_at = created, rs_deleted_at = None\<rparr>
     in bind_tx (insert_session row) (\<lambda>_. return_tx row))"

datatype session_claims = Access_claims access_token_claims | Refresh_claims refresh_token_claims

fun claims_session_id :: "session_claims \<Rightarrow> uuid" where
  "claims_session_id (Access_claims c) = atc_session_id c"
| "claims_session_id (Refresh_claims c) = rtc_session_id c"

fun claims_user_id :: "session_claims \<Rightarrow> uuid" where
  "claims_user_id (Access_claims c) = atc_user_id c"
| "claims_user_id (Refresh_claims c) = rtc_user_id c"

definition validate_csrf_recovery_session :: "session_claims \<Rightarrow> clock_value \<Rightarrow> (exn, account_db, unit) txn" where
  "validate_csrf_recovery_session claims clock =
     bind_tx (lift_tx (whole_seconds clock)) (\<lambda>current_time.
     bind_tx (query_tx (\<lambda>s. find (\<lambda>x. rs_id x = claims_session_id claims \<and> rs_user_id x = claims_user_id claims)
                (acc_sessions s))) (\<lambda>stored.
     case stored of
       None \<Rightarrow> raise_tx RefreshSessionError
     | Some row \<Rightarrow>
         if rs_id row \<noteq> claims_session_id claims \<or> rs_user_id row \<noteq> claims_user_id claims
            \<or> rs_deleted_at row \<noteq> None \<or> rs_revoked_at row \<noteq> None \<or> rs_expires_at row \<le> current_time
            \<or> (case claims of Refresh_claims c \<Rightarrow> rs_refresh_token_id row \<noteq> rtc_token_id c | Access_claims _ \<Rightarrow> False)
         then raise_tx RefreshSessionError else return_tx ()))"

definition stage_family_revocation :: "refresh_session \<Rightarrow> instant \<Rightarrow> (exn, account_db, unit) txn" where
  "stage_family_revocation row revoked_at =
     bind_tx (flush_session (row\<lparr>rs_revoked_at := Some revoked_at\<rparr>)) (\<lambda>_. return_tx ())"

definition revoke_refresh_session :: "uuid \<Rightarrow> uuid \<Rightarrow> clock_value \<Rightarrow> (exn, account_db, unit) txn" where
  "revoke_refresh_session session_id user_id clock =
     bind_tx (lift_tx (whole_seconds clock)) (\<lambda>current_time.
     bind_tx (query_tx (\<lambda>s. find (\<lambda>x. rs_id x = session_id \<and> rs_user_id x = user_id) (acc_sessions s))) (\<lambda>found.
     case found of
       None \<Rightarrow> return_tx ()
     | Some row \<Rightarrow>
         if rs_deleted_at row \<noteq> None \<or> rs_revoked_at row \<noteq> None then return_tx ()
         else stage_family_revocation row current_time))"

text \<open>The fixed arguments of a verification: the package, the digit table, the settings and the system time.\<close>

record token_env =
  env_jwt :: pyjwt
  env_digits :: "nat \<Rightarrow> nat option"
  env_settings :: auth_token_settings
  env_wall :: instant

definition revoke_and_raise :: "refresh_session \<Rightarrow> instant \<Rightarrow> (exn, account_db, 'a) txn" where
  "revoke_and_raise row current_time =
     bind_tx (stage_family_revocation row current_time) (\<lambda>_. raise_tx RefreshSessionRevokedError)"

text \<open>
  The rotation up to the lock of the user row: the locked family row and the time. Nothing is written before this
  point except a revocation, which ends the call.
\<close>

definition rotation_row ::
    "refresh_token_claims \<Rightarrow> clock_value \<Rightarrow> (exn, account_db, refresh_session \<times> instant) txn" where
  "rotation_row claims clock =
     bind_tx (lift_tx (whole_seconds clock)) (\<lambda>current_time.
     bind_tx (query_tx (session_by_id (rtc_session_id claims))) (\<lambda>found.
     case found of
       None \<Rightarrow> raise_tx RefreshSessionError
     | Some row \<Rightarrow>
         if rs_deleted_at row \<noteq> None then raise_tx RefreshSessionError
         else if rs_revoked_at row \<noteq> None then raise_tx RefreshSessionError
         else if rs_user_id row \<noteq> rtc_user_id claims then revoke_and_raise row current_time
         else if rs_expires_at row \<le> current_time then revoke_and_raise row current_time
         else if rs_refresh_token_id row \<noteq> rtc_token_id claims then revoke_and_raise row current_time
         else return_tx (row, current_time)))"

text \<open>The rest, once the user row is locked.\<close>

definition rotate_locked ::
    "token_env \<Rightarrow> uuid \<Rightarrow> uuid \<Rightarrow> pystr \<Rightarrow> refresh_token_claims \<Rightarrow> refresh_session \<Rightarrow> instant
       \<Rightarrow> (exn, account_db, user \<times> token_pair) txn" where
  "rotate_locked env fresh_access fresh_refresh refresh_token claims row current_time =
     bind_tx (query_tx (account_by_id (rtc_user_id claims))) (\<lambda>locked.
     case locked of
       None \<Rightarrow> revoke_and_raise row current_time
     | Some account \<Rightarrow>
         if \<not> usr_is_active account \<or> usr_deleted_at account \<noteq> None then revoke_and_raise row current_time
         else
           bind_tx (rethrow_tx (\<lambda>e. if e = TokenValidationError then RefreshSessionError else e)
             (lift_tx (prepare_refresh_rotation (env_jwt env) (env_digits env) (env_wall env) (env_settings env)
                fresh_access fresh_refresh refresh_token (usr_role account) (Aware current_time)))) (\<lambda>rotation.
           if rot_consumed_token_id rotation \<noteq> rs_refresh_token_id row then revoke_and_raise row current_time
           else
             bind_tx (flush_session (row\<lparr>rs_refresh_token_id := tp_refresh_token_id (rot_replacement rotation),
                 rs_expires_at := tp_refresh_expires_at (rot_replacement rotation)\<rparr>)) (\<lambda>_.
             return_tx (account, rot_replacement rotation))))"

definition rotate_refresh_session ::
    "token_env \<Rightarrow> (account_db \<Rightarrow> account_db) \<Rightarrow> uuid \<Rightarrow> uuid \<Rightarrow> pystr \<Rightarrow> refresh_token_claims \<Rightarrow> clock_value
       \<Rightarrow> (exn, account_db, user \<times> token_pair) txn" where
  "rotate_refresh_session env others fresh_access fresh_refresh refresh_token claims clock =
     bind_tx (rotation_row claims clock) (\<lambda>(row, current_time) s.
       rotate_locked env fresh_access fresh_refresh refresh_token claims row current_time (others s))"

section \<open>The endpoints\<close>

text \<open>
  A handler commits on success. \<open>RefreshSessionRevokedError\<close> is committed as well, so that the revocation lasts; every
  other exception rolls back what this transaction wrote, not what others committed while it waited. The rate limits
  are arguments: the status of the response that refuses the account, or None.
\<close>

definition rate_limited :: "(user \<Rightarrow> nat option) \<Rightarrow> user \<Rightarrow> (exn, account_db, unit) txn" where
  "rate_limited limit account = (case limit account of None \<Rightarrow> return_tx () | Some status \<Rightarrow> raise_tx (HTTPException status))"

definition login_account ::
    "token_env \<Rightarrow> bcrypt_lib \<Rightarrow> (user \<Rightarrow> nat option) \<Rightarrow> uuid \<Rightarrow> uuid \<Rightarrow> uuid \<Rightarrow> pystr \<Rightarrow> pystr \<Rightarrow> clock_value \<Rightarrow> clock_value
       \<Rightarrow> (exn, account_db, user \<times> token_pair) txn" where
  "login_account env bc limit fresh_session fresh_access fresh_refresh email password login_clock token_clock =
     rethrow_tx (\<lambda>e. if e = AuthenticationError then HTTPException 401 else e) (atomic_tx (
     bind_tx (authenticate_user bc email password login_clock) (\<lambda>account.
     bind_tx (rate_limited limit account) (\<lambda>_.
     bind_tx (lift_tx (create_token_pair (env_jwt env) (env_settings env) fresh_session fresh_access fresh_refresh
                (usr_role account) (usr_id account) token_clock)) (\<lambda>pair.
     bind_tx (create_refresh_session account pair) (\<lambda>_.
     return_tx (account, pair)))))))"

definition refresh_session_endpoint ::
    "token_env \<Rightarrow> (account_db \<Rightarrow> account_db) \<Rightarrow> (user \<Rightarrow> nat option) \<Rightarrow> uuid \<Rightarrow> uuid \<Rightarrow> pystr \<Rightarrow> refresh_token_claims
       \<Rightarrow> clock_value \<Rightarrow> (exn, account_db, user \<times> token_pair) txn" where
  "refresh_session_endpoint env others limit fresh_access fresh_refresh refresh_token claims clock s =
     (case bind_tx (rotate_refresh_session env others fresh_access fresh_refresh refresh_token claims clock)
             (\<lambda>(account, pair). bind_tx (rate_limited limit account) (\<lambda>_. return_tx (account, pair))) s of
        (Inr r, s') \<Rightarrow> (Inr r, s')
      | (Inl e, s') \<Rightarrow>
          let rolled_back = (if isl (fst (rotation_row claims clock s)) then s else others s) in
          if e = RefreshSessionRevokedError then (Inl (HTTPException 401), s')
          else if e = RefreshSessionError then (Inl (HTTPException 401), rolled_back)
          else (Inl e, rolled_back))"

definition logout_session :: "session_claims option \<Rightarrow> clock_value \<Rightarrow> (exn, account_db, unit) txn" where
  "logout_session ctx clock =
     (case ctx of
        None \<Rightarrow> return_tx ()
      | Some claims \<Rightarrow>
          rethrow_tx (\<lambda>e. case e of IntegrityError _ \<Rightarrow> HTTPException 503 | DatabaseError \<Rightarrow> HTTPException 503 | _ \<Rightarrow> e)
            (atomic_tx (revoke_refresh_session (claims_session_id claims) (claims_user_id claims) clock)))"

section \<open>What one call does to its family\<close>

definition put_session :: "refresh_session \<Rightarrow> account_db \<Rightarrow> account_db" where
  "put_session row s = s\<lparr>acc_sessions := replace_row rs_id row (acc_sessions s)\<rparr>"

lemma put_session_simps [simp]:
  "acc_sessions (put_session row s) = replace_row rs_id row (acc_sessions s)"
  "acc_db (put_session row s) = acc_db s" "acc_tokens (put_session row s) = acc_tokens s"
  "acc_semesters (put_session row s) = acc_semesters s"
  by (simp_all add: put_session_def)

text \<open>A family is live when it is neither revoked nor deleted; only a live one accepts a token.\<close>

definition live :: "refresh_session \<Rightarrow> bool" where
  "live row \<longleftrightarrow> rs_revoked_at row = None \<and> rs_deleted_at row = None"

lemma session_by_id_SomeD: "session_by_id i s = Some x \<Longrightarrow> x \<in> set (acc_sessions s) \<and> rs_id x = i"
  unfolding session_by_id_def by (rule find_SomeD)

lemma flush_session_cases:
  assumes "accounts_ok s" "old \<in> set (acc_sessions s)" "rs_id r = rs_id old"
    and "flush_session r s = (res, s')"
  obtains (flushed) r' where "res = Inr r'" "s' = put_session r' s" "r' = r \<or> r' = r\<lparr>rs_updated_at := db_now (acc_db s)\<rparr>"
  | (failed) e where "res = Inl (IntegrityError e)" "s' = s"
proof (cases res)
  case (Inr r')
  with assms(4) have f: "flush_row acc_sessions (\<lambda>rows s. s\<lparr>acc_sessions := rows\<rparr>)
     (\<lambda>s r. r\<lparr>rs_updated_at := db_now (acc_db s)\<rparr>) rs_id (\<lambda>_. True) refresh_session_clash r s = (Inr r', s')"
    by (simp add: flush_session_def)
  show ?thesis
  proof (cases "r \<in> set (acc_sessions s)")
    case True
    then have "replace_row rs_id r (acc_sessions s) = acc_sessions s"
      using rses.key_inj[OF accounts_ok_tables(4)[OF assms(1)] True]
      by (fastforce simp: replace_row_def update_where_def intro!: map_idI)
    with f True Inr show ?thesis by (intro flushed[of r]) (auto simp: flush_row_Inr put_session_def)
  next
    case False
    with f Inr show ?thesis by (intro flushed[of r']) (auto simp: flush_row_Inr put_session_def)
  qed
next
  case (Inl e)
  with assms(4) have "s' = s \<and> (\<exists>c. e = IntegrityError c)" by (simp add: flush_session_def flush_row_Inl)
  with Inl failed show ?thesis by auto
qed

text \<open>A revocation keeps the unique columns, so it always succeeds.\<close>

lemma revoke_and_raise_run:
  assumes "accounts_ok s" "row \<in> set (acc_sessions s)"
  obtains row' where "revoke_and_raise row t s = (Inl RefreshSessionRevokedError, put_session row' s)"
    "rs_id row' = rs_id row" "rs_refresh_token_id row' = rs_refresh_token_id row" "rs_user_id row' = rs_user_id row"
    "\<not> live row'"
proof -
  let ?r = "row\<lparr>rs_revoked_at := Some t\<rparr>"
  obtain res s' where f: "flush_session ?r s = (res, s')" by (cases "flush_session ?r s") auto
  have "rs_id ?r = rs_id row" by simp
  from assms this f show ?thesis
  proof (cases rule: flush_session_cases)
    case (flushed r')
    with f show ?thesis
      by (intro that[of r']) (auto simp: revoke_and_raise_def stage_family_revocation_def live_def)
  next
    case (failed e)
    have "\<not> refresh_session_clash (?r\<lparr>rs_updated_at := db_now (acc_db s)\<rparr>) x"
      if "x \<in> set (acc_sessions s)" "rs_id x \<noteq> rs_id row" for x
      using rses.no_clash[OF accounts_ok_tables(4)[OF assms(1)] assms(2) that(1)] that(2)
      by (auto simp: refresh_session_clash_def)
    then have "?r \<in> set (acc_sessions s) \<Longrightarrow> flush_session ?r s = (Inr ?r, s)"
        "?r \<notin> set (acc_sessions s) \<Longrightarrow> flush_session ?r s = (Inr (?r\<lparr>rs_updated_at := db_now (acc_db s)\<rparr>),
           put_session (?r\<lparr>rs_updated_at := db_now (acc_db s)\<rparr>) s)"
      by (auto simp: flush_session_def flush_row_Inr put_session_def)
    with f failed show ?thesis by (cases "?r \<in> set (acc_sessions s)") auto
  qed
qed

lemma rotation_row_cases:
  assumes "accounts_ok s"
  obtains (current) row t where "rotation_row claims clock s = (Inr (row, t), s)"
      "session_by_id (rtc_session_id claims) s = Some row" "live row" "rs_user_id row = rtc_user_id claims"
      "rs_refresh_token_id row = rtc_token_id claims" "whole_seconds clock = Inr t" "t < rs_expires_at row"
  | (revoked) row row' where "rotation_row claims clock s = (Inl RefreshSessionRevokedError, put_session row' s)"
      "session_by_id (rtc_session_id claims) s = Some row" "live row" "rs_id row' = rs_id row"
      "rs_refresh_token_id row' = rs_refresh_token_id row" "rs_user_id row' = rs_user_id row" "\<not> live row'"
  | (refused) e where "rotation_row claims clock s = (Inl e, s)" "e \<noteq> RefreshSessionRevokedError"
      "\<not> (\<exists>row t. session_by_id (rtc_session_id claims) s = Some row \<and> live row \<and> whole_seconds clock = Inr t)"
proof (cases "whole_seconds clock")
  case (Inl e)
  then have "e = ValueError" by (cases clock) (auto simp: whole_seconds_def)
  with Inl show ?thesis by (intro refused[of e]) (auto simp: rotation_row_def)
next
  case (Inr t)
  show ?thesis
  proof (cases "session_by_id (rtc_session_id claims) s")
    case None
    with Inr show ?thesis by (intro refused[of RefreshSessionError]) (auto simp: rotation_row_def)
  next
    case (Some row)
    show ?thesis
    proof (cases "live row")
      case False
      with Inr Some show ?thesis
        by (intro refused[of RefreshSessionError]) (auto simp: rotation_row_def live_def)
    next
      case True
      then have l: "rs_deleted_at row = None" "rs_revoked_at row = None" by (auto simp: live_def)
      show ?thesis
      proof (cases "rs_user_id row = rtc_user_id claims \<and> t < rs_expires_at row \<and> rs_refresh_token_id row = rtc_token_id claims")
        case True
        with Inr Some l show ?thesis by (intro current[of row t]) (auto simp: rotation_row_def live_def)
      next
        case False
        from session_by_id_SomeD[OF Some] have "row \<in> set (acc_sessions s)" by simp
        from revoke_and_raise_run[OF assms this, of t] obtain row' where
            "revoke_and_raise row t s = (Inl RefreshSessionRevokedError :: exn + refresh_session \<times> instant, put_session row' s)"
            "rs_id row' = rs_id row" "rs_refresh_token_id row' = rs_refresh_token_id row"
            "rs_user_id row' = rs_user_id row" "\<not> live row'" .
        with False Inr Some l \<open>live row\<close> show ?thesis by (intro revoked[of row' row]) (auto simp: rotation_row_def)
      qed
    qed
  qed
qed

lemma rotate_locked_cases:
  assumes "accounts_ok s" "row \<in> set (acc_sessions s)"
    and "rotate_locked env fa fr token claims row t s = (res, s')"
  obtains (rotated) account pair row' where "res = Inr (account, pair)" "s' = put_session row' s" "rs_id row' = rs_id row"
      "rs_user_id row' = rs_user_id row" "rs_refresh_token_id row' = tp_refresh_token_id pair"
      "rs_expires_at row' = tp_refresh_expires_at pair" "rs_revoked_at row' = rs_revoked_at row"
      "rs_deleted_at row' = rs_deleted_at row"
      "prepare_refresh_rotation (env_jwt env) (env_digits env) (env_wall env) (env_settings env) fa fr token
         (usr_role account) (Aware t) = Inr \<lparr>rot_consumed_token_id = rs_refresh_token_id row, rot_replacement = pair\<rparr>"
      "account_by_id (rtc_user_id claims) s = Some account" "usr_is_active account" "usr_deleted_at account = None"
  | (revoked) row' where "res = Inl RefreshSessionRevokedError" "s' = put_session row' s" "rs_id row' = rs_id row"
      "rs_refresh_token_id row' = rs_refresh_token_id row" "rs_user_id row' = rs_user_id row" "\<not> live row'"
  | (refused) e where "res = Inl e" "s' = s" "e \<noteq> RefreshSessionRevokedError"
proof -
  from revoke_and_raise_run[OF assms(1,2), of t] obtain row' where rr:
      "revoke_and_raise row t s = (Inl RefreshSessionRevokedError :: exn + user \<times> token_pair, put_session row' s)"
      "rs_id row' = rs_id row" "rs_refresh_token_id row' = rs_refresh_token_id row"
      "rs_user_id row' = rs_user_id row" "\<not> live row'" .
  show ?thesis
  proof (cases "account_by_id (rtc_user_id claims) s")
    case None
    with assms(3) rr show ?thesis by (intro revoked[of row']) (auto simp: rotate_locked_def)
  next
    case (Some account)
    show ?thesis
    proof (cases "usr_is_active account \<and> usr_deleted_at account = None")
      case False
      with Some assms(3) rr show ?thesis by (intro revoked[of row']) (auto simp: rotate_locked_def)
    next
      case True
      show ?thesis
      proof (cases "prepare_refresh_rotation (env_jwt env) (env_digits env) (env_wall env) (env_settings env) fa fr token
         (usr_role account) (Aware t)")
        case (Inl e)
        then have "e = TokenValidationError"
          by (auto simp: prepare_refresh_rotation_def create_token_pair_def whole_seconds_def ebind_Inl_iff
              verify_refresh_token_def untrusted_def Let_def split: sum.splits)
        with Inl True Some assms(3) show ?thesis
          by (intro refused[of RefreshSessionError]) (auto simp: rotate_locked_def rethrow_tx_def)
      next
        case (Inr rotation)
        show ?thesis
        proof (cases "rot_consumed_token_id rotation = rs_refresh_token_id row")
          case False
          with Inr True Some assms(3) rr show ?thesis
            by (intro revoked[of row']) (auto simp: rotate_locked_def rethrow_tx_def)
        next
          case same: True
          let ?pair = "rot_replacement rotation"
          let ?r = "row\<lparr>rs_refresh_token_id := tp_refresh_token_id ?pair, rs_expires_at := tp_refresh_expires_at ?pair\<rparr>"
          obtain res1 s1 where f: "flush_session ?r s = (res1, s1)" by (cases "flush_session ?r s") auto
          have rot: "rotation = \<lparr>rot_consumed_token_id = rs_refresh_token_id row, rot_replacement = ?pair\<rparr>"
            using same by simp
          have "rs_id ?r = rs_id row" by simp
          from assms(1,2) this f show ?thesis
          proof (cases rule: flush_session_cases)
            case (flushed r')
            with f same Inr True Some assms(3) rot show ?thesis
              by (intro rotated[of account ?pair r']) (auto simp: rotate_locked_def rethrow_tx_def)
          next
            case (failed e)
            with f same Inr True Some assms(3) show ?thesis
              by (intro refused[of "IntegrityError e"]) (auto simp: rotate_locked_def rethrow_tx_def)
          qed
        qed
      qed
    qed
  qed
qed

end
