(* ===== verification/Session_Runs.thy ===== *)
theory Session_Runs
  imports Refresh_Sessions
begin

text \<open>
  The session endpoints as a system: every sequence of logins, refreshes, logouts and other account changes, with what
  others commit inside the lock wait of a refresh. A refresh token is accepted at most once, and a family that was
  revoked by a replay, an expired token or a logout never accepts a token again. The set beside the database holds
  the UUIDs drawn so far; \<open>uuid4\<close> is taken not to repeat one.
\<close>

section \<open>The refresh endpoint\<close>

lemma refresh_endpoint_cases:
  assumes ok: "accounts_ok s" "accounts_ok s1"
    and same: "session_by_id (rtc_session_id claims) s1 = session_by_id (rtc_session_id claims) s"
    and call: "refresh_session_endpoint env (\<lambda>_. s1) limit fa fr token claims clock s = (res, s')"
  obtains (accepted) account pair row row' where "res = Inr (account, pair)" "s' = put_session row' s1"
      "session_by_id (rtc_session_id claims) s = Some row" "live row" "rs_user_id row = rtc_user_id claims"
      "rs_refresh_token_id row = rtc_token_id claims"
      "rs_id row' = rs_id row" "rs_user_id row' = rs_user_id row" "rs_refresh_token_id row' = fr"
  | (revoked) base row row' where "res = Inl (HTTPException 401)" "s' = put_session row' base" "base = s \<or> base = s1"
      "session_by_id (rtc_session_id claims) base = Some row" "rs_id row' = rs_id row"
      "rs_refresh_token_id row' = rs_refresh_token_id row" "rs_user_id row' = rs_user_id row" "\<not> live row'"
  | (refused) e where "res = Inl e" "s' = s \<or> s' = s1"
  using ok(1)
proof (cases rule: rotation_row_cases[of s claims clock])
  case (current row t)
  obtain res1 t1 where l: "rotate_locked env fa fr token claims row t s1 = (res1, t1)"
    by (cases "rotate_locked env fa fr token claims row t s1") auto
  then have rot: "rotate_refresh_session env (\<lambda>_. s1) fa fr token claims clock s = (res1, t1)"
    using current(1) by (simp add: rotate_refresh_session_def)
  from current(2) same session_by_id_SomeD have "row \<in> set (acc_sessions s1)" by metis
  from ok(2) this l show ?thesis
  proof (cases rule: rotate_locked_cases)
    case (rotated account pair row')
    from rotated(9) have fr: "tp_refresh_token_id pair = fr"
      by (auto simp: prepare_refresh_rotation_def create_token_pair_def ebind_Inr_iff Let_def whole_seconds_def)
    show ?thesis
    proof (cases "limit account")
      case None
      with call rot current rotated fr show ?thesis
        by (intro accepted[of account pair row' row]) (auto simp: refresh_session_endpoint_def rate_limited_def)
    next
      case (Some status)
      with call rot current rotated show ?thesis
        by (intro refused[of "HTTPException status"]) (auto simp: refresh_session_endpoint_def rate_limited_def)
    qed
  next
    case (revoked row')
    with call rot current same that(2)[of row' s1 row] show ?thesis by (auto simp: refresh_session_endpoint_def)
  next
    case (refused e)
    with call rot current that(3) show ?thesis
      by (auto simp: refresh_session_endpoint_def Let_def split: if_splits)
  qed
next
  case (revoked row row')
  with call that(2)[of row' s row] show ?thesis by (auto simp: refresh_session_endpoint_def rotate_refresh_session_def)
next
  case (refused e)
  with call that(3) show ?thesis
    by (auto simp: refresh_session_endpoint_def rotate_refresh_session_def Let_def split: if_splits)
qed

section \<open>Runs\<close>

type_synonym auth_state = "uuid set \<times> account_db"

inductive auth_run :: "token_env \<Rightarrow> bcrypt_lib \<Rightarrow> auth_state \<Rightarrow> auth_state \<Rightarrow> bool" for env bc where
  idle: "auth_run env bc \<sigma> \<sigma>"
| later: "auth_run env bc \<sigma> \<sigma>1 \<Longrightarrow> auth_run env bc \<sigma>1 \<sigma>' \<Longrightarrow> auth_run env bc \<sigma> \<sigma>'"
| logged_in: "login_account env bc limit fs fa fr email password c1 c2 s = (res, s') \<Longrightarrow> fs \<notin> I \<Longrightarrow> fr \<notin> I \<Longrightarrow>
     auth_run env bc (I, s) (I \<union> {fs, fr}, s')"
| refreshed: "auth_run env bc (I, s) (I1, s1) \<Longrightarrow>
     session_by_id (rtc_session_id claims) s1 = session_by_id (rtc_session_id claims) s \<Longrightarrow>
     refresh_session_endpoint env (\<lambda>_. s1) limit fa fr token claims clock s = (res, s') \<Longrightarrow> fr \<notin> I1 \<Longrightarrow>
     auth_run env bc (I, s) (insert fr I1, s')"
| logged_out: "logout_session ctx clock s = (res', s') \<Longrightarrow> auth_run env bc (I, s) (I, s')"
| elsewhere: "accounts_ok s' \<Longrightarrow> set (acc_sessions s') \<subseteq> set (acc_sessions s) \<Longrightarrow> auth_run env bc (I, s) (I, s')"

definition drawn :: "auth_state \<Rightarrow> bool" where
  "drawn \<sigma> \<longleftrightarrow> accounts_ok (snd \<sigma>)
     \<and> (\<forall>x \<in> set (acc_sessions (snd \<sigma>)). rs_id x \<in> fst \<sigma> \<and> rs_refresh_token_id x \<in> fst \<sigma>)"

text \<open>
  What a run does to the families: identifiers only come from draws, and a family row afterwards is either new, with
  a fresh identifier and token, or continues a row of before, on the same token or a fresh one, and live only if the
  old row was.
\<close>

definition families_evolve :: "auth_state \<Rightarrow> auth_state \<Rightarrow> bool" where
  "families_evolve \<sigma> \<sigma>' \<longleftrightarrow> fst \<sigma> \<subseteq> fst \<sigma>'
     \<and> (\<forall>x' \<in> set (acc_sessions (snd \<sigma>')).
          (rs_id x' \<notin> fst \<sigma> \<and> rs_refresh_token_id x' \<notin> fst \<sigma>)
          \<or> (\<exists>x \<in> set (acc_sessions (snd \<sigma>)). rs_id x' = rs_id x \<and> (live x' \<longrightarrow> live x)
               \<and> (rs_refresh_token_id x' = rs_refresh_token_id x \<or> rs_refresh_token_id x' \<notin> fst \<sigma>)))"

lemma families_evolve_refl: "families_evolve \<sigma> \<sigma>"
  by (auto simp: families_evolve_def)

lemma families_evolve_trans:
  assumes a: "families_evolve \<sigma> \<sigma>1" and b: "families_evolve \<sigma>1 \<sigma>2"
  shows "families_evolve \<sigma> \<sigma>2"
  unfolding families_evolve_def
proof (intro conjI ballI)
  show "fst \<sigma> \<subseteq> fst \<sigma>2" using a b by (auto simp: families_evolve_def)
  fix x2 assume x2: "x2 \<in> set (acc_sessions (snd \<sigma>2))"
  let ?new = "rs_id x2 \<notin> fst \<sigma> \<and> rs_refresh_token_id x2 \<notin> fst \<sigma>"
  let ?old = "\<exists>x \<in> set (acc_sessions (snd \<sigma>)). rs_id x2 = rs_id x \<and> (live x2 \<longrightarrow> live x)
      \<and> (rs_refresh_token_id x2 = rs_refresh_token_id x \<or> rs_refresh_token_id x2 \<notin> fst \<sigma>)"
  from b x2 consider "rs_id x2 \<notin> fst \<sigma>1" "rs_refresh_token_id x2 \<notin> fst \<sigma>1"
    | x1 where "x1 \<in> set (acc_sessions (snd \<sigma>1))" "rs_id x2 = rs_id x1" "live x2 \<longrightarrow> live x1"
        "rs_refresh_token_id x2 = rs_refresh_token_id x1 \<or> rs_refresh_token_id x2 \<notin> fst \<sigma>1"
    unfolding families_evolve_def by blast
  then show "?new \<or> ?old"
  proof cases
    case 1
    with a show ?thesis unfolding families_evolve_def by blast
  next
    case (2 x1)
    from a 2(1) consider "rs_id x1 \<notin> fst \<sigma>" "rs_refresh_token_id x1 \<notin> fst \<sigma>"
      | x where "x \<in> set (acc_sessions (snd \<sigma>))" "rs_id x1 = rs_id x" "live x1 \<longrightarrow> live x"
          "rs_refresh_token_id x1 = rs_refresh_token_id x \<or> rs_refresh_token_id x1 \<notin> fst \<sigma>"
      unfolding families_evolve_def by blast
    then show ?thesis
    proof cases
      case 1
      with 2 a show ?thesis unfolding families_evolve_def by auto
    next
      case (2 x)
      have "rs_refresh_token_id x2 = rs_refresh_token_id x \<or> rs_refresh_token_id x2 \<notin> fst \<sigma>"
        using \<open>rs_refresh_token_id x2 = rs_refresh_token_id x1 \<or> _\<close> 2(4) a unfolding families_evolve_def by auto
      with 2 \<open>rs_id x2 = rs_id x1\<close> \<open>live x2 \<longrightarrow> live x1\<close> show ?thesis by metis
    qed
  qed
qed

text \<open>Replacing one family row by a continuation of it.\<close>

lemma families_evolve_put:
  assumes "row \<in> set (acc_sessions s)" "rs_id row' = rs_id row" "live row' \<longrightarrow> live row"
    and "rs_refresh_token_id row' = rs_refresh_token_id row \<or> rs_refresh_token_id row' \<notin> I"
  shows "families_evolve (I, s) (I', put_session row' s) \<longleftrightarrow> I \<subseteq> I'"
  using assms by (auto simp: families_evolve_def set_replace_row)

lemma login_cases_run:
  assumes ok: "accounts_ok s"
    and call: "login_account env bc limit fs fa fr email password c1 c2 s = (res, s')"
  shows "accounts_ok s' \<and> (acc_sessions s' = acc_sessions s
     \<or> (\<exists>row. acc_sessions s' = acc_sessions s @ [row] \<and> rs_id row = fs \<and> rs_refresh_token_id row = fr))"
proof (cases res)
  case (Inl e)
  with call have "s' = s" by (auto simp: login_account_def rethrow_tx_Inl_iff atomic_tx_Inl_iff)
  with ok show ?thesis by simp
next
  case (Inr r)
  obtain account pair where r: "r = (account, pair)" by (cases r)
  with Inr call obtain s1 row where steps: "authenticate_user bc email password c1 s = (Inr account, s1)"
      "create_token_pair (env_jwt env) (env_settings env) fs fa fr (usr_role account) (usr_id account) c2 = Inr pair"
      "create_refresh_session account pair s1 = (Inr row, s')"
    by (auto simp: login_account_def tx rate_limited_def split: option.splits)
  from authenticate_Inr[OF ok steps(1)] have s1: "accounts_ok s1" "acc_sessions s1 = acc_sessions s" by auto
  from steps(2) have ids: "tp_session_id pair = fs" "tp_refresh_token_id pair = fr"
    by (auto simp: create_token_pair_def tx Let_def)
  from steps(3) obtain r1 where ins: "insert_session r1 s1 = (Inr (), s')" "rs_id r1 = fs" "rs_refresh_token_id r1 = fr"
    by (auto simp: create_refresh_session_def tx Let_def ids)
  then show ?thesis using insert_session_ok[OF s1(1) ins(1)] s1(2)
    by (auto simp: insert_session_def insert_row_Inr)
qed

lemma revoke_run:
  assumes ok: "accounts_ok s" and call: "revoke_refresh_session i j clock s = (res, s')"
  shows "s' = s \<or> (\<exists>row \<in> set (acc_sessions s). \<exists>row'. s' = put_session row' s \<and> rs_id row = i \<and> rs_user_id row = j
     \<and> rs_id row' = rs_id row
     \<and> rs_user_id row' = rs_user_id row \<and> rs_refresh_token_id row' = rs_refresh_token_id row \<and> live row \<and> \<not> live row')"
proof -
  let ?f = "find (\<lambda>x. rs_id x = i \<and> rs_user_id x = j) (acc_sessions s)"
  show ?thesis
  proof (cases "\<exists>t row. whole_seconds clock = Inr t \<and> ?f = Some row \<and> live row")
    case True
    then obtain t row where h: "whole_seconds clock = Inr t" "?f = Some row" "live row" by blast
    from find_SomeD[OF h(2)] have row: "row \<in> set (acc_sessions s)" "rs_id row = i" "rs_user_id row = j" by auto
    from revoke_and_raise_run[OF ok row(1), of t] obtain row' where
        rr: "revoke_and_raise row t s = (Inl RefreshSessionRevokedError :: exn + unit, put_session row' s)"
        "rs_id row' = rs_id row" "rs_refresh_token_id row' = rs_refresh_token_id row"
        "rs_user_id row' = rs_user_id row" "\<not> live row'" .
    from rr(1) have "stage_family_revocation row t s = (Inr (), put_session row' s)
        \<or> stage_family_revocation row t s = (Inl RefreshSessionRevokedError, put_session row' s)"
      by (auto simp: revoke_and_raise_def bind_tx_def split: prod.splits sum.splits)
    then have "s' = put_session row' s"
      using call h by (auto simp: revoke_refresh_session_def live_def)
    with rr row h(3) show ?thesis by blast
  next
    case False
    then have "s' = s"
      using call by (cases "whole_seconds clock"; cases ?f)
        (auto simp: revoke_refresh_session_def bind_tx_def lift_tx_def query_tx_def return_tx_def live_def split: if_splits)
    then show ?thesis by simp
  qed
qed

lemma logout_run:
  assumes ok: "accounts_ok s" and call: "logout_session ctx clock s = (res, s')"
  shows "s' = s \<or> (\<exists>row \<in> set (acc_sessions s). \<exists>row'. s' = put_session row' s \<and> rs_id row' = rs_id row
     \<and> rs_user_id row' = rs_user_id row \<and> rs_refresh_token_id row' = rs_refresh_token_id row \<and> \<not> live row')"
proof (cases ctx)
  case None
  with call show ?thesis by (auto simp: logout_session_def return_tx_def)
next
  case (Some claims)
  obtain r t where rv: "revoke_refresh_session (claims_session_id claims) (claims_user_id claims) clock s = (r, t)"
    by (cases "revoke_refresh_session (claims_session_id claims) (claims_user_id claims) clock s") auto
  with Some call have "s' = s \<or> s' = t"
    by (auto simp: logout_session_def rethrow_tx_def atomic_tx_def split: sum.splits prod.splits)
  with revoke_run[OF ok rv] show ?thesis by blast
qed

lemma put_session_ok:
  assumes "accounts_ok s" "row \<in> set (acc_sessions s)" "rs_id row' = rs_id row" "rs_user_id row' = rs_user_id row"
    and "rs_refresh_token_id row' = rs_refresh_token_id row \<or> (\<forall>x \<in> set (acc_sessions s). rs_refresh_token_id x \<noteq> rs_refresh_token_id row')"
  shows "accounts_ok (put_session row' s)"
proof -
  have "\<not> refresh_session_clash row' x" if "x \<in> set (acc_sessions s)" "rs_id x \<noteq> rs_id row'" for x
    using rses.no_clash[OF accounts_ok_tables(4)[OF assms(1)] assms(2) that(1)] assms(3,5) that
    by (auto simp: refresh_session_clash_def)
  then have "update_checked rs_id (\<lambda>_. True) refresh_session_clash row' (acc_sessions s) = Inr (replace_row rs_id row' (acc_sessions s))"
    by (simp add: update_checked_Inr_iff)
  from rses.update_checked_ok[OF accounts_ok_tables(4)[OF assms(1)] this, folded replace_row_def] assms show ?thesis
    unfolding accounts_ok_def account_refs_defs list_all_iff put_session_def by (auto simp: set_replace_row)
qed

lemma drawn_put:
  assumes "drawn (I, s)" "row \<in> set (acc_sessions s)" "rs_id row' = rs_id row" "rs_user_id row' = rs_user_id row"
    and "rs_refresh_token_id row' = rs_refresh_token_id row \<or> rs_refresh_token_id row' \<notin> I"
    and "I \<subseteq> I'" "rs_refresh_token_id row' \<in> I'"
  shows "drawn (I', put_session row' s)"
proof -
  have "accounts_ok (put_session row' s)"
    using assms(1-5) by (intro put_session_ok) (auto simp: drawn_def)
  moreover have "rs_id x \<in> I' \<and> rs_refresh_token_id x \<in> I'" if "x \<in> set (acc_sessions s)" for x
    using assms(1,6) that by (auto simp: drawn_def)
  ultimately show ?thesis using assms(2,3,7) by (auto simp: drawn_def set_replace_row)
qed

lemma run_evolves:
  assumes "auth_run env bc \<sigma> \<sigma>'" "drawn \<sigma>"
  shows "drawn \<sigma>' \<and> families_evolve \<sigma> \<sigma>'"
  using assms
proof (induction rule: auth_run.induct)
  case (idle \<sigma>)
  then show ?case by (simp add: families_evolve_refl)
next
  case (later \<sigma> \<sigma>1 \<sigma>')
  then show ?case using families_evolve_trans by blast
next
  case (logged_in limit fs fa fr email password c1 c2 s res s' I)
  then have "accounts_ok s" by (simp add: drawn_def)
  from login_cases_run[OF this logged_in.hyps(1)] logged_in.hyps(2,3) logged_in.prems show ?case
    by (auto simp: drawn_def families_evolve_def)
next
  case (refreshed I s I1 s1 claims limit fa fr token clock res s')
  note IH = refreshed.IH[OF refreshed.prems]
  then have ok: "accounts_ok s" "accounts_ok s1" and sub: "I \<subseteq> I1"
    using refreshed.prems by (auto simp: drawn_def families_evolve_def)
  have mono: "drawn (J, x) \<Longrightarrow> drawn (insert fr J, x)" for J x by (auto simp: drawn_def)
  have wider: "families_evolve (I, s) (insert fr I1, s)" using sub by (auto simp: families_evolve_def)
  have wider1: "families_evolve (I, s) (insert fr I1, s1)" using IH by (auto simp: families_evolve_def)
  from ok refreshed.hyps(2,3) show ?case
  proof (cases rule: refresh_endpoint_cases)
    case (accepted account pair row row')
    with refreshed.hyps(2) have row: "row \<in> set (acc_sessions s1)" by (auto dest: session_by_id_SomeD)
    have "drawn (insert fr I1, put_session row' s1)"
      using IH row accepted refreshed.hyps(4) by (intro drawn_put[of I1 s1 row]) auto
    moreover have "families_evolve (I1, s1) (insert fr I1, put_session row' s1)"
      using families_evolve_put[OF row accepted(7), of I1 "insert fr I1"] accepted(4,9) refreshed.hyps(4) by auto
    ultimately show ?thesis using IH accepted(2) families_evolve_trans by blast
  next
    case (revoked base row row')
    then have row: "row \<in> set (acc_sessions base)" by (auto dest: session_by_id_SomeD)
    have b: "drawn (insert fr I1, base)" "families_evolve (I, s) (insert fr I1, base)"
      using revoked(3) IH mono refreshed.prems wider wider1 sub by (auto simp: drawn_def)
    have "drawn (insert fr I1, put_session row' base)"
      using b(1) row revoked by (intro drawn_put[of "insert fr I1" base row]) (auto simp: drawn_def)
    moreover have "families_evolve (insert fr I1, base) (insert fr I1, put_session row' base)"
      using families_evolve_put[OF row revoked(5), of "insert fr I1" "insert fr I1"] revoked(6,8) by auto
    ultimately show ?thesis using b(2) revoked(2) families_evolve_trans by blast
  next
    case (refused e)
    then show ?thesis using IH mono refreshed.prems wider wider1 sub by (auto simp: drawn_def)
  qed
next
  case (logged_out ctx clock s res' s' I)
  have "s' = s \<or> (\<exists>row \<in> set (acc_sessions s). \<exists>row'. s' = put_session row' s \<and> rs_id row' = rs_id row
     \<and> rs_user_id row' = rs_user_id row \<and> rs_refresh_token_id row' = rs_refresh_token_id row \<and> \<not> live row')"
    using logout_run[OF _ logged_out.hyps] logged_out.prems by (auto simp: drawn_def)
  then show ?case
  proof
    assume "s' = s"
    with logged_out.prems show ?thesis by (simp add: families_evolve_refl)
  next
    assume "\<exists>row \<in> set (acc_sessions s). \<exists>row'. s' = put_session row' s \<and> rs_id row' = rs_id row
       \<and> rs_user_id row' = rs_user_id row \<and> rs_refresh_token_id row' = rs_refresh_token_id row \<and> \<not> live row'"
    then obtain row row' where r: "row \<in> set (acc_sessions s)" "s' = put_session row' s" "rs_id row' = rs_id row"
        "rs_user_id row' = rs_user_id row" "rs_refresh_token_id row' = rs_refresh_token_id row" "\<not> live row'" by blast
    with logged_out.prems drawn_put[of I s row row' I] families_evolve_put[OF r(1,3), of I I] show ?thesis
      by (auto simp: drawn_def)
  qed
next
  case (elsewhere s' s I)
  then show ?case by (auto simp: drawn_def families_evolve_def)
qed

section \<open>What a run can no longer do\<close>

text \<open>No family holds a token that was drawn before and is not held now.\<close>

lemma spent_token_stays_spent:
  assumes "families_evolve \<sigma> \<sigma>'" "k \<in> fst \<sigma>" "\<forall>x \<in> set (acc_sessions (snd \<sigma>)). rs_refresh_token_id x \<noteq> k"
  shows "\<forall>x \<in> set (acc_sessions (snd \<sigma>')). rs_refresh_token_id x \<noteq> k"
  using assms unfolding families_evolve_def by metis

lemma ended_family_stays_ended:
  assumes "families_evolve \<sigma> \<sigma>'" "i \<in> fst \<sigma>" "\<forall>x \<in> set (acc_sessions (snd \<sigma>)). rs_id x = i \<longrightarrow> \<not> live x"
  shows "\<forall>x \<in> set (acc_sessions (snd \<sigma>')). rs_id x = i \<longrightarrow> \<not> live x"
  using assms unfolding families_evolve_def by metis

text \<open>What an accepted refresh needs, with anything others commit during its lock wait.\<close>

lemma accepted_needs_live_row:
  assumes "drawn \<sigma>" "auth_run env bc \<sigma> \<sigma>1"
    and "session_by_id (rtc_session_id claims) (snd \<sigma>1) = session_by_id (rtc_session_id claims) (snd \<sigma>)"
    and "refresh_session_endpoint env (\<lambda>_. snd \<sigma>1) limit fa fr token claims clock (snd \<sigma>) = (Inr r, s')"
  shows "\<exists>x \<in> set (acc_sessions (snd \<sigma>)). rs_id x = rtc_session_id claims \<and> live x
    \<and> rs_refresh_token_id x = rtc_token_id claims \<and> rs_user_id x = rtc_user_id claims"
proof -
  from run_evolves[OF assms(2,1)] assms(1) have "accounts_ok (snd \<sigma>)" "accounts_ok (snd \<sigma>1)" by (auto simp: drawn_def)
  from this assms(3,4) show ?thesis
    by (cases rule: refresh_endpoint_cases) (auto dest!: session_by_id_SomeD)
qed

lemma accepted_spends_token:
  assumes d: "drawn (I, s)" and run: "auth_run env bc (I, s) (I1, s1)"
    and same: "session_by_id (rtc_session_id claims) s1 = session_by_id (rtc_session_id claims) s"
    and call: "refresh_session_endpoint env (\<lambda>_. s1) limit fa fr token claims clock s = (Inr r, s')" and fr: "fr \<notin> I1"
  shows "rtc_token_id claims \<in> I1 \<and> (\<forall>x \<in> set (acc_sessions s'). rs_refresh_token_id x \<noteq> rtc_token_id claims)"
proof -
  from run_evolves[OF run d] d have ok: "accounts_ok s" "accounts_ok s1" "drawn (I1, s1)" by (auto simp: drawn_def)
  from ok(1,2) same call show ?thesis
  proof (cases rule: refresh_endpoint_cases)
    case (accepted account pair row row')
    with same have row: "row \<in> set (acc_sessions s1)" by (auto dest: session_by_id_SomeD)
    with ok(3) accepted(6) have k: "rtc_token_id claims \<in> I1" by (auto simp: drawn_def)
    have "rs_refresh_token_id x \<noteq> rtc_token_id claims" if "x \<in> set (acc_sessions s1)" "rs_id x \<noteq> rs_id row" for x
      using rses.no_clash[OF accounts_ok_tables(4)[OF ok(2)] row that(1)] that(2) accepted(6)
      by (auto simp: refresh_session_clash_def)
    with accepted k fr show ?thesis by (auto simp: set_replace_row)
  qed auto
qed

text \<open>C5: A refresh token is accepted at most once. After a refresh that accepted the token with identifier \<open>k\<close>, no later
  refresh that presents \<open>k\<close> is accepted, whatever logins, refreshes, logouts and other changes commit in between or
  during the lock waits of the two calls.\<close>

theorem refresh_token_accepted_once:
  assumes "drawn (I, s)" "auth_run env bc (I, s) (I1, s1)"
    and "session_by_id (rtc_session_id claims) s1 = session_by_id (rtc_session_id claims) s"
    and "refresh_session_endpoint env (\<lambda>_. s1) limit fa fr token claims clock s = (Inr r, s')" "fr \<notin> I1"
    and "auth_run env bc (insert fr I1, s') (I2, s2)"
    and "auth_run env bc (I2, s2) (I3, s3)"
    and "session_by_id (rtc_session_id claims2) s3 = session_by_id (rtc_session_id claims2) s2"
    and "rtc_token_id claims2 = rtc_token_id claims"
  shows "isl (fst (refresh_session_endpoint env (\<lambda>_. s3) limit2 fa2 fr2 token2 claims2 clock2 s2))"
proof (rule ccontr)
  assume "\<not> ?thesis"
  then obtain r2 s4 where call2:
      "refresh_session_endpoint env (\<lambda>_. s3) limit2 fa2 fr2 token2 claims2 clock2 s2 = (Inr r2, s4)"
    by (metis isl_def prod.collapse sum.exhaust)
  have step: "auth_run env bc (I, s) (insert fr I1, s')" using assms(2-5) by (rule auth_run.refreshed)
  from run_evolves[OF step assms(1)] have d': "drawn (insert fr I1, s')" ..
  from run_evolves[OF assms(6) d'] have d2: "drawn (I2, s2)" "families_evolve (insert fr I1, s') (I2, s2)" by auto
  from accepted_spends_token[OF assms(1-5)] spent_token_stays_spent[OF d2(2), of "rtc_token_id claims"]
  have "\<forall>x \<in> set (acc_sessions s2). rs_refresh_token_id x \<noteq> rtc_token_id claims" by auto
  moreover from accepted_needs_live_row[OF d2(1) assms(7), unfolded snd_conv, OF assms(8) call2]
  have "\<exists>x \<in> set (acc_sessions s2). rs_refresh_token_id x = rtc_token_id claims2" by blast
  ultimately show False using assms(9) by auto
qed

lemma ended_family_refused:
  assumes "drawn \<sigma>" "i \<in> fst \<sigma>" "\<forall>x \<in> set (acc_sessions (snd \<sigma>)). rs_id x = i \<longrightarrow> \<not> live x"
    and "auth_run env bc \<sigma> \<sigma>2" "auth_run env bc \<sigma>2 \<sigma>3" "rtc_session_id claims = i"
    and "session_by_id i (snd \<sigma>3) = session_by_id i (snd \<sigma>2)"
  shows "isl (fst (refresh_session_endpoint env (\<lambda>_. snd \<sigma>3) limit fa fr token claims clock (snd \<sigma>2)))"
proof (rule ccontr)
  assume "\<not> ?thesis"
  then obtain r s4 where call:
      "refresh_session_endpoint env (\<lambda>_. snd \<sigma>3) limit fa fr token claims clock (snd \<sigma>2) = (Inr r, s4)"
    by (metis isl_def prod.collapse sum.exhaust)
  from run_evolves[OF assms(4,1)] have d2: "drawn \<sigma>2" "families_evolve \<sigma> \<sigma>2" by auto
  have "session_by_id (rtc_session_id claims) (snd \<sigma>3) = session_by_id (rtc_session_id claims) (snd \<sigma>2)"
    using assms(6,7) by simp
  from accepted_needs_live_row[OF d2(1) assms(5) this call] ended_family_stays_ended[OF d2(2) assms(2,3)] assms(6)
  show False by blast
qed

lemma ended_family_no_recovery:
  assumes "\<forall>x \<in> set (acc_sessions s). rs_id x = claims_session_id claims \<longrightarrow> \<not> live x"
  shows "isl (fst (validate_csrf_recovery_session claims clock s))"
  using assms
  by (cases clock) (auto simp: validate_csrf_recovery_session_def whole_seconds_def live_def bind_tx_def lift_tx_def
      query_tx_def raise_tx_def split: option.splits dest!: find_SomeD)

lemma replay_ends_family:
  assumes ok: "accounts_ok s" and row: "session_by_id (rtc_session_id claims) s = Some row" "live row"
    and replay: "rs_refresh_token_id row \<noteq> rtc_token_id claims"
    and call: "refresh_session_endpoint env others limit fa fr token claims (Aware t) s = (res, s')"
  shows "res = Inl (HTTPException 401) \<and> (\<exists>row'. s' = put_session row' s \<and> rs_id row' = rs_id row \<and> \<not> live row'
    \<and> rs_user_id row' = rs_user_id row \<and> rs_refresh_token_id row' = rs_refresh_token_id row)"
  using ok
proof (cases rule: rotation_row_cases[of s claims "Aware t"])
  case (current row2 t2)
  with row replay show ?thesis by auto
next
  case (revoked row2 row')
  with call row show ?thesis by (auto simp: refresh_session_endpoint_def rotate_refresh_session_def)
next
  case (refused e)
  with row show ?thesis by (auto simp: whole_seconds_def)
qed

text \<open>C13: A replayed refresh token ends its family. When a live family is presented a token that is not its current one,
  the response is 401, the family is revoked and nothing else changes; from then on no refresh of that family is
  accepted and no CSRF recovery succeeds, whatever happens in between.\<close>

theorem replay_revokes_family_for_good:
  assumes "drawn (I, s)" "session_by_id (rtc_session_id claims) s = Some row" "live row"
    and "rs_refresh_token_id row \<noteq> rtc_token_id claims"
    and "refresh_session_endpoint env others limit fa fr token claims (Aware t) s = (res, s')"
    and "auth_run env bc (I, s') (I2, s2)" "auth_run env bc (I2, s2) (I3, s3)"
    and "rtc_session_id claims2 = rtc_session_id claims"
    and "session_by_id (rtc_session_id claims) s3 = session_by_id (rtc_session_id claims) s2"
  shows "res = Inl (HTTPException 401)
    \<and> (\<exists>row'. s' = put_session row' s \<and> rs_id row' = rs_id row \<and> \<not> live row')
    \<and> isl (fst (refresh_session_endpoint env (\<lambda>_. s3) limit2 fa2 fr2 token2 claims2 clock2 s2))
    \<and> isl (fst (validate_csrf_recovery_session (Refresh_claims claims2) clock2 s2))"
proof -
  from assms(1) have ok: "accounts_ok s" by (simp add: drawn_def)
  from replay_ends_family[OF ok assms(2-5)] obtain row' where r: "res = Inl (HTTPException 401)" "s' = put_session row' s"
      "rs_id row' = rs_id row" "\<not> live row'" "rs_user_id row' = rs_user_id row"
      "rs_refresh_token_id row' = rs_refresh_token_id row" by blast
  from session_by_id_SomeD[OF assms(2)] have row: "row \<in> set (acc_sessions s)" "rs_id row = rtc_session_id claims" by auto
  have d': "drawn (I, s')" unfolding r(2)
    using drawn_put[OF assms(1) row(1) r(3,5)] assms(1) row(1) r(6) by (auto simp: drawn_def)
  have dead: "\<forall>x \<in> set (acc_sessions (snd (I, s'))). rs_id x = rtc_session_id claims \<longrightarrow> \<not> live x"
    using r(2-4) row(2) by (auto simp: set_replace_row)
  have mem: "rtc_session_id claims \<in> fst (I, s')" using assms(1) row by (auto simp: drawn_def)
  from run_evolves[OF assms(6) d'] have "families_evolve (I, s') (I2, s2)" ..
  from ended_family_stays_ended[OF this mem dead]
  have "\<forall>x \<in> set (acc_sessions s2). rs_id x = claims_session_id (Refresh_claims claims2) \<longrightarrow> \<not> live x"
    using assms(8) by simp
  with ended_family_refused[OF d' mem dead assms(6,7), of claims2] ended_family_no_recovery r assms(8,9) show ?thesis
    by auto
qed

lemma logout_of_live_family:
  assumes ok: "accounts_ok s" and row: "row \<in> set (acc_sessions s)" "live row" "rs_id row = claims_session_id claims"
      "rs_user_id row = claims_user_id claims"
    and call: "logout_session (Some claims) (Aware t) s = (res, s')"
  shows "res = Inr () \<and> (\<exists>row'. s' = put_session row' s \<and> rs_id row' = rs_id row \<and> rs_user_id row' = rs_user_id row
    \<and> rs_refresh_token_id row' = rs_refresh_token_id row \<and> \<not> live row')"
proof -
  have f: "find (\<lambda>x. rs_id x = claims_session_id claims \<and> rs_user_id x = claims_user_id claims) (acc_sessions s) = Some row"
    using row rses.key_inj[OF accounts_ok_tables(4)[OF ok]] by (intro find_unique) auto
  let ?t = "t - t mod second_us"
  from revoke_and_raise_run[OF ok row(1), of ?t] obtain row' where
      rr: "revoke_and_raise row ?t s = (Inl RefreshSessionRevokedError :: exn + unit, put_session row' s)"
      "rs_id row' = rs_id row" "rs_refresh_token_id row' = rs_refresh_token_id row"
      "rs_user_id row' = rs_user_id row" "\<not> live row'" .
  from rr(1) have "stage_family_revocation row ?t s = (Inr (), put_session row' s)"
    by (auto simp: revoke_and_raise_def bind_tx_def stage_family_revocation_def raise_tx_def return_tx_def flush_session_def
        dest!: flush_row_Inl split: prod.splits sum.splits)
  then have "logout_session (Some claims) (Aware t) s = (Inr (), put_session row' s)"
    using f row(2) by (simp add: logout_session_def rethrow_tx_def atomic_tx_def revoke_refresh_session_def
        whole_seconds_def live_def)
  with call rr show ?thesis by auto
qed

text \<open>C14: Logout ends exactly the caller's session. With verified claims of a live family the call succeeds, revokes that
  family and changes nothing else, also when the claims carry an outdated token; afterwards no refresh of the family
  is accepted, and logging out again changes nothing.\<close>

theorem logout_ends_session:
  assumes "drawn (I, s)" "row \<in> set (acc_sessions s)" "live row" "rs_id row = claims_session_id claims"
    and "rs_user_id row = claims_user_id claims" "logout_session (Some claims) (Aware t) s = (res, s')"
    and "auth_run env bc (I, s') (I2, s2)" "auth_run env bc (I2, s2) (I3, s3)"
    and "rtc_session_id claims2 = rs_id row" "session_by_id (rs_id row) s3 = session_by_id (rs_id row) s2"
  shows "res = Inr () \<and> (\<exists>row'. s' = put_session row' s \<and> rs_id row' = rs_id row \<and> \<not> live row')
    \<and> isl (fst (refresh_session_endpoint env (\<lambda>_. s3) limit fa fr token claims2 clock2 s2))
    \<and> snd (logout_session (Some claims) clock2 s') = s'"
proof -
  from assms(1) have ok: "accounts_ok s" by (simp add: drawn_def)
  from logout_of_live_family[OF ok assms(2-6)] obtain row' where r: "res = Inr ()" "s' = put_session row' s"
      "rs_id row' = rs_id row" "rs_user_id row' = rs_user_id row"
      "rs_refresh_token_id row' = rs_refresh_token_id row" "\<not> live row'" by blast
  have d': "drawn (I, s')" unfolding r(2)
    using drawn_put[OF assms(1,2) r(3,4)] assms(1,2) r(5) by (auto simp: drawn_def)
  have dead: "\<forall>x \<in> set (acc_sessions (snd (I, s'))). rs_id x = rs_id row \<longrightarrow> \<not> live x"
    using r(2,3,6) by (auto simp: set_replace_row)
  have mem: "rs_id row \<in> fst (I, s')" using assms(1,2) by (auto simp: drawn_def)
  obtain res2 s4 where again: "logout_session (Some claims) clock2 s' = (res2, s4)"
    by (cases "logout_session (Some claims) clock2 s'") auto
  have "s4 = s'"
  proof -
    obtain r5 t5 where rv: "revoke_refresh_session (claims_session_id claims) (claims_user_id claims) clock2 s' = (r5, t5)"
      by (cases "revoke_refresh_session (claims_session_id claims) (claims_user_id claims) clock2 s'") auto
    from d' have "accounts_ok s'" by (simp add: drawn_def)
    from revoke_run[OF this rv] dead assms(4) have "t5 = s'" by auto
    with again rv show ?thesis
      by (auto simp: logout_session_def rethrow_tx_def atomic_tx_def split: sum.splits prod.splits)
  qed
  with ended_family_refused[OF d' mem dead assms(7,8,9)] assms(10) again r show ?thesis by auto
qed

section \<open>Instances\<close>

definition sample_settings :: auth_token_settings where
  "sample_settings = \<lparr>ats_signing_key = replicate 32 7, ats_secure_cookies = True\<rparr>"

definition sample_env :: token_env where
  "sample_env = \<lparr>env_jwt = sample_jwt, env_digits = (\<lambda>_. None), env_settings = sample_settings,
     env_wall = 1700000005000000\<rparr>"

definition sample_session :: refresh_session where
  "sample_session = \<lparr>rs_id = 30, rs_user_id = 7, rs_refresh_token_id = 40, rs_expires_at = 1700604800000000,
     rs_revoked_at = None, rs_created_at = 100, rs_updated_at = 100, rs_deleted_at = None\<rparr>"

definition signed_in_accounts :: account_db where
  "signed_in_accounts = (set_users [sample_account] fresh_accounts)\<lparr>
     acc_semesters := [count_student 100 sample_semester], acc_sessions := [sample_session]\<rparr>"

definition sample_token :: "uuid \<Rightarrow> pystr" where
  "sample_token k = encode_token sample_jwt sample_settings 7 30 k Refresh_token 1700000000000000
     (1700000000000000 + REFRESH_TOKEN_TTL) None"

definition sample_claims :: "uuid \<Rightarrow> refresh_token_claims" where
  "sample_claims k = \<lparr>rtc_user_id = 7, rtc_session_id = 30, rtc_token_id = k, rtc_issued_at = 1700000000000000,
     rtc_expires_at = 1700000000000000 + REFRESH_TOKEN_TTL\<rparr>"

lemma signed_in_ok: "accounts_ok signed_in_accounts"
  by (simp add: accounts_ok_def signed_in_accounts_def fresh_accounts_def empty_database_def set_users_def db_ok_def
      table_ok_def sample_semester_def semester_check_def count_student_def sample_account_def new_account_def user_check_def
      account_refs_defs sample_session_def u_def strip_by_def)

lemma signed_in_drawn: "drawn ({30, 40}, signed_in_accounts)"
  using signed_in_ok by (simp add: drawn_def signed_in_accounts_def sample_session_def)

lemma sample_row: "session_by_id 30 signed_in_accounts = Some sample_session" "live sample_session"
  by (simp_all add: session_by_id_def signed_in_accounts_def sample_session_def live_def)

lemma sample_verifies:
  "k < 2 ^ 128 \<Longrightarrow> verify_refresh_token sample_jwt dec 1700000005000000 (sample_token k) sample_settings = Inr (sample_claims k)"
  unfolding sample_token_def sample_claims_def
  by (rule refresh_token_verifies[OF sample_jwt_contract])
    (simp_all add: issued_in_range_def second_us_def REFRESH_TOKEN_TTL_def day_us_def JWT_CLOCK_SKEW_def)

lemma sample_refresh:
  "\<exists>r s'. refresh_session_endpoint sample_env (\<lambda>_. signed_in_accounts) (\<lambda>_. None) 42 41 (sample_token 40) (sample_claims 40)
     (Aware 1700000005000000) signed_in_accounts = (Inr r, s')"
proof -
  have row: "rotation_row (sample_claims 40) (Aware 1700000005000000) signed_in_accounts
      = (Inr (sample_session, 1700000005000000), signed_in_accounts)"
    using sample_row by (simp add: rotation_row_def whole_seconds_def second_us_def sample_claims_def sample_session_def)
  obtain pair where pair: "create_token_pair sample_jwt sample_settings 30 42 41 USER 7 (Aware 1700000005000000) = Inr pair"
      "tp_refresh_token_id pair = 41" by (simp add: create_token_pair_def whole_seconds_def second_us_def Let_def)
  have prep: "prepare_refresh_rotation sample_jwt (\<lambda>_. None) 1700000005000000 sample_settings 42 41 (sample_token 40) USER
      (Aware 1700000005000000) = Inr \<lparr>rot_consumed_token_id = 40, rot_replacement = pair\<rparr>"
    using pair by (simp add: prepare_refresh_rotation_def sample_verifies) (simp add: sample_claims_def)
  have acc: "account_by_id 7 signed_in_accounts = Some sample_account" "usr_is_active sample_account"
      "usr_deleted_at sample_account = None" "usr_role sample_account = USER"
    by (simp_all add: account_by_id_def signed_in_accounts_def set_users_def sample_account_def)
  let ?r = "sample_session\<lparr>rs_refresh_token_id := 41, rs_expires_at := tp_refresh_expires_at pair\<rparr>"
  obtain s' where f: "flush_session ?r signed_in_accounts = (Inr (?r\<lparr>rs_updated_at := 100\<rparr>), s')"
    by (auto simp: flush_session_def flush_row_Inr signed_in_accounts_def sample_session_def set_users_def
        fresh_accounts_def empty_database_def)
  have "rotate_locked sample_env 42 41 (sample_token 40) (sample_claims 40) sample_session 1700000005000000 signed_in_accounts
      = (Inr (sample_account, pair), s')"
    using acc prep f pair
    by (simp add: rotate_locked_def rethrow_tx_def sample_env_def sample_claims_def sample_session_def)
  with row show ?thesis
    by (simp add: refresh_session_endpoint_def rotate_refresh_session_def rate_limited_def)
qed

lemma refresh_token_accepted_once_witness:
  "\<exists>r s'. refresh_session_endpoint sample_env (\<lambda>_. signed_in_accounts) (\<lambda>_. None) 42 41 (sample_token 40) (sample_claims 40)
       (Aware 1700000005000000) signed_in_accounts = (Inr r, s')
     \<and> isl (fst (refresh_session_endpoint sample_env (\<lambda>_. s') (\<lambda>_. None) 44 43 (sample_token 40) (sample_claims 40)
       (Aware 1700000006000000) s'))"
proof -
  from sample_refresh obtain r s' where c: "refresh_session_endpoint sample_env (\<lambda>_. signed_in_accounts) (\<lambda>_. None) 42 41
      (sample_token 40) (sample_claims 40) (Aware 1700000005000000) signed_in_accounts = (Inr r, s')" by blast
  have "(41::nat) \<notin> {30, 40}" by simp
  from refresh_token_accepted_once[OF signed_in_drawn auth_run.idle[of sample_env sample_bcrypt] refl c this
      auth_run.idle auth_run.idle refl refl] c
  show ?thesis by blast
qed

lemma replay_revokes_family_for_good_witness:
  "\<exists>s'. refresh_session_endpoint sample_env (\<lambda>_. signed_in_accounts) (\<lambda>_. None) 42 41 (sample_token 39) (sample_claims 39)
       (Aware 1700000005000000) signed_in_accounts = (Inl (HTTPException 401), s')
     \<and> isl (fst (refresh_session_endpoint sample_env (\<lambda>_. s') (\<lambda>_. None) 44 43 (sample_token 40) (sample_claims 40)
       (Aware 1700000006000000) s'))"
proof -
  obtain res s' where c: "refresh_session_endpoint sample_env (\<lambda>_. signed_in_accounts) (\<lambda>_. None) 42 41
      (sample_token 39) (sample_claims 39) (Aware 1700000005000000) signed_in_accounts = (res, s')" by fastforce
  have h: "session_by_id (rtc_session_id (sample_claims 39)) signed_in_accounts = Some sample_session"
      "rs_refresh_token_id sample_session \<noteq> rtc_token_id (sample_claims 39)"
      "rtc_session_id (sample_claims 40) = rtc_session_id (sample_claims 39)"
    using sample_row by (simp_all add: sample_claims_def sample_session_def)
  from replay_revokes_family_for_good[OF signed_in_drawn h(1) sample_row(2) h(2) c
      auth_run.idle[of sample_env sample_bcrypt] auth_run.idle h(3) refl] c
  show ?thesis by blast
qed

lemma logout_ends_session_witness:
  "\<exists>s'. logout_session (Some (Refresh_claims (sample_claims 39))) (Aware 1700000005000000) signed_in_accounts = (Inr (), s')
     \<and> isl (fst (refresh_session_endpoint sample_env (\<lambda>_. s') (\<lambda>_. None) 44 43 (sample_token 40) (sample_claims 40)
       (Aware 1700000006000000) s'))"
proof -
  obtain res s' where c: "logout_session (Some (Refresh_claims (sample_claims 39))) (Aware 1700000005000000)
      signed_in_accounts = (res, s')" by fastforce
  have h: "sample_session \<in> set (acc_sessions signed_in_accounts)"
      "rs_id sample_session = claims_session_id (Refresh_claims (sample_claims 39))"
      "rs_user_id sample_session = claims_user_id (Refresh_claims (sample_claims 39))"
      "rtc_session_id (sample_claims 40) = rs_id sample_session"
    by (simp_all add: sample_claims_def sample_session_def signed_in_accounts_def)
  from logout_ends_session[OF signed_in_drawn h(1) sample_row(2) h(2,3) c
      auth_run.idle[of sample_env sample_bcrypt] auth_run.idle h(4) refl] c
  show ?thesis by blast
qed

end
