(* ===== verification/Chat_Cursor.thy ===== *)
theory Chat_Cursor
  imports Data_Model
begin

text \<open>
  The opaque history cursor of \<open>services/buddy_chat.py\<close>: \<open>struct.pack(">Bq", version, microseconds)\<close> and the
  16 bytes of the message id, in URL-safe base64 without padding. The standard library functions the code
  calls (\<open>struct\<close>, \<open>base64\<close>, \<open>binascii.a2b_base64\<close> in strict mode, \<open>UUID.bytes\<close>) are written out; bytes are
  natural numbers below 256. The theorems: what is encoded decodes to itself, and whatever decodes is in range.
\<close>

section \<open>Bytes\<close>

text \<open>Big-endian integers of a fixed number of bytes.\<close>

fun be_bytes :: "nat \<Rightarrow> nat \<Rightarrow> nat list" where
  "be_bytes 0 n = []"
| "be_bytes (Suc k) n = be_bytes k (n div 256) @ [n mod 256]"

definition be_nat :: "nat list \<Rightarrow> nat" where
  "be_nat bs = foldl (\<lambda>a b. a * 256 + b) 0 bs"

lemma length_be_bytes [simp]: "length (be_bytes k n) = k"
  by (induction k arbitrary: n) auto

lemma be_bytes_range: "list_all (\<lambda>b. b < 256) (be_bytes k n)"
  by (induction k arbitrary: n) auto

lemma be_nat_snoc: "be_nat (bs @ [b]) = be_nat bs * 256 + b"
  by (simp add: be_nat_def)

lemma be_nat_bytes: "n < 256 ^ k \<Longrightarrow> be_nat (be_bytes k n) = n"
proof (induction k arbitrary: n)
  case (Suc k)
  then have "n div 256 < 256 ^ k" by (simp add: less_mult_imp_div_less mult.commute)
  with Suc.IH[of "n div 256"] show ?case by (simp add: be_nat_snoc)
qed (simp add: be_nat_def)

lemma be_nat_less: "list_all (\<lambda>b. b < 256) bs \<Longrightarrow> be_nat bs < 256 ^ length bs"
proof (induction bs rule: rev_induct)
  case (snoc b bs)
  then have "be_nat bs + 1 \<le> 256 ^ length bs" "b < 256" by auto
  then have "(be_nat bs + 1) * 256 \<le> 256 ^ length bs * 256" by (intro mult_right_mono) auto
  with \<open>b < 256\<close> show ?case by (simp add: be_nat_snoc)
qed (simp add: be_nat_def)

text \<open>The \<open>q\<close> format of \<open>struct\<close>: a signed 64-bit integer.\<close>

definition pack_q :: "int \<Rightarrow> nat list" where
  "pack_q v = be_bytes 8 (nat (v mod 2 ^ 64))"

definition unpack_q :: "nat list \<Rightarrow> int" where
  "unpack_q bs = (let n = int (be_nat bs) in if n < 2 ^ 63 then n else n - 2 ^ 64)"

lemma unpack_pack_q: "- (2 ^ 63) \<le> v \<Longrightarrow> v < 2 ^ 63 \<Longrightarrow> unpack_q (pack_q v) = v"
proof -
  assume v: "- (2 ^ 63) \<le> v" "v < 2 ^ 63"
  have "nat (v mod 2 ^ 64) < 256 ^ 8" by (simp add: nat_less_iff)
  then have n: "int (be_nat (pack_q v)) = v mod 2 ^ 64" by (simp add: pack_q_def be_nat_bytes)
  show ?thesis
  proof (cases "0 \<le> v")
    case True
    with v have "v mod 2 ^ 64 = v" by (intro mod_pos_pos_trivial) auto
    with v n show ?thesis by (simp add: unpack_q_def Let_def)
  next
    case False
    with v have "(v + 2 ^ 64) mod 2 ^ 64 = v + 2 ^ 64" by (intro mod_pos_pos_trivial) auto
    then have "v mod 2 ^ 64 = v + 2 ^ 64" by simp
    with v False n show ?thesis by (simp add: unpack_q_def Let_def)
  qed
qed

section \<open>Base64\<close>

text \<open>The URL-safe alphabet: A-Z, a-z, 0-9, minus, underscore.\<close>

definition b64_char :: "nat \<Rightarrow> nat" where
  "b64_char i = (if i < 26 then 65 + i else if i < 52 then 71 + i else if i < 62 then i - 4
     else if i = 62 then 45 else 95)"

fun urlsafe_b64encode :: "nat list \<Rightarrow> nat list" where
  "urlsafe_b64encode [] = []"
| "urlsafe_b64encode [a] = [b64_char (a div 4), b64_char (a mod 4 * 16), 61, 61]"
| "urlsafe_b64encode [a, b] =
     [b64_char (a div 4), b64_char (a mod 4 * 16 + b div 16), b64_char (b mod 16 * 4), 61]"
| "urlsafe_b64encode (a # b # c # rest) =
     [b64_char (a div 4), b64_char (a mod 4 * 16 + b div 16), b64_char (b mod 16 * 4 + c div 64),
      b64_char (c mod 64)] @ urlsafe_b64encode rest"

text \<open>\<open>table_a2b_base64\<close> after \<open>translate\<close> has mapped the alternative characters onto the standard ones.\<close>

definition b64_translate :: "nat \<Rightarrow> nat" where
  "b64_translate c = (if c = 45 then 43 else if c = 95 then 47 else c)"

definition b64_value :: "nat \<Rightarrow> nat option" where
  "b64_value c = (if 65 \<le> c \<and> c \<le> 90 then Some (c - 65) else if 97 \<le> c \<and> c \<le> 122 then Some (c - 71)
     else if 48 \<le> c \<and> c \<le> 57 then Some (c + 4) else if c = 43 then Some 62 else if c = 47 then Some 63 else None)"

text \<open>
  The loop of \<open>binascii.a2b_base64\<close> in strict mode. Its state: the position in the current group of four,
  the bits left over, the padding characters counted and whether padding has started. \<open>binascii.Error\<close> is
  a \<open>ValueError\<close>.
\<close>

fun a2b_base64 :: "nat \<Rightarrow> nat \<Rightarrow> nat \<Rightarrow> bool \<Rightarrow> nat list \<Rightarrow> exn + nat list" where
  "a2b_base64 quad left pads started [] = (if quad = 0 then Inr [] else Inl ValueError)"
| "a2b_base64 quad left pads started (c # cs) =
     (if c = 61
      then if 2 \<le> quad
           then if 4 \<le> quad + (pads + 1) then (if cs = [] then Inr [] else Inl ValueError)
                else a2b_base64 quad left (pads + 1) True cs
           else a2b_base64 quad left pads True cs
      else case b64_value c of
             None \<Rightarrow> Inl ValueError
           | Some v \<Rightarrow>
               if started then Inl ValueError
               else if quad = 0 then a2b_base64 1 v 0 started cs
               else if quad = 1
                 then ebind (a2b_base64 2 (v mod 16) 0 started cs) (\<lambda>bs. Inr ((left * 4 + v div 16) # bs))
               else if quad = 2
                 then ebind (a2b_base64 3 (v mod 4) 0 started cs) (\<lambda>bs. Inr ((left * 16 + v div 4) # bs))
               else ebind (a2b_base64 0 0 0 started cs) (\<lambda>bs. Inr ((left * 64 + v) # bs)))"

text \<open>\<open>base64.b64decode(s, altchars=b"-_", validate=True)\<close> on a string.\<close>

definition b64decode :: "pystr \<Rightarrow> exn + nat list" where
  "b64decode s =
     (if \<not> list_all (\<lambda>c. c < 128) s then Inl ValueError
      else let data = map b64_translate s in
        if data \<noteq> [] \<and> hd data = 61 then Inl ValueError else a2b_base64 0 0 0 False data)"

section \<open>The cursor\<close>

definition CURSOR_VERSION :: nat where
  "CURSOR_VERSION = 1"

definition CURSOR_LENGTH :: nat where
  "CURSOR_LENGTH = 25"

text \<open>The last instant a \<open>datetime\<close> can hold: 9999-12-31T23:59:59.999999.\<close>

definition MAX_DATETIME :: instant where
  "MAX_DATETIME = 253402300799999999"

definition cursor_timestamp_microseconds :: "clock_value \<Rightarrow> exn + int" where
  "cursor_timestamp_microseconds value = aware ValueError value"

definition encode_buddy_message_cursor :: "clock_value \<Rightarrow> uuid \<Rightarrow> exn + pystr" where
  "encode_buddy_message_cursor created_at message_id =
     ebind (cursor_timestamp_microseconds created_at) (\<lambda>us.
     let raw = CURSOR_VERSION # pack_q us in
     Inr (rev (dropWhile (\<lambda>c. c = 61) (rev (urlsafe_b64encode (raw @ be_bytes 16 message_id))))))"

definition decode_buddy_message_cursor :: "pystr \<Rightarrow> exn + instant \<times> uuid" where
  "decode_buddy_message_cursor cursor =
     (let padded = cursor @ replicate ((4 - length cursor mod 4) mod 4) 61 in
      case b64decode padded of
        Inl _ \<Rightarrow> Inl (BuddyChatReadError Chat_INVALID_CURSOR)
      | Inr raw \<Rightarrow>
          if length raw \<noteq> CURSOR_LENGTH then Inl (BuddyChatReadError Chat_INVALID_CURSOR)
          else let version = hd raw; microseconds = unpack_q (take 8 (drop 1 raw)) in
            if version \<noteq> CURSOR_VERSION \<or> microseconds < 0 then Inl (BuddyChatReadError Chat_INVALID_CURSOR)
            else if MAX_DATETIME < microseconds then Inl (BuddyChatReadError Chat_INVALID_CURSOR)
            else Inr (microseconds, be_nat (drop 9 raw)))"

section \<open>Decoding inverts encoding\<close>

lemma b64_char_ascii: "b64_char i < 128"
  by (auto simp: b64_char_def)

lemma b64_char_neq [simp]: "b64_char i \<noteq> 61"
  by (auto simp: b64_char_def)

lemma b64_value_char: "i < 64 \<Longrightarrow> b64_value (b64_translate (b64_char i)) = Some i"
  by (auto simp: b64_value_def b64_translate_def b64_char_def)

lemma b64_translate_pad [simp]: "b64_translate c = 61 \<longleftrightarrow> c = 61"
  by (auto simp: b64_translate_def)

lemma a2b_encode:
  "list_all (\<lambda>b. b < 256) bs \<Longrightarrow> a2b_base64 0 0 0 False (map b64_translate (urlsafe_b64encode bs)) = Inr bs"
proof (induction bs rule: urlsafe_b64encode.induct)
  case (2 a)
  then show ?case by (simp add: b64_value_char b64_translate_def[of 61])
next
  case (3 a b)
  then have "a mod 4 * 16 + b div 16 < 64" "b mod 16 * 4 < 64" "a div 4 < 64" "b div 16 < 16" by auto
  with 3 show ?case by (simp add: b64_value_char b64_translate_def[of 61])
next
  case (4 a b c rest)
  then have "a mod 4 * 16 + b div 16 < 64" "b mod 16 * 4 + c div 64 < 64" "a div 4 < 64"
      "b div 16 < 16" "c div 64 < 4" by auto
  with 4 show ?case by (simp add: b64_value_char)
qed simp

lemma encode_padding:
  "length bs mod 3 = 1 \<Longrightarrow> \<exists>core. urlsafe_b64encode bs = core @ [61, 61] \<and> 61 \<notin> set core
     \<and> length core = 4 * (length bs div 3) + 2 \<and> core \<noteq> [] \<and> list_all (\<lambda>c. c < 128) core"
proof (induction bs rule: urlsafe_b64encode.induct)
  case (4 a b c rest)
  have "length rest mod 3 = 1" using 4(2) by (simp add: mod_Suc split: if_splits)
  with 4(1) obtain core where "urlsafe_b64encode rest = core @ [61, 61]" "61 \<notin> set core"
     "length core = 4 * (length rest div 3) + 2" "list_all (\<lambda>c. c < 128) core" by blast
  then show ?case
    by (intro exI[of _ "[b64_char (a div 4), b64_char (a mod 4 * 16 + b div 16),
          b64_char (b mod 16 * 4 + c div 64), b64_char (c mod 64)] @ core"])
       (simp add: b64_char_ascii)
qed (auto simp: b64_char_ascii)

lemma rstrip_core: "61 \<notin> set core \<Longrightarrow> rev (dropWhile (\<lambda>c. c = 61) (rev (core @ [61, 61 :: nat]))) = core"
  by (cases core rule: rev_cases) auto

text \<open>The token of a message: 34 characters of the URL-safe alphabet, and the raw bytes it decodes to.\<close>

lemma cursor_token:
  assumes "encode_buddy_message_cursor (Aware t) i = Inr token"
  shows "length token = 34 \<and> 61 \<notin> set token
     \<and> b64decode (token @ replicate ((4 - length token mod 4) mod 4) 61) = Inr (CURSOR_VERSION # pack_q t @ be_bytes 16 i)"
proof -
  let ?raw = "CURSOR_VERSION # pack_q t @ be_bytes 16 i"
  have len: "length ?raw = 25" by (simp add: pack_q_def)
  then obtain core where core: "urlsafe_b64encode ?raw = core @ [61, 61]" "61 \<notin> set core"
      "length core = 34" "core \<noteq> []" "list_all (\<lambda>c. c < 128) core"
    using encode_padding[of ?raw] by auto
  with assms have token: "token = core"
    by (simp add: encode_buddy_message_cursor_def cursor_timestamp_microseconds_def Let_def rstrip_core[OF core(2), simplified])
  have "list_all (\<lambda>b. b < 256) ?raw" by (simp add: pack_q_def be_bytes_range CURSOR_VERSION_def)
  from a2b_encode[OF this] have "a2b_base64 0 0 0 False (map b64_translate (core @ [61, 61])) = Inr ?raw"
    by (simp only: core(1))
  moreover have "b64decode (core @ [61, 61]) = a2b_base64 0 0 0 False (map b64_translate (core @ [61, 61]))"
  proof -
    have "hd (map b64_translate (core @ [61, 61])) \<noteq> 61" using core(2,4) by (cases core) auto
    moreover have "list_all (\<lambda>c. c < 128) (core @ [61, 61])" using core(5) by simp
    ultimately show ?thesis unfolding b64decode_def Let_def by (simp only: simp_thms if_True if_False)
  qed
  moreover have "token @ replicate ((4 - length token mod 4) mod 4) 61 = core @ [61, 61]"
  proof -
    have "(4 - length token mod 4) mod 4 = 2" by (simp add: token core(3))
    then have "replicate ((4 - length token mod 4) mod 4) 61 = [61, 61 :: nat]" by (simp add: numeral_2_eq_2)
    then show ?thesis by (simp only: token)
  qed
  ultimately show ?thesis using core(2,3) unfolding token by simp
qed

lemma cursor_roundtrip_raw:
  assumes "0 \<le> t" "t \<le> MAX_DATETIME" "i < 2 ^ 128"
  shows "\<exists>token. encode_buddy_message_cursor (Aware t) i = Inr token \<and> length token = 34 \<and> 61 \<notin> set token
     \<and> decode_buddy_message_cursor token = Inr (t, i)"
proof -
  obtain token where token: "encode_buddy_message_cursor (Aware t) i = Inr token"
    by (simp add: encode_buddy_message_cursor_def cursor_timestamp_microseconds_def Let_def)
  from cursor_token[OF token] have facts: "length token = 34" "61 \<notin> set token"
     "b64decode (token @ replicate ((4 - length token mod 4) mod 4) 61) = Inr (CURSOR_VERSION # pack_q t @ be_bytes 16 i)"
    by auto
  have "unpack_q (pack_q t) = t"
    by (rule unpack_pack_q) (use assms(1,2) in \<open>auto simp: MAX_DATETIME_def\<close>)
  moreover have "be_nat (be_bytes 16 i) = i" by (rule be_nat_bytes) (use assms(3) in simp)
  moreover have "length (pack_q t) = 8" by (simp add: pack_q_def)
  ultimately have "decode_buddy_message_cursor token = Inr (t, i)"
    using assms(1,2) by (simp add: decode_buddy_message_cursor_def facts(3) Let_def CURSOR_LENGTH_def)
  with token facts show ?thesis by blast
qed

text \<open>A cursor decodes to exactly the position it was issued for: for every creation time a datetime can hold from
  1970 on and every 128-bit message id, encoding succeeds, gives 34 URL-safe characters without padding, and decoding
  returns the same pair, so the cursors of two positions are different.\<close>

theorem cursor_roundtrip:
  assumes "0 \<le> t" "t \<le> MAX_DATETIME" "i < 2 ^ 128"
  shows "\<exists>token. encode_buddy_message_cursor (Aware t) i = Inr token \<and> length token = 34 \<and> 61 \<notin> set token
     \<and> decode_buddy_message_cursor token = Inr (t, i)"
  using assms by (rule cursor_roundtrip_raw)

theorem cursor_roundtrip_witness:
  "\<exists>token. encode_buddy_message_cursor (Aware 1700000000000000) 42 = Inr token
     \<and> decode_buddy_message_cursor token = Inr (1700000000000000, 42)"
  using cursor_roundtrip[of 1700000000000000 42] by (auto simp: MAX_DATETIME_def)

section \<open>What decodes\<close>

lemma b64_value_range: "b64_value c = Some v \<Longrightarrow> v < 64"
  by (auto simp: b64_value_def split: if_split_asm)

lemma a2b_range:
  "a2b_base64 quad left pads started cs = Inr bs \<Longrightarrow> (quad = 1 \<longrightarrow> left < 64) \<Longrightarrow> (quad = 2 \<longrightarrow> left < 16) \<Longrightarrow>
     (quad \<noteq> 0 \<longrightarrow> quad \<noteq> 1 \<longrightarrow> quad \<noteq> 2 \<longrightarrow> left < 4) \<Longrightarrow> list_all (\<lambda>b. b < 256) bs"
proof (induction quad left pads started cs arbitrary: bs rule: a2b_base64.induct)
  case (2 quad left pads started c cs)
  show ?case
  proof (cases "c = 61")
    case True
    with 2 show ?thesis by (auto split: if_split_asm)
  next
    case False
    with "2.prems"(1) obtain v where v: "b64_value c = Some v" "\<not> started" by (auto split: option.split_asm if_split_asm)
    note lt = b64_value_range[OF v(1)]
    have d: "v div 16 < 4" "v div 4 < 16" "v mod 16 < 16" "v mod 4 < 4" using lt by auto
    consider "quad = 0" | "quad = 1" | "quad = 2" | "quad \<noteq> 0" "quad \<noteq> 1" "quad \<noteq> 2" by blast
    then show ?thesis
    proof cases
      case 1
      with "2.prems"(1) False v lt "2.IH"(3)[OF False v(1,2) 1] show ?thesis by simp
    next
      case q: 2
      with "2.prems" False v obtain bs' where "a2b_base64 2 (v mod 16) 0 started cs = Inr bs'"
          "bs = (left * 4 + v div 16) # bs'" by (auto simp: ebind_Inr_iff)
      with "2.IH"(4)[OF False v(1,2) _ q] q "2.prems"(2) d show ?thesis by simp
    next
      case q: 3
      with "2.prems" False v obtain bs' where "a2b_base64 3 (v mod 4) 0 started cs = Inr bs'"
          "bs = (left * 16 + v div 4) # bs'" by (auto simp: ebind_Inr_iff)
      with "2.IH"(5)[OF False v(1,2) _ _ q] q "2.prems"(3) d show ?thesis by simp
    next
      case q: 4
      with "2.prems" False v obtain bs' where "a2b_base64 0 0 0 started cs = Inr bs'"
          "bs = (left * 64 + v) # bs'" by (auto simp: ebind_Inr_iff)
      with "2.IH"(6)[OF False v(1,2) q] q "2.prems"(4) lt show ?thesis by simp
    qed
  qed
qed (auto split: if_split_asm)

lemma b64decode_range: "b64decode s = Inr bs \<Longrightarrow> list_all (\<lambda>b. b < 256) bs"
  by (auto simp: b64decode_def Let_def split: if_split_asm dest: a2b_range)

lemma decode_error: "decode_buddy_message_cursor s = Inl e \<Longrightarrow> e = BuddyChatReadError Chat_INVALID_CURSOR"
  by (auto simp: decode_buddy_message_cursor_def Let_def split: sum.split_asm if_split_asm)

text \<open>Decoding is total and safe on arbitrary client input: either the one sanitized error, or a position an aware
  datetime and a UUID can hold, for which the canonical cursor exists and decodes to the same position.\<close>

theorem decode_is_safe:
  "case decode_buddy_message_cursor s of
     Inl e \<Rightarrow> e = BuddyChatReadError Chat_INVALID_CURSOR
   | Inr (t, i) \<Rightarrow> 0 \<le> t \<and> t \<le> MAX_DATETIME \<and> i < 2 ^ 128
       \<and> (\<exists>token. encode_buddy_message_cursor (Aware t) i = Inr token
            \<and> decode_buddy_message_cursor token = decode_buddy_message_cursor s)"
proof (cases "decode_buddy_message_cursor s")
  case (Inl e)
  with decode_error[of s e] show ?thesis by simp
next
  case (Inr p)
  obtain t i where p: "p = (t, i)" by fastforce
  from Inr p obtain raw where raw: "b64decode (s @ replicate ((4 - length s mod 4) mod 4) 61) = Inr raw"
      "length raw = CURSOR_LENGTH" "i = be_nat (drop 9 raw)" "0 \<le> t" "t \<le> MAX_DATETIME"
    by (auto simp: decode_buddy_message_cursor_def Let_def split: sum.split_asm if_split_asm)
  from b64decode_range[OF raw(1)] have "list_all (\<lambda>b. b < 256) (drop 9 raw)"
    by (auto simp: list_all_iff dest: in_set_dropD)
  then have "i < 256 ^ 16"
    using be_nat_less[of "drop 9 raw"] by (simp add: raw(2,3) CURSOR_LENGTH_def)
  then have i: "i < 2 ^ 128" by simp
  from cursor_roundtrip_raw[OF raw(4,5) i] show ?thesis using Inr p raw(4,5) i by auto
qed

lemma be_bytes_numeral: "be_bytes (numeral v) n = be_bytes (pred_numeral v) (n div 256) @ [n mod 256]"
  using be_bytes.simps(2)[of "pred_numeral v" n] by (simp only: numeral_eq_Suc[of v, symmetric])

lemma replicate_two: "replicate 2 x = [x, x]"
  by (simp add: numeral_2_eq_2)

lemma encode_unfold:
  "encode_buddy_message_cursor (Aware t) i =
     Inr (rev (dropWhile (\<lambda>c. c = 61) (rev (urlsafe_b64encode (CURSOR_VERSION # pack_q t @ be_bytes 16 i)))))"
  by (simp add: encode_buddy_message_cursor_def cursor_timestamp_microseconds_def Let_def)

lemmas token_simps = decode_buddy_message_cursor_def b64decode_def b64_translate_def b64_value_def unpack_q_def
  be_nat_def CURSOR_LENGTH_def CURSOR_VERSION_def MAX_DATETIME_def Let_def replicate_two

text \<open>Decoding also accepts tokens that were never issued: the unused low bits of the last character, the standard
  alphabet and explicit padding are ignored, so a token that differs from every issued one names the same position.\<close>

theorem cursor_not_canonical:
  "encode_buddy_message_cursor (Aware 0) 0 = Inr (u ''AQAAAAAAAAAAAAAAAAAAAAAAAAAAAAAAAA'')
     \<and> decode_buddy_message_cursor (u ''AQAAAAAAAAAAAAAAAAAAAAAAAAAAAAAAAB'') = Inr (0, 0)
     \<and> decode_buddy_message_cursor (u ''AQAAAAAAAAAAAAAAAAAAAAAAAAAAAAAAAA=='') = Inr (0, 0)"
proof -
  have "encode_buddy_message_cursor (Aware 0) 0 = Inr (u ''AQAAAAAAAAAAAAAAAAAAAAAAAAAAAAAAAA'')"
  proof -
    have "pack_q 0 = [0, 0, 0, 0, 0, 0, 0, 0]" by (simp add: pack_q_def be_bytes_numeral)
    moreover have "be_bytes 16 0 = [0, 0, 0, 0, 0, 0, 0, 0, 0, 0, 0, 0, 0, 0, 0, 0]" by (simp add: be_bytes_numeral)
    ultimately show ?thesis by (simp add: encode_unfold b64_char_def CURSOR_VERSION_def u_def)
  qed
  moreover have "decode_buddy_message_cursor (u ''AQAAAAAAAAAAAAAAAAAAAAAAAAAAAAAAAB'') = Inr (0, 0)"
    by (simp add: token_simps u_def)
  moreover have "decode_buddy_message_cursor (u ''AQAAAAAAAAAAAAAAAAAAAAAAAAAAAAAAAA=='') = Inr (0, 0)"
    by (simp add: token_simps u_def)
  ultimately show ?thesis by blast
qed

end
