(* ===== verification/Sha256.thy ===== *)
theory Sha256
  imports Chat_Cursor "HOL-Library.Word"
begin

text \<open>
  \<open>hashlib.sha256\<close> and \<open>hmac.digest(key, message, hashlib.sha256)\<close> of the Python standard library, as FIPS 180-4 and
  RFC 2104 define them, on 32-bit words. The code uses them for verification-token digests and CSRF signatures.
\<close>

unbundle bit_operations_syntax

definition sha256_constants :: "32 word list" where
  "sha256_constants =
    [1116352408, 1899447441, 3049323471, 3921009573, 961987163, 1508970993, 2453635748, 2870763221,
     3624381080, 310598401, 607225278, 1426881987, 1925078388, 2162078206, 2614888103, 3248222580,
     3835390401, 4022224774, 264347078, 604807628, 770255983, 1249150122, 1555081692, 1996064986,
     2554220882, 2821834349, 2952996808, 3210313671, 3336571891, 3584528711, 113926993, 338241895,
     666307205, 773529912, 1294757372, 1396182291, 1695183700, 1986661051, 2177026350, 2456956037,
     2730485921, 2820302411, 3259730800, 3345764771, 3516065817, 3600352804, 4094571909, 275423344,
     430227734, 506948616, 659060556, 883997877, 958139571, 1322822218, 1537002063, 1747873779,
     1955562222, 2024104815, 2227730452, 2361852424, 2428436474, 2756734187, 3204031479, 3329325298]"

definition sha256_initial :: "32 word list" where
  "sha256_initial = [1779033703, 3144134277, 1013904242, 2773480762, 1359893119, 2600822924, 528734635, 1541459225]"

definition sha_choice :: "32 word \<Rightarrow> 32 word \<Rightarrow> 32 word \<Rightarrow> 32 word" where
  "sha_choice x y z = (x AND y) XOR (NOT x AND z)"

definition majority :: "32 word \<Rightarrow> 32 word \<Rightarrow> 32 word \<Rightarrow> 32 word" where
  "majority x y z = (x AND y) XOR (x AND z) XOR (y AND z)"

definition rotr :: "nat \<Rightarrow> 32 word \<Rightarrow> 32 word" where
  "rotr n x = drop_bit n x OR push_bit (32 - n) x"

definition big_sigma0 :: "32 word \<Rightarrow> 32 word" where
  "big_sigma0 x = rotr 2 x XOR rotr 13 x XOR rotr 22 x"

definition big_sigma1 :: "32 word \<Rightarrow> 32 word" where
  "big_sigma1 x = rotr 6 x XOR rotr 11 x XOR rotr 25 x"

definition small_sigma0 :: "32 word \<Rightarrow> 32 word" where
  "small_sigma0 x = rotr 7 x XOR rotr 18 x XOR drop_bit 3 x"

definition small_sigma1 :: "32 word \<Rightarrow> 32 word" where
  "small_sigma1 x = rotr 17 x XOR rotr 19 x XOR drop_bit 10 x"

text \<open>The message schedule, newest word first.\<close>

fun schedule :: "nat \<Rightarrow> 32 word list \<Rightarrow> 32 word list" where
  "schedule 0 ws = ws"
| "schedule (Suc n) ws =
     schedule n ((small_sigma1 (ws ! 1) + ws ! 6 + small_sigma0 (ws ! 14) + ws ! 15) # ws)"

definition sha256_round :: "32 word \<times> 32 word \<Rightarrow> 32 word list \<Rightarrow> 32 word list" where
  "sha256_round kw st =
     (case st of
        [a, b, c, d, e, f, g, h] \<Rightarrow>
          (let t1 = h + big_sigma1 e + sha_choice e f g + fst kw + snd kw; t2 = big_sigma0 a + majority a b c
           in [t1 + t2, a, b, c, d + t1, e, f, g])
      | _ \<Rightarrow> st)"

definition word_of_bytes :: "nat list \<Rightarrow> 32 word" where
  "word_of_bytes bs = of_nat (be_nat bs)"

fun chunks :: "nat \<Rightarrow> nat \<Rightarrow> 'a list \<Rightarrow> 'a list list" where
  "chunks 0 k xs = []"
| "chunks (Suc n) k xs = take k xs # chunks n k (drop k xs)"

definition sha256_compress :: "32 word list \<Rightarrow> nat list \<Rightarrow> 32 word list" where
  "sha256_compress st block =
     (let ws = rev (schedule 48 (rev (map word_of_bytes (chunks 16 4 block))))
      in map2 (+) st (fold sha256_round (zip sha256_constants ws) st))"

definition sha256_pad :: "nat list \<Rightarrow> nat list" where
  "sha256_pad m = m @ [128] @ replicate ((119 - length m mod 64) mod 64) 0 @ be_bytes 8 (8 * length m)"

definition sha256 :: "nat list \<Rightarrow> nat list" where
  "sha256 m =
     (let p = sha256_pad m
      in concat (map (\<lambda>w. be_bytes 4 (unat w)) (foldl sha256_compress sha256_initial (chunks (length p div 64) 64 p))))"

definition hmac_sha256 :: "nat list \<Rightarrow> nat list \<Rightarrow> nat list" where
  "hmac_sha256 key message =
     (let k = (if 64 < length key then sha256 key else key); block = k @ replicate (64 - length k) 0;
          xor_with = (\<lambda>c. map (\<lambda>b. unat ((of_nat b :: 8 word) XOR c)) block)
      in sha256 (xor_with 92 @ sha256 (xor_with 54 @ message)))"

text \<open>A digest is 32 bytes.\<close>

lemma length_sha256_round [simp]: "length (sha256_round kw st) = length st"
  by (auto simp: sha256_round_def Let_def split: list.split)

lemma length_fold_rounds [simp]: "length (fold sha256_round kws st) = length st"
  by (induction kws arbitrary: st) auto

lemma length_compress [simp]: "length (sha256_compress st block) = length st"
  by (simp add: sha256_compress_def Let_def)

lemma length_sha256 [simp]: "length (sha256 m) = 32"
proof -
  have "length (foldl sha256_compress st bs) = length st" for st bs
    by (induction bs arbitrary: st) auto
  moreover have "length (concat (map (\<lambda>w. be_bytes 4 (unat (w :: 32 word))) ws)) = 4 * length ws" for ws
    by (induction ws) auto
  ultimately show ?thesis by (simp add: sha256_def Let_def sha256_initial_def)
qed

lemma sha256_bytes: "list_all (\<lambda>b. b < 256) (sha256 m)"
  using be_bytes_range by (auto simp: sha256_def Let_def list_all_iff)

lemma length_hmac_sha256 [simp]: "length (hmac_sha256 key m) = 32"
  by (simp add: hmac_sha256_def Let_def)

lemma hmac_sha256_bytes: "list_all (\<lambda>b. b < 256) (hmac_sha256 key m)"
  by (simp add: hmac_sha256_def Let_def sha256_bytes)

end
