(* ===== verification/Email_Verification.thy ===== *)
theory Email_Verification
  imports Sha256 Refresh_Sessions
begin

text \<open>
  E-mail verification (\<open>services/email_verification.py\<close>, \<open>email_verification_requests.py\<close>, \<open>email_changes.py\<close>): issuing
  a token, its one-use consumption, the sealed e-mail event and the replacement of an address, with the endpoints
  that commit them. The random bytes, the AES-GCM cipher of the cryptography package and the clock readings are
  arguments; \<open>others\<close> is what concurrent transactions commit while a call waits for the lock of the user row.
\<close>

section \<open>Tokens\<close>

definition EMAIL_VERIFICATION_TOKEN_BYTES :: nat where "EMAIL_VERIFICATION_TOKEN_BYTES = 32"
definition EMAIL_VERIFICATION_TOKEN_TTL :: int where "EMAIL_VERIFICATION_TOKEN_TTL = 15 * 60 * 1000000"
definition ENCODED_TOKEN_LENGTH :: nat where "ENCODED_TOKEN_LENGTH = 43"

definition DIGEST_PURPOSE :: "nat list" where
  "DIGEST_PURPOSE = u ''vgu-buddy-email-verification-token-v1'' @ [0]"

definition base64url_encode :: "nat list \<Rightarrow> pystr" where
  "base64url_encode value = rev (dropWhile (\<lambda>c. c = 61) (rev (urlsafe_b64encode value)))"

definition base64url_character :: "nat \<Rightarrow> bool" where
  "base64url_character c \<longleftrightarrow> ascii_alnum c \<or> c = 45 \<or> c = 95"

definition pad_base64 :: "pystr \<Rightarrow> pystr" where
  "pad_base64 s = s @ replicate ((4 - length s mod 4) mod 4) 61"

definition decode_verification_token :: "pystr \<Rightarrow> exn + nat list" where
  "decode_verification_token token =
     (if length token \<noteq> ENCODED_TOKEN_LENGTH \<or> \<not> list_all base64url_character token
      then Inl EmailVerificationTokenError
      else case b64decode (pad_base64 token) of
             Inl _ \<Rightarrow> Inl EmailVerificationTokenError
           | Inr decoded \<Rightarrow>
               if length decoded \<noteq> EMAIL_VERIFICATION_TOKEN_BYTES \<or> base64url_encode decoded \<noteq> token
               then Inl EmailVerificationTokenError else Inr decoded)"

definition digest_random_bytes :: "nat list \<Rightarrow> nat list" where
  "digest_random_bytes random_bytes = sha256 (DIGEST_PURPOSE @ random_bytes)"

definition digest_email_verification_token :: "pystr \<Rightarrow> exn + nat list" where
  "digest_email_verification_token token =
     ebind (decode_verification_token token) (\<lambda>b. Inr (digest_random_bytes b))"

section \<open>Issue, consume, confirm\<close>

record issued_email_verification_token =
  iev_token_id :: uuid
  iev_token :: pystr
  iev_expires_at :: instant

record consumed_email_verification_token =
  cev_user_id :: uuid
  cev_email_snapshot :: pystr
  cev_consumed_at :: instant

record confirmed_email_verification =
  cfv_user_id :: uuid
  cfv_email_verified_at :: instant

definition lock_current_user :: "uuid \<Rightarrow> (exn, account_db, user) txn" where
  "lock_current_user user_id =
     bind_tx (query_tx (account_by_id user_id)) (\<lambda>found.
     case found of
       None \<Rightarrow> raise_tx EmailVerificationTokenError
     | Some account \<Rightarrow>
         if \<not> usr_is_active account \<or> usr_deleted_at account \<noteq> None then raise_tx EmailVerificationTokenError
         else return_tx account)"

definition active_token_of :: "uuid \<Rightarrow> account_db \<Rightarrow> email_verification_token option" where
  "active_token_of user_id s = find (\<lambda>x. evt_user_id x = user_id \<and> active_token x) (acc_tokens s)"

definition new_token ::
    "uuid \<Rightarrow> user \<Rightarrow> nat list \<Rightarrow> instant \<Rightarrow> email_verification_token" where
  "new_token fresh account entropy current_time =
     \<lparr>evt_id = fresh, evt_user_id = usr_id account, evt_token_digest = digest_random_bytes entropy,
      evt_email_snapshot = usr_email account, evt_expires_at = current_time + EMAIL_VERIFICATION_TOKEN_TTL,
      evt_consumed_at = None, evt_superseded_at = None, evt_created_at = current_time,
      evt_updated_at = current_time, evt_deleted_at = None\<rparr>"

text \<open>The flush writes the \<open>UPDATE\<close> of the superseded token before the \<open>INSERT\<close> of the new one.\<close>

definition issue_email_verification_token ::
    "uuid \<Rightarrow> nat list \<Rightarrow> uuid \<Rightarrow> clock_value \<Rightarrow> (exn, account_db, issued_email_verification_token) txn" where
  "issue_email_verification_token fresh entropy user_id clock =
     bind_tx (lock_current_user user_id) (\<lambda>account.
     bind_tx (query_tx (active_token_of (usr_id account))) (\<lambda>current_token.
     bind_tx (require_tx (length entropy = EMAIL_VERIFICATION_TOKEN_BYTES) ValueError) (\<lambda>_.
     bind_tx (lift_tx (aware ValueError clock)) (\<lambda>current_time.
     bind_tx (case current_token of
                None \<Rightarrow> return_tx ()
              | Some row \<Rightarrow> bind_tx (flush_token (row\<lparr>evt_superseded_at := Some current_time\<rparr>)) (\<lambda>_. return_tx ())) (\<lambda>_.
     bind_tx (insert_token (new_token fresh account entropy current_time)) (\<lambda>_.
     return_tx \<lparr>iev_token_id = fresh, iev_token = base64url_encode entropy,
       iev_expires_at = current_time + EMAIL_VERIFICATION_TOKEN_TTL\<rparr>))))))"

definition token_by_digest :: "nat list \<Rightarrow> account_db \<Rightarrow> email_verification_token option" where
  "token_by_digest d s = find (\<lambda>x. evt_token_digest x = d) (acc_tokens s)"

definition token_by_id :: "uuid \<Rightarrow> account_db \<Rightarrow> email_verification_token option" where
  "token_by_id i s = find (\<lambda>x. evt_id x = i) (acc_tokens s)"

definition consume_email_verification_token ::
    "(account_db \<Rightarrow> account_db) \<Rightarrow> pystr \<Rightarrow> clock_value \<Rightarrow> (exn, account_db, consumed_email_verification_token) txn" where
  "consume_email_verification_token others token clock =
     bind_tx (lift_tx (digest_email_verification_token token)) (\<lambda>token_digest.
     bind_tx (query_tx (token_by_digest token_digest)) (\<lambda>candidate.
     case candidate of
       None \<Rightarrow> raise_tx EmailVerificationTokenError
     | Some unlocked \<Rightarrow>
         bind_tx (\<lambda>s. (Inr (), others s)) (\<lambda>_.
         bind_tx (lock_current_user (evt_user_id unlocked)) (\<lambda>account.
         bind_tx (query_tx (token_by_id (evt_id unlocked))) (\<lambda>stored.
         bind_tx (lift_tx (aware ValueError clock)) (\<lambda>current_time.
         case stored of
           None \<Rightarrow> raise_tx EmailVerificationTokenError
         | Some row \<Rightarrow>
             if evt_token_digest row \<noteq> token_digest \<or> evt_user_id row \<noteq> usr_id account
                \<or> evt_deleted_at row \<noteq> None \<or> evt_consumed_at row \<noteq> None \<or> evt_superseded_at row \<noteq> None
                \<or> evt_expires_at row \<le> current_time \<or> evt_email_snapshot row \<noteq> usr_email account
             then raise_tx EmailVerificationTokenError
             else bind_tx (flush_token (row\<lparr>evt_consumed_at := Some current_time\<rparr>)) (\<lambda>_.
                  return_tx \<lparr>cev_user_id = usr_id account, cev_email_snapshot = evt_email_snapshot row,
                    cev_consumed_at = current_time\<rparr>)))))))"

definition confirm_email_verification_token ::
    "(account_db \<Rightarrow> account_db) \<Rightarrow> pystr \<Rightarrow> uuid \<Rightarrow> clock_value
       \<Rightarrow> (exn, account_db, confirmed_email_verification) txn" where
  "confirm_email_verification_token others token expected_user_id clock =
     bind_tx (consume_email_verification_token others token clock) (\<lambda>consumed.
     bind_tx (require_tx (cev_user_id consumed = expected_user_id) EmailVerificationTokenError) (\<lambda>_.
     bind_tx (query_tx (account_by_id (cev_user_id consumed))) (\<lambda>found.
     case found of
       None \<Rightarrow> raise_tx EmailVerificationTokenError
     | Some account \<Rightarrow>
         if usr_role account \<noteq> USER \<or> \<not> usr_is_active account \<or> usr_deleted_at account \<noteq> None
            \<or> usr_email account \<noteq> cev_email_snapshot consumed \<or> usr_email_verified_at account \<noteq> None
         then raise_tx EmailVerificationTokenError
         else bind_tx (flush_user (account\<lparr>usr_email_verified_at := Some (cev_consumed_at consumed)\<rparr>)) (\<lambda>_.
              return_tx \<lparr>cfv_user_id = usr_id account, cfv_email_verified_at = cev_consumed_at consumed\<rparr>))))"

section \<open>The sealed delivery event\<close>

definition EMAIL_VERIFICATION_REQUESTED :: pystr where
  "EMAIL_VERIFICATION_REQUESTED = u ''EMAIL_VERIFICATION_REQUESTED''"

definition SEALING_AAD :: "nat list" where
  "SEALING_AAD = u ''vgu-buddy-email-verification-delivery-v1''"

text \<open>\<open>AESGCM(key).encrypt(nonce, data, aad)\<close>.\<close>

type_synonym aesgcm = "nat list \<Rightarrow> nat list \<Rightarrow> nat list \<Rightarrow> nat list \<Rightarrow> nat list"

text \<open>\<open>datetime.isoformat()\<close> of an aware UTC instant.\<close>

definition iso_datetime :: "instant \<Rightarrow> pystr" where
  "iso_datetime t =
     (let d = t div day_us; us = t mod day_us; secs = us div second_us; frac = us mod second_us in
      iso_date d @ [84] @ decimal_digits 2 (secs div 3600) @ [58] @ decimal_digits 2 (secs div 60 mod 60)
        @ [58] @ decimal_digits 2 (secs mod 60)
        @ (if frac = 0 then [] else [46] @ decimal_digits 6 frac) @ u ''+00:00'')"

definition seal_email_verification_token ::
    "aesgcm \<Rightarrow> nat list \<Rightarrow> nat list \<Rightarrow> pystr \<Rightarrow> clock_value \<Rightarrow> exn + (pyval \<times> pyval) list" where
  "seal_email_verification_token aes sealing_key nonce token expires_at =
     ebind (digest_email_verification_token token) (\<lambda>_.
     ebind (aware ValueError expires_at) (\<lambda>expiry.
     if length nonce \<noteq> 12 then Inl ValueError
     else Inr [(PyStr (u ''version''), PyInt 1),
               (PyStr (u ''nonce''), PyStr (base64url_encode nonce)),
               (PyStr (u ''sealed_value''), PyStr (base64url_encode (aes sealing_key nonce token SEALING_AAD))),
               (PyStr (u ''expires_at''), PyStr (iso_datetime expiry))]))"

text \<open>A service of the Buddy database inside an account transaction.\<close>

definition on_db :: "(exn, database, 'a) txn \<Rightarrow> (exn, account_db, 'a) txn" where
  "on_db m s = (case m (acc_db s) of (r, db') \<Rightarrow> (r, s\<lparr>acc_db := db'\<rparr>))"

text \<open>What one request draws: two row identifiers, the entropy, the nonce and the two clock readings.\<close>

record verification_draws =
  vd_token_id :: uuid
  vd_event_id :: uuid
  vd_entropy :: "nat list"
  vd_nonce :: "nat list"
  vd_issue_clock :: clock_value
  vd_enqueue_clock :: clock_value

definition request_email_verification ::
    "aesgcm \<Rightarrow> nat list \<Rightarrow> verification_draws \<Rightarrow> uuid \<Rightarrow> (exn, account_db, bool) txn" where
  "request_email_verification aes sealing_key draws user_id =
     bind_tx (query_tx (account_by_id user_id)) (\<lambda>found.
     case found of
       None \<Rightarrow> raise_tx EmailVerificationRequestError
     | Some account \<Rightarrow>
         if usr_role account \<noteq> USER \<or> \<not> usr_is_active account \<or> usr_deleted_at account \<noteq> None
         then raise_tx EmailVerificationRequestError
         else if is_current_email_verified account then return_tx False
         else
           bind_tx (issue_email_verification_token (vd_token_id draws) (vd_entropy draws) (usr_id account)
                      (vd_issue_clock draws)) (\<lambda>issued.
           bind_tx (lift_tx (seal_email_verification_token aes sealing_key (vd_nonce draws) (iev_token issued)
                      (Aware (iev_expires_at issued)))) (\<lambda>payload.
           bind_tx (on_db (enqueue_transactional_email (vd_event_id draws) EMAIL_VERIFICATION_REQUESTED
                      (iev_token_id issued) (Some (usr_id account)) (usr_email account)
                      (EMAIL_VERIFICATION_REQUESTED @ [47] @ uuid_str (iev_token_id issued)) payload
                      (vd_enqueue_clock draws))) (\<lambda>_.
           return_tx True))))"

section \<open>Replacing the address\<close>

definition change_current_user_email ::
    "bcrypt_lib \<Rightarrow> aesgcm \<Rightarrow> nat list \<Rightarrow> verification_draws \<Rightarrow> uuid \<Rightarrow> pystr \<Rightarrow> pystr
       \<Rightarrow> (exn, account_db, user) txn" where
  "change_current_user_email bc aes sealing_key draws user_id new_email current_password =
     bind_tx (rethrow_tx (\<lambda>e. if e = EmailValidationError then EmailChangeConflictError else e)
                (lift_tx (canonicalize_email new_email))) (\<lambda>canonical_email.
     bind_tx (query_tx (account_by_id user_id)) (\<lambda>found.
     case found of
       None \<Rightarrow> raise_tx EmailChangeAuthenticationError
     | Some account \<Rightarrow>
         if usr_role account \<noteq> USER \<or> \<not> usr_is_active account \<or> usr_deleted_at account \<noteq> None
         then raise_tx EmailChangeAuthenticationError
         else if \<not> verify_password bc current_password (usr_password_hash account)
         then raise_tx EmailChangePasswordError
         else if usr_email account = canonical_email then raise_tx EmailChangeConflictError
         else
           bind_tx (rethrow_tx (unique_as EmailChangeConflictError)
             (flush_user (account\<lparr>usr_email := canonical_email, usr_email_verified_at := None\<rparr>))) (\<lambda>changed.
           bind_tx (rethrow_tx (\<lambda>e. if e = EmailVerificationRequestError then EmailChangeAuthenticationError else e)
             (request_email_verification aes sealing_key draws (usr_id account))) (\<lambda>_.
           return_tx changed))))"

section \<open>The endpoints\<close>

definition sqlalchemy_error :: "exn \<Rightarrow> bool" where
  "sqlalchemy_error e = (case e of IntegrityError _ \<Rightarrow> True | DatabaseError \<Rightarrow> True | _ \<Rightarrow> False)"

definition change_email_status :: "exn \<Rightarrow> exn" where
  "change_email_status e =
     (if e = EmailChangeAuthenticationError then HTTPException 401
      else if e = EmailChangePasswordError then HTTPException 400
      else if e = EmailChangeConflictError then HTTPException 409
      else if sqlalchemy_error e then HTTPException 503 else e)"

definition change_current_email ::
    "bcrypt_lib \<Rightarrow> aesgcm \<Rightarrow> nat list \<Rightarrow> verification_draws \<Rightarrow> uuid \<Rightarrow> pystr \<Rightarrow> pystr
       \<Rightarrow> (exn, account_db, user) txn" where
  "change_current_email bc aes sealing_key draws current_user new_email current_password =
     rethrow_tx change_email_status
       (atomic_tx (change_current_user_email bc aes sealing_key draws current_user new_email current_password))"

definition request_current_email_verification ::
    "aesgcm \<Rightarrow> nat list \<Rightarrow> verification_draws \<Rightarrow> uuid \<Rightarrow> (exn, account_db, unit) txn" where
  "request_current_email_verification aes sealing_key draws current_user =
     bind_tx (rethrow_tx (\<lambda>e. if e = EmailVerificationRequestError then HTTPException 401
          else if sqlalchemy_error e then HTTPException 503 else e)
       (atomic_tx (request_email_verification aes sealing_key draws current_user))) (\<lambda>_. return_tx ())"

definition confirm_current_email_verification ::
    "(account_db \<Rightarrow> account_db) \<Rightarrow> pystr \<Rightarrow> uuid \<Rightarrow> clock_value \<Rightarrow> (exn, account_db, unit) txn" where
  "confirm_current_email_verification others token current_user clock s =
     (case confirm_email_verification_token others token current_user clock s of
        (Inr _, s') \<Rightarrow> (Inr (), s')
      | (Inl e, _) \<Rightarrow>
          let rolled_back = (case digest_email_verification_token token of
                 Inl _ \<Rightarrow> s | Inr d \<Rightarrow> if token_by_digest d s = None then s else others s) in
          (Inl (if e = EmailVerificationTokenError then HTTPException 400
                else if sqlalchemy_error e then HTTPException 503 else e), rolled_back))"

section \<open>A token text names its random bytes\<close>

lemma b64_char_url: "base64url_character (b64_char i)"
  by (auto simp: base64url_character_def b64_char_def ascii_alnum_def ascii_upper_def ascii_lower_def ascii_digit_def)

lemma encode_ascii: "list_all (\<lambda>c. c < 128) (urlsafe_b64encode bs)"
  by (induction bs rule: urlsafe_b64encode.induct) (simp_all add: b64_char_ascii)

lemma b64decode_encode: "list_all (\<lambda>b. b < 256) bs \<Longrightarrow> b64decode (urlsafe_b64encode bs) = Inr bs"
proof -
  assume bs: "list_all (\<lambda>b. b < 256) bs"
  have "map b64_translate (urlsafe_b64encode bs) = [] \<or> hd (map b64_translate (urlsafe_b64encode bs)) \<noteq> 61"
    by (cases bs rule: urlsafe_b64encode.cases) simp_all
  then show ?thesis using a2b_encode[OF bs] encode_ascii[of bs] by (auto simp: b64decode_def Let_def)
qed

lemma encode_one_pad:
  "length bs mod 3 = 2 \<Longrightarrow> \<exists>core. urlsafe_b64encode bs = core @ [61] \<and> length core = 4 * (length bs div 3) + 3
     \<and> list_all base64url_character core"
proof (induction bs rule: urlsafe_b64encode.induct)
  case (4 a b c rest)
  have "length rest mod 3 = 2" using 4(2) by (simp add: mod_Suc split: if_splits)
  with 4(1) obtain core where "urlsafe_b64encode rest = core @ [61]"
     "length core = 4 * (length rest div 3) + 3" "list_all base64url_character core" by blast
  then show ?case
    by (intro exI[of _ "[b64_char (a div 4), b64_char (a mod 4 * 16 + b div 16),
          b64_char (b mod 16 * 4 + c div 64), b64_char (c mod 64)] @ core"]) (simp add: b64_char_url)
qed (auto simp: b64_char_url)

lemma decode_encoded_token:
  assumes "length e = EMAIL_VERIFICATION_TOKEN_BYTES" "list_all (\<lambda>b. b < 256) e"
  shows "decode_verification_token (base64url_encode e) = Inr e"
proof -
  have len: "length e = 32" using assms(1) by (simp add: EMAIL_VERIFICATION_TOKEN_BYTES_def)
  then obtain core where core: "urlsafe_b64encode e = core @ [61]" "length core = 43" "list_all base64url_character core"
    using encode_one_pad[of e] by auto
  have "core \<noteq> []" using core(2) by auto
  moreover from core(3) this have "base64url_character (last core)" by (simp add: list_all_iff)
  then have "last core \<noteq> 61"
    by (auto simp: base64url_character_def ascii_alnum_def ascii_upper_def ascii_lower_def ascii_digit_def)
  ultimately have enc: "base64url_encode e = core"
    unfolding base64url_encode_def core(1) by (cases core rule: rev_cases) auto
  have "replicate ((4 - length core mod 4) mod 4) 61 = [61 :: nat]" by (simp add: core(2))
  then have "pad_base64 core = urlsafe_b64encode e" unfolding pad_base64_def core(1) by (simp only:)
  with b64decode_encode[OF assms(2)] show ?thesis
    using core enc len by (simp add: decode_verification_token_def ENCODED_TOKEN_LENGTH_def EMAIL_VERIFICATION_TOKEN_BYTES_def)
qed

lemma decoded_token_bytes:
  "decode_verification_token token = Inr b \<Longrightarrow> base64url_encode b = token \<and> length b = EMAIL_VERIFICATION_TOKEN_BYTES
     \<and> list_all (\<lambda>x. x < 256) b"
  by (auto simp: decode_verification_token_def split: if_splits sum.splits dest: b64decode_range)

section \<open>What the operations do\<close>

lemma account_by_id_SomeD: "account_by_id i s = Some x \<Longrightarrow> x \<in> set (db_users (acc_db s)) \<and> usr_id x = i"
  unfolding account_by_id_def by (rule find_SomeD)

lemma account_by_id_find:
  "accounts_ok s \<Longrightarrow> x \<in> set (db_users (acc_db s)) \<Longrightarrow> account_by_id (usr_id x) s = Some x"
  unfolding account_by_id_def by (rule usr.find_key[OF accounts_ok_tables(2)])

lemma lock_current_user_Inr:
  "lock_current_user i s = (Inr a, s') \<longleftrightarrow>
     s' = s \<and> account_by_id i s = Some a \<and> usr_is_active a \<and> usr_deleted_at a = None"
  by (auto simp: lock_current_user_def tx split: option.splits if_splits)

definition supersede :: "uuid \<Rightarrow> instant \<Rightarrow> instant \<Rightarrow> email_verification_token \<Rightarrow> email_verification_token" where
  "supersede user_id t now x = (if evt_user_id x = user_id \<and> active_token x
     then x\<lparr>evt_superseded_at := Some t, evt_updated_at := now\<rparr> else x)"

lemma supersede_simps [simp]:
  "evt_id (supersede i t n x) = evt_id x" "evt_user_id (supersede i t n x) = evt_user_id x"
  "evt_token_digest (supersede i t n x) = evt_token_digest x"
  "evt_email_snapshot (supersede i t n x) = evt_email_snapshot x"
  "active_token (supersede i t n x) \<longleftrightarrow> active_token x \<and> evt_user_id x \<noteq> i"
  by (auto simp: supersede_def active_token_def)

lemma one_active_token:
  "accounts_ok s \<Longrightarrow> x \<in> set (acc_tokens s) \<Longrightarrow> y \<in> set (acc_tokens s) \<Longrightarrow> active_token x \<Longrightarrow> active_token y \<Longrightarrow>
     evt_user_id x = evt_user_id y \<Longrightarrow> x = y"
  by (rule evt.no_clash[OF accounts_ok_tables(5)]) (auto simp: verification_token_clash_def)

lemma flush_changed_token:
  assumes "accounts_ok s" "row \<in> set (acc_tokens s)" "r \<noteq> row" "evt_id r = evt_id row"
    and "flush_token r s = (Inr r', s')"
  shows "r' = r\<lparr>evt_updated_at := db_now (acc_db s)\<rparr> \<and> s' = s\<lparr>acc_tokens := replace_row evt_id r' (acc_tokens s)\<rparr>"
proof -
  have "r \<notin> set (acc_tokens s)"
    using evt.key_inj[OF accounts_ok_tables(5)[OF assms(1)] assms(2), of r] assms(3,4) by auto
  with assms(5) show ?thesis by (auto simp: flush_token_def flush_row_Inr)
qed

lemma replace_row_map:
  assumes "\<And>x. x \<in> set rows \<Longrightarrow> key x = key row \<Longrightarrow> f x = r" "\<And>x. x \<in> set rows \<Longrightarrow> key x \<noteq> key row \<Longrightarrow> f x = x"
    and "key r = key row"
  shows "replace_row key r rows = map f rows"
  using assms by (auto simp: replace_row_def update_where_def)

lemma issue_Inr:
  assumes ok: "accounts_ok s" and call: "issue_email_verification_token fresh entropy i clock s = (Inr r, s')"
  obtains account t where "account_by_id i s = Some account" "usr_is_active account" "usr_deleted_at account = None"
    "clock = Aware t" "length entropy = EMAIL_VERIFICATION_TOKEN_BYTES"
    "r = \<lparr>iev_token_id = fresh, iev_token = base64url_encode entropy, iev_expires_at = t + EMAIL_VERIFICATION_TOKEN_TTL\<rparr>"
    "s' = s\<lparr>acc_tokens := map (supersede i t (db_now (acc_db s))) (acc_tokens s) @ [new_token fresh account entropy t]\<rparr>"
    "accounts_ok s'"
proof -
  from call obtain account t s1 where a: "account_by_id i s = Some account" "usr_is_active account"
      "usr_deleted_at account = None" "clock = Aware t" "length entropy = EMAIL_VERIFICATION_TOKEN_BYTES"
      "r = \<lparr>iev_token_id = fresh, iev_token = base64url_encode entropy, iev_expires_at = t + EMAIL_VERIFICATION_TOKEN_TTL\<rparr>"
    and up: "(case active_token_of (usr_id account) s of
                None \<Rightarrow> return_tx ()
              | Some row \<Rightarrow> bind_tx (flush_token (row\<lparr>evt_superseded_at := Some t\<rparr>)) (\<lambda>_. return_tx ())) s = (Inr (), s1)"
    and ins: "insert_token (new_token fresh account entropy t) s1 = (Inr (), s')"
    by (auto simp: issue_email_verification_token_def tx lock_current_user_Inr)
  have i: "usr_id account = i" using account_by_id_SomeD[OF a(1)] by simp
  let ?f = "supersede i t (db_now (acc_db s))"
  have "s1 = s\<lparr>acc_tokens := map ?f (acc_tokens s)\<rparr> \<and> accounts_ok s1"
  proof (cases "active_token_of (usr_id account) s")
    case None
    then have "map ?f (acc_tokens s) = acc_tokens s"
      by (intro map_idI) (auto simp: active_token_of_def find_None_iff supersede_def i)
    with None up ok show ?thesis by (auto simp: return_tx_def)
  next
    case (Some row)
    then have row: "row \<in> set (acc_tokens s)" "evt_user_id row = i" "active_token row"
      unfolding active_token_of_def i by (auto dest: find_SomeD)
    from up Some obtain r' where f: "flush_token (row\<lparr>evt_superseded_at := Some t\<rparr>) s = (Inr r', s1)"
      by (auto simp: tx)
    have "row\<lparr>evt_superseded_at := Some t\<rparr> \<noteq> row" using row(3) by (metis active_token_def email_verification_token.select_convs(7) email_verification_token.surjective email_verification_token.update_convs(7) option.distinct(1))
    from flush_changed_token[OF ok row(1) this _ f] have s1: "s1 = s\<lparr>acc_tokens := replace_row evt_id r' (acc_tokens s)\<rparr>"
        "r' = ?f row" using row(2,3) by (auto simp: supersede_def)
    have "replace_row evt_id r' (acc_tokens s) = map ?f (acc_tokens s)"
    proof (rule replace_row_map)
      show "evt_id r' = evt_id row" by (simp add: s1(2))
      fix x assume x: "x \<in> set (acc_tokens s)"
      show "?f x = r'" if "evt_id x = evt_id row"
        using evt.key_inj[OF accounts_ok_tables(5)[OF ok] x row(1) that] s1(2) by simp
      show "?f x = x" if "evt_id x \<noteq> evt_id row"
        using one_active_token[OF ok x row(1)] row that by (auto simp: supersede_def)
    qed
    with s1 flush_token_ok[OF ok f row(1)] show ?thesis by simp
  qed
  with ins insert_token_ok[of s1 _ "()" s'] a show ?thesis
    by (intro that[of account t]) (auto simp: insert_token_def insert_row_Inr)
qed

end
