(* ===== verification/Verification_Runs.thy ===== *)
theory Verification_Runs
  imports Email_Verification
begin

text \<open>
  What e-mail verification guarantees: a confirmation is exact, an issued token confirms once, only the newest token
  of an account works, a replaced address must be verified again, and over any sequence of requests, confirmations,
  address changes and other activity an address is verified only for the account it was issued to.
\<close>

section \<open>Successful calls\<close>

lemma consume_Inr:
  assumes ok: "accounts_ok s1"
    and call: "consume_email_verification_token (\<lambda>_. s1) token clock s = (Inr c, s')"
  obtains b cand row row' account t where "decode_verification_token token = Inr b"
    "token_by_digest (digest_random_bytes b) s = Some cand" "row \<in> set (acc_tokens s1)" "evt_id row = evt_id cand"
    "evt_token_digest row = digest_random_bytes b" "active_token row" "clock = Aware t" "t < evt_expires_at row"
    "account \<in> set (db_users (acc_db s1))" "usr_id account = evt_user_id row" "usr_is_active account"
    "usr_deleted_at account = None" "usr_email account = evt_email_snapshot row"
    "c = \<lparr>cev_user_id = usr_id account, cev_email_snapshot = usr_email account, cev_consumed_at = t\<rparr>"
    "row' = row\<lparr>evt_consumed_at := Some t, evt_updated_at := db_now (acc_db s1)\<rparr>"
    "s' = s1\<lparr>acc_tokens := replace_row evt_id row' (acc_tokens s1)\<rparr>" "accounts_ok s'"
proof -
  from call obtain b cand row account t r where h: "decode_verification_token token = Inr b"
      "token_by_digest (digest_random_bytes b) s = Some cand" "account_by_id (evt_user_id cand) s1 = Some account"
      "usr_is_active account" "usr_deleted_at account = None" "token_by_id (evt_id cand) s1 = Some row" "clock = Aware t"
      "evt_token_digest row = digest_random_bytes b" "evt_user_id row = usr_id account" "active_token row"
      "t < evt_expires_at row" "evt_email_snapshot row = usr_email account"
      "c = \<lparr>cev_user_id = usr_id account, cev_email_snapshot = usr_email account, cev_consumed_at = t\<rparr>"
    and f: "flush_token (row\<lparr>evt_consumed_at := Some t\<rparr>) s1 = (Inr r, s')"
    by (auto simp: consume_email_verification_token_def digest_email_verification_token_def tx lock_current_user_Inr
        active_token_def not_le split: option.splits if_splits)
  from h(6) have row: "row \<in> set (acc_tokens s1)" "evt_id row = evt_id cand"
    unfolding token_by_id_def by (auto dest: find_SomeD)
  have "evt_consumed_at (row\<lparr>evt_consumed_at := Some t\<rparr>) \<noteq> evt_consumed_at row"
    using h(10) by (simp add: active_token_def)
  then have "row\<lparr>evt_consumed_at := Some t\<rparr> \<noteq> row" by metis
  from flush_changed_token[OF ok row(1) this _ f] have "s' = s1\<lparr>acc_tokens := replace_row evt_id r (acc_tokens s1)\<rparr>"
      "r = row\<lparr>evt_consumed_at := Some t, evt_updated_at := db_now (acc_db s1)\<rparr>" by auto
  with h row account_by_id_SomeD[OF h(3)] flush_token_ok[OF ok f row(1)] show ?thesis
    by (intro that[where b = b and cand = cand and row = row and account = account and t = t and row' = r]) auto
qed

lemma flush_changed_user:
  assumes "accounts_ok s" "x \<in> set (db_users (acc_db s))" "r \<noteq> x" "usr_id r = usr_id x"
    and "flush_user r s = (Inr r', s')"
  shows "r' = r\<lparr>usr_updated_at := db_now (acc_db s)\<rparr> \<and> s' = set_users (replace_row usr_id r' (db_users (acc_db s))) s"
proof -
  have "r \<notin> set (db_users (acc_db s))"
    using usr.key_inj[OF accounts_ok_tables(2)[OF assms(1)] assms(2), of r] assms(3,4) by auto
  with assms(5) show ?thesis by (auto simp: flush_user_def flush_row_Inr)
qed

lemma confirm_Inr:
  assumes ok: "accounts_ok s1"
    and call: "confirm_email_verification_token (\<lambda>_. s1) token expected clock s = (Inr c, s')"
  obtains b cand row account t where "decode_verification_token token = Inr b"
    "token_by_digest (digest_random_bytes b) s = Some cand" "evt_id row = evt_id cand"
    "row \<in> set (acc_tokens s1)" "evt_token_digest row = digest_random_bytes b" "active_token row" "clock = Aware t"
    "t < evt_expires_at row" "evt_user_id row = expected"
    "account \<in> set (db_users (acc_db s1))" "usr_id account = expected" "usr_role account = USER"
    "usr_is_active account" "usr_deleted_at account = None" "usr_email account = evt_email_snapshot row"
    "usr_email_verified_at account = None"
    "s' = set_users (replace_row usr_id
             (account\<lparr>usr_email_verified_at := Some t, usr_updated_at := db_now (acc_db s1)\<rparr>) (db_users (acc_db s1)))
           (s1\<lparr>acc_tokens := replace_row evt_id
              (row\<lparr>evt_consumed_at := Some t, evt_updated_at := db_now (acc_db s1)\<rparr>) (acc_tokens s1)\<rparr>)"
    "accounts_ok s'" "c = \<lparr>cfv_user_id = expected, cfv_email_verified_at = t\<rparr>"
proof -
  from call obtain cc s2 account u2 where
      cons: "consume_email_verification_token (\<lambda>_. s1) token clock s = (Inr cc, s2)"
    and a: "cev_user_id cc = expected" "account_by_id expected s2 = Some account" "usr_role account = USER"
      "usr_is_active account" "usr_deleted_at account = None" "usr_email account = cev_email_snapshot cc"
      "usr_email_verified_at account = None"
    and f: "flush_user (account\<lparr>usr_email_verified_at := Some (cev_consumed_at cc)\<rparr>) s2 = (Inr u2, s')"
    and c: "c = \<lparr>cfv_user_id = usr_id account, cfv_email_verified_at = cev_consumed_at cc\<rparr>"
    by (auto simp: confirm_email_verification_token_def tx split: option.splits if_splits)
  from consume_Inr[OF ok cons] obtain b cand row row' acc t where r: "decode_verification_token token = Inr b"
      "token_by_digest (digest_random_bytes b) s = Some cand" "row \<in> set (acc_tokens s1)" "evt_id row = evt_id cand"
      "evt_token_digest row = digest_random_bytes b" "active_token row" "clock = Aware t" "t < evt_expires_at row"
      "acc \<in> set (db_users (acc_db s1))" "usr_id acc = evt_user_id row" "usr_email acc = evt_email_snapshot row"
      "cc = \<lparr>cev_user_id = usr_id acc, cev_email_snapshot = usr_email acc, cev_consumed_at = t\<rparr>"
      "row' = row\<lparr>evt_consumed_at := Some t, evt_updated_at := db_now (acc_db s1)\<rparr>"
      "s2 = s1\<lparr>acc_tokens := replace_row evt_id row' (acc_tokens s1)\<rparr>" "accounts_ok s2" by metis
  from account_by_id_SomeD[OF a(2)] r(14) have mem: "account \<in> set (db_users (acc_db s1))" "usr_id account = expected" by auto
  let ?u = "account\<lparr>usr_email_verified_at := Some t\<rparr>"
  have "usr_email_verified_at ?u \<noteq> usr_email_verified_at account" using a(7) by simp
  then have "?u \<noteq> account" by metis
  from flush_changed_user[OF r(15) _ this _ f[unfolded r(12) consumed_email_verification_token.select_convs]] mem r(14)
  have s': "s' = set_users (replace_row usr_id (?u\<lparr>usr_updated_at := db_now (acc_db s1)\<rparr>) (db_users (acc_db s1))) s2" by auto
  from flush_user_ok[OF r(15) f, of account] mem r(14) have "accounts_ok s'" by simp
  with a c r mem s' show ?thesis by (intro that[where b = b and cand = cand and row = row and account = account and t = t]) auto
qed

text \<open>C16: A successful confirmation is exact: the presented text decodes to random bytes whose digest is that of an active,
  unexpired token of the authenticated account, issued for its current address; the account is an active USER whose
  address was not verified yet. The call consumes that token and stamps that account, and changes nothing else.\<close>

theorem confirmation_is_exact:
  assumes "accounts_ok s1" "confirm_email_verification_token (\<lambda>_. s1) token expected clock s = (Inr c, s')"
  shows "\<exists>b row account t. decode_verification_token token = Inr b \<and> base64url_encode b = token
    \<and> row \<in> set (acc_tokens s1) \<and> evt_token_digest row = digest_random_bytes b \<and> active_token row
    \<and> evt_user_id row = expected \<and> clock = Aware t \<and> t < evt_expires_at row
    \<and> account \<in> set (db_users (acc_db s1)) \<and> usr_id account = expected \<and> usr_role account = USER
    \<and> usr_is_active account \<and> usr_deleted_at account = None \<and> usr_email account = evt_email_snapshot row
    \<and> usr_email_verified_at account = None
    \<and> s' = set_users (replace_row usr_id
             (account\<lparr>usr_email_verified_at := Some t, usr_updated_at := db_now (acc_db s1)\<rparr>) (db_users (acc_db s1)))
           (s1\<lparr>acc_tokens := replace_row evt_id
              (row\<lparr>evt_consumed_at := Some t, evt_updated_at := db_now (acc_db s1)\<rparr>) (acc_tokens s1)\<rparr>)
    \<and> accounts_ok s'"
proof (rule confirm_Inr[OF assms], goal_cases)
  case (1 b cand row account t)
  from decoded_token_bytes[OF 1(1)] show ?case
    by (intro exI[of _ b] exI[of _ row] exI[of _ account] exI[of _ t] conjI) (use 1 in simp_all)
qed

section \<open>Requests and address changes\<close>

lemma on_db_enqueue:
  assumes "accounts_ok s" "on_db (enqueue_transactional_email fresh ev agg uid email key payload clock) s = (Inr row, s')"
  shows "s' = s\<lparr>acc_db := (acc_db s)\<lparr>db_outbox := db_outbox (acc_db s) @ [row]\<rparr>\<rparr> \<and> accounts_ok s'
    \<and> canonicalize_email email = Inr (obx_recipient_email row) \<and> obx_recipient_user_id row = uid
    \<and> obx_event_type row = py_strip ev \<and> obx_aggregate_id row = agg"
proof -
  from assms(2) obtain db' where e: "enqueue_transactional_email fresh ev agg uid email key payload clock (acc_db s) = (Inr row, db')"
      "s' = s\<lparr>acc_db := db'\<rparr>"
    by (auto simp: on_db_def split: prod.splits)
  from enqueue_Inr[OF e(1)] obtain t where
      row: "row = \<lparr>obx_id = fresh, obx_event_type = py_strip ev, obx_aggregate_id = agg, obx_recipient_user_id = uid,
           obx_recipient_email = obx_recipient_email row, obx_idempotency_key = py_strip key,
           obx_payload = PyDict payload, obx_attempts = 0, obx_next_attempt_at = t, obx_lease_owner = None,
           obx_lease_expires_at = None, obx_sent_at = None, obx_failed_at = None,
           obx_provider_message_id = None, obx_last_error_code = None, obx_created_at = t,
           obx_updated_at = t, obx_deleted_at = None\<rparr>"
    and mail: "canonicalize_email email = Inr (obx_recipient_email row)"
    and ins: "insert_outbox row (acc_db s) = (Inr (), db')" by blast
  from row have fields: "obx_recipient_user_id row = uid" "obx_event_type row = py_strip ev" "obx_aggregate_id row = agg"
    by (metis transactional_outbox.select_convs)+
  have db': "db' = (acc_db s)\<lparr>db_outbox := db_outbox (acc_db s) @ [row]\<rparr>" using ins by (simp add: insert_outbox_Inr)
  have "db_ok db'" using enqueue_db_ok[OF accounts_ok_tables(1)[OF assms(1)] e(1)] .
  with assms(1) db' have "accounts_ok s'" unfolding e(2) accounts_ok_def account_refs_defs by simp
  with mail fields db' e(2) show ?thesis by simp
qed

lemma request_Inr:
  assumes ok: "accounts_ok s" and call: "request_email_verification aes key draws i s = (Inr created, s')"
  obtains (already) account where "account_by_id i s = Some account" "is_current_email_verified account" "s' = s" "\<not> created"
  | (issued) account t row where "account_by_id i s = Some account" "usr_role account = USER" "usr_email_verified_at account = None"
      "usr_is_active account" "usr_deleted_at account = None" created "vd_issue_clock draws = Aware t"
      "length (vd_entropy draws) = EMAIL_VERIFICATION_TOKEN_BYTES"
      "s' = s\<lparr>acc_tokens := map (supersede i t (db_now (acc_db s))) (acc_tokens s)
             @ [new_token (vd_token_id draws) account (vd_entropy draws) t],
           acc_db := (acc_db s)\<lparr>db_outbox := db_outbox (acc_db s) @ [row]\<rparr>\<rparr>"
      "canonicalize_email (usr_email account) = Inr (obx_recipient_email row)"
      "obx_recipient_user_id row = Some i" "obx_aggregate_id row = vd_token_id draws" "accounts_ok s'"
proof -
  from call obtain account where a: "account_by_id i s = Some account" "usr_role account = USER" "usr_is_active account"
      "usr_deleted_at account = None"
    by (auto simp: request_email_verification_def tx split: option.splits if_splits)
  have i: "usr_id account = i" using account_by_id_SomeD[OF a(1)] by simp
  show ?thesis
  proof (cases "is_current_email_verified account")
    case True
    with a call show ?thesis by (intro already[of account]) (auto simp: request_email_verification_def tx)
  next
    case False
    with a call i obtain iss s1 payload row s2 where
        issue: "issue_email_verification_token (vd_token_id draws) (vd_entropy draws) i (vd_issue_clock draws) s = (Inr iss, s1)"
      and enq: "on_db (enqueue_transactional_email (vd_event_id draws) EMAIL_VERIFICATION_REQUESTED (iev_token_id iss) (Some i)
          (usr_email account) (EMAIL_VERIFICATION_REQUESTED @ [47] @ uuid_str (iev_token_id iss)) payload
          (vd_enqueue_clock draws)) s1 = (Inr row, s')" and created
      by (auto simp: request_email_verification_def tx)
    from issue_Inr[OF ok issue] a(1) obtain t where t: "vd_issue_clock draws = Aware t"
        "length (vd_entropy draws) = EMAIL_VERIFICATION_TOKEN_BYTES" "iev_token_id iss = vd_token_id draws"
        "s1 = s\<lparr>acc_tokens := map (supersede i t (db_now (acc_db s))) (acc_tokens s)
           @ [new_token (vd_token_id draws) account (vd_entropy draws) t]\<rparr>" "accounts_ok s1"
      by (metis issued_email_verification_token.select_convs(1) option.inject)
    from on_db_enqueue[OF t(5) enq] t a False \<open>created\<close> show ?thesis
      by (intro issued[where account = account and t = t and row = row]) (auto simp: is_current_email_verified_def)
  qed
qed

lemma canonicalize_email_fixed: "canonicalize_email e = Inr c \<Longrightarrow> canonicalize_email c = Inr c"
  by (elim canonicalize_Inr) (simp only: canonicalize_parts[OF parts_fold],
    simp add: ascii_casefold_def ascii_upper_def comp_def)

lemma change_Inr:
  assumes ok: "accounts_ok s"
    and call: "change_current_user_email bc aes key draws i new_email password s = (Inr changed, s')"
  obtains account t row where "account_by_id i s = Some account" "usr_role account = USER" "usr_is_active account"
      "usr_deleted_at account = None" "verify_password bc password (usr_password_hash account)"
      "canonicalize_email new_email = Inr (usr_email changed)" "usr_email changed \<noteq> usr_email account"
      "changed = account\<lparr>usr_email := usr_email changed, usr_email_verified_at := None,
         usr_updated_at := db_now (acc_db s)\<rparr>"
      "s' = (set_users (replace_row usr_id changed (db_users (acc_db s))) s)\<lparr>
           acc_tokens := map (supersede i t (db_now (acc_db s))) (acc_tokens s)
             @ [new_token (vd_token_id draws) changed (vd_entropy draws) t],
           acc_db := (acc_db (set_users (replace_row usr_id changed (db_users (acc_db s))) s))
             \<lparr>db_outbox := db_outbox (acc_db s) @ [row]\<rparr>\<rparr>"
      "obx_recipient_email row = usr_email changed" "obx_recipient_user_id row = Some i" "accounts_ok s'"
      "vd_issue_clock draws = Aware t"
proof -
  from call obtain account c s1 b where a: "account_by_id i s = Some account" "usr_role account = USER" "usr_is_active account"
      "usr_deleted_at account = None" "verify_password bc password (usr_password_hash account)"
      "canonicalize_email new_email = Inr c" "usr_email account \<noteq> c"
    and f: "flush_user (account\<lparr>usr_email := c, usr_email_verified_at := None\<rparr>) s = (Inr changed, s1)"
    and req: "request_email_verification aes key draws (usr_id account) s1 = (Inr b, s')"
    by (auto simp: change_current_user_email_def tx split: option.splits if_splits)
  from account_by_id_SomeD[OF a(1)] have m: "account \<in> set (db_users (acc_db s))" "usr_id account = i" by auto
  let ?r = "account\<lparr>usr_email := c, usr_email_verified_at := None\<rparr>"
  have "usr_email ?r \<noteq> usr_email account" using a(7) by simp
  then have "?r \<noteq> account" by metis
  from flush_changed_user[OF ok m(1) this _ f] have ch: "changed = ?r\<lparr>usr_updated_at := db_now (acc_db s)\<rparr>"
      "s1 = set_users (replace_row usr_id changed (db_users (acc_db s))) s" by auto
  from flush_user_ok[OF ok f m(1)] have ok1: "accounts_ok s1" by simp
  have "changed \<in> set (db_users (acc_db s1))" using m ch by (auto simp: set_replace_row)
  from account_by_id_find[OF ok1 this] ch m have by_id: "account_by_id i s1 = Some changed" by simp
  from ok1 req[unfolded m(2)] show ?thesis
  proof (cases rule: request_Inr)
    case (already acc)
    have "usr_role changed = USER" "usr_email_verified_at changed = None" by (simp_all add: ch(1) a(2))
    with already by_id show ?thesis by (simp add: is_current_email_verified_def)
  next
    case (issued acc t row)
    with by_id have acc: "acc = changed" by simp
    have "canonicalize_email (usr_email changed) = Inr (usr_email changed)"
      using canonicalize_email_fixed[OF a(6)] by (simp add: ch)
    with issued acc a ch show ?thesis by (intro that[where account = account and t = t and row = row]) auto
  qed
qed

text \<open>Replacing an address makes it unverified again: the account gets the canonical new address, loses its verification
  and with it the Buddy capability, every token issued before stops working, exactly one new token exists for the new
  address, and one event is mailed to that address. No other account changes.\<close>

theorem replaced_address_must_be_verified_again:
  assumes "accounts_ok s" "change_current_email bc aes key draws i new_email password s = (Inr changed, s')"
  shows "accounts_ok s' \<and> canonicalize_email new_email = Inr (usr_email changed) \<and> usr_id changed = i
    \<and> usr_email_verified_at changed = None
    \<and> get_verified_buddy_principal changed db = (Inl (BuddyCapabilityError (Some EMAIL_VERIFICATION_REQUIRED)), db)
    \<and> db_users (acc_db s') = replace_row usr_id changed (db_users (acc_db s))
    \<and> filter (\<lambda>x. evt_user_id x = i \<and> active_token x) (acc_tokens s')
        = [x \<leftarrow> drop (length (acc_tokens s)) (acc_tokens s'). evt_email_snapshot x = usr_email changed]
    \<and> length (acc_tokens s') = length (acc_tokens s) + 1
    \<and> (\<exists>row. db_outbox (acc_db s') = db_outbox (acc_db s) @ [row] \<and> obx_recipient_email row = usr_email changed
         \<and> obx_recipient_user_id row = Some i)"
proof -
  from assms(2) have call: "change_current_user_email bc aes key draws i new_email password s = (Inr changed, s')"
    by (simp add: change_current_email_def tx)
  show ?thesis
  proof (rule change_Inr[OF assms(1) call], goal_cases)
    case (1 account t row)
    have m: "usr_id account = i" using account_by_id_SomeD[OF 1(1)] by simp
    have ch: "usr_id changed = i" "usr_role changed = USER" "usr_is_active changed" "usr_deleted_at changed = None"
        "usr_email_verified_at changed = None"
      by (subst 1(8), simp add: m 1(2-4))+
    let ?new = "new_token (vd_token_id draws) changed (vd_entropy draws) t"
    have none: "filter (\<lambda>x. evt_user_id x = i \<and> active_token x) (map (supersede i t (db_now (acc_db s))) (acc_tokens s)) = []"
      by (auto simp: filter_empty_conv)
    have new: "active_token ?new" "evt_user_id ?new = i" "evt_email_snapshot ?new = usr_email changed"
      using ch by (simp_all add: new_token_def active_token_def)
    have tokens: "acc_tokens s' = map (supersede i t (db_now (acc_db s))) (acc_tokens s) @ [?new]" unfolding 1(9) by simp
    have users: "db_users (acc_db s') = replace_row usr_id changed (db_users (acc_db s))" unfolding 1(9) by simp
    have outbox: "db_outbox (acc_db s') = db_outbox (acc_db s) @ [row]" unfolding 1(9) by simp
    have "filter (\<lambda>x. evt_user_id x = i \<and> active_token x) (acc_tokens s')
        = [x \<leftarrow> drop (length (acc_tokens s)) (acc_tokens s'). evt_email_snapshot x = usr_email changed]"
      unfolding tokens filter_append none using new by simp
    with 1 ch tokens users outbox show ?case by (auto simp: get_verified_buddy_principal_def)
  qed
qed

lemma issued_token_row:
  assumes "accounts_ok s" "issue_email_verification_token fresh entropy i (Aware t) s = (Inr r, s')"
  obtains account where "account_by_id i s = Some account" "account_by_id i s' = Some account" "usr_is_active account"
    "usr_deleted_at account = None" "length entropy = EMAIL_VERIFICATION_TOKEN_BYTES" "iev_token r = base64url_encode entropy"
    "iev_expires_at r = t + EMAIL_VERIFICATION_TOKEN_TTL" "new_token fresh account entropy t \<in> set (acc_tokens s')"
    "token_by_digest (digest_random_bytes entropy) s' = Some (new_token fresh account entropy t)"
    "token_by_id fresh s' = Some (new_token fresh account entropy t)" "accounts_ok s'" "usr_id account = i"
proof (rule issue_Inr[OF assms], goal_cases)
  case (1 account t')
  let ?new = "new_token fresh account entropy t"
  have mem: "?new \<in> set (acc_tokens s')" using 1(5,8) by simp
  have d: "token_by_digest (evt_token_digest ?new) s' = Some ?new" unfolding token_by_digest_def
    by (rule find_unique[OF mem refl])
      (auto intro: evt.no_clash[OF accounts_ok_tables(5)[OF 1(9)] _ mem] simp: verification_token_clash_def)
  have i: "token_by_id (evt_id ?new) s' = Some ?new"
    unfolding token_by_id_def by (rule evt.find_key[OF accounts_ok_tables(5)[OF 1(9)] mem])
  have n: "evt_token_digest ?new = digest_random_bytes entropy" "evt_id ?new = fresh" by (simp_all add: new_token_def)
  have "acc_db s' = acc_db s" using 1(8) by simp
  then have "account_by_id i s' = Some account" using 1(2) by (simp add: account_by_id_def)
  moreover have "iev_token r = base64url_encode entropy" "iev_expires_at r = t + EMAIL_VERIFICATION_TOKEN_TTL"
    using 1(5,7) by simp_all
  ultimately show ?case
    using 1(1)[OF 1(2) _ 1(3,4,6) _ _ mem d[unfolded n] i[unfolded n] 1(9)] account_by_id_SomeD[OF 1(2)] by blast
qed

lemma issued_token_works:
  assumes "accounts_ok s" "issue_email_verification_token fresh entropy i (Aware t) s = (Inr r, s')"
    and "list_all (\<lambda>b. b < 256) entropy" "account_by_id i s = Some account"
    and "usr_role account = USER" "usr_email_verified_at account = None" "t2 < iev_expires_at r"
  shows "\<exists>s''. confirm_email_verification_token (\<lambda>_. s') (iev_token r) i (Aware t2) s'
      = (Inr \<lparr>cfv_user_id = i, cfv_email_verified_at = t2\<rparr>, s'')"
proof (rule issued_token_row[OF assms(1,2)], goal_cases)
  case (1 acc)
  with assms(4) have acc: "acc = account" by simp
  let ?row = "new_token fresh account entropy t"
  have dec: "digest_email_verification_token (iev_token r) = Inr (digest_random_bytes entropy)"
    using decode_encoded_token[OF 1(5) assms(3)] 1(6) by (simp add: digest_email_verification_token_def)
  have row: "evt_user_id ?row = i" "evt_id ?row = fresh" "evt_email_snapshot ?row = usr_email account"
      "evt_token_digest ?row = digest_random_bytes entropy" "active_token ?row" "t2 < evt_expires_at ?row"
    using 1 acc assms(7) by (simp_all add: new_token_def active_token_def)
  let ?r = "?row\<lparr>evt_consumed_at := Some t2\<rparr>"
  obtain x s2 where f: "flush_token ?r s' = (x, s2)" by fastforce
  have clash: "\<not> verification_token_clash (?r\<lparr>evt_updated_at := db_now (acc_db s')\<rparr>) y"
    if "y \<in> set (acc_tokens s')" "evt_id y \<noteq> fresh" for y
  proof
    assume "verification_token_clash (?r\<lparr>evt_updated_at := db_now (acc_db s')\<rparr>) y"
    then have "verification_token_clash ?row y" using that(2) row(2)
      by (auto simp: verification_token_clash_def active_token_def)
    from evt.no_clash[OF accounts_ok_tables(5)[OF 1(11)] _ that(1) this] 1(8) acc that(2) row(2) show False by auto
  qed
  have "verification_token_check ?row"
    using evt.row_ok[OF accounts_ok_tables(5)[OF 1(11)]] 1(8) acc by simp
  then have "verification_token_check (?r\<lparr>evt_updated_at := db_now (acc_db s')\<rparr>)" by (simp add: verification_token_check_def)
  with clash row(2) have "\<exists>r'. flush_token ?r s' = (Inr r', s'\<lparr>acc_tokens := replace_row evt_id r' (acc_tokens s')\<rparr>)
      \<or> flush_token ?r s' = (Inr r', s')"
    by (cases "?r \<in> set (acc_tokens s')") (auto simp: flush_token_def flush_row_Inr)
  with f have x: "\<exists>r'. x = Inr r'" and s2: "acc_db s2 = acc_db s'" "accounts_ok s2"
    using flush_token_ok[OF 1(11), of ?r _ s2 ?row] 1(8) acc by auto
  have by_id: "account_by_id i s2 = Some account" "account_by_id i s' = Some account"
    using 1(2) acc s2 by (simp_all add: account_by_id_def)
  from account_by_id_SomeD[OF by_id(1)] have mem: "account \<in> set (db_users (acc_db s2))" by simp
  have "user_check (account\<lparr>usr_email_verified_at := Some t2\<rparr>)"
    using usr.row_ok[OF accounts_ok_tables(2)[OF s2(2)] mem] by (simp add: user_check_def)
  from flush_user_runs[OF s2(2) mem, of "account\<lparr>usr_email_verified_at := Some t2\<rparr>"] this obtain u2 where
      u2: "flush_user (account\<lparr>usr_email_verified_at := Some t2\<rparr>) s2
        = (Inr u2, set_users (replace_row usr_id u2 (db_users (acc_db s2))) s2)" by auto
  have act: "usr_is_active account" "usr_deleted_at account = None" "usr_id account = i" using 1 acc by auto
  have "consume_email_verification_token (\<lambda>_. s') (iev_token r) (Aware t2) s'
      = (Inr \<lparr>cev_user_id = i, cev_email_snapshot = usr_email account, cev_consumed_at = t2\<rparr>, s2)"
    using dec 1(9,10) acc row act by_id x f
    by (auto simp: consume_email_verification_token_def lock_current_user_def active_token_def)
  then show ?case
    using by_id act assms(5,6) u2 by (simp add: confirm_email_verification_token_def)
qed

text \<open>An issued token confirms the address: presented by its account before it expires, with the account an
  active USER with an unverified address, the confirmation succeeds and stamps the account at the time of the call.\<close>

theorem issued_token_confirms:
  assumes "accounts_ok s" "issue_email_verification_token fresh entropy i (Aware t) s = (Inr r, s')"
    and "list_all (\<lambda>b. b < 256) entropy" "account_by_id i s = Some account"
    and "usr_role account = USER" "usr_email_verified_at account = None" "t2 < iev_expires_at r"
  shows "\<exists>s''. confirm_email_verification_token (\<lambda>_. s') (iev_token r) i (Aware t2) s'
      = (Inr \<lparr>cfv_user_id = i, cfv_email_verified_at = t2\<rparr>, s'')"
  by (rule issued_token_works[OF assms])

section \<open>Runs\<close>

text \<open>
  The set beside the database is the history: account, address and digest of every token there has been. The entropy
  of a new token is taken not to repeat a digest. What happens elsewhere may remove tokens, and verifies no address.
\<close>

type_synonym verification_state = "(uuid \<times> pystr \<times> nat list) set \<times> account_db"

definition token_facts :: "account_db \<Rightarrow> (uuid \<times> pystr \<times> nat list) set" where
  "token_facts s = (\<lambda>x. (evt_user_id x, evt_email_snapshot x, evt_token_digest x)) ` set (acc_tokens s)"

definition digests :: "(uuid \<times> pystr \<times> nat list) set \<Rightarrow> nat list set" where
  "digests E = (\<lambda>(_, _, d). d) ` E"

definition verified_addresses :: "account_db \<Rightarrow> (uuid \<times> pystr) set" where
  "verified_addresses s = (\<lambda>x. (usr_id x, usr_email x)) ` {x \<in> set (db_users (acc_db s)). usr_email_verified_at x \<noteq> None}"

inductive verification_run ::
    "bcrypt_lib \<Rightarrow> aesgcm \<Rightarrow> nat list \<Rightarrow> verification_state \<Rightarrow> verification_state \<Rightarrow> bool" for bc aes key where
  still: "verification_run bc aes key \<sigma> \<sigma>"
| next_step: "verification_run bc aes key \<sigma> \<sigma>1 \<Longrightarrow> verification_run bc aes key \<sigma>1 \<sigma>' \<Longrightarrow> verification_run bc aes key \<sigma> \<sigma>'"
| requested: "request_current_email_verification aes key draws i s = (res, s') \<Longrightarrow>
     digest_random_bytes (vd_entropy draws) \<notin> digests E \<Longrightarrow>
     verification_run bc aes key (E, s) (E \<union> token_facts s', s')"
| replaced: "change_current_email bc aes key draws i new_email password s = (res', s') \<Longrightarrow>
     digest_random_bytes (vd_entropy draws) \<notin> digests E \<Longrightarrow>
     verification_run bc aes key (E, s) (E \<union> token_facts s', s')"
| confirmed: "verification_run bc aes key (E, s) (E1, s1) \<Longrightarrow>
     confirm_current_email_verification (\<lambda>_. s1) token i clock s = (res'', s') \<Longrightarrow>
     verification_run bc aes key (E, s) (E1, s')"
| unrelated: "accounts_ok s' \<Longrightarrow> set (acc_tokens s') \<subseteq> set (acc_tokens s) \<Longrightarrow>
     verified_addresses s' \<subseteq> verified_addresses s \<Longrightarrow> verification_run bc aes key (E, s) (E, s')"

definition recorded :: "verification_state \<Rightarrow> bool" where
  "recorded \<sigma> \<longleftrightarrow> accounts_ok (snd \<sigma>) \<and> token_facts (snd \<sigma>) \<subseteq> fst \<sigma>"

definition tokens_evolve :: "verification_state \<Rightarrow> verification_state \<Rightarrow> bool" where
  "tokens_evolve \<sigma> \<sigma>' \<longleftrightarrow> fst \<sigma> \<subseteq> fst \<sigma>'
     \<and> verified_addresses (snd \<sigma>') \<subseteq> verified_addresses (snd \<sigma>) \<union> (\<lambda>(i, e, _). (i, e)) ` fst \<sigma>'
     \<and> (\<forall>x' \<in> set (acc_tokens (snd \<sigma>')). evt_token_digest x' \<notin> digests (fst \<sigma>)
          \<or> (\<exists>x \<in> set (acc_tokens (snd \<sigma>)). evt_token_digest x' = evt_token_digest x \<and> (active_token x' \<longrightarrow> active_token x)))"

lemma tokens_evolve_refl: "tokens_evolve \<sigma> \<sigma>"
  unfolding tokens_evolve_def by blast

lemma tokens_evolve_trans:
  assumes a: "tokens_evolve \<sigma> \<sigma>1" and b: "tokens_evolve \<sigma>1 \<sigma>2"
  shows "tokens_evolve \<sigma> \<sigma>2"
  unfolding tokens_evolve_def
proof (intro conjI ballI)
  from a b have sub: "fst \<sigma> \<subseteq> fst \<sigma>1" "fst \<sigma>1 \<subseteq> fst \<sigma>2" by (auto simp: tokens_evolve_def)
  then show "fst \<sigma> \<subseteq> fst \<sigma>2" by blast
  show "verified_addresses (snd \<sigma>2) \<subseteq> verified_addresses (snd \<sigma>) \<union> (\<lambda>(i, e, _). (i, e)) ` fst \<sigma>2"
    using a b sub unfolding tokens_evolve_def by blast
  fix x2 assume x2: "x2 \<in> set (acc_tokens (snd \<sigma>2))"
  have dsub: "digests (fst \<sigma>) \<subseteq> digests (fst \<sigma>1)" unfolding digests_def using sub(1) by (rule image_mono)
  from b x2 consider "evt_token_digest x2 \<notin> digests (fst \<sigma>1)"
    | x1 where "x1 \<in> set (acc_tokens (snd \<sigma>1))" "evt_token_digest x2 = evt_token_digest x1" "active_token x2 \<longrightarrow> active_token x1"
    unfolding tokens_evolve_def by blast
  then show "evt_token_digest x2 \<notin> digests (fst \<sigma>) \<or> (\<exists>x \<in> set (acc_tokens (snd \<sigma>)).
      evt_token_digest x2 = evt_token_digest x \<and> (active_token x2 \<longrightarrow> active_token x))"
  proof cases
    case 1
    with dsub show ?thesis by blast
  next
    case (2 x1)
    with a show ?thesis unfolding tokens_evolve_def by metis
  qed
qed

text \<open>The tokens after an issue: the old ones, possibly superseded, and a new one with the given digest.\<close>

lemma issued_tokens_evolve:
  assumes tokens: "acc_tokens s' = map (supersede i t now) (acc_tokens s) @ [new_token fresh a entropy t']"
    and fresh: "digest_random_bytes entropy \<notin> digests E"
    and v: "verified_addresses s' \<subseteq> verified_addresses s" and ok: "accounts_ok s'" and E: "token_facts s \<subseteq> E"
  shows "recorded (E \<union> token_facts s', s') \<and> tokens_evolve (E, s) (E \<union> token_facts s', s')"
proof -
  have "evt_token_digest x' \<notin> digests E \<or> (\<exists>x \<in> set (acc_tokens s). evt_token_digest x' = evt_token_digest x
      \<and> (active_token x' \<longrightarrow> active_token x))" if x': "x' \<in> set (acc_tokens s')" for x'
  proof (cases "x' = new_token fresh a entropy t'")
    case True
    with fresh show ?thesis by (simp add: new_token_def)
  next
    case False
    with x' tokens show ?thesis by auto
  qed
  with v ok show ?thesis by (auto simp: recorded_def tokens_evolve_def)
qed

lemma run_records:
  assumes "verification_run bc aes key \<sigma> \<sigma>'" "recorded \<sigma>"
  shows "recorded \<sigma>' \<and> tokens_evolve \<sigma> \<sigma>'"
  using assms
proof (induction rule: verification_run.induct)
  case (still \<sigma>)
  then show ?case by (simp add: tokens_evolve_refl)
next
  case (next_step \<sigma> \<sigma>1 \<sigma>')
  then show ?case using tokens_evolve_trans by blast
next
  case (requested draws i s res s' E)
  then have ok: "accounts_ok s" and E: "token_facts s \<subseteq> E" by (auto simp: recorded_def)
  have same: "s' = s \<Longrightarrow> ?case" using requested.prems by (auto simp: recorded_def tokens_evolve_def)
  from requested.hyps(1) have "s' = s \<or> (\<exists>b. request_email_verification aes key draws i s = (Inr b, s'))"
    by (cases res) (auto simp: request_current_email_verification_def tx rethrow_tx_def atomic_tx_def
        bind_tx_def return_tx_def split: prod.splits sum.splits)
  then show ?case
  proof (elim disjE exE)
    fix b assume "request_email_verification aes key draws i s = (Inr b, s')"
    from ok this show ?thesis
    proof (cases rule: request_Inr)
      case (issued account t row)
      have "db_users (acc_db s') = db_users (acc_db s)" unfolding issued(9) by simp
      then have v: "verified_addresses s' \<subseteq> verified_addresses s" by (simp add: verified_addresses_def)
      have "acc_tokens s' = map (supersede i t (db_now (acc_db s))) (acc_tokens s)
          @ [new_token (vd_token_id draws) account (vd_entropy draws) t]" unfolding issued(9) by simp
      from issued_tokens_evolve[OF this requested.hyps(2) v issued(13) E] show ?thesis .
    qed (use same in simp)
  qed (rule same)
next
  case (replaced draws i new_email password s res' s' E)
  then have ok: "accounts_ok s" and E: "token_facts s \<subseteq> E" by (auto simp: recorded_def)
  show ?case
  proof (cases res')
    case (Inl e)
    with replaced.hyps(1) have "s' = s" by (auto simp: change_current_email_def tx)
    with replaced.prems show ?thesis by (auto simp: recorded_def tokens_evolve_def)
  next
    case (Inr changed)
    with replaced.hyps(1) have "change_current_user_email bc aes key draws i new_email password s = (Inr changed, s')"
      by (simp add: change_current_email_def tx)
    from ok this show ?thesis
    proof (rule change_Inr, goal_cases)
      case (1 account t row)
      have "usr_email_verified_at changed = None" by (subst 1(8)) simp
      moreover have "db_users (acc_db s') = replace_row usr_id changed (db_users (acc_db s))" unfolding 1(9) by simp
      ultimately have v: "verified_addresses s' \<subseteq> verified_addresses s"
        by (auto simp: verified_addresses_def set_replace_row)
      have "acc_tokens s' = map (supersede i t (db_now (acc_db s))) (acc_tokens s)
          @ [new_token (vd_token_id draws) changed (vd_entropy draws) t]" unfolding 1(9) by simp
      from issued_tokens_evolve[OF this replaced.hyps(2) v 1(12) E] show ?case .
    qed
  qed
next
  case (confirmed E s E1 s1 token i clock res'' s')
  note IH = confirmed.IH[OF confirmed.prems]
  then have ok1: "accounts_ok s1" and facts1: "token_facts s1 \<subseteq> E1" and sub: "E \<subseteq> E1"
    by (auto simp: recorded_def tokens_evolve_def)
  have early: "s' = s \<Longrightarrow> ?case" using confirmed.prems sub by (auto simp: recorded_def tokens_evolve_def)
  from confirmed.hyps(2) have "s' = s \<or> s' = s1 \<or> (\<exists>c. confirm_email_verification_token (\<lambda>_. s1) token i clock s = (Inr c, s'))"
    by (auto simp: confirm_current_email_verification_def Let_def split: sum.splits prod.splits if_splits)
  then show ?case
  proof (elim disjE exE)
    fix c assume c: "confirm_email_verification_token (\<lambda>_. s1) token i clock s = (Inr c, s')"
    from ok1 this show ?thesis
    proof (rule confirm_Inr, goal_cases)
      case (1 b cand row account t)
      let ?row = "row\<lparr>evt_consumed_at := Some t, evt_updated_at := db_now (acc_db s1)\<rparr>"
      have tokens: "acc_tokens s' = replace_row evt_id ?row (acc_tokens s1)" unfolding 1(17) by simp
      have users: "db_users (acc_db s') = replace_row usr_id
          (account\<lparr>usr_email_verified_at := Some t, usr_updated_at := db_now (acc_db s1)\<rparr>) (db_users (acc_db s1))"
        unfolding 1(17) by simp
      have fact: "(i, usr_email account, evt_token_digest row) \<in> E1"
        using facts1 1(4,9,15) by (auto simp: token_facts_def)
      have "verified_addresses s' \<subseteq> verified_addresses s1 \<union> (\<lambda>(i, e, _). (i, e)) ` E1"
      proof -
        define F where "F = (\<lambda>(i, e, _). (i, e)) ` E1"
        have F: "(usr_id account, usr_email account) \<in> F"
          unfolding F_def using fact unfolding 1(11) by (rule rev_image_eqI) simp
        have "(usr_id x, usr_email x) \<in> verified_addresses s1 \<or> (usr_id x, usr_email x) \<in> F"
          if "x \<in> set (db_users (acc_db s'))" "usr_email_verified_at x \<noteq> None" for x
          using that F unfolding users verified_addresses_def set_replace_row by auto
        then show ?thesis unfolding verified_addresses_def[of s'] F_def by blast
      qed
      moreover have "token_facts s' \<subseteq> E1"
        using facts1 1(4) unfolding token_facts_def tokens by (auto simp: set_replace_row image_subset_iff)
      moreover have "\<forall>x' \<in> set (acc_tokens s'). \<exists>x \<in> set (acc_tokens s1). evt_token_digest x' = evt_token_digest x
          \<and> (active_token x' \<longrightarrow> active_token x)"
      proof
        fix x' assume "x' \<in> set (acc_tokens s')"
        then have "x' = ?row \<or> x' \<in> set (acc_tokens s1)" unfolding tokens set_replace_row by auto
        then show "\<exists>x \<in> set (acc_tokens s1). evt_token_digest x' = evt_token_digest x \<and> (active_token x' \<longrightarrow> active_token x)"
          using 1(4,6) by (elim disjE) (auto intro: bexI[of _ row])
      qed
      ultimately have "recorded (E1, s') \<and> tokens_evolve (E1, s1) (E1, s')"
        using 1(18) by (auto simp: recorded_def tokens_evolve_def)
      with IH tokens_evolve_trans show ?case by blast
    qed
  qed (use early IH in auto)
next
  case (unrelated s' s E)
  then show ?case by (auto simp: recorded_def tokens_evolve_def token_facts_def)
qed

text \<open>C6: Over any run of requests, address changes, confirmations and unrelated activity, an account's address is
  verified only if it was before or a verification token was issued to that very account for that very address.\<close>

theorem verified_addresses_were_proved:
  assumes "recorded (E, s)" "verification_run bc aes key (E, s) (E', s')"
    and "x \<in> set (db_users (acc_db s'))" "usr_email_verified_at x \<noteq> None"
  shows "(usr_id x, usr_email x) \<in> verified_addresses s \<or> (\<exists>d. (usr_id x, usr_email x, d) \<in> E')"
proof -
  from run_records[OF assms(2,1)] have "tokens_evolve (E, s) (E', s')" ..
  moreover have "(usr_id x, usr_email x) \<in> verified_addresses s'" using assms(3,4) by (auto simp: verified_addresses_def)
  ultimately show ?thesis unfolding tokens_evolve_def by fastforce
qed

lemma lock_current_user_result:
  "\<exists>x. lock_current_user i s = (x, s) \<and> (x = Inl EmailVerificationTokenError \<or> (\<exists>a. x = Inr a))"
  by (auto simp: lock_current_user_def tx split: option.splits)

lemma spent_token_refused:
  assumes "decode_verification_token token = Inr b"
    and "\<And>x. x \<in> set (acc_tokens s3) \<Longrightarrow> evt_token_digest x = digest_random_bytes b \<Longrightarrow> \<not> active_token x"
  shows "fst (confirm_current_email_verification (\<lambda>_. s3) token j (Aware t) s2) = Inl (HTTPException 400)"
proof -
  have "fst (consume_email_verification_token (\<lambda>_. s3) token (Aware t) s2) = Inl EmailVerificationTokenError"
  proof (cases "token_by_digest (digest_random_bytes b) s2")
    case (Some cand)
    have "\<not> active_token row" if "token_by_id (evt_id cand) s3 = Some row" "evt_token_digest row = digest_random_bytes b" for row
      using that assms(2) unfolding token_by_id_def by (auto dest: find_SomeD)
    then have spent: "token_by_id (evt_id cand) s3 = Some row \<Longrightarrow> evt_token_digest row \<noteq> digest_random_bytes b \<or>
        evt_deleted_at row \<noteq> None \<or> evt_consumed_at row \<noteq> None \<or> evt_superseded_at row \<noteq> None" for row
      by (auto simp: active_token_def)
    obtain x where x: "lock_current_user (evt_user_id cand) s3 = (x, s3)" "x = Inl EmailVerificationTokenError \<or> (\<exists>a. x = Inr a)"
      using lock_current_user_result by blast
    from x(2) show ?thesis
      by (cases "token_by_id (evt_id cand) s3")
        (use Some assms(1) x(1) spent in \<open>auto simp: consume_email_verification_token_def
           digest_email_verification_token_def tx\<close>)
  qed (simp add: consume_email_verification_token_def digest_email_verification_token_def assms(1) tx)
  then obtain s4 where "consume_email_verification_token (\<lambda>_. s3) token (Aware t) s2 = (Inl EmailVerificationTokenError, s4)"
    by (cases "consume_email_verification_token (\<lambda>_. s3) token (Aware t) s2") auto
  then show ?thesis by (simp add: confirm_current_email_verification_def confirm_email_verification_token_def tx)
qed

lemma evolved_tokens_stay_spent:
  assumes "tokens_evolve (E1, s1) (E2, s2)" "d \<in> digests E1"
    and "\<And>x. x \<in> set (acc_tokens s1) \<Longrightarrow> evt_token_digest x = d \<Longrightarrow> \<not> active_token x"
  shows "d \<in> digests E2 \<and> (\<forall>x \<in> set (acc_tokens s2). evt_token_digest x = d \<longrightarrow> \<not> active_token x)"
proof -
  have "E1 \<subseteq> E2" using assms(1) by (simp add: tokens_evolve_def)
  then have "d \<in> digests E2" using assms(2) unfolding digests_def by blast
  with assms show ?thesis unfolding tokens_evolve_def by fastforce
qed

text \<open>C15: A verification token is used at most once: after a confirmation with it, every later confirmation with the same
  text is refused with status 400, by whichever account and whatever happened in between or during its lock wait.\<close>

theorem verification_token_used_once:
  assumes "recorded (E, s)" "verification_run bc aes key (E, s) (E1, s1)"
    and "confirm_current_email_verification (\<lambda>_. s1) token i clock s = (Inr (), s')"
    and "verification_run bc aes key (E1, s') (E2, s2)" "verification_run bc aes key (E2, s2) (E3, s3)"
  shows "fst (confirm_current_email_verification (\<lambda>_. s3) token j (Aware t) s2) = Inl (HTTPException 400)"
proof -
  from run_records[OF assms(2,1)] have r1: "recorded (E1, s1)" ..
  then have ok1: "accounts_ok s1" and facts: "token_facts s1 \<subseteq> E1" by (simp_all add: recorded_def)
  from assms(3) obtain c where c: "confirm_email_verification_token (\<lambda>_. s1) token i clock s = (Inr c, s')"
    by (auto simp: confirm_current_email_verification_def Let_def split: sum.splits prod.splits)
  from run_records[OF verification_run.confirmed[OF assms(2,3)] assms(1)] have r': "recorded (E1, s')" ..
  from run_records[OF assms(4) r'] have r2: "recorded (E2, s2)" and ev2: "tokens_evolve (E1, s') (E2, s2)" by auto
  from run_records[OF assms(5) r2] have ev3: "tokens_evolve (E2, s2) (E3, s3)" by auto
  show ?thesis
  proof (rule confirm_Inr[OF ok1 c], goal_cases)
    case (1 b cand row account t')
    let ?d = "digest_random_bytes b"
    have d: "?d \<in> digests E1" using facts 1(4,5) by (force simp: token_facts_def digests_def)
    have "\<not> active_token x" if x: "x \<in> set (acc_tokens s')" "evt_token_digest x = ?d" for x
    proof -
      have "y = row" if "y \<in> set (acc_tokens s1)" "evt_token_digest y = ?d" for y
        using evt.no_clash[OF accounts_ok_tables(5)[OF ok1] that(1) 1(4)] that(2) 1(5)
        by (simp add: verification_token_clash_def)
      with x show ?thesis unfolding 1(17) by (auto simp: set_replace_row active_token_def)
    qed
    from evolved_tokens_stay_spent[OF ev2 d this] evolved_tokens_stay_spent[OF ev3, of ?d]
    show ?case by (intro spent_token_refused[OF 1(1)]) blast
  qed
qed

end
