(* ===== verification/Buddy_Chat.thy ===== *)
theory Buddy_Chat
  imports Database Chat_Cursor
begin

text \<open>
  Buddy conversations and messages (\<open>services/buddy_chat.py\<close>, the validators of \<open>models/buddy_chat.py\<close>), and
  the cleanup of expired messages (\<open>services/chat_cleanup.py\<close> with the SQL function of migration 0016). Reads
  return a result; operations that write are transactions. A \<open>fresh\<close> argument is the identifier drawn for a new row.
\<close>

section \<open>Validation and authorization\<close>

definition buddy_message_expires_at :: "clock_value \<Rightarrow> exn + instant" where
  "buddy_message_expires_at created_at =
     ebind (aware ValueError created_at) (\<lambda>t. Inr (t + BUDDY_MESSAGE_MAX_RETENTION))"

definition validate_buddy_message_body :: "pystr \<Rightarrow> exn + pystr" where
  "validate_buddy_message_body body =
     (if py_strip body = [] then Inl ValueError
      else if MAX_BUDDY_MESSAGE_CODE_POINTS < length body then Inl ValueError
      else Inr body)"

definition DEFAULT_CHAT_MESSAGE_PAGE_SIZE :: int where
  "DEFAULT_CHAT_MESSAGE_PAGE_SIZE = 50"

definition MAX_CHAT_MESSAGE_PAGE_SIZE :: int where
  "MAX_CHAT_MESSAGE_PAGE_SIZE = 100"

text \<open>The joined condition every authorized statement repeats: an ACTIVE match with the user as a participant.\<close>

definition active_participant :: "uuid \<Rightarrow> buddy_match \<Rightarrow> bool" where
  "active_participant user m \<longleftrightarrow> mat_status m = ACTIVE \<and> mat_deleted_at m = None
     \<and> (mat_participant_one_user_id m = user \<or> mat_participant_two_user_id m = user)"

definition conversation_of_participant :: "database \<Rightarrow> uuid \<Rightarrow> buddy_conversation \<Rightarrow> bool" where
  "conversation_of_participant db user c \<longleftrightarrow>
     list_ex (\<lambda>m. mat_id m = conv_match_id c \<and> active_participant user m) (db_matches db)"

definition require_authorized_active_conversation :: "uuid \<Rightarrow> uuid \<Rightarrow> database \<Rightarrow> exn + buddy_conversation" where
  "require_authorized_active_conversation conversation_id user db =
     (case find (\<lambda>c. conv_id c = conversation_id \<and> conversation_of_participant db user c) (db_conversations db) of
        None \<Rightarrow> Inl (BuddyChatReadError Chat_CONVERSATION_NOT_FOUND)
      | Some c \<Rightarrow> Inr c)"

definition authorize_buddy_conversation :: "uuid \<Rightarrow> uuid \<Rightarrow> database \<Rightarrow> exn + buddy_conversation" where
  "authorize_buddy_conversation = require_authorized_active_conversation"

definition list_active_buddy_conversation_ids :: "uuid \<Rightarrow> database \<Rightarrow> uuid list" where
  "list_active_buddy_conversation_ids user db =
     map conv_id (select_by conv_id (conversation_of_participant db user) (db_conversations db))"

section \<open>Unread summary and realtime reads\<close>

record unread_conversation =
  unread_conversation_id :: uuid
  unread_count :: nat

record unread_summary =
  unread_conversations :: "unread_conversation list"
  total_unread_messages :: nat

definition unread_for :: "uuid \<Rightarrow> instant \<Rightarrow> buddy_conversation \<Rightarrow> buddy_message \<Rightarrow> bool" where
  "unread_for user now c m \<longleftrightarrow> msg_conversation_id m = conv_id c \<and> msg_sender_id m \<noteq> user
     \<and> msg_read_at m = None \<and> now < msg_expires_at m"

text \<open>\<open>GROUP BY\<close> over the inner joins keeps the conversations with at least one row.\<close>

definition get_buddy_unread_summary :: "uuid \<Rightarrow> clock_value \<Rightarrow> database \<Rightarrow> exn + unread_summary" where
  "get_buddy_unread_summary user clock db =
     ebind (aware ValueError clock) (\<lambda>now.
     let conversations =
           map (\<lambda>c. \<lparr>unread_conversation_id = conv_id c,
                     unread_count = length (filter (unread_for user now c) (db_messages db))\<rparr>)
             (select_by conv_id (\<lambda>c. conversation_of_participant db user c
                 \<and> list_ex (unread_for user now c) (db_messages db)) (db_conversations db))
     in Inr \<lparr>unread_conversations = conversations, total_unread_messages = sum_list (map unread_count conversations)\<rparr>)"

definition get_realtime_buddy_message ::
    "uuid \<Rightarrow> uuid \<Rightarrow> uuid \<Rightarrow> clock_value \<Rightarrow> database \<Rightarrow> exn + buddy_message option" where
  "get_realtime_buddy_message conversation_id user message_id clock db =
     ebind (require_authorized_active_conversation conversation_id user db) (\<lambda>_.
     ebind (aware ValueError clock) (\<lambda>now.
     Inr (find (\<lambda>m. msg_id m = message_id \<and> msg_conversation_id m = conversation_id \<and> now < msg_expires_at m)
            (db_messages db))))"

section \<open>Conversations\<close>

definition get_or_create_buddy_conversation ::
    "uuid \<Rightarrow> uuid \<Rightarrow> clock_value \<Rightarrow> (exn, database, buddy_conversation) txn" where
  "get_or_create_buddy_conversation fresh match_id clock =
     bind_tx (query_tx (\<lambda>db. find (\<lambda>m. mat_id m = match_id \<and> mat_status m = ACTIVE \<and> mat_deleted_at m = None)
                               (db_matches db))) (\<lambda>found.
     case found of
       None \<Rightarrow> raise_tx (BuddyConversationPersistenceError Conversation_ACTIVE_MATCH_REQUIRED)
     | Some buddy_match \<Rightarrow>
         bind_tx (lift_tx (aware ValueError clock)) (\<lambda>created_at.
         bind_tx (insert_conversation_on_conflict \<lparr>conv_id = fresh, conv_match_id = mat_id buddy_match,
                    conv_semester_id = mat_semester_id buddy_match, conv_created_at = created_at\<rparr>) (\<lambda>inserted.
         case inserted of
           Some conversation \<Rightarrow> return_tx conversation
         | None \<Rightarrow>
             bind_tx (query_tx (\<lambda>db. find (\<lambda>c. conv_match_id c = mat_id buddy_match) (db_conversations db)))
               (\<lambda>existing.
                case existing of
                  None \<Rightarrow> raise_tx (BuddyConversationPersistenceError Conversation_ACTIVE_MATCH_REQUIRED)
                | Some c \<Rightarrow> return_tx c))))"

section \<open>Messages\<close>

definition new_message :: "uuid \<Rightarrow> uuid \<Rightarrow> uuid \<Rightarrow> uuid \<Rightarrow> pystr \<Rightarrow> instant \<Rightarrow> instant \<Rightarrow> buddy_message" where
  "new_message fresh conversation_id sender client_message_id body created_at expires_at =
     \<lparr>msg_id = fresh, msg_conversation_id = conversation_id, msg_sender_id = sender,
      msg_client_message_id = client_message_id, msg_body = body, msg_read_at = None,
      msg_expires_at = expires_at, msg_created_at = created_at\<rparr>"

text \<open>\<open>fresh_client\<close> is the \<open>uuid4()\<close> used when the caller passes no client message id.\<close>

definition persist_buddy_message ::
    "uuid \<Rightarrow> uuid \<Rightarrow> uuid \<Rightarrow> uuid \<Rightarrow> pystr \<Rightarrow> uuid option \<Rightarrow> clock_value \<Rightarrow> (exn, database, buddy_message) txn" where
  "persist_buddy_message fresh fresh_client conversation_id sender body client_message_id clock =
     bind_tx (lift_tx (validate_buddy_message_body body)) (\<lambda>validated_body.
     bind_tx (query_tx (\<lambda>db. find (\<lambda>m. mat_status m = ACTIVE \<and> mat_deleted_at m = None
          \<and> list_ex (\<lambda>c. conv_id c = conversation_id \<and> conv_match_id c = mat_id m) (db_conversations db))
        (db_matches db))) (\<lambda>found.
     case found of
       None \<Rightarrow> raise_tx (BuddyMessagePersistenceError Message_ACTIVE_CONVERSATION_REQUIRED)
     | Some buddy_match \<Rightarrow>
         bind_tx (require_tx (sender = mat_participant_one_user_id buddy_match
                              \<or> sender = mat_participant_two_user_id buddy_match)
                    (BuddyMessagePersistenceError Message_SENDER_NOT_PARTICIPANT)) (\<lambda>_.
         bind_tx (lift_tx (aware ValueError clock)) (\<lambda>created_at.
         bind_tx (lift_tx (buddy_message_expires_at (Aware created_at))) (\<lambda>expires_at.
         let message = new_message fresh conversation_id sender
               (case client_message_id of None \<Rightarrow> fresh_client | Some i \<Rightarrow> i) validated_body created_at expires_at
         in bind_tx (insert_message message) (\<lambda>_. return_tx message))))))"

definition send_buddy_message ::
    "uuid \<Rightarrow> uuid \<Rightarrow> uuid \<Rightarrow> uuid \<Rightarrow> pystr \<Rightarrow> clock_value \<Rightarrow> (exn, database, buddy_message) txn" where
  "send_buddy_message fresh conversation_id sender client_message_id body clock =
     bind_tx (lift_tx (validate_buddy_message_body body)) (\<lambda>validated_body.
     bind_tx (rethrow_tx (\<lambda>e. case e of BuddyChatReadError _ \<Rightarrow>
                 BuddyMessagePersistenceError Message_ACTIVE_CONVERSATION_REQUIRED | _ \<Rightarrow> e)
                (\<lambda>db. (require_authorized_active_conversation conversation_id sender db, db))) (\<lambda>_.
     bind_tx (lift_tx (aware ValueError clock)) (\<lambda>created_at.
     bind_tx (lift_tx (buddy_message_expires_at (Aware created_at))) (\<lambda>expires_at.
     bind_tx (insert_message_on_conflict
                (new_message fresh conversation_id sender client_message_id validated_body created_at expires_at))
       (\<lambda>inserted.
        case inserted of
          Some message \<Rightarrow> return_tx message
        | None \<Rightarrow>
            bind_tx (query_tx (\<lambda>db. find (\<lambda>x. msg_sender_id x = sender
                       \<and> msg_client_message_id x = client_message_id) (db_messages db))) (\<lambda>existing.
            case existing of
              None \<Rightarrow> raise_tx (BuddyMessagePersistenceError Message_IDEMPOTENCY_KEY_REUSED)
            | Some x \<Rightarrow>
                if msg_conversation_id x \<noteq> conversation_id \<or> msg_body x \<noteq> validated_body
                   \<or> msg_expires_at x \<le> created_at
                then raise_tx (BuddyMessagePersistenceError Message_IDEMPOTENCY_KEY_REUSED)
                else return_tx x))))))"

section \<open>History\<close>

record message_page =
  page_messages :: "buddy_message list"
  page_next_before :: "pystr option"

definition message_key :: "buddy_message \<Rightarrow> instant \<times> uuid" where
  "message_key m = (msg_created_at m, msg_id m)"

definition list_buddy_messages ::
    "uuid \<Rightarrow> uuid \<Rightarrow> pystr option \<Rightarrow> int \<Rightarrow> clock_value \<Rightarrow> database \<Rightarrow> exn + message_page" where
  "list_buddy_messages conversation_id user before page_size clock db =
     (if \<not> (1 \<le> page_size \<and> page_size \<le> MAX_CHAT_MESSAGE_PAGE_SIZE) then Inl ValueError
      else ebind (require_authorized_active_conversation conversation_id user db) (\<lambda>_.
      ebind (aware ValueError clock) (\<lambda>now.
      ebind (case before of None \<Rightarrow> Inr None
             | Some cursor \<Rightarrow> ebind (decode_buddy_message_cursor cursor) (\<lambda>position. Inr (Some position))) (\<lambda>position.
      let newest_first = take (nat page_size + 1) (rev (select_by message_key
            (\<lambda>m. msg_conversation_id m = conversation_id \<and> now < msg_expires_at m
                 \<and> (case position of None \<Rightarrow> True
                    | Some (cursor_created_at, cursor_id) \<Rightarrow> msg_created_at m < cursor_created_at
                        \<or> (msg_created_at m = cursor_created_at \<and> msg_id m < cursor_id)))
            (db_messages db)));
          has_more = length newest_first > nat page_size;
          selected_newest_first = take (nat page_size) newest_first;
          items = rev selected_newest_first
      in if has_more \<and> selected_newest_first \<noteq> []
         then let oldest = last selected_newest_first in
              ebind (encode_buddy_message_cursor (Aware (msg_created_at oldest)) (msg_id oldest)) (\<lambda>cursor.
              Inr \<lparr>page_messages = items, page_next_before = Some cursor\<rparr>)
         else Inr \<lparr>page_messages = items, page_next_before = None\<rparr>))))"

section \<open>Read acknowledgement\<close>

record read_acknowledgement =
  ack_through_message_id :: uuid
  ack_marked_read_count :: nat

definition read_through :: "uuid \<Rightarrow> uuid \<Rightarrow> buddy_message \<Rightarrow> instant \<Rightarrow> buddy_message \<Rightarrow> bool" where
  "read_through conversation_id reader boundary now m \<longleftrightarrow>
     msg_conversation_id m = conversation_id \<and> msg_sender_id m \<noteq> reader \<and> msg_read_at m = None
     \<and> now < msg_expires_at m
     \<and> (msg_created_at m < msg_created_at boundary
        \<or> (msg_created_at m = msg_created_at boundary \<and> msg_id m \<le> msg_id boundary))"

definition mark_read :: "instant \<Rightarrow> buddy_message \<Rightarrow> buddy_message" where
  "mark_read now m = m\<lparr>msg_read_at := Some now,
     msg_expires_at := min (msg_expires_at m) (now + BUDDY_MESSAGE_READ_RETENTION)\<rparr>"

text \<open>One \<open>UPDATE ... RETURNING id\<close>: it fails as a whole when a changed row breaks a check.\<close>

definition update_messages ::
    "(buddy_message \<Rightarrow> bool) \<Rightarrow> (buddy_message \<Rightarrow> buddy_message) \<Rightarrow> (exn, database, uuid list) txn" where
  "update_messages p f db =
     (let selected = filter p (db_messages db) in
      if list_all (\<lambda>m. message_check (f m)) selected
      then (Inr (map msg_id selected), db\<lparr>db_messages := update_where p f (db_messages db)\<rparr>)
      else (Inl (IntegrityError Check_violation), db))"

definition acknowledge_buddy_messages_read ::
    "uuid \<Rightarrow> uuid \<Rightarrow> uuid \<Rightarrow> clock_value \<Rightarrow> (exn, database, read_acknowledgement) txn" where
  "acknowledge_buddy_messages_read conversation_id reader through_message_id clock =
     bind_tx (lift_tx (aware ValueError clock)) (\<lambda>now.
     bind_tx (query_tx (\<lambda>db. find (\<lambda>m. msg_id m = through_message_id \<and> msg_conversation_id m = conversation_id
          \<and> now < msg_expires_at m
          \<and> list_ex (\<lambda>c. conv_id c = conversation_id \<and> conversation_of_participant db reader c) (db_conversations db))
        (db_messages db))) (\<lambda>found.
     case found of
       None \<Rightarrow> raise_tx (BuddyChatReadError Chat_MESSAGE_NOT_FOUND)
     | Some boundary \<Rightarrow>
         bind_tx (update_messages (read_through conversation_id reader boundary now) (mark_read now)) (\<lambda>updated_ids.
         return_tx \<lparr>ack_through_message_id = through_message_id, ack_marked_read_count = length updated_ids\<rparr>)))"

section \<open>Cleanup\<close>

definition DEFAULT_CHAT_CLEANUP_BATCH_SIZE :: int where
  "DEFAULT_CHAT_CLEANUP_BATCH_SIZE = 20"

definition MAX_CHAT_CLEANUP_BATCH_SIZE :: int where
  "MAX_CHAT_CLEANUP_BATCH_SIZE = 100"

record chat_cleanup_report =
  cleanup_selected :: nat
  cleanup_deleted :: nat

text \<open>
  The function \<open>app_private.cleanup_expired_buddy_messages\<close>: \<open>statement_now\<close> is \<open>statement_timestamp()\<close> and
  \<open>locked\<close> says which rows other transactions hold. The order of \<open>RETURNING\<close> is not specified; the callers only
  count the identifiers, and the model returns them in deletion order.
\<close>

definition cleanup_expired_sql ::
    "instant \<Rightarrow> (uuid \<Rightarrow> bool) \<Rightarrow> int \<Rightarrow> instant \<Rightarrow> (exn, database, uuid list) txn" where
  "cleanup_expired_sql statement_now locked batch_size cleanup_now db =
     (if \<not> (1 \<le> batch_size \<and> batch_size \<le> 100) \<or> statement_now < cleanup_now then (Inl DatabaseError, db)
      else let due = map msg_id (take (nat batch_size) (select_by (\<lambda>m. (msg_expires_at m, msg_id m))
                       (\<lambda>m. msg_expires_at m \<le> cleanup_now \<and> \<not> locked (msg_id m)) (db_messages db)))
        in (Inr due, db\<lparr>db_messages := filter (\<lambda>m. msg_id m \<notin> set due) (db_messages db)\<rparr>))"

definition cleanup_expired_buddy_message_batch ::
    "instant \<Rightarrow> (uuid \<Rightarrow> bool) \<Rightarrow> int \<Rightarrow> clock_value option \<Rightarrow> (exn, database, uuid list) txn" where
  "cleanup_expired_buddy_message_batch statement_now locked batch_size cleanup_now =
     bind_tx (require_tx (1 \<le> batch_size \<and> batch_size \<le> MAX_CHAT_CLEANUP_BATCH_SIZE) ChatCleanupValidationError) (\<lambda>_.
     case cleanup_now of
       None \<Rightarrow> cleanup_expired_sql statement_now locked batch_size statement_now
     | Some value \<Rightarrow>
         bind_tx (lift_tx (aware ChatCleanupValidationError value)) (\<lambda>t.
         cleanup_expired_sql statement_now locked batch_size t))"

definition process_chat_cleanup_batch ::
    "instant \<Rightarrow> (uuid \<Rightarrow> bool) \<Rightarrow> int \<Rightarrow> clock_value option \<Rightarrow> (exn, database, chat_cleanup_report) txn" where
  "process_chat_cleanup_batch statement_now locked batch_size cleanup_now =
     bind_tx (atomic_tx (cleanup_expired_buddy_message_batch statement_now locked batch_size cleanup_now))
       (\<lambda>deleted_ids. return_tx \<lparr>cleanup_selected = length deleted_ids, cleanup_deleted = length deleted_ids\<rparr>)"

end
