(* ===== verification/Invitation_Acceptance.thy ===== *)
theory Invitation_Acceptance
  imports Invitation_Sending Buddy_Chat
begin

text \<open>
  Acceptance of an invitation by its recipient (\<open>services/invitation_acceptance.py\<close>): one transaction that accepts
  the invitation, activates the match, creates the conversation and stages the e-mail event, or changes nothing.
  \<open>other k\<close> is what concurrent transactions commit while the transaction waits for its k-th group of row locks.
\<close>

definition MATCHING_INVITATION_ACCEPTED :: pystr where
  "MATCHING_INVITATION_ACCEPTED = u ''MATCHING_INVITATION_ACCEPTED''"

record invitation_acceptance_result =
  acc_invitation_id :: uuid
  acc_match_id :: uuid
  acc_conversation_id :: uuid
  acc_status :: invitation_status

definition load_owned_invitation :: "uuid \<Rightarrow> uuid \<Rightarrow> database \<Rightarrow> exn + invitation" where
  "load_owned_invitation invitation_id recipient_user_id db =
     (case find (\<lambda>r. inv_id r = invitation_id \<and> inv_recipient_id r = recipient_user_id \<and> inv_deleted_at r = None)
             (db_invitations db) of
        None \<Rightarrow> Inl (InvitationAcceptError Accept_NOT_FOUND)
      | Some r \<Rightarrow> Inr r)"

definition load_completed_result :: "invitation \<Rightarrow> database \<Rightarrow> exn + invitation_acceptance_result" where
  "load_completed_result r db =
     (case find (\<lambda>m. mat_accepted_invitation_id m = inv_id r \<and> mat_deleted_at m = None) (db_matches db) of
        None \<Rightarrow> Inl (InvitationAcceptError Accept_STATE_CONFLICT)
      | Some m \<Rightarrow>
          (case find (\<lambda>c. conv_match_id c = mat_id m) (db_conversations db) of
             None \<Rightarrow> Inl (InvitationAcceptError Accept_STATE_CONFLICT)
           | Some c \<Rightarrow> Inr \<lparr>acc_invitation_id = inv_id r, acc_match_id = mat_id m,
                             acc_conversation_id = conv_id c, acc_status = ACCEPTED\<rparr>))"

fun activation_reason :: "buddy_match_activation_reason \<Rightarrow> invitation_accept_reason" where
  "activation_reason Match_PARTICIPANT_STATE_INVALID = Accept_PARTICIPANT_INELIGIBLE"
| "activation_reason Match_OPPOSITE_TYPES_REQUIRED = Accept_OPPOSITE_TYPES_REQUIRED"
| "activation_reason Match_ACTIVE_PAIR_EXISTS = Accept_ACTIVE_PAIR_EXISTS"
| "activation_reason Match_INVITATION_NOT_ACCEPTED = Accept_STATE_CONFLICT"

definition map_activation_error :: "exn \<Rightarrow> exn" where
  "map_activation_error e =
     (case e of BuddyMatchActivationError reason \<Rightarrow> InvitationAcceptError (activation_reason reason) | _ \<Rightarrow> e)"

definition require_current_eligibility ::
    "unicode_db \<Rightarrow> verified_buddy_principal \<Rightarrow> bool \<Rightarrow> database \<Rightarrow> exn + eligible_matching_principal" where
  "require_current_eligibility uni p recipient db =
     capability_as (InvitationAcceptError (if recipient then Accept_RECIPIENT_INELIGIBLE
                                           else Accept_PARTICIPANT_INELIGIBLE))
       (get_eligible_matching_principal uni db p)"

definition accepted_event_key :: "uuid \<Rightarrow> pystr" where
  "accepted_event_key i = u ''matching-invitation-accepted:'' @ uuid_str i"

text \<open>The last part of the handler: from the locked, pending and unexpired invitation to the receipt.\<close>

definition complete_acceptance ::
    "unicode_db \<Rightarrow> tz_db \<Rightarrow> uuid \<Rightarrow> uuid \<Rightarrow> uuid \<Rightarrow> locked_buddy_participants \<Rightarrow> eligible_matching_principal
       \<Rightarrow> eligible_matching_principal \<Rightarrow> invitation \<Rightarrow> instant \<Rightarrow> (exn, database, invitation_acceptance_result) txn" where
  "complete_acceptance uni tz fresh_match fresh_conversation fresh_event participants sender recipient row accepted_at =
     bind_tx (\<lambda>db. (load_matching_pair_scoring_profiles tz db sender recipient Locale_en, db)) (\<lambda>scoring_profiles.
     case scoring_profiles of
       None \<Rightarrow> raise_tx (InvitationAcceptError Accept_PARTICIPANT_INELIGIBLE)
     | Some (sender_profile, recipient_profile) \<Rightarrow>
     bind_tx (lift_tx (score_eligible_pair uni tz sender recipient sender_profile recipient_profile
                         (current_reference_week_start accepted_at))) (\<lambda>compatibility.
     bind_tx (lift_tx (invitation_accept (Aware accepted_at) row)) (\<lambda>accepted.
     bind_tx (rethrow_tx map_activation_error
                (activate_buddy_match fresh_match (Some accepted) (inv_id row) compatibility (Some participants)
                   (Aware accepted_at))) (\<lambda>buddy_match.
     bind_tx (get_or_create_buddy_conversation fresh_conversation (mat_id buddy_match) (Aware accepted_at)) (\<lambda>conversation.
     bind_tx (enqueue_transactional_email fresh_event MATCHING_INVITATION_ACCEPTED (inv_id row)
                (Some (usr_id (lock_sender_user participants))) (usr_email (lock_sender_user participants))
                (accepted_event_key (inv_id row))
                [(PyStr (u ''invitation_id''), PyStr (uuid_str (inv_id row))),
                 (PyStr (u ''match_id''), PyStr (uuid_str (mat_id buddy_match))),
                 (PyStr (u ''conversation_id''), PyStr (uuid_str (conv_id conversation)))] (Aware accepted_at)) (\<lambda>_.
     return_tx \<lparr>acc_invitation_id = inv_id row, acc_match_id = mat_id buddy_match,
       acc_conversation_id = conv_id conversation, acc_status = ACCEPTED\<rparr>))))))"

definition accept_matching_invitation ::
    "unicode_db \<Rightarrow> tz_db \<Rightarrow> (nat \<Rightarrow> database \<Rightarrow> database) \<Rightarrow> uuid \<Rightarrow> uuid \<Rightarrow> uuid \<Rightarrow> verified_buddy_principal \<Rightarrow> uuid
       \<Rightarrow> (nat \<Rightarrow> clock_value) \<Rightarrow> (exn, database, invitation_acceptance_result) txn" where
  "accept_matching_invitation uni tz other fresh_match fresh_conversation fresh_event current invitation_id clock =
     bind_tx (\<lambda>db. (load_owned_invitation invitation_id (usr_id (principal_user current)) db, db)) (\<lambda>observed.
     if inv_status observed = ACCEPTED then (\<lambda>db. (load_completed_result observed db, db))
     else if inv_status observed \<noteq> PENDING then raise_tx (InvitationAcceptError Accept_NOT_PENDING)
     else bind_tx (lift_tx (aware ValueError (clock 0))) (\<lambda>observed_at.
     if effective_invitation_status observed observed_at = EXPIRED then raise_tx (InvitationAcceptError Accept_EXPIRED)
     else bind_tx (commit_others (other 0)) (\<lambda>_.
     bind_tx (rethrow_tx map_activation_error (\<lambda>db. (lock_buddy_match_participants observed db, db))) (\<lambda>participants.
     bind_tx (\<lambda>db. (require_current_eligibility uni \<lparr>principal_user = lock_sender_user participants,
                principal_profile = lock_sender_profile participants\<rparr> False db, db)) (\<lambda>sender.
     bind_tx (\<lambda>db. (require_current_eligibility uni \<lparr>principal_user = lock_recipient_user participants,
                principal_profile = lock_recipient_profile participants\<rparr> True db, db)) (\<lambda>recipient.
     if elig_user_id recipient \<noteq> usr_id (principal_user current) then raise_tx (InvitationAcceptError Accept_NOT_FOUND)
     else if \<not> matching_pair_is_eligible sender recipient
     then raise_tx (InvitationAcceptError Accept_OPPOSITE_TYPES_REQUIRED)
     else bind_tx (commit_others (other 1)) (\<lambda>_.
     bind_tx (\<lambda>db. (load_owned_invitation invitation_id (usr_id (principal_user current)) db, db)) (\<lambda>row.
     if inv_sender_id row \<noteq> inv_sender_id observed then raise_tx (InvitationAcceptError Accept_STATE_CONFLICT)
     else if inv_status row = ACCEPTED then (\<lambda>db. (load_completed_result row db, db))
     else if inv_status row \<noteq> PENDING then raise_tx (InvitationAcceptError Accept_NOT_PENDING)
     else bind_tx (lift_tx (aware ValueError (clock 1))) (\<lambda>accepted_at.
     if effective_invitation_status row accepted_at = EXPIRED then raise_tx (InvitationAcceptError Accept_EXPIRED)
     else complete_acceptance uni tz fresh_match fresh_conversation fresh_event participants sender recipient row
            accepted_at)))))))))"

end
