(* ===== verification/Invitation_Policy.thy ===== *)
theory Invitation_Policy
  imports Invitation_Sending
begin

text \<open>
  What sending guarantees: the revalidated pair, the pair's pending invitation and the pending limit, the sent row
  and its e-mail event.
\<close>

section \<open>The pair is revalidated\<close>

lemma user_by_id_Some: "user_by_id db i = Some r \<Longrightarrow> r \<in> set (db_users db) \<and> usr_id r = i"
  by (auto simp: user_by_id_def dest: find_SomeD)

lemma profile_by_user_Some: "profile_by_user db i = Some p \<Longrightarrow> p \<in> set (db_profiles db) \<and> prof_user_id p = i"
  by (auto simp: profile_by_user_def dest: find_SomeD)

lemma capability_as_Inr [tx]: "capability_as e r = Inr x \<longleftrightarrow> r = Inr x"
  by (auto simp: capability_as_def split: sum.splits exn.splits)

definition revalidated ::
    "unicode_db \<Rightarrow> uuid \<Rightarrow> uuid \<Rightarrow> uuid \<Rightarrow> database \<Rightarrow> user \<Rightarrow> user \<Rightarrow> eligible_matching_principal
       \<Rightarrow> eligible_matching_principal \<Rightarrow> bool" where
  "revalidated uni s r pid db su ru sp rp \<longleftrightarrow>
     user_by_id db s = Some su \<and> user_by_id db r = Some ru \<and> is_available_user (Some su) \<and> is_available_user (Some ru)
     \<and> usr_semester_id su \<noteq> None \<and> usr_semester_id ru = usr_semester_id su
     \<and> (\<exists>sprof rprof. profile_by_user db s = Some sprof \<and> profile_by_user db r = Some rprof \<and> prof_id rprof = pid
          \<and> get_eligible_matching_principal uni db \<lparr>principal_user = su, principal_profile = sprof\<rparr> = Inr sp
          \<and> get_eligible_matching_principal uni db \<lparr>principal_user = ru, principal_profile = rprof\<rparr> = Inr rp)
     \<and> elig_user_id sp = s \<and> elig_user_id rp = r \<and> matching_pair_is_eligible sp rp"

lemma revalidate_Inr:
  "revalidate_pair uni s r pid db = Inr (su, ru, sp, rp) \<Longrightarrow> revalidated uni s r pid db su ru sp rp"
  unfolding revalidate_pair_def
  by (auto simp: revalidated_def tx guard_Inr_iff split: option.split_asm if_split_asm dest: user_by_id_Some)

lemma revalidate_distinct: "revalidated uni s r pid db su ru sp rp \<Longrightarrow> s \<noteq> r"
  by (auto simp: revalidated_def matching_pair_is_eligible_def)

lemma canonical_pair_iff:
  "canonical_user_pair a b = Inr p \<longleftrightarrow> a \<noteq> b \<and> p = (pair_low a b, pair_high a b)"
  by (auto simp: canonical_user_pair_def pair_low_def pair_high_def)

section \<open>Expiring the pair's pending invitation\<close>

lemma expire_pair_Inr:
  assumes ok: "db_ok db" and run: "expire_or_reject_pending_pair a b t db = (Inr x, db')"
  shows "db_ok db' \<and> a \<noteq> b \<and> db' = db\<lparr>db_invitations := db_invitations db'\<rparr>
     \<and> invitations_evolve (db_invitations db) (db_invitations db')
     \<and> map inv_id (db_invitations db') = map inv_id (db_invitations db)
     \<and> (\<forall>r \<in> set (db_invitations db'). inv_pair r = (pair_low a b, pair_high a b) \<longrightarrow> inv_status r \<noteq> PENDING)
     \<and> (\<forall>s. pending_count s t db' = pending_count s t db)"
proof -
  let ?pair = "(pair_low a b, pair_high a b)"
  let ?found = "find (\<lambda>r. inv_pair r = ?pair \<and> inv_status r = PENDING) (db_invitations db)"
  note tab = db_ok_tables(5)[OF ok]
  from run have ab: "a \<noteq> b" and pair: "canonical_user_pair a b = Inr ?pair"
    by (auto simp: expire_or_reject_pending_pair_def tx canonical_pair_iff)
  show ?thesis
  proof (cases ?found)
    case None
    with run pair have "db' = db" by (simp add: expire_or_reject_pending_pair_def)
    moreover have "\<forall>r \<in> set (db_invitations db). inv_pair r = ?pair \<longrightarrow> inv_status r \<noteq> PENDING"
      using None by (auto simp: find_None_iff)
    ultimately show ?thesis using ok ab by simp
  next
    case (Some r)
    then have r: "r \<in> set (db_invitations db)" "inv_pair r = ?pair" "inv_status r = PENDING" by (auto dest: find_SomeD)
    from run pair Some have late: "inv_expires_at r \<le> t"
      by (auto simp: expire_or_reject_pending_pair_def tx split: if_split_asm)
    have check: "invitation_check r" by (rule inv.row_ok[OF tab r(1)])
    have created: "inv_created_at r \<le> t" using check_created_expires[OF check] late by simp
    then have expire: "invitation_expire (Aware t) r = Inr (stamped EXPIRED t r)"
      using late r(3) by (simp add: invitation_expire_def require_aware_def transition_Inr_iff)
    note one = expire_one[OF ok r(1), of t, unfolded expired_pending_predicate_def, OF conjI[OF r(3) late]]
    from run pair Some late expire one(1) have db': "db' = replace_invitation (flushed db (stamped EXPIRED t r)) db"
      by (simp add: expire_or_reject_pending_pair_def)
    have ok': "db_ok db'" unfolding db' by (rule one(2))
    have rows: "db_invitations db' = update_where (\<lambda>x. inv_id x = inv_id r) (\<lambda>_. flushed db (stamped EXPIRED t r)) (db_invitations db)"
      by (simp add: db' replace_invitation_def)
    have "invitations_evolve (db_invitations db) (db_invitations db')" unfolding db' by (rule one(3))
    moreover have "map inv_id (db_invitations db') = map inv_id (db_invitations db)"
      unfolding rows by (rule update_where_map_eq) simp
    moreover have "\<forall>x \<in> set (db_invitations db'). inv_pair x = ?pair \<longrightarrow> inv_status x \<noteq> PENDING"
    proof (intro ballI impI notI)
      fix x assume x: "x \<in> set (db_invitations db')" "inv_pair x = ?pair" "inv_status x = PENDING"
      then have "x \<in> set (db_invitations db)" "inv_id x \<noteq> inv_id r" unfolding rows by (auto simp: set_update_where)
      with inv.no_clash[OF tab, of x r] r x show False by (auto simp: invitation_clash_def)
    qed
    moreover have "pending_count s t db' = pending_count s t db" for s
    proof -
      have "filter (\<lambda>r. inv_sender_id r = s \<and> effective_pending_predicate t r) (update_where (\<lambda>x. inv_id x = inv_id r)
          (\<lambda>_. flushed db (stamped EXPIRED t r)) rows) =
        filter (\<lambda>r. inv_sender_id r = s \<and> effective_pending_predicate t r) rows" if "set rows \<subseteq> set (db_invitations db)" for rows
        using that
      proof (induction rows)
        case (Cons x rows)
        have "inv_id x = inv_id r \<Longrightarrow> x = r" using Cons.prems inv.key_inj[OF tab _ r(1)] by auto
        with Cons late show ?case by (auto simp: update_where_def effective_pending_predicate_def)
      qed (simp add: update_where_def)
      from this[of "db_invitations db"] show ?thesis by (simp add: pending_count_def rows)
    qed
    ultimately show ?thesis using ok' ab by (simp add: db' replace_invitation_def)
  qed
qed

section \<open>What a sent invitation is\<close>

lemma canonical_message_Inr:
  "canonicalize_invitation_message m = Inr c \<longleftrightarrow> c = \<lparr>cim_value = py_strip m, cim_word_count = length (py_split (py_strip m)),
     cim_code_point_count = length (py_strip m)\<rparr> \<and> length (py_strip m) \<le> MAX_INVITATION_MESSAGE_CODE_POINTS
     \<and> length (py_split (py_strip m)) \<le> MAX_INVITATION_MESSAGE_WORDS"
  by (auto simp: canonicalize_invitation_message_def Let_def word_runs_eq_split)

definition new_invitation :: "uuid \<Rightarrow> uuid \<Rightarrow> uuid \<Rightarrow> pystr \<Rightarrow> instant \<Rightarrow> invitation" where
  "new_invitation fresh s r m t = \<lparr>inv_id = fresh, inv_sender_id = s, inv_recipient_id = r, inv_message = m,
     inv_status = PENDING, inv_expires_at = t + INVITATION_EXPIRY_INTERVAL, inv_responded_at = None,
     inv_cancelled_at = None, inv_expired_at = None, inv_sender_hidden_at = None, inv_version = 1,
     inv_created_at = t, inv_updated_at = t, inv_deleted_at = None\<rparr>"

definition eligible_pair_in :: "unicode_db \<Rightarrow> database \<Rightarrow> uuid \<Rightarrow> uuid \<Rightarrow> uuid \<Rightarrow> bool" where
  "eligible_pair_in uni db s r pid \<longleftrightarrow> (\<exists>su ru sp rp. revalidated uni s r pid db su ru sp rp)"

definition no_active_match :: "uuid \<Rightarrow> uuid \<Rightarrow> database \<Rightarrow> bool" where
  "no_active_match a b db = list_all (\<lambda>m. mat_pair m = (pair_low a b, pair_high a b) \<longrightarrow> mat_status m \<noteq> ACTIVE) (db_matches db)"

lemma send_Inr:
  assumes other: "\<forall>d. db_ok d \<longrightarrow> db_ok (other d)" and ok: "db_ok db"
    and run: "send_matching_invitation uni other fresh fresh_event sender pid message clock db = (Inr row, db')"
  obtains t r ru db1 event where "clock = Aware t"
    "length (py_strip message) \<le> MAX_INVITATION_MESSAGE_CODE_POINTS"
    "length (py_split (py_strip message)) \<le> MAX_INVITATION_MESSAGE_WORDS"
    "eligible_pair_in uni (other db) (elig_user_id sender) r pid"
    "expire_or_reject_pending_pair (elig_user_id sender) r t (other db) = (Inr (), db1)"
    "no_active_match (elig_user_id sender) r db1"
    "pending_count (elig_user_id sender) t db1 < MAX_OUTGOING_PENDING_INVITATIONS"
    "row = new_invitation fresh (elig_user_id sender) r (py_strip message) t"
    "insert_invitation row db1 = (Inr (), db1\<lparr>db_invitations := db_invitations db1 @ [row]\<rparr>)"
    "db_ok (db1\<lparr>db_invitations := db_invitations db1 @ [row]\<rparr>)"
    "user_by_id (other db) r = Some ru"
    "enqueue_transactional_email fresh_event MATCHING_INVITATION_CREATED fresh (Some r) (usr_email ru)
           (created_event_key fresh) [(PyStr (u ''invitation_id''), PyStr (uuid_str fresh))] (Aware t)
           (db1\<lparr>db_invitations := db_invitations db1 @ [row]\<rparr>) = (Inr event, db')"
proof -
  let ?s = "elig_user_id sender"
  from run obtain t where t: "clock = Aware t" unfolding send_matching_invitation_def by (auto simp: tx)
  from run obtain c where c: "canonicalize_invitation_message message = Inr c"
    unfolding send_matching_invitation_def by (auto simp: tx)
  from run obtain su ru sp rp r where pair: "recipient_of_profile ?s pid db = Inr r"
      "revalidate_pair uni ?s r pid (other db) = Inr (su, ru, sp, rp)"
    unfolding send_matching_invitation_def lock_and_revalidate_pair_def by (auto simp: tx commit_others_def)
  note rv = revalidate_Inr[OF pair(2)]
  then have ids: "elig_user_id sp = ?s" "elig_user_id rp = r" "user_by_id (other db) r = Some ru"
    by (auto simp: revalidated_def)
  have usr: "usr_id ru = r" using user_by_id_Some[OF ids(3)] by simp
  have lock: "lock_and_revalidate_pair uni other ?s pid db = (Inr (su, ru, sp, rp), other db)"
    using pair by (simp add: lock_and_revalidate_pair_def commit_others_def)
  let ?row = "new_invitation fresh ?s r (cim_value c) t"
  from run[unfolded send_matching_invitation_def] c t lock ids usr obtain db1 event where
      steps: "expire_or_reject_pending_pair ?s r t (other db) = (Inr (), db1)"
        "reject_active_pair ?s r db1 = (Inr (), db1)" "require_pending_capacity ?s t db1 = (Inr (), db1)"
        "row = ?row"
      and ins: "\<exists>db2. insert_invitation ?row db1 = (Inr (), db2) \<and>
        enqueue_transactional_email fresh_event MATCHING_INVITATION_CREATED fresh (Some r) (usr_email ru)
           (created_event_key fresh) [(PyStr (u ''invitation_id''), PyStr (uuid_str fresh))] (Aware t) db2 = (Inr event, db')"
    by (simp add: Let_def invitation_expires_at_def require_aware_def)
       (auto simp: tx reject_active_pair_def require_pending_capacity_def new_invitation_def)
  from ins obtain db2 where db2: "insert_invitation ?row db1 = (Inr (), db2)"
      "enqueue_transactional_email fresh_event MATCHING_INVITATION_CREATED fresh (Some r) (usr_email ru)
           (created_event_key fresh) [(PyStr (u ''invitation_id''), PyStr (uuid_str fresh))] (Aware t) db2 = (Inr event, db')" by blast
  have msg: "cim_value c = py_strip message" "length (py_strip message) \<le> MAX_INVITATION_MESSAGE_CODE_POINTS"
      "length (py_split (py_strip message)) \<le> MAX_INVITATION_MESSAGE_WORDS"
    using c by (auto simp: canonical_message_Inr)
  have row: "row = new_invitation fresh ?s r (py_strip message) t" using steps(4) msg(1) by simp
  have eq2: "db2 = db1\<lparr>db_invitations := db_invitations db1 @ [row]\<rparr>" using db2(1) steps(4) by (simp add: insert_invitation_Inr)
  have "db_ok db1" using expire_pair_Inr[OF other[rule_format, OF ok] steps(1)] by simp
  then have ok2: "db_ok db2" using db2(1) by (rule insert_invitation_db_ok)
  have free: "no_active_match ?s r db1"
    using steps(2) by (auto simp: reject_active_pair_def tx canonical_pair_iff no_active_match_def list_ex_iff list_all_iff)
  have room: "pending_count ?s t db1 < MAX_OUTGOING_PENDING_INVITATIONS"
    using steps(3) by (auto simp: require_pending_capacity_def tx)
  have eligible: "eligible_pair_in uni (other db) ?s r pid" using rv unfolding eligible_pair_in_def by blast
  show ?thesis
    by (rule that[OF t msg(2,3) eligible steps(1) free room row _ _ ids(3)])
       (use db2 ok2 steps(4) in \<open>simp_all add: eq2\<close>)
qed

lemma send_effect:
  assumes other: "\<forall>d. db_ok d \<longrightarrow> db_ok (other d)" and ok: "db_ok db"
    and run: "send_matching_invitation uni other fresh fresh_event sender pid message clock db = (Inr row, db')"
  shows "\<exists>kept event. db' = (other db)\<lparr>db_invitations := kept @ [row], db_outbox := db_outbox (other db) @ [event]\<rparr>
     \<and> db_ok db' \<and> invitations_evolve (db_invitations (other db)) kept \<and> inv_status row = PENDING
     \<and> map inv_id kept = map inv_id (db_invitations (other db)) \<and> inv_id row = fresh"
proof -
  obtain t r db1 event and ru :: user where *:
    "expire_or_reject_pending_pair (elig_user_id sender) r t (other db) = (Inr (), db1)"
    "row = new_invitation fresh (elig_user_id sender) r (py_strip message) t"
    "db_ok (db1\<lparr>db_invitations := db_invitations db1 @ [row]\<rparr>)"
    "enqueue_transactional_email fresh_event MATCHING_INVITATION_CREATED fresh (Some r) (usr_email ru)
           (created_event_key fresh) [(PyStr (u ''invitation_id''), PyStr (uuid_str fresh))] (Aware t)
           (db1\<lparr>db_invitations := db_invitations db1 @ [row]\<rparr>) = (Inr event, db')"
    by (rule send_Inr[OF assms]) (rule that)
  from enqueue_Inr[OF *(4)] have ins: "insert_outbox event (db1\<lparr>db_invitations := db_invitations db1 @ [row]\<rparr>) = (Inr (), db')" by blast
  note ex = expire_pair_Inr[OF other[rule_format, OF ok] *(1)]
  from ex obtain kept where kept: "db1 = (other db)\<lparr>db_invitations := kept\<rparr>" by blast
  with ins have "db' = (other db)\<lparr>db_invitations := kept @ [row], db_outbox := db_outbox (other db) @ [event]\<rparr>"
    unfolding insert_outbox_Inr by simp
  moreover have "db_ok db'" by (rule enqueue_db_ok[OF *(3,4)])
  ultimately show ?thesis using ex *(2) by (auto simp: new_invitation_def kept)
qed


end
