(* ===== verification/Chat_History.thy ===== *)
theory Chat_History
  imports Buddy_Chat
begin

text \<open>
  Sending and paging: the outcome of a send, its idempotence, and the history pages, which partition the
  effective messages of a conversation when a client follows the cursors.
\<close>

section \<open>Sending\<close>

lemma find_append: "find p (xs @ ys) = (case find p xs of None \<Rightarrow> find p ys | Some x \<Rightarrow> Some x)"
  by (induction xs) auto

lemma dropWhile_all: "dropWhile p s = [] \<longleftrightarrow> list_all p s"
  by (simp add: dropWhile_eq_Nil_conv list_all_iff)

lemma strip_by_Nil_iff: "strip_by p s = [] \<longleftrightarrow> list_all p s"
proof
  assume "strip_by p s = []"
  then have "dropWhile p (rev (dropWhile p s)) = []" by (simp add: strip_by_def)
  then have "list_all p (dropWhile p s)" unfolding dropWhile_all by (simp add: list_all_iff)
  then have "dropWhile p s = []" by (metis hd_dropWhile hd_in_set list_all_iff)
  then show "list_all p s" by (simp only: dropWhile_all)
qed (simp add: strip_by_def dropWhile_all[THEN iffD2])

lemma validate_body_Inr:
  "validate_buddy_message_body body = Inr b \<longleftrightarrow>
     b = body \<and> py_strip body \<noteq> [] \<and> length body \<le> MAX_BUDDY_MESSAGE_CODE_POINTS"
  by (auto simp: validate_buddy_message_body_def)

text \<open>A body the Python validator accepts also passes the check constraint.\<close>

lemma new_message_check:
  "validate_buddy_message_body body = Inr b \<Longrightarrow>
     message_check (new_message fresh cid sender key b t (t + BUDDY_MESSAGE_MAX_RETENTION))"
  by (auto simp: validate_body_Inr message_check_def new_message_def strip_by_Nil_iff list_ex_iff list_all_iff
      pg_space_def py_isspace_def)

lemma authorized_iff:
  assumes "db_ok db"
  shows "require_authorized_active_conversation cid user db = Inr c \<longleftrightarrow>
     c \<in> set (db_conversations db) \<and> conv_id c = cid \<and> conversation_of_participant db user c"
proof
  assume "require_authorized_active_conversation cid user db = Inr c"
  then show "c \<in> set (db_conversations db) \<and> conv_id c = cid \<and> conversation_of_participant db user c"
    by (auto simp: require_authorized_active_conversation_def split: option.split_asm dest: find_SomeD)
next
  assume c: "c \<in> set (db_conversations db) \<and> conv_id c = cid \<and> conversation_of_participant db user c"
  then have "find (\<lambda>c. conv_id c = cid \<and> conversation_of_participant db user c) (db_conversations db) = Some c"
    by (intro find_unique) (auto dest: conv.key_inj[OF db_ok_tables(7)[OF assms]])
  then show "require_authorized_active_conversation cid user db = Inr c"
    by (simp add: require_authorized_active_conversation_def)
qed

lemma authorized_Inl:
  "require_authorized_active_conversation cid user db = Inl e \<Longrightarrow> e = BuddyChatReadError Chat_CONVERSATION_NOT_FOUND"
  by (auto simp: require_authorized_active_conversation_def split: option.split_asm)

lemma authorized_trigger:
  assumes "db_ok db" "require_authorized_active_conversation (msg_conversation_id r) (msg_sender_id r) db = Inr c"
  shows "message_sender_trigger db r \<and> message_refs db r"
proof -
  from assms obtain m where c: "c \<in> set (db_conversations db)" "conv_id c = msg_conversation_id r"
    and m: "m \<in> set (db_matches db)" "mat_id m = conv_match_id c" "active_participant (msg_sender_id r) m"
    by (auto simp: authorized_iff conversation_of_participant_def list_ex_iff)
  from m(1) assms(1) have "match_refs db m" by (simp add: db_ok_def list_all_iff)
  with m(3) have "msg_sender_id r \<in> usr_id ` set (db_users db)"
    by (metis match_refs_def active_participant_def)
  with c m show ?thesis
    by (auto simp: message_sender_trigger_def message_refs_def list_ex_iff active_participant_def
        intro!: bexI[of _ c] bexI[of _ m] image_eqI[of _ _ c])
qed

definition message_of_client :: "uuid \<Rightarrow> uuid \<Rightarrow> database \<Rightarrow> buddy_message option" where
  "message_of_client sender key db =
     find (\<lambda>x. msg_sender_id x = sender \<and> msg_client_message_id x = key) (db_messages db)"

text \<open>The outcome of an authorized send of a valid body.\<close>

lemma send_run:
  assumes "db_ok db" "validate_buddy_message_body body = Inr b"
    and "require_authorized_active_conversation cid sender db = Inr c"
  shows "send_buddy_message fresh cid sender key body (Aware t) db =
     (case message_of_client sender key db of
        Some x \<Rightarrow> (if msg_conversation_id x \<noteq> cid \<or> msg_body x \<noteq> body \<or> msg_expires_at x \<le> t
                   then Inl (BuddyMessagePersistenceError Message_IDEMPOTENCY_KEY_REUSED) else Inr x, db)
      | None \<Rightarrow>
          if fresh \<in> msg_id ` set (db_messages db) then (Inl (IntegrityError Unique_violation), db)
          else let m = new_message fresh cid sender key body t (t + BUDDY_MESSAGE_MAX_RETENTION)
               in (Inr m, db\<lparr>db_messages := db_messages db @ [m]\<rparr>))"
proof -
  let ?m = "new_message fresh cid sender key body t (t + BUDDY_MESSAGE_MAX_RETENTION)"
  from assms(2) have b: "b = body" by (simp add: validate_body_Inr)
  have check: "message_check ?m" using new_message_check assms(2) b by simp
  have refs: "message_sender_trigger db ?m \<and> message_refs db ?m"
    using authorized_trigger[OF assms(1), of ?m] assms(3) by (simp add: new_message_def)
  have exp: "buddy_message_expires_at (Aware t) = Inr (t + BUDDY_MESSAGE_MAX_RETENTION)"
    by (simp add: buddy_message_expires_at_def)
  have ins: "insert_message_on_conflict ?m db =
     (case message_of_client sender key db of
        Some x \<Rightarrow> (Inr None, db)
      | None \<Rightarrow>
          if fresh \<in> msg_id ` set (db_messages db) then (Inl (IntegrityError Unique_violation), db)
          else (Inr (Some ?m), db\<lparr>db_messages := db_messages db @ [?m]\<rparr>))"
  proof (cases "message_of_client sender key db")
    case None
    then have "\<not> list_ex (\<lambda>x. msg_sender_id x = sender \<and> msg_client_message_id x = key) (db_messages db)"
      by (auto simp: message_of_client_def find_None_iff list_ex_iff)
    then show ?thesis using check refs None
      by (auto simp: insert_message_on_conflict_def insert_message_def insert_checked_def message_clash_def
          new_message_def list_ex_iff image_iff)
  next
    case (Some x)
    then have "list_ex (\<lambda>x. msg_sender_id x = sender \<and> msg_client_message_id x = key) (db_messages db)"
      by (auto simp: message_of_client_def list_ex_iff dest: find_SomeD)
    then show ?thesis using check refs Some
      by (simp add: insert_message_on_conflict_def new_message_def)
  qed
  show ?thesis
    by (cases "message_of_client sender key db")
       (auto simp: send_buddy_message_def assms(2,3) b exp ins rethrow_tx_def Let_def
          message_of_client_def[symmetric])
qed

lemma send_message_Inr:
  assumes "db_ok db" "send_buddy_message fresh cid sender key body clock db = (Inr m, db')"
  obtains t c where "clock = Aware t" "validate_buddy_message_body body = Inr body"
    "require_authorized_active_conversation cid sender db = Inr c" "message_of_client sender key db' = Some m"
    "msg_conversation_id m = cid" "msg_body m = body" "t < msg_expires_at m"
    "db' = db \<or> (db' = db\<lparr>db_messages := db_messages db @ [m]\<rparr> \<and> message_of_client sender key db = None
       \<and> m = new_message fresh cid sender key body t (t + BUDDY_MESSAGE_MAX_RETENTION))"
proof -
  from assms(2) have "validate_buddy_message_body body = Inr body"
    unfolding send_buddy_message_def by (auto simp: tx validate_body_Inr)
  moreover from assms(2) obtain c where "require_authorized_active_conversation cid sender db = Inr c"
    unfolding send_buddy_message_def by (auto simp: tx)
  moreover from assms(2) obtain t where "clock = Aware t"
    unfolding send_buddy_message_def by (auto simp: tx)
  ultimately have run: "validate_buddy_message_body body = Inr body" "clock = Aware t"
    "require_authorized_active_conversation cid sender db = Inr c" by auto
  note s = assms(2)[unfolded run(2) send_run[OF assms(1) run(1,3)]]
  show ?thesis
  proof (rule that[OF run(2,1,3)])
    show "message_of_client sender key db' = Some m" "msg_conversation_id m = cid" "msg_body m = body"
      "t < msg_expires_at m"
      "db' = db \<or> (db' = db\<lparr>db_messages := db_messages db @ [m]\<rparr> \<and> message_of_client sender key db = None
       \<and> m = new_message fresh cid sender key body t (t + BUDDY_MESSAGE_MAX_RETENTION))"
      using s
      by (auto simp: Let_def message_of_client_def find_append new_message_def BUDDY_MESSAGE_MAX_RETENTION_def
          day_us_def not_le split: option.split_asm if_split_asm)
  qed
qed

lemma send_db_ok: "db_ok db \<Longrightarrow> send_buddy_message fresh cid sender key body clock db = (Inr m, db') \<Longrightarrow> db_ok db'"
proof -
  assume ok: "db_ok db" and s: "send_buddy_message fresh cid sender key body clock db = (Inr m, db')"
  from send_message_Inr[OF ok s] obtain t c where *: "validate_buddy_message_body body = Inr body"
    "require_authorized_active_conversation cid sender db = Inr c" "clock = Aware t"
    "db' = db \<or> (db' = db\<lparr>db_messages := db_messages db @ [m]\<rparr> \<and> message_of_client sender key db = None
       \<and> m = new_message fresh cid sender key body t (t + BUDDY_MESSAGE_MAX_RETENTION))" by metis
  show "db_ok db'"
  proof (cases "db' = db")
    case False
    with * have m: "m = new_message fresh cid sender key body t (t + BUDDY_MESSAGE_MAX_RETENTION)"
      and db': "db' = db\<lparr>db_messages := db_messages db @ [m]\<rparr>" and none: "message_of_client sender key db = None" by auto
    have "fresh \<notin> msg_id ` set (db_messages db)"
      using s[unfolded *(3) send_run[OF ok *(1,2)]] none by (auto split: if_split_asm)
    with none have "\<forall>y \<in> set (db_messages db). \<not> message_clash m y"
      by (auto simp: message_clash_def m new_message_def message_of_client_def find_None_iff image_iff)
    moreover have "message_check m" unfolding m by (rule new_message_check[OF *(1)])
    moreover have "message_sender_trigger db m \<and> message_refs db m"
      using authorized_trigger[OF ok, of m] *(2) by (simp add: m new_message_def)
    ultimately have "insert_message m db = (Inr (), db')" unfolding insert_message_Inr using db' by simp
    with insert_message_db_ok[OF ok] show ?thesis by blast
  qed (simp add: ok)
qed

text \<open>A rejected send changes nothing, and authorization only depends on matches and conversations.\<close>

lemma send_Inl: "db_ok db \<Longrightarrow> send_buddy_message fresh cid sender key body clock db = (Inl e, db') \<Longrightarrow> db' = db"
proof -
  assume ok: "db_ok db" and s: "send_buddy_message fresh cid sender key body clock db = (Inl e, db')"
  show "db' = db"
  proof (cases "\<exists>t c. clock = Aware t \<and> validate_buddy_message_body body = Inr body
      \<and> require_authorized_active_conversation cid sender db = Inr c")
    case True
    then obtain t c where *: "validate_buddy_message_body body = Inr body" "clock = Aware t"
      "require_authorized_active_conversation cid sender db = Inr c" by blast
    with s send_run[OF ok *(1,3), of fresh key t] show ?thesis
      by (auto simp: Let_def split: option.split_asm if_split_asm)
  next
    case False
    with s show ?thesis
      unfolding send_buddy_message_def
      by (cases "validate_buddy_message_body body"; cases clock; cases "require_authorized_active_conversation cid sender db")
         (auto simp: rethrow_tx_def validate_body_Inr)
  qed
qed

lemma authorized_messages [simp]:
  "require_authorized_active_conversation cid user (db\<lparr>db_messages := ms\<rparr>) = require_authorized_active_conversation cid user db"
  "conversation_of_participant (db\<lparr>db_messages := ms\<rparr>) user c = conversation_of_participant db user c"
  by (simp_all add: require_authorized_active_conversation_def conversation_of_participant_def)

text \<open>C24: Sending is idempotent per sender and client message id: after a successful send the same request, at any time
  before that message expires and with any newly drawn row id, returns the same message and changes nothing; reusing the
  client id for another body or conversation is refused and changes nothing; and the send itself either changed
  nothing or appended exactly the returned message, written by a participant of an ACTIVE match.\<close>

theorem send_is_idempotent:
  assumes ok: "db_ok db" and sent: "send_buddy_message fresh cid sender key body clock db = (Inr m, db')"
    and alive: "t < msg_expires_at m" and other: "body' \<noteq> body \<or> cid' \<noteq> cid"
  shows "send_buddy_message fresh' cid sender key body (Aware t) db' = (Inr m, db')
     \<and> snd (send_buddy_message fresh' cid' sender key body' clock' db') = db'
     \<and> isl (fst (send_buddy_message fresh' cid' sender key body' clock' db'))
     \<and> db_ok db' \<and> db_messages db' \<in> {db_messages db, db_messages db @ [m]}
     \<and> msg_sender_id m = sender \<and> msg_body m = body \<and> message_sender_trigger db m"
proof -
  from send_message_Inr[OF ok sent] obtain t0 c where *: "clock = Aware t0" "validate_buddy_message_body body = Inr body"
    "require_authorized_active_conversation cid sender db = Inr c" "message_of_client sender key db' = Some m"
    "msg_conversation_id m = cid" "msg_body m = body"
    "db' = db \<or> db' = db\<lparr>db_messages := db_messages db @ [m]\<rparr>" by metis
  note ok' = send_db_ok[OF ok sent]
  have auth: "require_authorized_active_conversation cid sender db' = Inr c" using *(3,7) by auto
  have sender: "msg_sender_id m = sender" using *(4) by (auto simp: message_of_client_def dest: find_SomeD)
  have "send_buddy_message fresh' cid sender key body (Aware t) db' = (Inr m, db')"
    using send_run[OF ok' *(2) auth, of fresh' key t] alive *(4-6) by simp
  moreover have rej: "isl (fst (send_buddy_message fresh' cid' sender key body' clock' db'))"
  proof (cases "fst (send_buddy_message fresh' cid' sender key body' clock' db')")
    case (Inr m')
    then obtain db'' where "send_buddy_message fresh' cid' sender key body' clock' db' = (Inr m', db'')"
      by (metis prod.collapse)
    from send_message_Inr[OF ok' this] obtain t1 c' where t1: "clock' = Aware t1"
      "validate_buddy_message_body body' = Inr body'"
      "require_authorized_active_conversation cid' sender db' = Inr c'" by metis
    from send_run[OF ok' t1(2,3), of fresh' key t1] *(4-6) other Inr t1(1) show ?thesis by (auto split: if_split_asm)
  qed simp
  moreover have "snd (send_buddy_message fresh' cid' sender key body' clock' db') = db'"
    using send_Inl[OF ok', of fresh' cid' sender key body' clock'] rej by (metis isl_def prod.collapse)
  moreover have "message_sender_trigger db m"
    using authorized_trigger[OF ok, of m] *(3,5) sender by simp
  moreover have "db_messages db' \<in> {db_messages db, db_messages db @ [m]}" using *(7) by auto
  ultimately show ?thesis using ok' sender *(6) by blast
qed

section \<open>Paging through the history\<close>

text \<open>The effective messages of a conversation at an instant, in chronological order.\<close>

definition history :: "uuid \<Rightarrow> instant \<Rightarrow> database \<Rightarrow> buddy_message list" where
  "history cid t db = select_by message_key (\<lambda>m. msg_conversation_id m = cid \<and> t < msg_expires_at m) (db_messages db)"

text \<open>A position the cursor can carry: a creation time from 1970 on and a 128-bit identifier.\<close>

definition cursor_position :: "buddy_message \<Rightarrow> bool" where
  "cursor_position m \<longleftrightarrow> 0 \<le> msg_created_at m \<and> msg_created_at m \<le> MAX_DATETIME \<and> msg_id m < 2 ^ 128"

lemma sorted_filter_less:
  fixes k :: "'a \<Rightarrow> 'k::linorder"
  assumes "sorted (map k xs)" "distinct (map k xs)" "i < length xs"
  shows "filter (\<lambda>x. k x < k (xs ! i)) xs = take i xs"
proof -
  have lt: "k (xs ! j) < k (xs ! i) \<longleftrightarrow> j < i" if "j < length xs" for j
  proof (cases "j < i")
    case True
    with assms that have "k (xs ! j) \<le> k (xs ! i)" "k (xs ! j) \<noteq> k (xs ! i)"
      using sorted_nth_mono[OF assms(1), of j i] nth_eq_iff_index_eq[OF assms(2), of j i] by auto
    with True show ?thesis by simp
  next
    case False
    with assms(1) that have "k (xs ! i) \<le> k (xs ! j)"
      using sorted_nth_mono[OF assms(1), of i j] by simp
    with False show ?thesis by simp
  qed
  have "xs = take i xs @ drop i xs" by simp
  then have "filter (\<lambda>x. k x < k (xs ! i)) xs =
      filter (\<lambda>x. k x < k (xs ! i)) (take i xs) @ filter (\<lambda>x. k x < k (xs ! i)) (drop i xs)"
    by (metis filter_append)
  moreover have "filter (\<lambda>x. k x < k (xs ! i)) (take i xs) = take i xs"
    using lt assms(3) by (auto simp: filter_id_conv in_set_conv_nth)
  moreover have "filter (\<lambda>x. k x < k (xs ! i)) (drop i xs) = []"
    using lt by (auto simp: filter_empty_conv in_set_conv_nth)
  ultimately show ?thesis by simp
qed

lemma select_by_conj: "select_by k (\<lambda>x. p x \<and> q x) rows = filter q (select_by k p rows)"
  by (simp add: select_by_def filter_sort filter_filter conj_commute)

lemma history_distinct: "db_ok db \<Longrightarrow> distinct (map message_key (history cid t db))"
proof -
  assume "db_ok db"
  from msg.distinct_keys[OF db_ok_tables(8)[OF this]] have "distinct (map msg_id (history cid t db))"
    unfolding history_def by (rule distinct_map_select_by)
  then show ?thesis by (auto simp: distinct_map inj_on_def message_key_def)
qed

text \<open>What one page is: a window of the history ending where the cursor points.\<close>

lemma history_page_run:
  assumes ok: "db_ok db" and auth: "require_authorized_active_conversation cid user db = Inr c"
    and n: "1 \<le> n" "n \<le> MAX_CHAT_MESSAGE_PAGE_SIZE"
    and pos: "list_all cursor_position (history cid t db)" and k: "k \<le> length (history cid t db)"
    and before: "before = None \<and> k = length (history cid t db)
      \<or> (\<exists>cur. before = Some cur \<and> k < length (history cid t db)
           \<and> decode_buddy_message_cursor cur = Inr (message_key (history cid t db ! k)))"
  defines "h \<equiv> history cid t db" and "w \<equiv> nat n"
  shows "\<exists>next. list_buddy_messages cid user before n (Aware t) db =
       Inr \<lparr>page_messages = drop (k - w) (take k h), page_next_before = next\<rparr>
     \<and> (if w < k then \<exists>cur. next = Some cur \<and> decode_buddy_message_cursor cur = Inr (message_key (h ! (k - w)))
        else next = None)"
proof -
  have w: "1 \<le> w" using n(1) by (simp add: w_def)
  have rows: "select_by message_key (\<lambda>m. msg_conversation_id m = cid \<and> t < msg_expires_at m \<and> True) (db_messages db) = h"
      "k < length h \<Longrightarrow> select_by message_key (\<lambda>m. msg_conversation_id m = cid \<and> t < msg_expires_at m
          \<and> (msg_created_at m < msg_created_at (h ! k) \<or> (msg_created_at m = msg_created_at (h ! k) \<and> msg_id m < msg_id (h ! k))))
        (db_messages db) = take k h"
  proof -
    show "select_by message_key (\<lambda>m. msg_conversation_id m = cid \<and> t < msg_expires_at m \<and> True) (db_messages db) = h"
      by (simp add: h_def history_def)
    assume "k < length h"
    let ?less = "\<lambda>m. message_key m < message_key (h ! k)"
    have "select_by message_key (\<lambda>m. msg_conversation_id m = cid \<and> t < msg_expires_at m
          \<and> (msg_created_at m < msg_created_at (h ! k) \<or> (msg_created_at m = msg_created_at (h ! k) \<and> msg_id m < msg_id (h ! k))))
        (db_messages db) =
      select_by message_key (\<lambda>m. (msg_conversation_id m = cid \<and> t < msg_expires_at m) \<and> ?less m) (db_messages db)"
      by (rule arg_cong[of _ _ "\<lambda>p. select_by message_key p (db_messages db)"]) (auto simp: message_key_def)
    also have "\<dots> = filter ?less h" unfolding select_by_conj h_def history_def ..
    also have "\<dots> = take k h"
      using sorted_filter_less[of message_key h k] history_distinct[OF ok] \<open>k < length h\<close>
      by (simp add: h_def history_def sorted_select_by)
    finally show "select_by message_key (\<lambda>m. msg_conversation_id m = cid \<and> t < msg_expires_at m
          \<and> (msg_created_at m < msg_created_at (h ! k) \<or> (msg_created_at m = msg_created_at (h ! k) \<and> msg_id m < msg_id (h ! k))))
        (db_messages db) = take k h" .
  qed
  have len: "length (take k h) = k" using k by (simp add: h_def)
  let ?new = "take (w + 1) (rev (take k h))"
  have more: "length ?new > w \<longleftrightarrow> w < k" using len by simp
  have "rev (take w (rev ys)) = drop (length ys - w) ys" for ys :: "buddy_message list"
    by (simp add: rev_take)
  from this[of "take k h"] have sel: "rev (take w ?new) = drop (k - w) (take k h)"
    unfolding len by simp
  have oldest: "last (take w ?new) = h ! (k - w)" "take w ?new \<noteq> []" if "w < k"
  proof -
    have ne: "drop (k - w) (take k h) \<noteq> []" using that w len by simp
    then show "take w ?new \<noteq> []" using sel by fastforce
    have "last (take w ?new) = hd (drop (k - w) (take k h))" using sel \<open>take w ?new \<noteq> []\<close> by (metis hd_rev)
    then show "last (take w ?new) = h ! (k - w)" using that w len k by (simp add: hd_drop_conv_nth h_def)
  qed
  have cur: "\<exists>cur. encode_buddy_message_cursor (Aware (msg_created_at (h ! (k - w)))) (msg_id (h ! (k - w))) = Inr cur
      \<and> decode_buddy_message_cursor cur = Inr (message_key (h ! (k - w)))" if "w < k"
  proof -
    have "h ! (k - w) \<in> set h" using that w k by (intro nth_mem) (simp add: h_def)
    then have "cursor_position (h ! (k - w))" using pos by (simp add: h_def list_all_iff)
    then show ?thesis
      using cursor_roundtrip_raw[of "msg_created_at (h ! (k - w))" "msg_id (h ! (k - w))"]
      by (auto simp: cursor_position_def message_key_def)
  qed
  have range: "1 \<le> n \<and> n \<le> MAX_CHAT_MESSAGE_PAGE_SIZE" using n by simp
  have position: "\<exists>position. (case before of None \<Rightarrow> Inr None
        | Some cursor \<Rightarrow> ebind (decode_buddy_message_cursor cursor) (\<lambda>p. Inr (Some p))) = Inr position
      \<and> select_by message_key (\<lambda>m. msg_conversation_id m = cid \<and> t < msg_expires_at m
                 \<and> (case position of None \<Rightarrow> True
                    | Some (cursor_created_at, cursor_id) \<Rightarrow> msg_created_at m < cursor_created_at
                        \<or> (msg_created_at m = cursor_created_at \<and> msg_id m < cursor_id)))
            (db_messages db) = take k h"
    using before
  proof
    assume "before = None \<and> k = length (history cid t db)"
    then show ?thesis using rows(1) by (intro exI[of _ None]) (simp add: h_def)
  next
    assume "\<exists>cur. before = Some cur \<and> k < length (history cid t db)
           \<and> decode_buddy_message_cursor cur = Inr (message_key (history cid t db ! k))"
    then show ?thesis using rows(2)
      by (intro exI[of _ "Some (message_key (h ! k))"]) (auto simp: h_def message_key_def)
  qed
  then obtain position where p: "(case before of None \<Rightarrow> Inr None
        | Some cursor \<Rightarrow> ebind (decode_buddy_message_cursor cursor) (\<lambda>p. Inr (Some p))) = Inr position"
     "select_by message_key (\<lambda>m. msg_conversation_id m = cid \<and> t < msg_expires_at m
                 \<and> (case position of None \<Rightarrow> True
                    | Some (cursor_created_at, cursor_id) \<Rightarrow> msg_created_at m < cursor_created_at
                        \<or> (msg_created_at m = cursor_created_at \<and> msg_id m < cursor_id)))
            (db_messages db) = take k h" by blast
  show ?thesis
  proof (cases "w < k")
    case True
    from cur[OF True] obtain cur where "encode_buddy_message_cursor (Aware (msg_created_at (h ! (k - w)))) (msg_id (h ! (k - w))) = Inr cur"
      "decode_buddy_message_cursor cur = Inr (message_key (h ! (k - w)))" by blast
    with True oldest[OF True] more sel show ?thesis
      unfolding list_buddy_messages_def by (simp add: range auth p Let_def w_def[symmetric] del: take_take)
  next
    case False
    with more sel show ?thesis
      unfolding list_buddy_messages_def by (simp add: range auth p Let_def w_def[symmetric] del: take_take)
  qed
qed

text \<open>A client reading the whole history by following the cursors, oldest page first.\<close>

fun fetch_history ::
    "nat \<Rightarrow> uuid \<Rightarrow> uuid \<Rightarrow> pystr option \<Rightarrow> int \<Rightarrow> clock_value \<Rightarrow> database \<Rightarrow> exn + buddy_message list list" where
  "fetch_history 0 cid user before n clock db = Inl RuntimeError"
| "fetch_history (Suc fuel) cid user before n clock db =
     ebind (list_buddy_messages cid user before n clock db) (\<lambda>page.
     case page_next_before page of
       None \<Rightarrow> Inr [page_messages page]
     | Some cursor \<Rightarrow>
         ebind (fetch_history fuel cid user (Some cursor) n clock db) (\<lambda>older. Inr (older @ [page_messages page])))"

lemma fetch_run:
  assumes ok: "db_ok db" and auth: "require_authorized_active_conversation cid user db = Inr c"
    and n: "1 \<le> n" "n \<le> MAX_CHAT_MESSAGE_PAGE_SIZE"
    and pos: "list_all cursor_position (history cid t db)"
  shows "k \<le> length (history cid t db) \<Longrightarrow> k < fuel \<Longrightarrow>
     before = None \<and> k = length (history cid t db)
      \<or> (\<exists>cur. before = Some cur \<and> k < length (history cid t db)
           \<and> decode_buddy_message_cursor cur = Inr (message_key (history cid t db ! k))) \<Longrightarrow>
     \<exists>pages. fetch_history fuel cid user before n (Aware t) db = Inr pages \<and> pages \<noteq> []
       \<and> concat pages = take k (history cid t db)
       \<and> list_all (\<lambda>p. length p \<le> nat n) pages \<and> list_all (\<lambda>p. length p = nat n) (tl pages)"
proof (induction fuel arbitrary: k before)
  case (Suc fuel)
  let ?h = "history cid t db" and ?w = "nat n"
  from history_page_run[OF ok auth n pos Suc.prems(1,3)] obtain "next" where
      page: "list_buddy_messages cid user before n (Aware t) db =
         Inr \<lparr>page_messages = drop (k - ?w) (take k ?h), page_next_before = next\<rparr>"
    and nxt: "if ?w < k then \<exists>cur. next = Some cur \<and> decode_buddy_message_cursor cur = Inr (message_key (?h ! (k - ?w)))
        else next = None" by blast
  have w: "1 \<le> ?w" using n(1) by simp
  have len: "length (drop (k - ?w) (take k ?h)) = min k ?w" using Suc.prems(1) by simp
  show ?case
  proof (cases "?w < k")
    case True
    with nxt obtain cur where cur: "next = Some cur" "decode_buddy_message_cursor cur = Inr (message_key (?h ! (k - ?w)))"
      by auto
    have "k - ?w \<le> length ?h" "k - ?w < fuel" "k - ?w < length ?h" using Suc.prems(1,2) True w by auto
    with Suc.IH[of "k - ?w" "Some cur"] cur(2) obtain pages where
        older: "fetch_history fuel cid user (Some cur) n (Aware t) db = Inr pages" "pages \<noteq> []"
          "concat pages = take (k - ?w) ?h" "list_all (\<lambda>p. length p \<le> ?w) pages" "list_all (\<lambda>p. length p = ?w) (tl pages)"
      by auto
    have "take (k - ?w) ?h @ drop (k - ?w) (take k ?h) = take k ?h"
      by (metis append_take_drop_id diff_le_self min_absorb1 take_take)
    with older page cur(1) len True show ?thesis by simp
  next
    case False
    with nxt page len show ?thesis by simp
  qed
qed simp

text \<open>C23: Paging is exact: for an authorized reader and any page size from 1 to 100, following the returned cursors from the
  newest page ends within one page per message, and the pages, oldest first, concatenate to exactly the effective
  messages of the conversation in chronological order: none is missed, repeated or out of order, every page but the
  oldest is full and none is larger than asked.\<close>

theorem history_pages_partition:
  assumes "db_ok db" "require_authorized_active_conversation cid user db = Inr c"
    and "1 \<le> n" "n \<le> MAX_CHAT_MESSAGE_PAGE_SIZE" "list_all cursor_position (history cid t db)"
    and "length (history cid t db) < fuel"
  shows "\<exists>pages. fetch_history fuel cid user None n (Aware t) db = Inr pages
     \<and> concat pages = history cid t db \<and> sorted (map message_key (concat pages)) \<and> distinct (concat pages)
     \<and> set (concat pages) = {m \<in> set (db_messages db). msg_conversation_id m = cid \<and> t < msg_expires_at m}
     \<and> list_all (\<lambda>p. length p \<le> nat n) pages \<and> list_all (\<lambda>p. length p = nat n) (tl pages)"
proof -
  have "distinct (history cid t db)" using history_distinct[OF assms(1)] by (simp add: distinct_map)
  moreover have "sorted (map message_key (history cid t db))" by (simp add: history_def sorted_select_by)
  moreover have "set (history cid t db) = {m \<in> set (db_messages db). msg_conversation_id m = cid \<and> t < msg_expires_at m}"
    by (simp add: history_def)
  moreover from fetch_run[OF assms(1-5) order.refl assms(6), of None] obtain pages where
      "fetch_history fuel cid user None n (Aware t) db = Inr pages" "concat pages = history cid t db"
      "list_all (\<lambda>p. length p \<le> nat n) pages" "list_all (\<lambda>p. length p = nat n) (tl pages)"
    by auto
  ultimately show ?thesis by (intro exI[of _ pages]) (simp del: set_concat)
qed

end
