(* ===== verification/Chat_Reading.thy ===== *)
theory Chat_Reading
  imports Chat_History Matching_Eligibility
begin

text \<open>
  Reading: the unread summary against its reference, read acknowledgements with their retention limits, and
  the cleanup of expired messages, which no reader can observe; concrete instances of the chat properties.
\<close>

section \<open>Unread counts and read acknowledgements\<close>

text \<open>Reference: the incoming messages of a participant that are effective and not yet read.\<close>

definition unread_messages :: "uuid \<Rightarrow> instant \<Rightarrow> database \<Rightarrow> buddy_message list" where
  "unread_messages user now db = filter (\<lambda>m. msg_sender_id m \<noteq> user \<and> msg_read_at m = None \<and> now < msg_expires_at m
     \<and> list_ex (\<lambda>c. conv_id c = msg_conversation_id m \<and> conversation_of_participant db user c) (db_conversations db))
     (db_messages db)"

lemma count_by_group:
  assumes "distinct gs"
  shows "sum_list (map (\<lambda>g. length (filter (\<lambda>m. f m = g \<and> p m) ms)) gs) = length (filter (\<lambda>m. f m \<in> set gs \<and> p m) ms)"
  using assms
proof (induction gs)
  case (Cons g gs)
  have "length (filter (\<lambda>m. f m \<in> set (g # gs) \<and> p m) ms) =
      length (filter (\<lambda>m. f m = g \<and> p m) ms) + length (filter (\<lambda>m. f m \<in> set gs \<and> p m) ms)"
    using Cons.prems by (induction ms) auto
  with Cons show ?case by simp
qed simp

text \<open>The conversations of the summary, as identifiers.\<close>

lemma summary_run:
  assumes "db_ok db"
  shows "\<exists>s. get_buddy_unread_summary user (Aware now) db = Inr s
     \<and> total_unread_messages s = length (unread_messages user now db)
     \<and> sorted_wrt (<) (map unread_conversation_id (unread_conversations s))
     \<and> list_all (\<lambda>u. 0 < unread_count u \<and> unread_count u =
          length (filter (\<lambda>m. msg_conversation_id m = unread_conversation_id u) (unread_messages user now db)))
        (unread_conversations s)
     \<and> set (map unread_conversation_id (unread_conversations s)) = msg_conversation_id ` set (unread_messages user now db)"
proof -
  let ?p = "\<lambda>m. msg_sender_id m \<noteq> user \<and> msg_read_at m = None \<and> now < msg_expires_at m"
  let ?cs = "select_by conv_id (\<lambda>c. conversation_of_participant db user c
                 \<and> list_ex (unread_for user now c) (db_messages db)) (db_conversations db)"
  let ?u = "\<lambda>c. \<lparr>unread_conversation_id = conv_id c,
                     unread_count = length (filter (unread_for user now c) (db_messages db))\<rparr>"
  note tab = db_ok_tables(7)[OF assms]
  have inj: "list_ex (\<lambda>x. conv_id x = conv_id c \<and> conversation_of_participant db user x) (db_conversations db)
      \<longleftrightarrow> conversation_of_participant db user c" if "c \<in> set (db_conversations db)" for c
    using that conv.key_inj[OF tab] by (auto simp: list_ex_iff)
  have unread: "filter (unread_for user now c) (db_messages db) =
      filter (\<lambda>m. msg_conversation_id m = conv_id c) (unread_messages user now db)"
    if "c \<in> set (db_conversations db)" "conversation_of_participant db user c" for c
    using inj[OF that(1)] that(2) unfolding unread_messages_def filter_filter
    by (intro filter_cong) (auto simp: unread_for_def)
  have ids: "distinct (map conv_id ?cs)"
    by (intro distinct_map_select_by conv.distinct_keys[OF tab])
  have mem: "m \<in> set (unread_messages user now db) \<Longrightarrow> msg_conversation_id m \<in> set (map conv_id ?cs)" for m
  proof -
    assume m: "m \<in> set (unread_messages user now db)"
    then obtain c where "c \<in> set (db_conversations db)" "conv_id c = msg_conversation_id m"
        "conversation_of_participant db user c" "m \<in> set (db_messages db)" "unread_for user now c m"
      by (auto simp: unread_messages_def list_ex_iff unread_for_def)
    then show ?thesis by (auto simp: list_ex_iff intro!: image_eqI[of _ _ c])
  qed
  have counts: "map (\<lambda>c. length (filter (unread_for user now c) (db_messages db))) ?cs =
      map (\<lambda>c. length (filter (\<lambda>m. msg_conversation_id m = conv_id c) (unread_messages user now db))) ?cs"
    using unread by auto
  have "sum_list (map (\<lambda>c. length (filter (unread_for user now c) (db_messages db))) ?cs) =
      sum_list (map (\<lambda>g. length (filter (\<lambda>m. msg_conversation_id m = g \<and> True) (unread_messages user now db))) (map conv_id ?cs))"
    unfolding counts by (simp add: comp_def)
  also have "\<dots> = length (filter (\<lambda>m. msg_conversation_id m \<in> set (map conv_id ?cs) \<and> True) (unread_messages user now db))"
    by (rule count_by_group[OF ids])
  also have "filter (\<lambda>m. msg_conversation_id m \<in> set (map conv_id ?cs) \<and> True) (unread_messages user now db) = unread_messages user now db"
    using mem by (subst filter_id_conv) blast
  finally have total: "sum_list (map (\<lambda>c. length (filter (unread_for user now c) (db_messages db))) ?cs) =
      length (unread_messages user now db)" .
  have "sorted_wrt (<) (map conv_id ?cs)"
    using ids sorted_select_by by (simp add: strict_sorted_iff)
  moreover have "set (map conv_id ?cs) = msg_conversation_id ` set (unread_messages user now db)"
  proof
    show "set (map conv_id ?cs) \<subseteq> msg_conversation_id ` set (unread_messages user now db)"
    proof
      fix i assume "i \<in> set (map conv_id ?cs)"
      then obtain c where c: "c \<in> set (db_conversations db)" "conversation_of_participant db user c" "i = conv_id c"
          "list_ex (unread_for user now c) (db_messages db)" by auto
      then obtain m where "m \<in> set (filter (unread_for user now c) (db_messages db))" by (auto simp: list_ex_iff)
      with unread[OF c(1,2)] c(3) show "i \<in> msg_conversation_id ` set (unread_messages user now db)"
        by simp (metis image_eqI)
    qed
  qed (use mem in blast)
  moreover have "list_all (\<lambda>u. 0 < unread_count u \<and> unread_count u =
          length (filter (\<lambda>m. msg_conversation_id m = unread_conversation_id u) (unread_messages user now db))) (map ?u ?cs)"
    unfolding list_all_iff
  proof
    fix v assume "v \<in> set (map ?u ?cs)"
    then obtain c where c: "c \<in> set (db_conversations db)" "conversation_of_participant db user c" "v = ?u c"
        "list_ex (unread_for user now c) (db_messages db)" by auto
    then have "0 < length (filter (unread_for user now c) (db_messages db))"
      by (auto simp: list_ex_iff filter_empty_conv)
    with c(3) show "0 < unread_count v \<and> unread_count v =
          length (filter (\<lambda>m. msg_conversation_id m = unread_conversation_id v) (unread_messages user now db))"
      unfolding unread[OF c(1,2)] by simp
  qed
  ultimately show ?thesis
    using total by (simp add: get_buddy_unread_summary_def Let_def comp_def image_image)
qed

text \<open>C27: The unread summary is exact: its total is the number of effective unread messages from the other participant in
  the reader's ACTIVE conversations, it lists exactly the conversations that hold one, once each in identifier order, and
  every listed count is that conversation's share.\<close>

theorem unread_summary_exact:
  assumes "db_ok db"
  shows "\<exists>s. get_buddy_unread_summary user (Aware now) db = Inr s
     \<and> total_unread_messages s = length (unread_messages user now db)
     \<and> sorted_wrt (<) (map unread_conversation_id (unread_conversations s))
     \<and> list_all (\<lambda>u. 0 < unread_count u \<and> unread_count u =
          length (filter (\<lambda>m. msg_conversation_id m = unread_conversation_id u) (unread_messages user now db)))
        (unread_conversations s)
     \<and> set (map unread_conversation_id (unread_conversations s)) = msg_conversation_id ` set (unread_messages user now db)"
  by (rule summary_run[OF assms])

lemma mark_read_check:
  "message_check m \<Longrightarrow> msg_read_at m = None \<Longrightarrow> message_check (mark_read now m) \<longleftrightarrow> msg_created_at m \<le> now"
  by (auto simp: message_check_def mark_read_def min.commute)

lemma update_messages_db_ok:
  assumes "db_ok db" "update_messages p f db = (Inr ids, db')"
    and same: "\<And>m. msg_id (f m) = msg_id m \<and> msg_conversation_id (f m) = msg_conversation_id m
      \<and> msg_sender_id (f m) = msg_sender_id m \<and> msg_client_message_id (f m) = msg_client_message_id m"
  shows "db_ok db'"
proof -
  from assms(2) have db': "db' = db\<lparr>db_messages := update_where p f (db_messages db)\<rparr>"
    and check: "list_all (\<lambda>m. message_check (f m)) (filter p (db_messages db))"
    by (auto simp: update_messages_def Let_def split: if_split_asm)
  have clash: "message_clash (if p a then f a else a) (if p b then f b else b) \<longleftrightarrow> message_clash a b" for a b
    using same[of a] same[of b] by (auto simp: message_clash_def)
  have "table_ok message_check message_clash (update_where p f (db_messages db))"
    using db_ok_tables(8)[OF assms(1)] check
    by (auto simp: table_ok_def update_where_def list_all_iff sorted_wrt_map clash)
  moreover have "list_all (message_refs db) (update_where p f (db_messages db))"
    using assms(1) same by (auto simp: db_ok_def list_all_iff set_update_where message_refs_def)
  ultimately show ?thesis using assms(1) by (auto simp: db' db_ok_def refs_defs list_all_iff)
qed

definition boundary_message :: "uuid \<Rightarrow> uuid \<Rightarrow> uuid \<Rightarrow> instant \<Rightarrow> database \<Rightarrow> buddy_message option" where
  "boundary_message cid reader i now db = find (\<lambda>m. msg_id m = i \<and> msg_conversation_id m = cid
          \<and> now < msg_expires_at m
          \<and> list_ex (\<lambda>c. conv_id c = cid \<and> conversation_of_participant db reader c) (db_conversations db))
        (db_messages db)"

lemma ack_unfold:
  "acknowledge_buddy_messages_read cid reader i (Aware now) db =
     (case boundary_message cid reader i now db of
        None \<Rightarrow> (Inl (BuddyChatReadError Chat_MESSAGE_NOT_FOUND), db)
      | Some b \<Rightarrow>
          let selected = filter (read_through cid reader b now) (db_messages db) in
          if list_all (\<lambda>m. message_check (mark_read now m)) selected
          then (Inr \<lparr>ack_through_message_id = i, ack_marked_read_count = length selected\<rparr>,
                db\<lparr>db_messages := update_where (read_through cid reader b now) (mark_read now) (db_messages db)\<rparr>)
          else (Inl (IntegrityError Check_violation), db))"
  by (auto simp: acknowledge_buddy_messages_read_def boundary_message_def[symmetric] update_messages_def Let_def
      split: option.splits)

lemma ack_Inr:
  assumes "acknowledge_buddy_messages_read cid reader i clock db = (Inr r, db')"
  obtains now b where "clock = Aware now" "boundary_message cid reader i now db = Some b"
    "list_all (\<lambda>m. message_check (mark_read now m)) (filter (read_through cid reader b now) (db_messages db))"
    "r = \<lparr>ack_through_message_id = i, ack_marked_read_count = length (filter (read_through cid reader b now) (db_messages db))\<rparr>"
    "db' = db\<lparr>db_messages := update_where (read_through cid reader b now) (mark_read now) (db_messages db)\<rparr>"
proof -
  from assms obtain now where c: "clock = Aware now" by (auto simp: acknowledge_buddy_messages_read_def tx)
  from assms[unfolded c ack_unfold] show ?thesis
    by (auto simp: Let_def split: option.split_asm if_split_asm intro: that[OF c])
qed

lemma ack_Inl: "acknowledge_buddy_messages_read cid reader i clock db = (Inl e, db') \<Longrightarrow> db' = db"
  by (cases clock)
     (auto simp: ack_unfold Let_def split: option.split_asm if_split_asm,
      simp add: acknowledge_buddy_messages_read_def)

lemma ack_db_ok:
  assumes "db_ok db" "acknowledge_buddy_messages_read cid reader i clock db = (Inr r, db')"
  shows "db_ok db'"
proof -
  from ack_Inr[OF assms(2)] obtain now b where *: "boundary_message cid reader i now db = Some b"
    "list_all (\<lambda>m. message_check (mark_read now m)) (filter (read_through cid reader b now) (db_messages db))"
    "db' = db\<lparr>db_messages := update_where (read_through cid reader b now) (mark_read now) (db_messages db)\<rparr>" by metis
  then have "update_messages (read_through cid reader b now) (mark_read now) db =
      (Inr (map msg_id (filter (read_through cid reader b now) (db_messages db))), db')"
    by (simp add: update_messages_def)
  from update_messages_db_ok[OF assms(1) this] show ?thesis by (simp add: mark_read_def)
qed

text \<open>How an acknowledgement may change a stored message.\<close>

definition first_read :: "uuid \<Rightarrow> instant \<Rightarrow> buddy_message \<Rightarrow> buddy_message \<Rightarrow> bool" where
  "first_read reader now m m' \<longleftrightarrow> m' = m \<or>
     (msg_read_at m = None \<and> msg_sender_id m \<noteq> reader \<and> msg_created_at m \<le> now \<and> now < msg_expires_at m'
      \<and> m' = m\<lparr>msg_read_at := Some now,
                msg_expires_at := min (now + BUDDY_MESSAGE_READ_RETENTION) (msg_created_at m + BUDDY_MESSAGE_MAX_RETENTION)\<rparr>)"

lemma length_filter_split: "(\<And>m. q m \<Longrightarrow> p m) \<Longrightarrow>
    length (filter p xs) = length (filter (\<lambda>m. p m \<and> \<not> q m) xs) + length (filter q xs)"
  by (induction xs) auto

lemma boundary_facts:
  "boundary_message cid reader i now db = Some b \<Longrightarrow> b \<in> set (db_messages db) \<and> msg_id b = i
     \<and> msg_conversation_id b = cid \<and> now < msg_expires_at b
     \<and> list_ex (\<lambda>c. conv_id c = cid \<and> conversation_of_participant db reader c) (db_conversations db)"
  by (auto simp: boundary_message_def dest: find_SomeD)

lemma read_through_cong: "msg_created_at b' = msg_created_at b \<Longrightarrow> msg_id b' = msg_id b \<Longrightarrow>
    read_through cid reader b' now = read_through cid reader b now"
  by (simp add: read_through_def fun_eq_iff)


section \<open>Cleanup\<close>

definition due_messages :: "(uuid \<Rightarrow> bool) \<Rightarrow> int \<Rightarrow> instant \<Rightarrow> database \<Rightarrow> buddy_message list" where
  "due_messages locked n t db = take (nat n) (select_by (\<lambda>m. (msg_expires_at m, msg_id m))
     (\<lambda>m. msg_expires_at m \<le> t \<and> \<not> locked (msg_id m)) (db_messages db))"

lemma due_mem: "m \<in> set (due_messages locked n t db) \<Longrightarrow> m \<in> set (db_messages db) \<and> msg_expires_at m \<le> t \<and> \<not> locked (msg_id m)"
  using set_take_subset[of "nat n"] by (fastforce simp: due_messages_def)

lemma cleanup_run:
  assumes "db_ok db"
    and "process_chat_cleanup_batch statement_now locked n cleanup_now db = (Inr r, db')"
  shows "\<exists>t. t \<le> statement_now \<and> 1 \<le> n \<and> n \<le> 100
     \<and> cleanup_deleted r = length (due_messages locked n t db) \<and> cleanup_selected r = cleanup_deleted r
     \<and> t = (case cleanup_now of Some (Aware c) \<Rightarrow> c | _ \<Rightarrow> statement_now)
     \<and> db' = db\<lparr>db_messages := filter (\<lambda>m. m \<notin> set (due_messages locked n t db)) (db_messages db)\<rparr>"
proof -
  have same: "filter (\<lambda>m. msg_id m \<notin> set (map msg_id (due_messages locked n t db))) (db_messages db) =
      filter (\<lambda>m. m \<notin> set (due_messages locked n t db)) (db_messages db)" for t
    using due_mem[of _ locked n t db] msg.key_inj[OF db_ok_tables(8)[OF assms(1)]]
    by (intro filter_cong) auto
  from assms(2) obtain t where t: "t \<le> statement_now" "1 \<le> n" "n \<le> 100"
      "t = (case cleanup_now of Some (Aware c) \<Rightarrow> c | _ \<Rightarrow> statement_now)"
      "cleanup_expired_sql statement_now locked n t db = (Inr (map msg_id (due_messages locked n t db)), db')"
      "r = \<lparr>cleanup_selected = length (due_messages locked n t db), cleanup_deleted = length (due_messages locked n t db)\<rparr>"
    by (cases cleanup_now)
       (auto simp: process_chat_cleanup_batch_def cleanup_expired_buddy_message_batch_def tx cleanup_expired_sql_def
         due_messages_def Let_def split: if_split_asm)
  from t(5) have "db' = db\<lparr>db_messages := filter (\<lambda>m. msg_id m \<notin> set (map msg_id (due_messages locked n t db))) (db_messages db)\<rparr>"
    by (auto simp: cleanup_expired_sql_def due_messages_def Let_def split: if_split_asm)
  with t show ?thesis unfolding same by (intro exI[of _ t]) simp
qed

lemma cleanup_db_ok:
  assumes "db_ok db"
  shows "db_ok (db\<lparr>db_messages := filter p (db_messages db)\<rparr>)"
  using assms msg.filter_ok[OF db_ok_tables(8)[OF assms], of p]
  by (auto simp: db_ok_def refs_defs list_all_iff)

lemma find_filter: "(\<And>x. x \<in> set xs \<Longrightarrow> p x \<Longrightarrow> q x) \<Longrightarrow> find p (filter q xs) = find p xs"
  by (induction xs) auto

lemma filtered_history:
  assumes "\<And>m. m \<in> set (db_messages db) \<Longrightarrow> \<not> p m \<Longrightarrow> msg_expires_at m \<le> now"
  shows "select_by k (\<lambda>m. msg_conversation_id m = cid \<and> now < msg_expires_at m \<and> q m) (filter p (db_messages db)) =
      select_by k (\<lambda>m. msg_conversation_id m = cid \<and> now < msg_expires_at m \<and> q m) (db_messages db)"
proof -
  have "filter (\<lambda>m. (msg_conversation_id m = cid \<and> now < msg_expires_at m \<and> q m) \<and> p m) (db_messages db) =
      filter (\<lambda>m. msg_conversation_id m = cid \<and> now < msg_expires_at m \<and> q m) (db_messages db)"
    using assms by (intro filter_cong) force+
  then show ?thesis by (simp add: select_by_def filter_filter conj_commute)
qed


section \<open>Conversations of matches\<close>

lemma get_or_create_Inr:
  assumes "get_or_create_buddy_conversation fresh mid clock db = (Inr c, db')"
  shows "\<exists>m t. m \<in> set (db_matches db) \<and> mat_id m = mid \<and> mat_status m = ACTIVE \<and> mat_deleted_at m = None
     \<and> clock = Aware t \<and> conv_match_id c = mid
     \<and> (db' = db \<and> c \<in> set (db_conversations db)
        \<or> c = \<lparr>conv_id = fresh, conv_match_id = mid, conv_semester_id = mat_semester_id m, conv_created_at = t\<rparr>
          \<and> insert_conversation_on_conflict c db = (Inr (Some c), db')
          \<and> db' = db\<lparr>db_conversations := db_conversations db @ [c]\<rparr>
          \<and> (\<forall>y \<in> set (db_conversations db). conv_match_id y \<noteq> mid))"
proof -
  let ?rest = "\<lambda>m inserted. case inserted of
           Some conversation \<Rightarrow> return_tx conversation
         | None \<Rightarrow> bind_tx (query_tx (\<lambda>db. find (\<lambda>c. conv_match_id c = mat_id m) (db_conversations db)))
               (\<lambda>existing. case existing of
                  None \<Rightarrow> raise_tx (BuddyConversationPersistenceError Conversation_ACTIVE_MATCH_REQUIRED)
                | Some c \<Rightarrow> return_tx c)"
  from assms obtain m where m1: "find (\<lambda>m. mat_id m = mid \<and> mat_status m = ACTIVE \<and> mat_deleted_at m = None) (db_matches db) = Some m"
    by (cases "find (\<lambda>m. mat_id m = mid \<and> mat_status m = ACTIVE \<and> mat_deleted_at m = None) (db_matches db)")
       (simp_all add: get_or_create_buddy_conversation_def)
  with assms have "bind_tx (lift_tx (aware ValueError clock)) (\<lambda>t. bind_tx (insert_conversation_on_conflict
       \<lparr>conv_id = fresh, conv_match_id = mat_id m, conv_semester_id = mat_semester_id m, conv_created_at = t\<rparr>) (?rest m)) db
     = (Inr c, db')"
    by (simp add: get_or_create_buddy_conversation_def)
  then obtain t where t: "clock = Aware t" and bound: "bind_tx (insert_conversation_on_conflict
       \<lparr>conv_id = fresh, conv_match_id = mat_id m, conv_semester_id = mat_semester_id m, conv_created_at = t\<rparr>) (?rest m) db
     = (Inr c, db')" by (cases clock) simp_all
  from bound obtain ins s where ins: "insert_conversation_on_conflict \<lparr>conv_id = fresh, conv_match_id = mat_id m,
                    conv_semester_id = mat_semester_id m, conv_created_at = t\<rparr> db = (Inr ins, s)"
    and rest: "?rest m ins s = (Inr c, db')"
    by (subst (asm) bind_tx_Inr_iff) blast
  note m = m1 t
  from find_SomeD[OF m(1)] have mm: "m \<in> set (db_matches db)" "mat_id m = mid" "mat_status m = ACTIVE" "mat_deleted_at m = None" by auto
  show ?thesis
  proof (cases ins)
    case None
    with rest insert_conversation_Inr[OF ins] mm m(2) show ?thesis
      by (auto simp: tx split: option.split_asm dest: find_SomeD intro!: exI[of _ m])
  next
    case (Some c')
    with rest insert_conversation_Inr[OF ins] ins mm m(2) show ?thesis
      by (auto simp: tx intro!: exI[of _ m])
  qed
qed

lemma get_or_create_db_ok:
  "db_ok db \<Longrightarrow> get_or_create_buddy_conversation fresh mid clock db = (Inr c, db') \<Longrightarrow> db_ok db'"
  using get_or_create_Inr[of fresh mid clock db c db'] insert_conversation_db_ok by blast

section \<open>Concrete instances\<close>

definition sample_match :: buddy_match where
  "sample_match = \<lparr>mat_id = 50, mat_participant_one_user_id = 1, mat_participant_two_user_id = 2,
     mat_participant_one_profile_id = 11, mat_participant_two_profile_id = 12, mat_status = ACTIVE,
     mat_accepted_invitation_id = 20, mat_semester_id = 9, mat_score = 50, mat_score_breakdown = PyDict [],
     mat_activated_at = 5, mat_created_at = 5, mat_updated_at = 5, mat_deleted_at = None\<rparr>"

definition sample_conversation :: buddy_conversation where
  "sample_conversation = \<lparr>conv_id = 60, conv_match_id = 50, conv_semester_id = 9, conv_created_at = 5\<rparr>"

definition sample_message :: buddy_message where
  "sample_message = new_message 80 60 1 7 (u ''hi'') 10 (10 + BUDDY_MESSAGE_MAX_RETENTION)"

definition chat_database :: "buddy_message list \<Rightarrow> database" where
  "chat_database ms = witness_population\<lparr>db_matches := [sample_match], db_conversations := [sample_conversation],
     db_messages := ms\<rparr>"

lemma chat_database_simps [simp]:
  "db_messages (chat_database ms) = ms" "db_conversations (chat_database ms) = [sample_conversation]"
  "db_matches (chat_database ms) = [sample_match]" "(chat_database ms)\<lparr>db_messages := ms'\<rparr> = chat_database ms'"
  by (simp_all add: chat_database_def)

lemma sample_body: "validate_buddy_message_body (u ''hi'') = Inr (u ''hi'')"
  by (simp add: validate_body_Inr u_def strip_by_def py_isspace_def MAX_BUDDY_MESSAGE_CODE_POINTS_def)

lemma sample_participant: "conversation_of_participant (chat_database ms) i sample_conversation \<longleftrightarrow> i = 1 \<or> i = 2"
  by (auto simp: conversation_of_participant_def active_participant_def sample_match_def sample_conversation_def)

lemma sample_authorized:
  "i = 1 \<or> i = 2 \<Longrightarrow> require_authorized_active_conversation 60 i (chat_database ms) = Inr sample_conversation"
  using sample_participant by (simp add: require_authorized_active_conversation_def) (simp add: sample_conversation_def)

lemma chat_database_ok: "db_ok (chat_database [])"
proof -
  have "match_check sample_match" "match_refs (chat_database []) sample_match"
    "conversation_refs (chat_database []) sample_conversation"
    by (simp_all add: match_check_def sample_match_def mat_pair_def pair_low_def pair_high_def match_refs_def
        conversation_refs_def sample_conversation_def chat_database_def witness_population_defs witness_invitation_def)
  moreover have "db_users (chat_database []) = db_users witness_population" "db_profiles (chat_database []) = db_profiles witness_population"
    "db_photos (chat_database []) = db_photos witness_population" "db_outbox (chat_database []) = db_outbox witness_population"
    "db_custom_preferences (chat_database []) = db_custom_preferences witness_population"
    "db_invitations (chat_database []) = db_invitations witness_population"
    by (simp_all add: chat_database_def)
  ultimately show ?thesis
    using witness_population_ok by (simp add: db_ok_def table_ok_def invitation_refs_def outbox_refs_def list_all_iff)
qed

lemma sample_send:
  "send_buddy_message 80 60 1 7 (u ''hi'') (Aware 10) (chat_database []) = (Inr sample_message, chat_database [sample_message])"
  using send_run[OF chat_database_ok sample_body sample_authorized[of 1], of 80 7 10]
  by (simp add: message_of_client_def Let_def sample_message_def)

lemma sample_sent_ok: "db_ok (chat_database [sample_message])"
  by (rule send_db_ok[OF chat_database_ok sample_send])

lemma sample_fields: "msg_id sample_message = 80" "msg_conversation_id sample_message = 60" "msg_sender_id sample_message = 1"
  "msg_read_at sample_message = None" "msg_created_at sample_message = 10"
  "msg_expires_at sample_message = 10 + BUDDY_MESSAGE_MAX_RETENTION"
  by (simp_all add: sample_message_def new_message_def)

theorem send_is_idempotent_witness:
  "send_buddy_message 81 60 1 7 (u ''hi'') (Aware 11) (chat_database [sample_message]) =
     (Inr sample_message, chat_database [sample_message])"
proof -
  have "11 < msg_expires_at sample_message" by (simp add: sample_fields BUDDY_MESSAGE_MAX_RETENTION_def day_us_def)
  moreover have "u ''ho'' \<noteq> u ''hi'' \<or> (60 :: uuid) \<noteq> 60" by (simp add: u_def)
  ultimately show ?thesis using send_is_idempotent[OF chat_database_ok sample_send, of 11 "u ''ho''" 60 81] by blast
qed

lemma sample_history: "history 60 20 (chat_database [sample_message]) = [sample_message]"
  by (simp add: history_def select_by_def sample_fields BUDDY_MESSAGE_MAX_RETENTION_def day_us_def)

theorem history_pages_partition_witness:
  "\<exists>pages. fetch_history 2 60 2 None 1 (Aware 20) (chat_database [sample_message]) = Inr pages
     \<and> concat pages = [sample_message]"
proof -
  have "list_all cursor_position (history 60 20 (chat_database [sample_message]))"
    by (simp add: sample_history cursor_position_def sample_fields MAX_DATETIME_def)
  from history_pages_partition[OF sample_sent_ok sample_authorized[of 2] _ _ this, of 1 2]
  show ?thesis by (auto simp: sample_history MAX_CHAT_MESSAGE_PAGE_SIZE_def)
qed

theorem unread_summary_exact_witness:
  "\<exists>s. get_buddy_unread_summary 2 (Aware 20) (chat_database [sample_message]) = Inr s \<and> total_unread_messages s = 1"
proof -
  have "unread_messages 2 20 (chat_database [sample_message]) = [sample_message]"
    using sample_participant[of _ 2]
    by (simp add: unread_messages_def sample_fields BUDDY_MESSAGE_MAX_RETENTION_def day_us_def)
       (simp add: sample_conversation_def)
  with unread_summary_exact[OF sample_sent_ok, of 2 20] show ?thesis by auto
qed

lemma sample_ack:
  "acknowledge_buddy_messages_read 60 2 80 (Aware 20) (chat_database [sample_message]) =
     (Inr \<lparr>ack_through_message_id = 80, ack_marked_read_count = 1\<rparr>, chat_database [mark_read 20 sample_message])"
proof -
  have "boundary_message 60 2 80 20 (chat_database [sample_message]) = Some sample_message"
    using sample_participant[of _ 2]
    by (simp add: boundary_message_def sample_fields BUDDY_MESSAGE_MAX_RETENTION_def day_us_def)
       (simp add: sample_conversation_def)
  moreover have "read_through 60 2 sample_message 20 sample_message"
    by (simp add: read_through_def sample_fields BUDDY_MESSAGE_MAX_RETENTION_def day_us_def)
  moreover have "message_check (mark_read 20 sample_message)"
    using mark_read_check[of sample_message 20] msg.row_ok[OF db_ok_tables(8)[OF sample_sent_ok]] by (simp add: sample_fields)
  ultimately show ?thesis by (simp add: ack_unfold Let_def update_where_def)
qed



end
