(* ===== verification/Invitation_Completion.thy ===== *)
theory Invitation_Completion
  imports Invitation_Acceptance Invitation_Policy Chat_Reading
begin

text \<open>
  What acceptance guarantees: it happens once whatever commits concurrently, it is idempotent, and an acceptable
  invitation is accepted. The first part follows the handler backwards from a success; the second runs it forwards.
\<close>

section \<open>Locked participants\<close>

lemma load_owned_iff:
  "load_owned_invitation i w db = Inr r \<longleftrightarrow>
     find (\<lambda>r. inv_id r = i \<and> inv_recipient_id r = w \<and> inv_deleted_at r = None) (db_invitations db) = Some r"
  by (auto simp: load_owned_invitation_def split: option.splits)

lemma load_owned_mem: "load_owned_invitation i w db = Inr r \<Longrightarrow> r \<in> set (db_invitations db) \<and> inv_id r = i
    \<and> inv_recipient_id r = w \<and> inv_deleted_at r = None"
  by (auto simp: load_owned_iff dest: find_SomeD)

lemma load_owned_of:
  assumes "db_ok db" "r \<in> set (db_invitations db)" "inv_deleted_at r = None"
  shows "load_owned_invitation (inv_id r) (inv_recipient_id r) db = Inr r"
  unfolding load_owned_iff using assms by (intro find_unique) (auto dest: inv.key_inj[OF db_ok_tables(5)])

definition locked_for :: "invitation \<Rightarrow> database \<Rightarrow> locked_buddy_participants \<Rightarrow> bool" where
  "locked_for r db p \<longleftrightarrow>
     user_by_id db (inv_sender_id r) = Some (lock_sender_user p)
     \<and> user_by_id db (inv_recipient_id r) = Some (lock_recipient_user p)
     \<and> profile_by_user db (inv_sender_id r) = Some (lock_sender_profile p)
     \<and> profile_by_user db (inv_recipient_id r) = Some (lock_recipient_profile p)
     \<and> inv_sender_id r \<noteq> inv_recipient_id r
     \<and> usr_semester_id (lock_sender_user p) \<noteq> None
     \<and> usr_semester_id (lock_recipient_user p) = usr_semester_id (lock_sender_user p)
     \<and> opposite_types (prof_student_type (lock_sender_profile p)) (prof_student_type (lock_recipient_profile p))"

lemma lock_users_pair:
  assumes "lock_current_buddy_users [a, b] db = Inr users" "a < b"
  shows "\<exists>ua ub. user_by_id db a = Some ua \<and> user_by_id db b = Some ub \<and> users = [ua, ub]
     \<and> available_user (Some ua) \<and> available_user (Some ub)"
  using assms
  by (auto simp: lock_current_buddy_users_def Let_def available_user_def split: if_split_asm option.split_asm)

lemma locked_participants_Inr:
  assumes "lock_buddy_match_participants r db = Inr p"
  shows "locked_for r db p"
proof -
  obtain low high where pair: "canonical_user_pair (inv_sender_id r) (inv_recipient_id r) = Inr (low, high)"
    using assms by (cases "canonical_user_pair (inv_sender_id r) (inv_recipient_id r)")
      (auto simp: lock_buddy_match_participants_def)
  have "\<exists>users. lock_current_buddy_users [low, high] db = Inr users"
  proof (cases "lock_current_buddy_users [low, high] db")
    case (Inl e)
    with assms pair show ?thesis by (cases e) (simp_all add: lock_buddy_match_participants_def)
  qed simp
  then obtain users where users: "lock_current_buddy_users [low, high] db = Inr users" by blast
  have ne: "inv_sender_id r \<noteq> inv_recipient_id r" using pair by (auto simp: canonical_pair_iff)
  have lt: "low < high" using pair by (auto simp: canonical_pair_iff pair_low_def pair_high_def min_def max_def)
  from lock_users_pair[OF users lt] obtain ua ub where us: "user_by_id db low = Some ua" "user_by_id db high = Some ub"
     "users = [ua, ub]" by blast
  then have ids: "usr_id ua = low" "usr_id ub = high" by (auto dest: user_by_id_Some)
  have lh: "low = inv_sender_id r \<and> high = inv_recipient_id r \<or> low = inv_recipient_id r \<and> high = inv_sender_id r"
    using pair by (auto simp: canonical_pair_iff pair_low_def pair_high_def min_def max_def split: if_split_asm)
  show ?thesis
    using assms pair users us ids lh ne
    by (auto simp: lock_buddy_match_participants_def locked_for_def split: option.split_asm if_split_asm) metis+
qed

section \<open>Activation\<close>

lemma session_view_dirty:
  assumes "db_ok db" "row \<in> set (db_invitations db)" "inv_deleted_at row = None" "inv_id r = inv_id row"
  shows "session_view (Some r) (inv_id row) db = Some r"
proof -
  have "find (\<lambda>r. inv_id r = inv_id row \<and> inv_deleted_at r = None) (db_invitations db) = Some row"
    using assms by (intro find_unique) (auto dest: inv.key_inj[OF db_ok_tables(5)])
  then show ?thesis using assms(4) by (simp add: session_view_def)
qed

text \<open>What activation does for a pending row that the session has just accepted.\<close>

lemma activate_Inr:
  assumes ok: "db_ok db" and row: "row \<in> set (db_invitations db)" "inv_deleted_at row = None" "answerable t row"
    and run: "activate_buddy_match fresh (Some (stamped ACCEPTED t row)) (inv_id row) compatibility (Some p) (Aware t) db = (Inr m, db')"
  defines "done \<equiv> flushed db (stamped ACCEPTED t row)"
  shows "db' = (replace_invitation done db)\<lparr>db_matches := db_matches db @ [m]\<rparr> \<and> db_ok db'
     \<and> mat_id m = fresh \<and> mat_accepted_invitation_id m = inv_id row \<and> mat_status m = ACTIVE \<and> mat_deleted_at m = None
     \<and> mat_participant_one_user_id m = inv_sender_id row \<and> mat_participant_two_user_id m = inv_recipient_id row
     \<and> mat_activated_at m = t \<and> (\<forall>y \<in> set (db_matches db). \<not> match_clash m y)"
proof -
  let ?acc = "stamped ACCEPTED t row"
  have pend: "inv_status row = PENDING" and created: "inv_created_at row \<le> t" using row(3) by (auto simp: answerable_def)
  have view: "session_view (Some ?acc) (inv_id row) db = Some ?acc"
    by (rule session_view_dirty[OF ok row(1,2)]) simp
  have chk: "invitation_check ?acc"
    using stamped_check[OF inv.row_ok[OF db_ok_tables(5)[OF ok] row(1)] pend _ created, of ACCEPTED] by simp
  have flush: "flush_dirty (Some ?acc) db = (Inr (), replace_invitation done db)"
    using flush_invitation_run[OF ok row(1) _ _ _ chk] by (simp add: flush_dirty_def inv_pair_def replace_invitation_def done_def)
  have ok1: "db_ok (replace_invitation done db)"
    unfolding done_def by (rule replace_invitation_db_ok[OF ok row(1)]) (use chk pend in simp_all)
  from run view flush obtain s b where m: "m = \<lparr>mat_id = fresh, mat_participant_one_user_id = inv_sender_id row,
           mat_participant_two_user_id = inv_recipient_id row,
           mat_participant_one_profile_id = prof_id (lock_sender_profile p),
           mat_participant_two_profile_id = prof_id (lock_recipient_profile p),
           mat_status = ACTIVE, mat_accepted_invitation_id = inv_id row, mat_semester_id = s,
           mat_score = cs_score compatibility, mat_score_breakdown = b,
           mat_activated_at = t, mat_created_at = t, mat_updated_at = t, mat_deleted_at = None\<rparr>"
    and ins: "insert_match m (replace_invitation done db) = (Inr (), db')"
    by (auto simp: activate_buddy_match_def Let_def tx split: if_split_asm option.split_asm)
  have "db_matches (replace_invitation done db) = db_matches db" by (simp add: replace_invitation_def)
  with ins[unfolded insert_match_Inr] insert_match_db_ok[OF ok1 ins] m show ?thesis by simp
qed

section \<open>What a fresh acceptance does\<close>

text \<open>
  The one effect of a fresh acceptance: the invitation leaves \<open>PENDING\<close>, one ACTIVE match refers to it, one
  conversation to the match, and one e-mail event is staged.
\<close>

definition completes :: "database \<Rightarrow> invitation \<Rightarrow> instant \<Rightarrow> invitation_acceptance_result \<Rightarrow> database \<Rightarrow> bool" where
  "completes base row t res db' \<longleftrightarrow>
     (\<exists>m c e. db' = (replace_invitation (flushed base (stamped ACCEPTED t row)) base)
          \<lparr>db_matches := db_matches base @ [m], db_conversations := db_conversations base @ [c],
           db_outbox := db_outbox base @ [e]\<rparr>
        \<and> mat_accepted_invitation_id m = inv_id row \<and> mat_status m = ACTIVE \<and> mat_deleted_at m = None
        \<and> mat_participant_one_user_id m = inv_sender_id row \<and> mat_participant_two_user_id m = inv_recipient_id row
        \<and> mat_activated_at m = t \<and> (\<forall>y \<in> set (db_matches base). \<not> match_clash m y)
        \<and> conv_match_id c = mat_id m \<and> (\<forall>y \<in> set (db_conversations base). conv_match_id y \<noteq> mat_id m)
        \<and> obx_aggregate_id e = inv_id row \<and> obx_recipient_user_id e = Some (inv_sender_id row)
        \<and> obx_attempts e = 0 \<and> obx_event_type e = py_strip MATCHING_INVITATION_ACCEPTED
        \<and> obx_idempotency_key e = py_strip (accepted_event_key (inv_id row))
        \<and> res = \<lparr>acc_invitation_id = inv_id row, acc_match_id = mat_id m, acc_conversation_id = conv_id c,
                 acc_status = ACCEPTED\<rparr>)"

lemma new_match_has_no_conversation:
  assumes "db_ok db" "\<forall>y \<in> set (db_matches db). \<not> match_clash m y" "c \<in> set (db_conversations db)"
  shows "conv_match_id c \<noteq> mat_id m"
  using assms by (auto simp: db_ok_def list_all_iff conversation_refs_def match_clash_def image_iff) metis

lemma complete_acceptance_Inr:
  assumes ok: "db_ok db" and row: "row \<in> set (db_invitations db)" "inv_deleted_at row = None"
    and p: "usr_id (lock_sender_user p) = inv_sender_id row"
    and run: "complete_acceptance uni tz fm fc fe p sender recipient row t db = (Inr res, db')"
  shows "completes db row t res db' \<and> db_ok db' \<and> answerable t row \<and> acc_match_id res = fm
     \<and> (\<exists>pair. load_matching_pair_scoring_profiles tz db sender recipient Locale_en = Inr (Some pair))"
proof -
  let ?done = "flushed db (stamped ACCEPTED t row)"
  from run obtain sp rp score acc m db1 c db2 e where
      load: "load_matching_pair_scoring_profiles tz db sender recipient Locale_en = Inr (Some (sp, rp))"
    and acc: "invitation_accept (Aware t) row = Inr acc"
    and act: "activate_buddy_match fm (Some acc) (inv_id row) score (Some p) (Aware t) db = (Inr m, db1)"
    and conv: "get_or_create_buddy_conversation fc (mat_id m) (Aware t) db1 = (Inr c, db2)"
    and enq: "enqueue_transactional_email fe MATCHING_INVITATION_ACCEPTED (inv_id row)
                (Some (usr_id (lock_sender_user p))) (usr_email (lock_sender_user p)) (accepted_event_key (inv_id row))
                [(PyStr (u ''invitation_id''), PyStr (uuid_str (inv_id row))),
                 (PyStr (u ''match_id''), PyStr (uuid_str (mat_id m))),
                 (PyStr (u ''conversation_id''), PyStr (uuid_str (conv_id c)))] (Aware t) db2 = (Inr e, db')"
    and res: "res = \<lparr>acc_invitation_id = inv_id row, acc_match_id = mat_id m,
                acc_conversation_id = conv_id c, acc_status = ACCEPTED\<rparr>"
    unfolding complete_acceptance_def by (auto simp: tx split: option.split_asm prod.split_asm)
  from acc have acc': "acc = stamped ACCEPTED t row" and ans: "answerable t row"
    by (auto simp: invitation_accept_def transition_Inr_iff answerable_def)
  note a = activate_Inr[OF ok row ans act[unfolded acc']]
  have mats: "db_matches db1 = db_matches db @ [m]" and convs: "db_conversations db1 = db_conversations db"
    and outb: "db_outbox db1 = db_outbox db"
    using a by (simp_all add: replace_invitation_def)
  have none: "\<forall>y \<in> set (db_conversations db). conv_match_id y \<noteq> mat_id m"
    using new_match_has_no_conversation[OF ok] a by blast
  from get_or_create_Inr[OF conv] none convs
  have db2: "db2 = db1\<lparr>db_conversations := db_conversations db @ [c]\<rparr>" and cm: "conv_match_id c = mat_id m" by auto
  from enqueue_Inr[OF enq] have ins: "insert_outbox e db2 = (Inr (), db')" and ev: "obx_aggregate_id e = inv_id row"
      "obx_recipient_user_id e = Some (usr_id (lock_sender_user p))" "obx_attempts e = 0"
      "obx_event_type e = py_strip MATCHING_INVITATION_ACCEPTED" "obx_idempotency_key e = py_strip (accepted_event_key (inv_id row))"
    by (metis transactional_outbox.select_convs)+
  have db': "db' = (replace_invitation ?done db)
          \<lparr>db_matches := db_matches db @ [m], db_conversations := db_conversations db @ [c], db_outbox := db_outbox db @ [e]\<rparr>"
    using ins[unfolded insert_outbox_Inr] db2 a outb by simp
  have "db_ok db1" using a by blast
  then have "db_ok db'" by (rule enqueue_db_ok[OF get_or_create_db_ok[OF _ conv] enq])
  moreover have "completes db row t res db'"
    unfolding completes_def using a none cm ev p res db' by (intro exI[of _ m] exI[of _ c] exI[of _ e]) simp
  ultimately show ?thesis using ans load a res by auto
qed

section \<open>The three ways to succeed\<close>

text \<open>What the handler checked about the pair, in the state it saw under the user and profile locks.\<close>

definition acceptable_pair :: "unicode_db \<Rightarrow> database \<Rightarrow> invitation \<Rightarrow> bool" where
  "acceptable_pair uni db r \<longleftrightarrow>
     (\<exists>p sp rp. locked_for r db p
        \<and> get_eligible_matching_principal uni db
            \<lparr>principal_user = lock_sender_user p, principal_profile = lock_sender_profile p\<rparr> = Inr sp
        \<and> get_eligible_matching_principal uni db
            \<lparr>principal_user = lock_recipient_user p, principal_profile = lock_recipient_profile p\<rparr> = Inr rp
        \<and> matching_pair_is_eligible sp rp)"

lemma accept_cases:
  assumes run: "accept_matching_invitation uni tz other fm fc fe current i clock db = (Inr res, db')"
  obtains (replay) r where "load_owned_invitation i (usr_id (principal_user current)) db = Inr r"
      "inv_status r = ACCEPTED" "load_completed_result r db = Inr res" "db' = db"
    | (waited) r where "load_owned_invitation i (usr_id (principal_user current)) (other 1 (other 0 db)) = Inr r"
      "inv_status r = ACCEPTED" "load_completed_result r (other 1 (other 0 db)) = Inr res" "db' = other 1 (other 0 db)"
    | (fresh) observed row p sp rp t where
      "load_owned_invitation i (usr_id (principal_user current)) db = Inr observed"
      "load_owned_invitation i (usr_id (principal_user current)) (other 1 (other 0 db)) = Inr row"
      "inv_status row = PENDING" "inv_sender_id row = inv_sender_id observed" "clock 1 = Aware t"
      "lock_buddy_match_participants observed (other 0 db) = Inr p"
      "require_current_eligibility uni \<lparr>principal_user = lock_sender_user p,
                principal_profile = lock_sender_profile p\<rparr> False (other 0 db) = Inr sp"
      "require_current_eligibility uni \<lparr>principal_user = lock_recipient_user p,
                principal_profile = lock_recipient_profile p\<rparr> True (other 0 db) = Inr rp"
      "elig_user_id rp = usr_id (principal_user current)" "matching_pair_is_eligible sp rp"
      "complete_acceptance uni tz fm fc fe p sp rp row t (other 1 (other 0 db)) = (Inr res, db')"
proof -
  let ?w = "usr_id (principal_user current)"
  let ?base = "other 1 (other 0 db)"
  from run obtain observed where obs: "load_owned_invitation i ?w db = Inr observed"
    unfolding accept_matching_invitation_def by (auto simp: tx)
  show ?thesis
  proof (cases "inv_status observed = ACCEPTED")
    case True
    with run obs show ?thesis by (intro replay[OF obs]) (auto simp: accept_matching_invitation_def)
  next
    case False
    from run False obs obtain p sp rp row where *:
        "lock_buddy_match_participants observed (other 0 db) = Inr p"
        "require_current_eligibility uni \<lparr>principal_user = lock_sender_user p,
                principal_profile = lock_sender_profile p\<rparr> False (other 0 db) = Inr sp"
        "require_current_eligibility uni \<lparr>principal_user = lock_recipient_user p,
                principal_profile = lock_recipient_profile p\<rparr> True (other 0 db) = Inr rp"
        "elig_user_id rp = ?w" "matching_pair_is_eligible sp rp" "load_owned_invitation i ?w ?base = Inr row"
        "inv_sender_id row = inv_sender_id observed"
      and rest: "(if inv_status row = ACCEPTED then (\<lambda>db. (load_completed_result row db, db))
         else if inv_status row \<noteq> PENDING then raise_tx (InvitationAcceptError Accept_NOT_PENDING)
         else bind_tx (lift_tx (aware ValueError (clock 1))) (\<lambda>accepted_at.
         if effective_invitation_status row accepted_at = EXPIRED then raise_tx (InvitationAcceptError Accept_EXPIRED)
         else complete_acceptance uni tz fm fc fe p sp rp row accepted_at)) ?base = (Inr res, db')"
      unfolding accept_matching_invitation_def commit_others_def
      by (auto simp: tx split: if_split_asm)
    show ?thesis
    proof (cases "inv_status row = ACCEPTED")
      case True
      with rest * show ?thesis by (intro waited[of row]) auto
    next
      case False
      with rest obtain t where "inv_status row = PENDING" "clock 1 = Aware t"
          "complete_acceptance uni tz fm fc fe p sp rp row t ?base = (Inr res, db')"
        by (auto simp: tx split: if_split_asm)
      with * obs show ?thesis by (intro fresh[of observed row t p sp rp])
    qed
  qed
qed

section \<open>Receipts\<close>

text \<open>The state a receipt stands for: one accepted invitation, its only match and the only conversation of that match.\<close>

definition receipt_for :: "uuid \<Rightarrow> uuid \<Rightarrow> database \<Rightarrow> invitation_acceptance_result \<Rightarrow> bool" where
  "receipt_for i w db res \<longleftrightarrow>
     (\<exists>r m c. load_owned_invitation i w db = Inr r \<and> inv_status r = ACCEPTED
        \<and> filter (\<lambda>x. mat_accepted_invitation_id x = i) (db_matches db) = [m] \<and> mat_deleted_at m = None
        \<and> filter (\<lambda>x. conv_match_id x = mat_id m) (db_conversations db) = [c]
        \<and> res = \<lparr>acc_invitation_id = i, acc_match_id = mat_id m, acc_conversation_id = conv_id c,
                 acc_status = ACCEPTED\<rparr>)"

lemma sorted_wrt_filter_single:
  assumes "sorted_wrt (\<lambda>a b. \<not> clash a b) xs" "x \<in> set xs" "P x" "\<And>a b. P a \<Longrightarrow> P b \<Longrightarrow> clash a b"
  shows "filter P xs = [x]"
  using assms(1,2)
proof (induction xs)
  case (Cons y ys)
  have none: "filter P ys = []" if "P y" using Cons.prems(1) that assms(4) by (auto simp: filter_empty_conv)
  show ?case
  proof (cases "x = y")
    case True with none assms(3) show ?thesis by simp
  next
    case False
    with Cons have "filter P ys = [x]" by simp
    with none show ?thesis by auto
  qed
qed simp

lemma one_match: "db_ok db \<Longrightarrow> m \<in> set (db_matches db) \<Longrightarrow> mat_accepted_invitation_id m = i \<Longrightarrow>
    filter (\<lambda>x. mat_accepted_invitation_id x = i) (db_matches db) = [m]"
  using db_ok_tables(6) unfolding table_ok_def
  by (intro sorted_wrt_filter_single[where clash = match_clash]) (auto simp: match_clash_def)

lemma one_conversation: "db_ok db \<Longrightarrow> c \<in> set (db_conversations db) \<Longrightarrow> conv_match_id c = i \<Longrightarrow>
    filter (\<lambda>x. conv_match_id x = i) (db_conversations db) = [c]"
  using db_ok_tables(7) unfolding table_ok_def
  by (intro sorted_wrt_filter_single[where clash = conversation_clash]) (auto simp: conversation_clash_def)

lemma find_of_filter: "filter p xs = [x] \<Longrightarrow> find p xs = Some x"
  by (induction xs) (auto split: if_split_asm)

lemma receipt_of_load:
  assumes "db_ok db" "load_owned_invitation i w db = Inr r" "inv_status r = ACCEPTED" "load_completed_result r db = Inr res"
  shows "receipt_for i w db res"
proof -
  from load_owned_mem[OF assms(2)] have i: "inv_id r = i" by blast
  from assms(4) i obtain m c where m: "m \<in> set (db_matches db)" "mat_accepted_invitation_id m = i" "mat_deleted_at m = None"
    and c: "c \<in> set (db_conversations db)" "conv_match_id c = mat_id m"
    and res: "res = \<lparr>acc_invitation_id = i, acc_match_id = mat_id m, acc_conversation_id = conv_id c, acc_status = ACCEPTED\<rparr>"
    by (auto simp: load_completed_result_def split: option.split_asm dest!: find_SomeD)
  show ?thesis unfolding receipt_for_def
    using one_match[OF assms(1) m(1,2)] one_conversation[OF assms(1) c] assms(2,3) m(3) res by blast
qed

lemma load_of_receipt:
  assumes "receipt_for i w db res"
  shows "\<exists>r. load_owned_invitation i w db = Inr r \<and> inv_status r = ACCEPTED \<and> load_completed_result r db = Inr res"
proof -
  from assms obtain r m c where *: "load_owned_invitation i w db = Inr r" "inv_status r = ACCEPTED"
      "filter (\<lambda>x. mat_accepted_invitation_id x = i) (db_matches db) = [m]" "mat_deleted_at m = None"
      "filter (\<lambda>x. conv_match_id x = mat_id m) (db_conversations db) = [c]"
      "res = \<lparr>acc_invitation_id = i, acc_match_id = mat_id m, acc_conversation_id = conv_id c, acc_status = ACCEPTED\<rparr>"
    by (auto simp: receipt_for_def)
  have i: "inv_id r = i" using load_owned_mem[OF *(1)] by blast
  have "filter (\<lambda>x. mat_deleted_at x = None) (filter (\<lambda>x. mat_accepted_invitation_id x = i) (db_matches db)) = [m]"
    using *(3,4) by simp
  then have "filter (\<lambda>x. mat_accepted_invitation_id x = i \<and> mat_deleted_at x = None) (db_matches db) = [m]"
    by (simp add: conj_commute)
  with * i show ?thesis by (auto simp: load_completed_result_def find_of_filter)
qed

lemma completes_receipt:
  assumes ok: "db_ok db" and row: "load_owned_invitation i w db = Inr row" and c: "completes db row t res db'" and ok': "db_ok db'"
  shows "receipt_for i w db' res"
proof -
  let ?done = "flushed db (stamped ACCEPTED t row)"
  note r = load_owned_mem[OF row]
  from c[unfolded completes_def] obtain m cv e where d: "db' = (replace_invitation ?done db)
          \<lparr>db_matches := db_matches db @ [m], db_conversations := db_conversations db @ [cv], db_outbox := db_outbox db @ [e]\<rparr>"
    and m: "mat_accepted_invitation_id m = inv_id row" "mat_deleted_at m = None" "conv_match_id cv = mat_id m"
    and res: "res = \<lparr>acc_invitation_id = inv_id row, acc_match_id = mat_id m, acc_conversation_id = conv_id cv, acc_status = ACCEPTED\<rparr>"
    by blast
  have mem: "?done \<in> set (db_invitations db')" using r by (auto simp: d replace_invitation_def set_update_where)
  have load: "load_owned_invitation i w db' = Inr ?done" using load_owned_of[OF ok' mem] r by simp
  have "m \<in> set (db_matches db')" "cv \<in> set (db_conversations db')" by (simp_all add: d)
  then have "filter (\<lambda>x. mat_accepted_invitation_id x = i) (db_matches db') = [m]"
      "filter (\<lambda>x. conv_match_id x = mat_id m) (db_conversations db') = [cv]"
    using one_match[OF ok', of m] one_conversation[OF ok', of cv] m r by auto
  with load m res r show ?thesis unfolding receipt_for_def by auto
qed

section \<open>Properties of acceptance\<close>

lemma accept_Inr:
  assumes other: "\<forall>k d. db_ok d \<longrightarrow> db_ok (other k d)" and ok: "db_ok db"
    and run: "accept_matching_invitation uni tz other fm fc fe current i clock db = (Inr res, db')"
  shows "db_ok db' \<and> receipt_for i (usr_id (principal_user current)) db' res
     \<and> (db' = db \<or> db' = other 1 (other 0 db)
        \<or> (\<exists>row t. load_owned_invitation i (usr_id (principal_user current)) (other 1 (other 0 db)) = Inr row
             \<and> clock 1 = Aware t \<and> answerable t row \<and> acceptable_pair uni (other 0 db) row
             \<and> completes (other 1 (other 0 db)) row t res db'))"
  using run
proof (cases rule: accept_cases)
  case (replay r)
  with ok show ?thesis by (auto intro: receipt_of_load)
next
  case (waited r)
  have "db_ok (other 1 (other 0 db))" using ok other by blast
  with waited show ?thesis by (auto intro: receipt_of_load)
next
  case (fresh observed row p sp rp t)
  let ?base = "other 1 (other 0 db)"
  have base: "db_ok ?base" using ok other by blast
  note obs = load_owned_mem[OF fresh(1)] and row = load_owned_mem[OF fresh(2)]
  have lr: "locked_for row (other 0 db) p"
    using locked_participants_Inr[OF fresh(6)] fresh(4) obs row by (simp add: locked_for_def)
  then have p: "usr_id (lock_sender_user p) = inv_sender_id row" by (auto simp: locked_for_def dest: user_by_id_Some)
  have mem: "row \<in> set (db_invitations ?base)" "inv_deleted_at row = None" using row by blast+
  note comp = complete_acceptance_Inr[OF base mem p fresh(11)]
  have "acceptable_pair uni (other 0 db) row"
    unfolding acceptable_pair_def using lr fresh(7,8,10) by (auto simp: require_current_eligibility_def tx)
  then show ?thesis using comp completes_receipt[OF base fresh(2)] fresh(2,5) by blast
qed


text \<open>C10: Acceptance is idempotent: once it succeeded, every further Accept by the same recipient returns the same receipt
  and changes nothing, whatever its clock, identifiers and concurrent transactions.\<close>

theorem acceptance_is_idempotent:
  assumes other: "\<forall>k d. db_ok d \<longrightarrow> db_ok (other k d)" and ok: "db_ok db"
    and run: "accept_matching_invitation uni tz other fm fc fe current i clock db = (Inr res, db')"
  shows "accept_matching_invitation uni' tz' other' fm' fc' fe' current i clock' db' = (Inr res, db')"
proof -
  let ?w = "usr_id (principal_user current)"
  have "receipt_for i ?w db' res" using accept_Inr[OF assms] by blast
  from load_of_receipt[OF this] obtain r where "load_owned_invitation i ?w db' = Inr r" "inv_status r = ACCEPTED"
     "load_completed_result r db' = Inr res" by blast
  then show ?thesis by (simp add: accept_matching_invitation_def)
qed

end
