(* ===== verification/Invitation_Progress.thy ===== *)
theory Invitation_Progress
  imports Invitation_Completion
begin

text \<open>
  The forward direction: staging an event, activating a match and accepting an invitation succeed when what they
  check holds.
\<close>

section \<open>Staging an event succeeds\<close>

lemma hex_digits_hex: "c \<in> set (hex_digits k n) \<Longrightarrow> 48 \<le> c \<and> c \<le> 102"
proof (induction k arbitrary: n)
  case (Suc k)
  have "hex_digit m \<le> 102 \<and> 48 \<le> hex_digit m" if "m < 16" for m using that by (auto simp: hex_digit_def)
  then have "hex_digit (n mod 16) \<le> 102 \<and> 48 \<le> hex_digit (n mod 16)" by simp
  with Suc show ?case by auto
qed simp

lemma hex_digits_length [simp]: "length (hex_digits k n) = k"
  by (induction k arbitrary: n) simp_all

lemma uuid_str_chars: "c \<in> set (uuid_str i) \<Longrightarrow> 45 \<le> c \<and> c \<le> 102"
  by (auto simp: uuid_str_def Let_def dest!: in_set_takeD in_set_dropD hex_digits_hex)

lemma uuid_str_length [simp]: "length (uuid_str i) = 36"
  by (simp add: uuid_str_def Let_def)

lemma visible_not_space: "33 \<le> c \<Longrightarrow> c \<le> 126 \<Longrightarrow> \<not> py_isspace c"
  by (simp add: py_isspace_def)

lemma validate_visible:
  assumes "s \<noteq> []" "length s \<le> n" "\<forall>c \<in> set s. 33 \<le> c \<and> c \<le> 126"
  shows "validate_identifier n s = Inr s"
proof -
  have "\<not> py_isspace c" if "c \<in> set s" for c using visible_not_space assms(3) that by blast
  then have "py_strip s = s" using assms(1) by (simp add: strip_by_idem_iff)
  moreover have "13 \<notin> set s" "10 \<notin> set s" using assms(3) by auto
  ultimately show ?thesis using assms by (simp add: validate_identifier_def)
qed

lemma event_keys:
  "validate_identifier 256 (created_event_key i) = Inr (created_event_key i)"
  "validate_identifier 256 (accepted_event_key i) = Inr (accepted_event_key i)"
proof -
  have "\<forall>c \<in> set (uuid_str i). 33 \<le> c \<and> c \<le> 126" using uuid_str_chars[of _ i] by fastforce
  then show "validate_identifier 256 (created_event_key i) = Inr (created_event_key i)"
      "validate_identifier 256 (accepted_event_key i) = Inr (accepted_event_key i)"
    by (auto intro!: validate_visible simp: created_event_key_def accepted_event_key_def u_def)
qed

lemma event_types:
  "validate_identifier 100 MATCHING_INVITATION_CREATED = Inr MATCHING_INVITATION_CREATED"
  "validate_identifier 100 MATCHING_INVITATION_ACCEPTED = Inr MATCHING_INVITATION_ACCEPTED"
  "event_type_format MATCHING_INVITATION_CREATED" "event_type_format MATCHING_INVITATION_ACCEPTED"
  by (simp_all add: MATCHING_INVITATION_CREATED_def MATCHING_INVITATION_ACCEPTED_def validate_identifier_def u_def
      strip_by_def py_isspace_def ascii_upper_def ascii_digit_def)

lemma event_payloads:
  "validated_payload [(PyStr (u ''invitation_id''), PyStr x)] = Inr (PyDict [(PyStr (u ''invitation_id''), PyStr x)])"
  "validated_payload [(PyStr (u ''invitation_id''), PyStr x), (PyStr (u ''match_id''), PyStr y),
       (PyStr (u ''conversation_id''), PyStr z)] =
     Inr (PyDict [(PyStr (u ''invitation_id''), PyStr x), (PyStr (u ''match_id''), PyStr y),
       (PyStr (u ''conversation_id''), PyStr z)])"
  by (simp_all add: validated_payload_def sensitive_key_def SENSITIVE_WORDS_def u_def re_ignorecase_def
      ascii_upper_def is_infix_def)

definition staged :: "uuid \<Rightarrow> pystr \<Rightarrow> uuid \<Rightarrow> uuid \<Rightarrow> pystr \<Rightarrow> pystr \<Rightarrow> pyval \<Rightarrow> instant \<Rightarrow> transactional_outbox" where
  "staged fe ev agg recipient mail key payload t =
     \<lparr>obx_id = fe, obx_event_type = ev, obx_aggregate_id = agg, obx_recipient_user_id = Some recipient,
      obx_recipient_email = mail, obx_idempotency_key = key, obx_payload = payload, obx_attempts = 0,
      obx_next_attempt_at = t, obx_lease_owner = None, obx_lease_expires_at = None, obx_sent_at = None,
      obx_failed_at = None, obx_provider_message_id = None, obx_last_error_code = None, obx_created_at = t,
      obx_updated_at = t, obx_deleted_at = None\<rparr>"

lemma validated_btrim: "validate_identifier n s = Inr s \<Longrightarrow> btrim_between 1 n s"
proof -
  assume v: "validate_identifier n s = Inr s"
  then have "py_strip s = s" "s \<noteq> []" "length s \<le> n" by (auto simp: validate_identifier_def Let_def split: if_split_asm)
  moreover from this have "pg_btrim s = s" by (metis btrim_strip)
  ultimately show ?thesis by (cases s) (simp_all add: btrim_between_def One_nat_def)
qed

lemma enqueue_run:
  assumes "validate_identifier 100 ev = Inr ev" "event_type_format ev" "validate_identifier 256 key = Inr key"
    and "canonicalize_email mail = Inr mail" "btrim_between 1 320 mail" "validated_payload payload = Inr (PyDict payload)"
    and "recipient \<in> usr_id ` set (db_users db)"
    and "\<forall>y \<in> set (db_outbox db). obx_id y \<noteq> fe \<and> obx_idempotency_key y \<noteq> key"
  shows "enqueue_transactional_email fe ev agg (Some recipient) mail key payload (Aware t) db =
     (Inr (staged fe ev agg recipient mail key (PyDict payload) t),
      db\<lparr>db_outbox := db_outbox db @ [staged fe ev agg recipient mail key (PyDict payload) t]\<rparr>)"
proof -
  let ?row = "staged fe ev agg recipient mail key (PyDict payload) t"
  have "insert_outbox ?row db = (Inr (), db\<lparr>db_outbox := db_outbox db @ [?row]\<rparr>)"
    unfolding insert_outbox_Inr
    using assms validated_btrim[OF assms(1)] validated_btrim[OF assms(3)]
    by (auto simp: staged_def outbox_check_def outbox_clash_def outbox_refs_def)
  then show ?thesis
    using assms by (simp add: enqueue_transactional_email_def rethrow_tx_def Let_def staged_def)
qed

section \<open>An acceptable invitation is accepted\<close>

lemma loaded_pair_scores:
  assumes "load_matching_pair_scoring_profiles tz db a b locale = Inr (Some (x, y))"
  shows "require_eligible_safe_pair a b x y = Inr ()"
proof -
  let ?rows = "sort_key (\<lambda>row. prof_id (fst row))
                 [(p, ph). p \<leftarrow> db_profiles db,
                    (prof_id p = elig_profile_id a \<or> prof_id p = elig_profile_id b)
                      \<and> prof_deleted_at p = None,
                    ph \<leftarrow> db_photos db, ready_avatar_of p ph]"
  let ?pick = "\<lambda>projected e. case (find (\<lambda>p. prof_id p = elig_profile_id e) (rev (map fst ?rows)),
                                find (\<lambda>p. sp_id p = elig_profile_id e) (rev projected)) of
                 (Some persisted, Some sp) \<Rightarrow>
                    if prof_user_id persisted \<noteq> elig_user_id e
                       \<or> prof_student_type persisted \<noteq> Some (elig_student_type e)
                       \<or> sp_student_type sp \<noteq> elig_student_type e then None else Some sp
               | _ \<Rightarrow> None"
  have pick: "sp_id sp = elig_profile_id e \<and> sp_student_type sp = elig_student_type e" if "?pick projected e = Some sp" for projected and e :: eligible_matching_principal and sp
    using that by (auto split: option.split_asm if_split_asm dest: find_SomeD)
  from assms obtain projected where *: "matching_pair_is_eligible a b" "?pick projected a = Some x" "?pick projected b = Some y"
    by (auto simp: load_matching_pair_scoring_profiles_def Let_def tx split: if_split_asm option.split_asm)
  from pick[OF *(2)] pick[OF *(3)] *(1) show ?thesis by (simp add: require_eligible_safe_pair_def)
qed

lemma reference_week_is_monday: "py_weekday (current_reference_week_start t) = 0"
proof -
  have "(c - (c + 3) mod 7 + 3) mod 7 = 0" for c :: int by presburger
  then show ?thesis by (simp add: current_reference_week_start_def py_weekday_def Let_def)
qed

lemma snapshot_of_score:
  assumes "score_eligible_pair uni tz a b x y week = Inr s"
  shows "\<exists>items. compatibility_score_snapshot s = Inr (PyDict items)"
proof -
  have sig: "\<exists>v. public_signal z = Inr v" if "signal_in_range z" for z
    using that public_signal_ok[of z] by (auto simp: signal_in_range_def)
  note r = score_Inr_range[OF assms]
  obtain v1 v2 v3 v4 v5 where "public_signal (bd_interests (cs_breakdown s)) = Inr v1"
      "public_signal (bd_activities (cs_breakdown s)) = Inr v2" "public_signal (bd_availability (cs_breakdown s)) = Inr v3"
      "public_signal (bd_languages (cs_breakdown s)) = Inr v4" "public_signal (bd_major (cs_breakdown s)) = Inr v5"
    using sig r by meson
  then show ?thesis by (simp add: compatibility_score_snapshot_def project_compatibility_explanation_def Let_def)
qed

lemma activate_run:
  assumes ok: "db_ok db" and row: "row \<in> set (db_invitations db)" "inv_deleted_at row = None" "answerable t row"
    and p: "locked_for row db p" and sem: "usr_semester_id (lock_sender_user p) = Some s" "s \<in> set (db_semester_ids db)"
    and score: "score_eligible_pair uni tz a b x y week = Inr score"
    and free: "no_active_match (inv_sender_id row) (inv_recipient_id row) db"
    and new: "fresh \<notin> mat_id ` set (db_matches db)" "inv_id row \<notin> mat_accepted_invitation_id ` set (db_matches db)"
  shows "\<exists>m db'. activate_buddy_match fresh (Some (stamped ACCEPTED t row)) (inv_id row) score (Some p) (Aware t) db = (Inr m, db')
     \<and> mat_id m = fresh \<and> mat_semester_id m = s \<and> mat_status m = ACTIVE \<and> mat_deleted_at m = None"
proof -
  let ?acc = "stamped ACCEPTED t row"
  let ?done = "flushed db ?acc"
  have pend: "inv_status row = PENDING" and created: "inv_created_at row \<le> t" using row(3) by (auto simp: answerable_def)
  have ne: "inv_sender_id row \<noteq> inv_recipient_id row"
    and users: "lock_sender_user p \<in> set (db_users db)" "usr_id (lock_sender_user p) = inv_sender_id row"
      "lock_recipient_user p \<in> set (db_users db)" "usr_id (lock_recipient_user p) = inv_recipient_id row"
    and profs: "lock_sender_profile p \<in> set (db_profiles db)" "prof_user_id (lock_sender_profile p) = inv_sender_id row"
      "lock_recipient_profile p \<in> set (db_profiles db)" "prof_user_id (lock_recipient_profile p) = inv_recipient_id row"
    and sem2: "usr_semester_id (lock_recipient_user p) = Some s"
    using p sem(1) by (auto simp: locked_for_def dest: user_by_id_Some profile_by_user_Some)
  have pids: "prof_id (lock_sender_profile p) \<noteq> prof_id (lock_recipient_profile p)"
    using prof.key_inj[OF db_ok_tables(2)[OF ok] profs(1,3)] profs(2,4) ne by metis
  have view: "session_view (Some ?acc) (inv_id row) db = Some ?acc"
    by (rule session_view_dirty[OF ok row(1,2)]) simp
  have chk: "invitation_check ?acc"
    using stamped_check[OF inv.row_ok[OF db_ok_tables(5)[OF ok] row(1)] pend _ created, of ACCEPTED] by simp
  have flush: "flush_dirty (Some ?acc) db = (Inr (), replace_invitation ?done db)"
    using flush_invitation_run[OF ok row(1) _ _ _ chk] by (simp add: flush_dirty_def inv_pair_def replace_invitation_def)
  from snapshot_of_score[OF score] obtain items where snap: "compatibility_score_snapshot score = Inr (PyDict items)" by blast
  have range: "0 \<le> cs_score score \<and> cs_score score \<le> 100" using score_Inr_range[OF score] by blast
  have pair: "active_pair_exists (inv_sender_id row) (inv_recipient_id row) db = Inr False"
    using free ne by (auto simp: active_pair_exists_def no_active_match_def canonical_user_pair_def pair_low_def pair_high_def
        list_ex_iff list_all_iff)
  define m where "m = \<lparr>mat_id = fresh, mat_participant_one_user_id = inv_sender_id row,
           mat_participant_two_user_id = inv_recipient_id row,
           mat_participant_one_profile_id = prof_id (lock_sender_profile p),
           mat_participant_two_profile_id = prof_id (lock_recipient_profile p),
           mat_status = ACTIVE, mat_accepted_invitation_id = inv_id row, mat_semester_id = s,
           mat_score = cs_score score, mat_score_breakdown = PyDict items,
           mat_activated_at = t, mat_created_at = t, mat_updated_at = t, mat_deleted_at = None\<rparr>"
  have "match_check m" using ne pids range by (auto simp: m_def match_check_def mat_pair_def pair_low_def pair_high_def)
  moreover have "match_refs (replace_invitation ?done db) m"
  proof -
    have "inv_sender_id row \<in> usr_id ` set (db_users db)" "inv_recipient_id row \<in> usr_id ` set (db_users db)"
      using users by (metis imageI)+
    moreover have "inv_id row \<in> inv_id ` set (db_invitations (replace_invitation ?done db))"
      using inv.keys_update[of ?done "db_invitations db"] row(1) by (simp add: replace_invitation_def)
    ultimately show ?thesis using profs sem(2) by (auto simp: match_refs_def m_def replace_invitation_def)
  qed
  moreover have "\<forall>y \<in> set (db_matches (replace_invitation ?done db)). \<not> match_clash m y"
    using new free by (auto simp: match_clash_def m_def replace_invitation_def no_active_match_def list_all_iff mat_pair_def)
  ultimately have "insert_match m (replace_invitation ?done db) =
      (Inr (), (replace_invitation ?done db)\<lparr>db_matches := db_matches (replace_invitation ?done db) @ [m]\<rparr>)"
    unfolding insert_match_Inr by blast
  then have "activate_buddy_match fresh (Some ?acc) (inv_id row) score (Some p) (Aware t) db =
      (Inr m, (replace_invitation ?done db)\<lparr>db_matches := db_matches (replace_invitation ?done db) @ [m]\<rparr>)"
    using users profs sem(1) sem2
    by (simp add: activate_buddy_match_def view flush snap pair rethrow_tx_def atomic_tx_def bind_tx_def m_def Let_def)
  then show ?thesis by (auto simp: m_def)
qed

lemma accepting_Inr: "answerable t row \<Longrightarrow> invitation_accept (Aware t) row = Inr (stamped ACCEPTED t row)"
  by (simp add: invitation_accept_def transition_Inr_iff answerable_def)

lemma complete_run:
  assumes ok: "db_ok db" and row: "row \<in> set (db_invitations db)" "inv_deleted_at row = None" "answerable t row"
    and p: "locked_for row db p" and sem: "usr_semester_id (lock_sender_user p) = Some s" "s \<in> set (db_semester_ids db)"
    and load: "load_matching_pair_scoring_profiles tz db sp rp Locale_en = Inr (Some (x, y))"
    and free: "no_active_match (inv_sender_id row) (inv_recipient_id row) db"
    and mail: "canonicalize_email (usr_email (lock_sender_user p)) = Inr (usr_email (lock_sender_user p))"
      "btrim_between 1 320 (usr_email (lock_sender_user p))"
    and new: "fm \<notin> mat_id ` set (db_matches db)" "inv_id row \<notin> mat_accepted_invitation_id ` set (db_matches db)"
      "fc \<notin> conv_id ` set (db_conversations db)"
      "\<forall>z \<in> set (db_outbox db). obx_id z \<noteq> fe \<and> obx_idempotency_key z \<noteq> accepted_event_key (inv_id row)"
  shows "\<exists>db'. complete_acceptance uni tz fm fc fe p sp rp row t db =
     (Inr \<lparr>acc_invitation_id = inv_id row, acc_match_id = fm, acc_conversation_id = fc, acc_status = ACCEPTED\<rparr>, db')"
proof -
  from score_run[OF reference_week_is_monday[of t] loaded_pair_scores[OF load], of uni tz]
  obtain score where score: "score_eligible_pair uni tz sp rp x y (current_reference_week_start t) = Inr score" by blast
  from activate_run[OF ok row p sem score free new(1,2)] obtain m db1 where
    act: "activate_buddy_match fm (Some (stamped ACCEPTED t row)) (inv_id row) score (Some p) (Aware t) db = (Inr m, db1)"
    and m: "mat_id m = fm" "mat_semester_id m = s" "mat_status m = ACTIVE" "mat_deleted_at m = None" by blast
  note a = activate_Inr[OF ok row act]
  have ok1: "db_ok db1" using a by blast
  have tabs: "db_matches db1 = db_matches db @ [m]" "db_conversations db1 = db_conversations db"
      "db_outbox db1 = db_outbox db" "db_users db1 = db_users db" "db_semester_ids db1 = db_semester_ids db"
    using a by (simp_all add: replace_invitation_def)
  have found: "find (\<lambda>z. mat_id z = fm \<and> mat_status z = ACTIVE \<and> mat_deleted_at z = None) (db_matches db1) = Some m"
    using m mat.key_inj[OF db_ok_tables(6)[OF ok1]] by (intro find_unique) (auto simp: tabs)
  have none: "\<forall>z \<in> set (db_conversations db). conv_match_id z \<noteq> fm"
  proof
    fix z assume "z \<in> set (db_conversations db)"
    with a have "conv_match_id z \<noteq> mat_id m" by (intro new_match_has_no_conversation[OF ok]) auto
    then show "conv_match_id z \<noteq> fm" by (simp add: m)
  qed
  let ?c = "\<lparr>conv_id = fc, conv_match_id = fm, conv_semester_id = s, conv_created_at = t\<rparr>"
  let ?db2 = "db1\<lparr>db_conversations := db_conversations db @ [?c]\<rparr>"
  have "insert_conversation_on_conflict ?c db1 = (Inr (Some ?c), ?db2)"
    using none new(3) m sem(2)
    by (auto simp: insert_conversation_on_conflict_def insert_checked_def conversation_clash_def conversation_refs_def
        tabs list_ex_iff image_iff)
  then have conv: "get_or_create_buddy_conversation fc fm (Aware t) db1 = (Inr ?c, ?db2)"
    using m by (simp add: get_or_create_buddy_conversation_def found)
  have uid: "usr_id (lock_sender_user p) \<in> usr_id ` set (db_users db)"
    using p by (auto simp: locked_for_def dest: user_by_id_Some)
  have enq: "\<exists>e db'. enqueue_transactional_email fe MATCHING_INVITATION_ACCEPTED (inv_id row)
                (Some (usr_id (lock_sender_user p))) (usr_email (lock_sender_user p)) (accepted_event_key (inv_id row))
                [(PyStr (u ''invitation_id''), PyStr (uuid_str (inv_id row))),
                 (PyStr (u ''match_id''), PyStr (uuid_str fm)),
                 (PyStr (u ''conversation_id''), PyStr (uuid_str fc))] (Aware t) ?db2 = (Inr e, db')"
    by (rule exI)+ (rule enqueue_run[OF event_types(2,4) event_keys(2) mail event_payloads(2)], use uid new(4) in \<open>auto simp: tabs\<close>)
  show ?thesis
    using enq by (auto simp: complete_acceptance_def load score accepting_Inr[OF row(3)] act rethrow_tx_def m conv)
qed

text \<open>Everything the handler needs to find, in the state and at the moments it reads them.\<close>

definition acceptance_ready ::
    "unicode_db \<Rightarrow> tz_db \<Rightarrow> uuid \<Rightarrow> (nat \<Rightarrow> clock_value) \<Rightarrow> invitation \<Rightarrow> database \<Rightarrow> bool" where
  "acceptance_ready uni tz w clock row db \<longleftrightarrow>
     row \<in> set (db_invitations db) \<and> inv_recipient_id row = w \<and> inv_deleted_at row = None
     \<and> (\<exists>t0 t. clock 0 = Aware t0 \<and> clock 1 = Aware t \<and> t0 < inv_expires_at row \<and> answerable t row)
     \<and> no_active_match (inv_sender_id row) (inv_recipient_id row) db
     \<and> (\<exists>p sp rp pair s. lock_buddy_match_participants row db = Inr p
          \<and> get_eligible_matching_principal uni db
              \<lparr>principal_user = lock_sender_user p, principal_profile = lock_sender_profile p\<rparr> = Inr sp
          \<and> get_eligible_matching_principal uni db
              \<lparr>principal_user = lock_recipient_user p, principal_profile = lock_recipient_profile p\<rparr> = Inr rp
          \<and> load_matching_pair_scoring_profiles tz db sp rp Locale_en = Inr (Some pair)
          \<and> usr_semester_id (lock_sender_user p) = Some s \<and> s \<in> set (db_semester_ids db)
          \<and> canonicalize_email (usr_email (lock_sender_user p)) = Inr (usr_email (lock_sender_user p))
          \<and> btrim_between 1 320 (usr_email (lock_sender_user p)))"

definition fresh_for :: "uuid \<Rightarrow> uuid \<Rightarrow> uuid \<Rightarrow> uuid \<Rightarrow> database \<Rightarrow> bool" where
  "fresh_for i fm fc fe db \<longleftrightarrow> fm \<notin> mat_id ` set (db_matches db) \<and> i \<notin> mat_accepted_invitation_id ` set (db_matches db)
     \<and> fc \<notin> conv_id ` set (db_conversations db)
     \<and> fe \<notin> obx_id ` set (db_outbox db) \<and> accepted_event_key i \<notin> obx_idempotency_key ` set (db_outbox db)"

lemma accept_succeeds:
  assumes ok: "db_ok db" and ready: "acceptance_ready uni tz (usr_id (principal_user current)) clock row db"
    and new: "fresh_for (inv_id row) fm fc fe db" and alone: "other 0 db = db" "other 1 db = db"
  shows "\<exists>db'. accept_matching_invitation uni tz other fm fc fe current (inv_id row) clock db =
     (Inr \<lparr>acc_invitation_id = inv_id row, acc_match_id = fm, acc_conversation_id = fc, acc_status = ACCEPTED\<rparr>, db')"
proof -
  from ready obtain t0 t p sp rp x y s where
      row: "row \<in> set (db_invitations db)" "inv_deleted_at row = None" "inv_recipient_id row = usr_id (principal_user current)"
    and clock: "clock 0 = Aware t0" "clock 1 = Aware t" "t0 < inv_expires_at row" "answerable t row"
    and free: "no_active_match (inv_sender_id row) (inv_recipient_id row) db"
    and lock: "lock_buddy_match_participants row db = Inr p"
    and guards: "get_eligible_matching_principal uni db
              \<lparr>principal_user = lock_sender_user p, principal_profile = lock_sender_profile p\<rparr> = Inr sp"
        "get_eligible_matching_principal uni db
              \<lparr>principal_user = lock_recipient_user p, principal_profile = lock_recipient_profile p\<rparr> = Inr rp"
    and load: "load_matching_pair_scoring_profiles tz db sp rp Locale_en = Inr (Some (x, y))"
    and sem: "usr_semester_id (lock_sender_user p) = Some s" "s \<in> set (db_semester_ids db)"
    and mail: "canonicalize_email (usr_email (lock_sender_user p)) = Inr (usr_email (lock_sender_user p))"
        "btrim_between 1 320 (usr_email (lock_sender_user p))"
    unfolding acceptance_ready_def by (metis prod.exhaust)
  have p: "locked_for row db p" by (rule locked_participants_Inr[OF lock])
  have own: "load_owned_invitation (inv_id row) (usr_id (principal_user current)) db = Inr row"
    using load_owned_of[OF ok row(1,2)] row(3) by simp
  have pend: "inv_status row = PENDING" "t < inv_expires_at row" using clock(4) by (auto simp: answerable_def)
  have effective: "effective_invitation_status row t0 \<noteq> EXPIRED" "effective_invitation_status row t \<noteq> EXPIRED"
    using pend clock(3) by (simp_all add: effective_invitation_status_def)
  have pair: "matching_pair_is_eligible sp rp" using loaded_pair_scores[OF load] by (auto simp: require_eligible_safe_pair_def split: if_split_asm)
  have me: "elig_user_id rp = usr_id (principal_user current)"
    using guards(2) p row(3) by (auto simp: guard_Inr_iff locked_for_def dest: user_by_id_Some)
  have elig: "require_current_eligibility uni \<lparr>principal_user = lock_sender_user p, principal_profile = lock_sender_profile p\<rparr> False db = Inr sp"
      "require_current_eligibility uni \<lparr>principal_user = lock_recipient_user p, principal_profile = lock_recipient_profile p\<rparr> True db = Inr rp"
    using guards by (simp_all add: require_current_eligibility_def tx)
  have "\<exists>db'. complete_acceptance uni tz fm fc fe p sp rp row t db =
     (Inr \<lparr>acc_invitation_id = inv_id row, acc_match_id = fm, acc_conversation_id = fc, acc_status = ACCEPTED\<rparr>, db')"
    using new by (intro complete_run[OF ok row(1,2) clock(4) p sem load free mail]) (auto simp: fresh_for_def, metis imageI)
  then obtain db' where comp: "complete_acceptance uni tz fm fc fe p sp rp row t db =
     (Inr \<lparr>acc_invitation_id = inv_id row, acc_match_id = fm, acc_conversation_id = fc, acc_status = ACCEPTED\<rparr>, db')" by blast
  show ?thesis
    unfolding accept_matching_invitation_def
    by (rule exI[of _ db'])
      (simp add: own pend effective clock lock elig me pair comp commit_others_def alone rethrow_tx_def del: One_nat_def)
qed

text \<open>C11: An acceptable invitation is accepted: when no other transaction interferes, the invitation is PENDING and
  unexpired at both clock readings, both participants pass the checks and load for scoring, the two have no ACTIVE
  match and the drawn identifiers are new, the handler returns the receipt of the new match and conversation.\<close>

theorem acceptable_invitation_is_accepted:
  assumes "db_ok db" "acceptance_ready uni tz (usr_id (principal_user current)) clock row db"
    and "fresh_for (inv_id row) fm fc fe db"
  shows "\<exists>db'. accept_matching_invitation uni tz (\<lambda>_ d. d) fm fc fe current (inv_id row) clock db =
     (Inr \<lparr>acc_invitation_id = inv_id row, acc_match_id = fm, acc_conversation_id = fc, acc_status = ACCEPTED\<rparr>, db')
     \<and> db_ok db'"
  using accept_succeeds[OF assms, of "\<lambda>_ d. d"] accept_Inr[OF _ assms(1), of "\<lambda>_ d. d"] by blast

end
