(* ===== verification/Verification_Instances.thy ===== *)
theory Verification_Instances
  imports Verification_Runs Invitation_Progress
begin

text \<open>
  Concrete instances of the e-mail verification theorems: one registered account, a token drawn for it, its
  confirmation, and an address change that runs to the staged event.
\<close>

section \<open>Instances\<close>

definition sample_entropy :: "nat list" where
  "sample_entropy = replicate 32 7"

definition sample_draws :: verification_draws where
  "sample_draws = \<lparr>vd_token_id = 40, vd_event_id = 41, vd_entropy = sample_entropy, vd_nonce = replicate 12 1,
     vd_issue_clock = Aware 150, vd_enqueue_clock = Aware 150\<rparr>"

definition sample_aes :: aesgcm where
  "sample_aes key nonce data aad = data"

definition unverified_accounts :: account_db where
  "unverified_accounts = fresh_accounts\<lparr>acc_db := empty_database\<lparr>db_users := [sample_account]\<rparr>\<rparr>"

lemma sample_account_simps [simp]:
  "usr_id sample_account = 7" "usr_email sample_account = u ''a@b.co''" "usr_role sample_account = USER"
  "usr_is_active sample_account" "usr_deleted_at sample_account = None" "usr_email_verified_at sample_account = None"
  "usr_semester_id sample_account = Some 9" "usr_password_hash sample_account = [36, 48, 48, 46]"
  by (simp_all add: sample_account_def new_account_def)

lemma sample_account_check: "user_check sample_account"
  by (simp add: user_check_def u_def strip_by_def)

lemma unverified_accounts_ok: "accounts_ok unverified_accounts"
  using fresh_accounts_ok sample_account_check
  by (simp add: accounts_ok_def unverified_accounts_def fresh_accounts_def empty_database_def db_ok_def
      refs_defs table_ok_def account_refs_defs null_or_def sample_semester_def)

lemma sample_entropy_props: "length sample_entropy = EMAIL_VERIFICATION_TOKEN_BYTES" "list_all (\<lambda>b. b < 256) sample_entropy"
  by (simp_all add: sample_entropy_def EMAIL_VERIFICATION_TOKEN_BYTES_def list_all_iff)

lemma issue_run:
  assumes "account_by_id i s = Some account" "usr_is_active account" "usr_deleted_at account = None" "acc_tokens s = []"
    and "user_check account" "length entropy = EMAIL_VERIFICATION_TOKEN_BYTES"
  shows "issue_email_verification_token fresh entropy i (Aware t) s =
    (Inr \<lparr>iev_token_id = fresh, iev_token = base64url_encode entropy, iev_expires_at = t + EMAIL_VERIFICATION_TOKEN_TTL\<rparr>,
     s\<lparr>acc_tokens := [new_token fresh account entropy t]\<rparr>)"
proof -
  have "insert_token (new_token fresh account entropy t) s = (Inr (), s\<lparr>acc_tokens := [new_token fresh account entropy t]\<rparr>)"
    using assms account_by_id_SomeD[OF assms(1)]
    by (auto simp: insert_token_def insert_row_Inr new_token_def verification_token_check_def token_refs_def
        digest_random_bytes_def user_check_def EMAIL_VERIFICATION_TOKEN_TTL_def)
  then show ?thesis
    using assms by (simp add: issue_email_verification_token_def lock_current_user_def active_token_of_def)
qed


definition awaiting_accounts :: account_db where
  "awaiting_accounts = unverified_accounts\<lparr>acc_tokens := [new_token 40 sample_account sample_entropy 150]\<rparr>"

definition sample_verification_token :: pystr where
  "sample_verification_token = base64url_encode sample_entropy"

lemma sample_account_found: "account_by_id 7 unverified_accounts = Some sample_account"
  by (simp add: account_by_id_def unverified_accounts_def fresh_accounts_def empty_database_def)

lemma sample_issue:
  "issue_email_verification_token 40 sample_entropy 7 (Aware 150) unverified_accounts =
     (Inr \<lparr>iev_token_id = 40, iev_token = sample_verification_token, iev_expires_at = 150 + EMAIL_VERIFICATION_TOKEN_TTL\<rparr>,
      awaiting_accounts)"
  unfolding sample_verification_token_def awaiting_accounts_def
  by (rule issue_run[OF sample_account_found])
    (use sample_account_check sample_entropy_props in \<open>simp_all add: unverified_accounts_def fresh_accounts_def\<close>)

lemma awaiting_accounts_ok: "accounts_ok awaiting_accounts"
  using issue_Inr[OF unverified_accounts_ok sample_issue] by blast

lemma sample_confirmation:
  "\<exists>s'. confirm_email_verification_token (\<lambda>_. awaiting_accounts) sample_verification_token 7 (Aware 200) awaiting_accounts
     = (Inr \<lparr>cfv_user_id = 7, cfv_email_verified_at = 200\<rparr>, s')"
  using issued_token_works[OF unverified_accounts_ok sample_issue sample_entropy_props(2) sample_account_found, of 200]
  by (simp add: EMAIL_VERIFICATION_TOKEN_TTL_def)

lemma issued_token_confirms_witness:
  "\<exists>s'. confirm_email_verification_token (\<lambda>_. awaiting_accounts) sample_verification_token 7 (Aware 200) awaiting_accounts
     = (Inr \<lparr>cfv_user_id = 7, cfv_email_verified_at = 200\<rparr>, s')"
  using issued_token_confirms[OF unverified_accounts_ok sample_issue sample_entropy_props(2) sample_account_found, of 200]
  by (simp add: EMAIL_VERIFICATION_TOKEN_TTL_def)

lemma confirmation_is_exact_witness:
  "\<exists>c s' b. confirm_email_verification_token (\<lambda>_. awaiting_accounts) sample_verification_token 7 (Aware 200) awaiting_accounts = (Inr c, s')
     \<and> decode_verification_token sample_verification_token = Inr b \<and> accounts_ok s'"
  using sample_confirmation confirmation_is_exact[OF awaiting_accounts_ok] by blast

lemma sample_verified:
  obtains s' where "confirm_current_email_verification (\<lambda>_. awaiting_accounts) sample_verification_token 7 (Aware 200) awaiting_accounts = (Inr (), s')"
    "\<exists>x \<in> set (db_users (acc_db s')). usr_email_verified_at x \<noteq> None"
    "verification_run bc aes key (token_facts awaiting_accounts, awaiting_accounts) (token_facts awaiting_accounts, s')"
proof -
  from sample_confirmation obtain c s' where
    c: "confirm_email_verification_token (\<lambda>_. awaiting_accounts) sample_verification_token 7 (Aware 200) awaiting_accounts = (Inr c, s')" by blast
  then have e: "confirm_current_email_verification (\<lambda>_. awaiting_accounts) sample_verification_token 7 (Aware 200) awaiting_accounts = (Inr (), s')"
    by (simp add: confirm_current_email_verification_def)
  have "\<exists>x \<in> set (db_users (acc_db s')). usr_email_verified_at x \<noteq> None"
  proof (rule confirm_Inr[OF awaiting_accounts_ok c], goal_cases)
    case (1 b cand row account t)
    then show ?case
      by (intro bexI[of _ "account\<lparr>usr_email_verified_at := Some t, usr_updated_at := db_now (acc_db awaiting_accounts)\<rparr>"])
        (auto simp: set_replace_row)
  qed
  with e verification_run.confirmed[OF verification_run.still e] that show ?thesis by blast
qed

lemma awaiting_recorded: "recorded (token_facts awaiting_accounts, awaiting_accounts)"
  by (simp add: recorded_def awaiting_accounts_ok)

lemma verified_addresses_were_proved_witness:
  "\<exists>s' x. x \<in> set (db_users (acc_db s')) \<and> usr_email_verified_at x \<noteq> None
     \<and> verification_run sample_bcrypt sample_aes [] (token_facts awaiting_accounts, awaiting_accounts)
         (token_facts awaiting_accounts, s')
     \<and> (\<exists>d. (usr_id x, usr_email x, d) \<in> token_facts awaiting_accounts)"
proof (rule sample_verified[of sample_bcrypt sample_aes "[]"], goal_cases)
  case (1 s')
  have "verified_addresses awaiting_accounts = {}"
    by (simp add: verified_addresses_def awaiting_accounts_def unverified_accounts_def fresh_accounts_def)
  with 1 verified_addresses_were_proved[OF awaiting_recorded 1(3)] show ?case by blast
qed

lemma verification_token_used_once_witness:
  "\<exists>s'. confirm_current_email_verification (\<lambda>_. awaiting_accounts) sample_verification_token 7 (Aware 200) awaiting_accounts = (Inr (), s')
     \<and> fst (confirm_current_email_verification (\<lambda>_. s') sample_verification_token 7 (Aware 300) s') = Inl (HTTPException 400)"
proof (rule sample_verified[of sample_bcrypt sample_aes "[]"], goal_cases)
  case (1 s')
  from verification_token_used_once[OF awaiting_recorded verification_run.still 1(1) verification_run.still verification_run.still]
  show ?case using 1(1) by blast
qed

section \<open>An address change that runs\<close>

lemma sample_addresses:
  "canonicalize_email (u ''b@b.co'') = Inr (u ''b@b.co'')"
  by (simp_all add: canonicalize_email_def u_def strip_by_def py_isspace_def MAX_EMAIL_LENGTH_def
      MAX_EMAIL_LOCAL_PART_LENGTH_def is_infix_def email_local_char_def ascii_alnum_def ascii_lower_def
      ascii_upper_def ascii_digit_def email_domain_label_def ascii_casefold_def)

definition changed_account :: user where
  "changed_account = sample_account\<lparr>usr_email := u ''b@b.co'', usr_updated_at := 100\<rparr>"

definition changed_accounts :: account_db where
  "changed_accounts = unverified_accounts\<lparr>acc_db := empty_database\<lparr>db_users := [changed_account]\<rparr>\<rparr>"

lemma sample_flush:
  "flush_user (sample_account\<lparr>usr_email := u ''b@b.co'', usr_email_verified_at := None\<rparr>) unverified_accounts
     = (Inr changed_account, changed_accounts)"
proof -
  have "sample_account\<lparr>usr_email := u ''b@b.co''\<rparr> \<noteq> sample_account"
    by (rule notI, drule arg_cong[of _ _ usr_email]) (simp add: u_def)
  moreover have "sample_account\<lparr>usr_email_verified_at := None\<rparr> = sample_account"
    by (simp add: sample_account_def new_account_def)
  moreover have "user_check changed_account"
    by (simp add: user_check_def changed_account_def u_def strip_by_def)
  ultimately show ?thesis
    by (simp add: flush_user_def flush_row_Inr unverified_accounts_def changed_accounts_def changed_account_def
        fresh_accounts_def empty_database_def set_users_def user_check_def sample_account_def new_account_def replace_row_def update_where_def)
qed

definition sample_payload :: "(pyval \<times> pyval) list" where
  "sample_payload = [(PyStr (u ''version''), PyInt 1),
     (PyStr (u ''nonce''), PyStr (base64url_encode (replicate 12 1))),
     (PyStr (u ''sealed_value''), PyStr (base64url_encode sample_verification_token)),
     (PyStr (u ''expires_at''), PyStr (iso_datetime (150 + EMAIL_VERIFICATION_TOKEN_TTL)))]"

lemma sample_seal:
  "seal_email_verification_token sample_aes [] (replicate 12 1) sample_verification_token (Aware (150 + EMAIL_VERIFICATION_TOKEN_TTL))
     = Inr sample_payload"
  using decode_encoded_token[OF sample_entropy_props]
  by (simp add: seal_email_verification_token_def digest_email_verification_token_def sample_verification_token_def sample_payload_def
      sample_aes_def)

lemma sample_payload_ok: "validated_payload sample_payload = Inr (PyDict sample_payload)"
  by (simp add: sample_payload_def validated_payload_def sensitive_key_def SENSITIVE_WORDS_def u_def re_ignorecase_def
      is_infix_def ascii_upper_def)


lemma verification_event:
  "validate_identifier 100 EMAIL_VERIFICATION_REQUESTED = Inr EMAIL_VERIFICATION_REQUESTED"
  "event_type_format EMAIL_VERIFICATION_REQUESTED"
  by (simp_all add: EMAIL_VERIFICATION_REQUESTED_def validate_identifier_def u_def strip_by_def py_isspace_def
      ascii_upper_def ascii_digit_def)

lemma verification_event_key:
  "validate_identifier 256 (EMAIL_VERIFICATION_REQUESTED @ [47] @ uuid_str i) = Inr (EMAIL_VERIFICATION_REQUESTED @ [47] @ uuid_str i)"
proof -
  have "\<forall>c \<in> set (uuid_str i). 33 \<le> c \<and> c \<le> 126" using uuid_str_chars[of _ i] by fastforce
  then show ?thesis by (auto intro!: validate_visible simp: EMAIL_VERIFICATION_REQUESTED_def u_def)
qed

lemma verification_enqueue:
  assumes "db_users db = [changed_account]" "db_outbox db = []"
  shows "\<exists>row. enqueue_transactional_email 41 EMAIL_VERIFICATION_REQUESTED 40 (Some 7) (u ''b@b.co'')
      (EMAIL_VERIFICATION_REQUESTED @ [47] @ uuid_str 40) sample_payload (Aware 150) db
      = (Inr row, db\<lparr>db_outbox := db_outbox db @ [row]\<rparr>)"
proof (rule exI, rule enqueue_run)
  show "btrim_between 1 320 (u ''b@b.co'')" by (simp add: btrim_between_def u_def strip_by_def)
  show "7 \<in> usr_id ` set (db_users db)" using assms by (simp add: changed_account_def)
qed (use assms sample_addresses sample_payload_ok verification_event verification_event_key in auto)

lemma sample_change:
  "\<exists>s'. change_current_email sample_bcrypt sample_aes [] sample_draws 7 (u ''b@b.co'') [2] unverified_accounts
     = (Inr changed_account, s')"
proof -
  have v: "verify_password sample_bcrypt [2] [36, 48, 48, 46]"
    by (simp add: verify_password_def encode_password_def utf8_encode_def is_surrogate_def utf8_char_def
        BCRYPT_MAX_PASSWORD_BYTES_def sample_bcrypt_def numeral_2_eq_2)
  have found: "account_by_id 7 changed_accounts = Some changed_account"
    by (simp add: account_by_id_def changed_accounts_def changed_account_def)
  have ch: "usr_id changed_account = 7" "usr_role changed_account = USER" "usr_is_active changed_account"
      "usr_deleted_at changed_account = None" "usr_email_verified_at changed_account = None"
      "usr_email changed_account = u ''b@b.co''" "user_check changed_account"
    by (simp_all add: changed_account_def user_check_def u_def strip_by_def)
  let ?s = "changed_accounts\<lparr>acc_tokens := [new_token 40 changed_account sample_entropy 150]\<rparr>"
  have issue: "issue_email_verification_token 40 sample_entropy 7 (Aware 150) changed_accounts =
      (Inr \<lparr>iev_token_id = 40, iev_token = sample_verification_token, iev_expires_at = 150 + EMAIL_VERIFICATION_TOKEN_TTL\<rparr>, ?s)"
    unfolding sample_verification_token_def
    by (rule issue_run[OF found ch(3,4) _ ch(7)])
      (simp_all add: changed_accounts_def unverified_accounts_def fresh_accounts_def sample_entropy_props)
  obtain row where "enqueue_transactional_email 41 EMAIL_VERIFICATION_REQUESTED 40 (Some 7) (u ''b@b.co'')
      (EMAIL_VERIFICATION_REQUESTED @ [47] @ uuid_str 40) sample_payload (Aware 150) (acc_db ?s)
      = (Inr row, (acc_db ?s)\<lparr>db_outbox := db_outbox (acc_db ?s) @ [row]\<rparr>)"
    using verification_enqueue[of "acc_db ?s"] by (auto simp: changed_accounts_def empty_database_def)
  then have "\<exists>s'. request_email_verification sample_aes [] sample_draws 7 changed_accounts = (Inr True, s')"
    using issue sample_seal ch found
    by (simp add: request_email_verification_def sample_draws_def is_current_email_verified_def on_db_def)
  then show ?thesis
    using v sample_addresses sample_flush sample_account_found
    by (auto simp: change_current_email_def change_current_user_email_def rethrow_tx_def atomic_tx_def u_def)
qed

lemma replaced_address_must_be_verified_again_witness:
  "\<exists>s'. change_current_email sample_bcrypt sample_aes [] sample_draws 7 (u ''b@b.co'') [2] unverified_accounts
       = (Inr changed_account, s') \<and> accounts_ok s' \<and> length (acc_tokens s') = 1"
proof -
  from sample_change obtain s' where c: "change_current_email sample_bcrypt sample_aes [] sample_draws 7 (u ''b@b.co'') [2]
      unverified_accounts = (Inr changed_account, s')" by blast
  from replaced_address_must_be_verified_again[OF unverified_accounts_ok this]
  have "accounts_ok s' \<and> length (acc_tokens s') = length (acc_tokens unverified_accounts) + 1" by blast
  with c show ?thesis by (auto simp: unverified_accounts_def fresh_accounts_def)
qed

end
