(* ===== verification/Preference_Storage.thy ===== *)
theory Preference_Storage
  imports Profile_Completion "HOL-Library.List_Lexorder"
begin

text \<open>
  The selectable catalogs, the owner's stored preferences and their replacement: \<open>services/profile_catalogs.py\<close>,
  \<open>services/preference_storage.py\<close> and the request models of \<open>schemas/profile_catalog.py\<close>. Python compares strings
  by code points, which is the lexicographic order of lists; \<open>ORDER BY\<close> on text uses the collation of the database.
  UUIDs are sorted by their fixed-width hexadecimal text, which is the order of the integers.
\<close>

section \<open>Catalogs\<close>

definition list_active_interests :: "database \<Rightarrow> interest list" where
  "list_active_interests db =
     select_by (\<lambda>i. (db_collation db (intr_category i), db_collation db (intr_code i)))
       (\<lambda>i. intr_is_active i \<and> intr_deleted_at i = None) (db_interests db)"

definition list_active_languages :: "database \<Rightarrow> language list" where
  "list_active_languages db = select_by (\<lambda>l. db_collation db (lang_code l)) lang_is_active (db_languages db)"

definition list_selectable_activities :: "database \<Rightarrow> activity list" where
  "list_selectable_activities db =
     select_by (\<lambda>a. db_collation db (act_code a)) (\<lambda>a. act_is_active a \<and> act_deleted_at a = None) (db_activities db)"

definition list_active_activities :: "database \<Rightarrow> activity list" where
  "list_active_activities db = list_selectable_activities db"

section \<open>Requests\<close>

definition MAX_PROFILE_INTEREST_SELECTIONS :: nat where
  "MAX_PROFILE_INTEREST_SELECTIONS = 20"

definition MAX_PROFILE_LANGUAGE_SELECTIONS :: nat where
  "MAX_PROFILE_LANGUAGE_SELECTIONS = 10"

definition MAX_PROFILE_ACTIVITY_SELECTIONS :: nat where
  "MAX_PROFILE_ACTIVITY_SELECTIONS = 20"

lemmas selection_limits = MAX_PROFILE_INTEREST_SELECTIONS_def MAX_PROFILE_LANGUAGE_SELECTIONS_def
  MAX_PROFILE_ACTIVITY_SELECTIONS_def

record custom_preference_input =
  cpi_label :: pystr

record custom_language_input = custom_preference_input +
  cli_proficiency :: language_proficiency

record custom_preference_selection =
  cps_label :: pystr

record custom_language_selection = custom_preference_selection +
  cls_proficiency :: language_proficiency

record language_selection =
  ls_language_code :: pystr
  ls_proficiency :: language_proficiency

definition custom_input_ok :: "'a custom_preference_input_scheme \<Rightarrow> bool" where
  "custom_input_ok v \<longleftrightarrow> length (cpi_label v) \<le> MAX_CUSTOM_PREFERENCE_INPUT_LENGTH"

definition validated :: "bool \<Rightarrow> 'a \<Rightarrow> exn + 'a" where
  "validated ok v = (if ok then Inr v else Inl ValueError)"

definition custom_selection_model :: "pystr \<Rightarrow> exn + custom_preference_selection" where
  "custom_selection_model label =
     validated (1 \<le> length label \<and> length label \<le> MAX_CUSTOM_PREFERENCE_DISPLAY_LABEL_LENGTH) \<lparr>cps_label = label\<rparr>"

definition custom_language_model :: "pystr \<Rightarrow> language_proficiency \<Rightarrow> exn + custom_language_selection" where
  "custom_language_model label proficiency =
     validated (1 \<le> length label \<and> length label \<le> MAX_CUSTOM_PREFERENCE_DISPLAY_LABEL_LENGTH)
       \<lparr>cps_label = label, cls_proficiency = proficiency\<rparr>"

definition language_selection_ok :: "language_selection \<Rightarrow> bool" where
  "language_selection_ok v \<longleftrightarrow> 2 \<le> length (ls_language_code v) \<and> length (ls_language_code v) \<le> 35
     \<and> language_code_format (ls_language_code v)"

record profile_interest_update =
  piu_version :: int
  piu_interest_ids :: "uuid list"
  piu_custom_interests :: "custom_preference_input list"

record profile_language_update =
  plu_version :: int
  plu_languages :: "language_selection list"
  plu_custom_languages :: "custom_language_input list"

record profile_activity_update =
  pau_version :: int
  pau_activity_ids :: "uuid list"
  pau_custom_activities :: "custom_preference_input list"

record profile_preference_update =
  ppu_version :: int
  ppu_interest_ids :: "uuid list"
  ppu_custom_interests :: "custom_preference_input list"
  ppu_languages :: "language_selection list"
  ppu_custom_languages :: "custom_language_input list"
  ppu_activity_ids :: "uuid list"
  ppu_custom_activities :: "custom_preference_input list"

text \<open>A group of identifiers and custom labels: the field limits, uniqueness and the combined limit.\<close>

definition selection_group_ok :: "nat \<Rightarrow> 'k list \<Rightarrow> 'a custom_preference_input_scheme list \<Rightarrow> bool" where
  "selection_group_ok limit keys customs \<longleftrightarrow>
     length keys \<le> limit \<and> length customs \<le> limit \<and> list_all custom_input_ok customs \<and> distinct keys
     \<and> length keys + length customs \<le> limit"

definition interest_update_model :: "profile_interest_update \<Rightarrow> exn + profile_interest_update" where
  "interest_update_model v =
     validated (1 \<le> piu_version v
       \<and> selection_group_ok MAX_PROFILE_INTEREST_SELECTIONS (piu_interest_ids v) (piu_custom_interests v)) v"

definition language_update_model :: "profile_language_update \<Rightarrow> exn + profile_language_update" where
  "language_update_model v =
     validated (1 \<le> plu_version v \<and> list_all language_selection_ok (plu_languages v)
       \<and> selection_group_ok MAX_PROFILE_LANGUAGE_SELECTIONS (map ls_language_code (plu_languages v))
           (plu_custom_languages v)) v"

definition activity_update_model :: "profile_activity_update \<Rightarrow> exn + profile_activity_update" where
  "activity_update_model v =
     validated (1 \<le> pau_version v
       \<and> selection_group_ok MAX_PROFILE_ACTIVITY_SELECTIONS (pau_activity_ids v) (pau_custom_activities v)) v"

definition preference_update_model :: "profile_preference_update \<Rightarrow> exn + profile_preference_update" where
  "preference_update_model v =
     validated (1 \<le> ppu_version v \<and> list_all language_selection_ok (ppu_languages v)
       \<and> selection_group_ok MAX_PROFILE_INTEREST_SELECTIONS (ppu_interest_ids v) (ppu_custom_interests v)
       \<and> selection_group_ok MAX_PROFILE_LANGUAGE_SELECTIONS (map ls_language_code (ppu_languages v))
           (ppu_custom_languages v)
       \<and> selection_group_ok MAX_PROFILE_ACTIVITY_SELECTIONS (ppu_activity_ids v) (ppu_custom_activities v)) v"

section \<open>Stored selections\<close>

definition interest_ids :: "database \<Rightarrow> uuid \<Rightarrow> uuid list" where
  "interest_ids db profile_id =
     sort (map pint_interest_id (filter (\<lambda>s. pint_profile_id s = profile_id) (db_profile_interests db)))"

definition language_selections :: "database \<Rightarrow> uuid \<Rightarrow> exn + language_selection list" where
  "language_selections db profile_id =
     emap (\<lambda>s. let v = \<lparr>ls_language_code = plang_language_code s, ls_proficiency = plang_proficiency s\<rparr>
               in validated (language_selection_ok v) v)
       (select_by (\<lambda>s. db_collation db (plang_language_code s)) (\<lambda>s. plang_profile_id s = profile_id)
          (db_profile_languages db))"

definition read_profile_activity_ids :: "database \<Rightarrow> uuid \<Rightarrow> uuid list" where
  "read_profile_activity_ids db profile_id =
     sort (map pact_activity_id (filter (\<lambda>s. pact_profile_id s = profile_id) (db_profile_activities db)))"

definition own_custom_rows :: "database \<Rightarrow> uuid \<Rightarrow> preference_kind option \<Rightarrow> custom_preference list" where
  "own_custom_rows db profile_id kind =
     select_by (\<lambda>c. (cust_kind c, db_collation db (cust_normalized_key c)))
       (\<lambda>c. cust_profile_id c = profile_id \<and> cust_deleted_at c = None
          \<and> (case kind of None \<Rightarrow> True | Some k \<Rightarrow> cust_kind c = k))
       (db_custom_preferences db)"

definition custom_label_selections ::
    "custom_preference list \<Rightarrow> preference_kind \<Rightarrow> exn + custom_preference_selection list" where
  "custom_label_selections rows kind =
     emap (\<lambda>r. custom_selection_model (cust_display_label r)) (filter (\<lambda>r. cust_kind r = kind) rows)"

definition custom_language_selections :: "custom_preference list \<Rightarrow> exn + custom_language_selection list" where
  "custom_language_selections rows =
     emap (\<lambda>(label, proficiency). custom_language_model label proficiency)
       (concat (map (\<lambda>r. case cust_proficiency r of
           Some p \<Rightarrow> if cust_kind r = LANGUAGE then [(cust_display_label r, p)] else [] | None \<Rightarrow> []) rows))"

record profile_catalog_selections =
  sel_interest_ids :: "uuid list"
  sel_custom_interests :: "custom_preference_selection list"
  sel_languages :: "language_selection list"
  sel_custom_languages :: "custom_language_selection list"
  sel_activity_ids :: "uuid list"
  sel_custom_activities :: "custom_preference_selection list"

definition read_catalog_selections ::
    "database \<Rightarrow> uuid \<Rightarrow> custom_preference list option \<Rightarrow> exn + profile_catalog_selections" where
  "read_catalog_selections db profile_id given_rows =
     (let rows = (case given_rows of None \<Rightarrow> own_custom_rows db profile_id None | Some rows \<Rightarrow> rows) in
      ebind (custom_label_selections rows INTEREST) (\<lambda>custom_interests.
      ebind (language_selections db profile_id) (\<lambda>languages.
      ebind (custom_language_selections rows) (\<lambda>custom_languages.
      ebind (custom_label_selections rows ACTIVITY) (\<lambda>custom_activities.
      Inr \<lparr>sel_interest_ids = interest_ids db profile_id, sel_custom_interests = custom_interests,
           sel_languages = languages, sel_custom_languages = custom_languages,
           sel_activity_ids = read_profile_activity_ids db profile_id,
           sel_custom_activities = custom_activities\<rparr>)))))"

definition get_own_catalog_selections ::
    "database \<Rightarrow> user \<Rightarrow> student_profile \<Rightarrow> exn + profile_catalog_selections" where
  "get_own_catalog_selections db owner profile =
     (if \<not> usr_is_active owner \<or> usr_deleted_at owner \<noteq> None \<or> usr_role owner \<noteq> USER
         \<or> prof_user_id profile \<noteq> usr_id owner \<or> prof_deleted_at profile \<noteq> None
      then Inl ProfileAccessError else read_catalog_selections db (prof_id profile) None)"

record preference_snapshot = profile_catalog_selections +
  snap_version :: int

definition snapshot_of :: "student_profile \<Rightarrow> profile_catalog_selections \<Rightarrow> preference_snapshot" where
  "snapshot_of profile s = profile_catalog_selections.extend s (preference_snapshot.fields (prof_version profile))"

definition get_own_preference_snapshot :: "uuid \<Rightarrow> user \<Rightarrow> (exn, database, preference_snapshot) txn" where
  "get_own_preference_snapshot fresh owner =
     bind_tx (get_or_create_own_profile fresh owner) (\<lambda>profile.
     bind_tx (\<lambda>db. (get_own_catalog_selections db owner profile, db)) (\<lambda>s.
     return_tx (snapshot_of profile s)))"

section \<open>Preparing a replacement\<close>

record prepared_custom =
  prep_display_label :: pystr
  prep_normalized_key :: pystr
  prep_proficiency :: "language_proficiency option"

text \<open>\<open>except PreferenceIdentityError: raise ProfileValidationError\<close>.\<close>

definition identity_or_invalid :: "exn + 'a \<Rightarrow> exn + 'a" where
  "identity_or_invalid m = (case m of Inl PreferenceIdentityError \<Rightarrow> Inl ProfileValidationError | other \<Rightarrow> other)"

definition catalog_identity_keys :: "unicode_db \<Rightarrow> (pystr \<times> pystr) list \<Rightarrow> exn + pystr list" where
  "catalog_identity_keys uni labels =
     identity_or_invalid (emap (normalize_preference_key uni) (concat (map (\<lambda>(en, de). [en, de]) labels)))"

fun prepare_custom ::
    "unicode_db \<Rightarrow> pystr list \<Rightarrow> pystr list \<Rightarrow> (pystr \<times> language_proficiency option) list
       \<Rightarrow> exn + prepared_custom list" where
  "prepare_custom uni catalog_keys seen [] = Inr []"
| "prepare_custom uni catalog_keys seen ((label, proficiency) # values) =
     ebind (identity_or_invalid (normalize_preference_identity uni label)) (\<lambda>identity.
     if ident_normalized_key identity \<in> set catalog_keys \<or> ident_normalized_key identity \<in> set seen
     then Inl ProfileValidationError
     else ebind (prepare_custom uni catalog_keys (ident_normalized_key identity # seen) values) (\<lambda>prepared.
     Inr (\<lparr>prep_display_label = ident_display_label identity,
           prep_normalized_key = ident_normalized_key identity,
           prep_proficiency = proficiency\<rparr> # prepared)))"

definition normalize_custom ::
    "unicode_db \<Rightarrow> (pystr \<times> language_proficiency option) list \<Rightarrow> pystr list \<Rightarrow> exn + prepared_custom list" where
  "normalize_custom uni values catalog_keys =
     ebind (prepare_custom uni catalog_keys [] values) (\<lambda>prepared. Inr (sort_key prep_normalized_key prepared))"

definition plain_values :: "custom_preference_input list \<Rightarrow> (pystr \<times> language_proficiency option) list" where
  "plain_values inputs = map (\<lambda>i. (cpi_label i, None)) inputs"

definition language_values :: "custom_language_input list \<Rightarrow> (pystr \<times> language_proficiency option) list" where
  "language_values inputs = map (\<lambda>i. (cpi_label i, Some (cli_proficiency i))) inputs"

definition prepare_interests ::
    "unicode_db \<Rightarrow> database \<Rightarrow> uuid list \<Rightarrow> custom_preference_input list
       \<Rightarrow> exn + uuid list \<times> prepared_custom list" where
  "prepare_interests uni db ids custom_interests =
     (let catalog = list_active_interests db in
      if \<not> set ids \<subseteq> set (map intr_id catalog) then Inl ProfileValidationError
      else ebind (catalog_identity_keys uni (map (\<lambda>i. (intr_label_en i, intr_label_de i)) catalog)) (\<lambda>keys.
           ebind (normalize_custom uni (plain_values custom_interests) keys) (\<lambda>prepared.
           Inr (sort (remdups ids), prepared))))"

definition prepare_languages ::
    "unicode_db \<Rightarrow> database \<Rightarrow> language_selection list \<Rightarrow> custom_language_input list
       \<Rightarrow> exn + language_selection list \<times> prepared_custom list" where
  "prepare_languages uni db languages custom_languages =
     (let catalog = list_active_languages db in
      if \<not> set (map ls_language_code languages) \<subseteq> set (map lang_code catalog) then Inl ProfileValidationError
      else ebind (catalog_identity_keys uni (map (\<lambda>l. (lang_label_en l, lang_label_de l)) catalog)) (\<lambda>keys.
           ebind (normalize_custom uni (language_values custom_languages) keys) (\<lambda>prepared.
           Inr (sort_key ls_language_code languages, prepared))))"

definition prepare_activities ::
    "unicode_db \<Rightarrow> database \<Rightarrow> uuid list \<Rightarrow> custom_preference_input list
       \<Rightarrow> exn + uuid list \<times> prepared_custom list" where
  "prepare_activities uni db ids custom_activities =
     (let catalog = list_active_activities db in
      if \<not> set ids \<subseteq> set (map act_id catalog) then Inl ProfileValidationError
      else ebind (catalog_identity_keys uni (map (\<lambda>a. (act_label_en a, act_label_de a)) catalog)) (\<lambda>keys.
           ebind (normalize_custom uni (plain_values custom_activities) keys) (\<lambda>prepared.
           Inr (sort (remdups ids), prepared))))"

definition prepared_signature ::
    "prepared_custom list \<Rightarrow> (pystr \<times> pystr \<times> language_proficiency option) list" where
  "prepared_signature values = map (\<lambda>v. (prep_normalized_key v, prep_display_label v, prep_proficiency v)) values"

definition row_signature ::
    "custom_preference list \<Rightarrow> (pystr \<times> pystr \<times> language_proficiency option) list" where
  "row_signature rows = map (\<lambda>r. (cust_normalized_key r, cust_display_label r, cust_proficiency r))
     (sort_key cust_normalized_key rows)"

text \<open>\<open>draw n\<close> is the identifier \<open>uuid4\<close> draws for the \<open>n\<close>-th row.\<close>

definition custom_models ::
    "(nat \<Rightarrow> uuid) \<Rightarrow> uuid \<Rightarrow> preference_kind \<Rightarrow> prepared_custom list \<Rightarrow> custom_preference list" where
  "custom_models draw profile_id kind values =
     map (\<lambda>(n, v). \<lparr>cust_id = draw n, cust_profile_id = profile_id, cust_kind = kind,
            cust_display_label = prep_display_label v, cust_normalized_key = prep_normalized_key v,
            cust_proficiency = prep_proficiency v, cust_deleted_at = None\<rparr>) (enumerate 0 values)"

definition custom_label_output :: "prepared_custom list \<Rightarrow> exn + custom_preference_selection list" where
  "custom_label_output values = emap (\<lambda>v. custom_selection_model (prep_display_label v)) values"

definition custom_language_output :: "prepared_custom list \<Rightarrow> exn + custom_language_selection list" where
  "custom_language_output values =
     emap (\<lambda>(label, proficiency). custom_language_model label proficiency)
       (concat (map (\<lambda>v. case prep_proficiency v of Some p \<Rightarrow> [(prep_display_label v, p)] | None \<Rightarrow> []) values))"

section \<open>Statements\<close>

text \<open>
  \<open>session.execute(delete(...))\<close> runs at once. \<open>session.add_all\<close> only stages rows (the sessions do not autoflush):
  the final \<open>flush\<close> updates the profile and then inserts them, so each operation runs its deletions, the update
  of the profile and the insertions in this order.
\<close>

definition delete_interests :: "uuid \<Rightarrow> (exn, database, unit) txn" where
  "delete_interests profile_id db =
     (Inr (), db\<lparr>db_profile_interests := filter (\<lambda>s. pint_profile_id s \<noteq> profile_id) (db_profile_interests db)\<rparr>)"

definition delete_languages :: "uuid \<Rightarrow> (exn, database, unit) txn" where
  "delete_languages profile_id db =
     (Inr (), db\<lparr>db_profile_languages := filter (\<lambda>s. plang_profile_id s \<noteq> profile_id) (db_profile_languages db)\<rparr>)"

definition delete_activities :: "uuid \<Rightarrow> (exn, database, unit) txn" where
  "delete_activities profile_id db =
     (Inr (), db\<lparr>db_profile_activities := filter (\<lambda>s. pact_profile_id s \<noteq> profile_id) (db_profile_activities db)\<rparr>)"

definition delete_custom :: "uuid \<Rightarrow> preference_kind list \<Rightarrow> (exn, database, unit) txn" where
  "delete_custom profile_id kinds db =
     (Inr (), db\<lparr>db_custom_preferences :=
        filter (\<lambda>c. \<not> (cust_profile_id c = profile_id \<and> cust_kind c \<in> set kinds)) (db_custom_preferences db)\<rparr>)"

definition insert_interest :: "profile_interest \<Rightarrow> (exn, database, unit) txn" where
  "insert_interest r db =
     (case insert_checked (\<lambda>_. True) (=)
             (pint_profile_id r \<in> prof_id ` set (db_profiles db) \<and> pint_interest_id r \<in> intr_id ` set (db_interests db))
             r (db_profile_interests db) of
        Inl e \<Rightarrow> (Inl e, db)
      | Inr rows \<Rightarrow> (Inr (), db\<lparr>db_profile_interests := rows\<rparr>))"

definition insert_language :: "profile_language \<Rightarrow> (exn, database, unit) txn" where
  "insert_language r db =
     (case insert_checked (\<lambda>_. True)
             (\<lambda>a b. plang_profile_id a = plang_profile_id b \<and> plang_language_code a = plang_language_code b)
             (plang_profile_id r \<in> prof_id ` set (db_profiles db)
              \<and> plang_language_code r \<in> lang_code ` set (db_languages db))
             r (db_profile_languages db) of
        Inl e \<Rightarrow> (Inl e, db)
      | Inr rows \<Rightarrow> (Inr (), db\<lparr>db_profile_languages := rows\<rparr>))"

definition insert_activity :: "profile_activity \<Rightarrow> (exn, database, unit) txn" where
  "insert_activity r db =
     (case insert_checked (\<lambda>_. True) (=)
             (pact_profile_id r \<in> prof_id ` set (db_profiles db) \<and> pact_activity_id r \<in> act_id ` set (db_activities db))
             r (db_profile_activities db) of
        Inl e \<Rightarrow> (Inl e, db)
      | Inr rows \<Rightarrow> (Inr (), db\<lparr>db_profile_activities := rows\<rparr>))"

definition insert_custom :: "custom_preference \<Rightarrow> (exn, database, unit) txn" where
  "insert_custom r db =
     (case insert_checked custom_preference_check custom_preference_clash
             (cust_profile_id r \<in> prof_id ` set (db_profiles db)) r (db_custom_preferences db) of
        Inl e \<Rightarrow> (Inl e, db)
      | Inr rows \<Rightarrow> (Inr (), db\<lparr>db_custom_preferences := rows\<rparr>))"

definition interest_rows :: "uuid \<Rightarrow> uuid list \<Rightarrow> profile_interest list" where
  "interest_rows profile_id ids = map (\<lambda>i. \<lparr>pint_profile_id = profile_id, pint_interest_id = i\<rparr>) ids"

definition language_rows :: "uuid \<Rightarrow> language_selection list \<Rightarrow> profile_language list" where
  "language_rows profile_id selections =
     map (\<lambda>s. \<lparr>plang_profile_id = profile_id, plang_language_code = ls_language_code s,
               plang_proficiency = ls_proficiency s\<rparr>) selections"

text \<open>\<open>replace_profile_activity_ids\<close>: what it deletes at once and the rows it stages.\<close>

definition replace_profile_activity_ids ::
    "uuid \<Rightarrow> uuid list \<Rightarrow> uuid list \<Rightarrow> (exn, database, profile_activity list) txn" where
  "replace_profile_activity_ids profile_id requested existing =
     (if set requested = set existing then return_tx []
      else bind_tx (delete_activities profile_id) (\<lambda>_.
      return_tx (map (\<lambda>i. \<lparr>pact_profile_id = profile_id, pact_activity_id = i\<rparr>) (sort (remdups requested)))))"

definition replace_custom_kind ::
    "(nat \<Rightarrow> uuid) \<Rightarrow> uuid \<Rightarrow> preference_kind \<Rightarrow> prepared_custom list \<Rightarrow> (exn, database, custom_preference list) txn"
where
  "replace_custom_kind draw profile_id kind values =
     bind_tx (delete_custom profile_id [kind]) (\<lambda>_. return_tx (custom_models draw profile_id kind values))"

text \<open>The last flush of a replacement, with the staged rows of each table.\<close>

definition flush_replacement ::
    "student_profile \<Rightarrow> profile_interest list \<Rightarrow> profile_language list \<Rightarrow> profile_activity list
       \<Rightarrow> custom_preference list \<Rightarrow> (exn, database, student_profile) txn" where
  "flush_replacement profile interests languages activities customs =
     bind_tx (flush_profile (profile\<lparr>prof_version := prof_version profile + 1\<rparr>)) (\<lambda>profile'.
     bind_tx (for_tx insert_interest interests) (\<lambda>_.
     bind_tx (for_tx insert_language languages) (\<lambda>_.
     bind_tx (for_tx insert_activity activities) (\<lambda>_.
     bind_tx (for_tx insert_custom customs) (\<lambda>_. return_tx profile')))))"

end
