(* ===== verification/Preference_Updates.thy ===== *)
theory Preference_Updates
  imports Preference_Storage
begin

text \<open>
  The four replacement operations of \<open>services/profile_catalogs.py\<close>: interests, languages, activities and all three
  groups at once, each under the owner's profile row and its optimistic version.
\<close>

section \<open>Operations\<close>

record interest_mutation =
  im_version :: int
  im_interest_ids :: "uuid list"
  im_custom_interests :: "custom_preference_selection list"

record language_mutation =
  lm_version :: int
  lm_languages :: "language_selection list"
  lm_custom_languages :: "custom_language_selection list"

record activity_mutation =
  am_version :: int
  am_activity_ids :: "uuid list"
  am_custom_activities :: "custom_preference_selection list"

text \<open>The row lock and the version check every writer starts with.\<close>

definition own_profile_at_version :: "uuid \<Rightarrow> user \<Rightarrow> int \<Rightarrow> (exn, database, student_profile) txn" where
  "own_profile_at_version fresh owner version =
     bind_tx (get_or_create_own_profile fresh owner) (\<lambda>profile.
     if prof_version profile \<noteq> version then raise_tx ProfileVersionConflictError else return_tx profile)"

definition replace_own_interests ::
    "unicode_db \<Rightarrow> uuid \<Rightarrow> (nat \<Rightarrow> uuid) \<Rightarrow> user \<Rightarrow> profile_interest_update \<Rightarrow> (exn, database, interest_mutation) txn"
where
  "replace_own_interests uni fresh draw owner update =
     bind_tx (own_profile_at_version fresh owner (piu_version update)) (\<lambda>profile.
     bind_tx (\<lambda>db. (prepare_interests uni db (piu_interest_ids update) (piu_custom_interests update), db))
       (\<lambda>(requested_ids, requested_custom).
     bind_tx (query_tx (\<lambda>db. interest_ids db (prof_id profile))) (\<lambda>existing_ids.
     bind_tx (query_tx (\<lambda>db. own_custom_rows db (prof_id profile) (Some INTEREST))) (\<lambda>existing_custom.
     let changed = requested_ids \<noteq> existing_ids
           \<or> prepared_signature requested_custom \<noteq> row_signature existing_custom in
     bind_tx (if changed
              then bind_tx (delete_interests (prof_id profile)) (\<lambda>_.
                   bind_tx (replace_custom_kind draw (prof_id profile) INTEREST requested_custom) (\<lambda>customs.
                   flush_replacement profile (interest_rows (prof_id profile) requested_ids) [] [] customs))
              else return_tx profile) (\<lambda>profile'.
     bind_tx (lift_tx (custom_label_output requested_custom)) (\<lambda>output.
     return_tx \<lparr>im_version = prof_version profile', im_interest_ids = requested_ids,
                im_custom_interests = output\<rparr>))))))"

definition replace_own_languages ::
    "unicode_db \<Rightarrow> uuid \<Rightarrow> (nat \<Rightarrow> uuid) \<Rightarrow> user \<Rightarrow> profile_language_update \<Rightarrow> (exn, database, language_mutation) txn"
where
  "replace_own_languages uni fresh draw owner update =
     bind_tx (own_profile_at_version fresh owner (plu_version update)) (\<lambda>profile.
     bind_tx (\<lambda>db. (prepare_languages uni db (plu_languages update) (plu_custom_languages update), db))
       (\<lambda>(requested, requested_custom).
     bind_tx (\<lambda>db. (language_selections db (prof_id profile), db)) (\<lambda>existing.
     bind_tx (query_tx (\<lambda>db. own_custom_rows db (prof_id profile) (Some LANGUAGE))) (\<lambda>existing_custom.
     let changed = requested \<noteq> existing
           \<or> prepared_signature requested_custom \<noteq> row_signature existing_custom in
     bind_tx (if changed
              then bind_tx (delete_languages (prof_id profile)) (\<lambda>_.
                   bind_tx (replace_custom_kind draw (prof_id profile) LANGUAGE requested_custom) (\<lambda>customs.
                   flush_replacement profile [] (language_rows (prof_id profile) requested) [] customs))
              else return_tx profile) (\<lambda>profile'.
     bind_tx (lift_tx (custom_language_output requested_custom)) (\<lambda>output.
     return_tx \<lparr>lm_version = prof_version profile', lm_languages = requested,
                lm_custom_languages = output\<rparr>))))))"

definition replace_own_activities ::
    "unicode_db \<Rightarrow> uuid \<Rightarrow> (nat \<Rightarrow> uuid) \<Rightarrow> user \<Rightarrow> profile_activity_update \<Rightarrow> (exn, database, activity_mutation) txn"
where
  "replace_own_activities uni fresh draw owner update =
     bind_tx (own_profile_at_version fresh owner (pau_version update)) (\<lambda>profile.
     bind_tx (\<lambda>db. (prepare_activities uni db (pau_activity_ids update) (pau_custom_activities update), db))
       (\<lambda>(requested_ids, requested_custom).
     bind_tx (query_tx (\<lambda>db. read_profile_activity_ids db (prof_id profile))) (\<lambda>existing_ids.
     bind_tx (query_tx (\<lambda>db. own_custom_rows db (prof_id profile) (Some ACTIVITY))) (\<lambda>existing_custom.
     let changed = requested_ids \<noteq> existing_ids
           \<or> prepared_signature requested_custom \<noteq> row_signature existing_custom in
     bind_tx (if changed
              then bind_tx (replace_profile_activity_ids (prof_id profile) requested_ids existing_ids) (\<lambda>activities.
                   bind_tx (replace_custom_kind draw (prof_id profile) ACTIVITY requested_custom) (\<lambda>customs.
                   flush_replacement profile [] [] activities customs))
              else return_tx profile) (\<lambda>profile'.
     bind_tx (lift_tx (custom_label_output requested_custom)) (\<lambda>output.
     return_tx \<lparr>am_version = prof_version profile', am_activity_ids = requested_ids,
                am_custom_activities = output\<rparr>))))))"

text \<open>The custom rows of the combined replacement; one draw per row, group after group.\<close>

definition all_custom_models ::
    "(nat \<Rightarrow> uuid) \<Rightarrow> uuid \<Rightarrow> prepared_custom list \<Rightarrow> prepared_custom list \<Rightarrow> prepared_custom list
       \<Rightarrow> custom_preference list" where
  "all_custom_models draw profile_id interests languages activities =
     custom_models draw profile_id INTEREST interests
     @ custom_models (\<lambda>n. draw (length interests + n)) profile_id LANGUAGE languages
     @ custom_models (\<lambda>n. draw (length interests + length languages + n)) profile_id ACTIVITY activities"

definition preferences_changed ::
    "profile_catalog_selections \<Rightarrow> custom_preference list \<Rightarrow> uuid list \<times> prepared_custom list
       \<Rightarrow> language_selection list \<times> prepared_custom list \<Rightarrow> uuid list \<times> prepared_custom list \<Rightarrow> bool" where
  "preferences_changed existing rows interests languages activities \<longleftrightarrow>
     fst interests \<noteq> sel_interest_ids existing \<or> fst languages \<noteq> sel_languages existing
     \<or> fst activities \<noteq> sel_activity_ids existing
     \<or> [prepared_signature (snd interests), prepared_signature (snd languages), prepared_signature (snd activities)]
        \<noteq> map (\<lambda>kind. row_signature (filter (\<lambda>r. cust_kind r = kind) rows)) [INTEREST, LANGUAGE, ACTIVITY]"

definition write_preferences ::
    "(nat \<Rightarrow> uuid) \<Rightarrow> student_profile \<Rightarrow> uuid list \<Rightarrow> uuid list \<times> prepared_custom list
       \<Rightarrow> language_selection list \<times> prepared_custom list \<Rightarrow> uuid list \<times> prepared_custom list
       \<Rightarrow> (exn, database, student_profile) txn" where
  "write_preferences draw profile existing_activity_ids interests languages activities =
     bind_tx (delete_interests (prof_id profile)) (\<lambda>_.
     bind_tx (delete_languages (prof_id profile)) (\<lambda>_.
     bind_tx (replace_profile_activity_ids (prof_id profile) (fst activities) existing_activity_ids) (\<lambda>activity_rows.
     bind_tx (delete_custom (prof_id profile) [INTEREST, LANGUAGE, ACTIVITY]) (\<lambda>_.
     flush_replacement profile (interest_rows (prof_id profile) (fst interests))
       (language_rows (prof_id profile) (fst languages)) activity_rows
       (all_custom_models draw (prof_id profile) (snd interests) (snd languages) (snd activities))))))"

definition replace_own_preferences ::
    "unicode_db \<Rightarrow> uuid \<Rightarrow> (nat \<Rightarrow> uuid) \<Rightarrow> user \<Rightarrow> profile_preference_update
       \<Rightarrow> (exn, database, preference_snapshot) txn" where
  "replace_own_preferences uni fresh draw owner update =
     bind_tx (own_profile_at_version fresh owner (ppu_version update)) (\<lambda>profile.
     bind_tx (\<lambda>db. (prepare_interests uni db (ppu_interest_ids update) (ppu_custom_interests update), db)) (\<lambda>interests.
     bind_tx (\<lambda>db. (prepare_languages uni db (ppu_languages update) (ppu_custom_languages update), db)) (\<lambda>languages.
     bind_tx (\<lambda>db. (prepare_activities uni db (ppu_activity_ids update) (ppu_custom_activities update), db)) (\<lambda>activities.
     bind_tx (query_tx (\<lambda>db. own_custom_rows db (prof_id profile) None)) (\<lambda>rows.
     bind_tx (\<lambda>db. (read_catalog_selections db (prof_id profile) (Some rows), db)) (\<lambda>existing.
     bind_tx (if preferences_changed existing rows interests languages activities
              then write_preferences draw profile (sel_activity_ids existing) interests languages activities
              else return_tx profile) (\<lambda>profile'.
     bind_tx (lift_tx (custom_label_output (snd interests))) (\<lambda>custom_interests.
     bind_tx (lift_tx (custom_language_output (snd languages))) (\<lambda>custom_languages.
     bind_tx (lift_tx (custom_label_output (snd activities))) (\<lambda>custom_activities.
     return_tx (snapshot_of profile'
       \<lparr>sel_interest_ids = fst interests, sel_custom_interests = custom_interests,
        sel_languages = fst languages, sel_custom_languages = custom_languages,
        sel_activity_ids = fst activities, sel_custom_activities = custom_activities\<rparr>)))))))))))"

end
