(* ===== verification/Profile_Updates.thy ===== *)
theory Profile_Updates
  imports Preference_Updates Availability Buddy_Matches
begin

text \<open>
  The owner's partial profile update: the request model \<open>ProfileUpdate\<close> of \<open>schemas/profile.py\<close> and
  \<open>update_own_profile\<close> of \<open>services/profiles.py\<close>. A field of a request is \<open>None\<close> when the body does not name it and
  \<open>Some None\<close> when the body sets it to null.
\<close>

section \<open>The request\<close>

record profile_update =
  pu_version :: int
  pu_full_name :: "pystr option option"
  pu_display_name :: "pystr option option"
  pu_student_type :: "student_type option option"
  pu_nationality :: "pystr option option"
  pu_major :: "pystr option option"
  pu_study_year :: "int option option"
  pu_bio :: "pystr option option"
  pu_home_university :: "pystr option option"
  pu_arrival_date :: "date option option"
  pu_departure_date :: "date option option"
  pu_availability :: "weekly_availability option option"
  pu_preferences :: "uuid list option option"
  pu_matching_opt_in :: "bool option option"

definition trim_required :: "nat \<Rightarrow> pystr option \<Rightarrow> exn + pystr option" where
  "trim_required maximum field_value =
     (case field_value of None \<Rightarrow> Inl ValueError
      | Some s \<Rightarrow> let candidate = py_strip s in
          if \<not> (1 \<le> length candidate \<and> length candidate \<le> maximum) then Inl ValueError else Inr (Some candidate))"

definition trim_optional :: "nat option \<Rightarrow> pystr option \<Rightarrow> exn + pystr option" where
  "trim_optional maximum field_value =
     (case field_value of None \<Rightarrow> Inr None
      | Some s \<Rightarrow> let candidate = py_strip s in
          if candidate = [] \<or> (case maximum of None \<Rightarrow> False | Some n \<Rightarrow> n < length candidate)
          then Inl ValueError else Inr (Some candidate))"

definition reject_null :: "'a option \<Rightarrow> exn + 'a option" where
  "reject_null field_value = (if field_value = None then Inl ValueError else Inr field_value)"

definition validate_preferences :: "uuid list \<Rightarrow> exn + uuid list" where
  "validate_preferences ids = validated (length ids \<le> 20 \<and> distinct ids) ids"

text \<open>A field validator runs when the body names the field.\<close>

definition on_field :: "('a \<Rightarrow> exn + 'a) \<Rightarrow> 'a option \<Rightarrow> exn + 'a option" where
  "on_field f field = (case field of None \<Rightarrow> Inr None | Some v \<Rightarrow> ebind (f v) (\<lambda>w. Inr (Some w)))"

definition on_value :: "('a \<Rightarrow> exn + 'a) \<Rightarrow> 'a option \<Rightarrow> exn + 'a option" where
  "on_value f v = (case v of None \<Rightarrow> Inr None | Some x \<Rightarrow> ebind (f x) (\<lambda>y. Inr (Some y)))"

definition no_field_set :: "profile_update \<Rightarrow> bool" where
  "no_field_set v \<longleftrightarrow> pu_full_name v = None \<and> pu_display_name v = None \<and> pu_student_type v = None
     \<and> pu_nationality v = None \<and> pu_major v = None \<and> pu_study_year v = None \<and> pu_bio v = None
     \<and> pu_home_university v = None \<and> pu_arrival_date v = None \<and> pu_departure_date v = None
     \<and> pu_availability v = None \<and> pu_preferences v = None \<and> pu_matching_opt_in v = None"

definition profile_update_model :: "tz_db \<Rightarrow> profile_update \<Rightarrow> exn + profile_update" where
  "profile_update_model tz v =
     (if pu_version v < 1 then Inl ValueError else
      ebind (on_field (trim_required 120) (pu_full_name v)) (\<lambda>full_name.
      ebind (on_field (trim_optional (Some 80)) (pu_display_name v)) (\<lambda>display_name.
      ebind (on_field reject_null (pu_student_type v)) (\<lambda>student_type.
      ebind (on_field (trim_optional None) (pu_nationality v)) (\<lambda>nationality.
      ebind (on_field (trim_optional None) (pu_major v)) (\<lambda>major.
      ebind (on_field (on_value (\<lambda>y. validated (1 \<le> y \<and> y \<le> 10) y)) (pu_study_year v)) (\<lambda>study_year.
      ebind (on_field (trim_optional (Some 500)) (pu_bio v)) (\<lambda>bio.
      ebind (on_field (trim_optional None) (pu_home_university v)) (\<lambda>home_university.
      ebind (on_field (on_value (validate_availability tz)) (pu_availability v)) (\<lambda>availability.
      ebind (on_field (on_value validate_preferences) (pu_preferences v)) (\<lambda>preferences.
      ebind (on_field reject_null (pu_matching_opt_in v)) (\<lambda>matching_opt_in.
      if no_field_set v then Inl ValueError
      else Inr (v\<lparr>pu_full_name := full_name, pu_display_name := display_name, pu_student_type := student_type,
             pu_nationality := nationality, pu_major := major, pu_study_year := study_year, pu_bio := bio,
             pu_home_university := home_university, pu_availability := availability,
             pu_preferences := preferences, pu_matching_opt_in := matching_opt_in\<rparr>)))))))))))))"

section \<open>The update\<close>

definition set_or :: "'a option \<Rightarrow> 'a \<Rightarrow> 'a" where
  "set_or field current = (case field of None \<Rightarrow> current | Some v \<Rightarrow> v)"

lemma set_or_simps [simp]: "set_or None x = x" "set_or (Some v) x = v"
  by (simp_all add: set_or_def)

text \<open>
  \<open>_update_values\<close> and the \<open>setattr\<close> loop. Preferences are not stored in their column: a list is kept in the
  activity relation, and only null is written. The flag is never null in a validated request.
\<close>

definition apply_changes :: "profile_update \<Rightarrow> student_profile \<Rightarrow> student_profile" where
  "apply_changes update p = p\<lparr>
     prof_full_name := set_or (pu_full_name update) (prof_full_name p),
     prof_display_name := set_or (pu_display_name update) (prof_display_name p),
     prof_student_type := set_or (pu_student_type update) (prof_student_type p),
     prof_nationality := set_or (pu_nationality update) (prof_nationality p),
     prof_major := set_or (pu_major update) (prof_major p),
     prof_study_year := set_or (pu_study_year update) (prof_study_year p),
     prof_bio := set_or (pu_bio update) (prof_bio p),
     prof_home_university := set_or (pu_home_university update) (prof_home_university p),
     prof_arrival_date := set_or (pu_arrival_date update) (prof_arrival_date p),
     prof_departure_date := set_or (pu_departure_date update) (prof_departure_date p),
     prof_availability := set_or (pu_availability update) (prof_availability p),
     prof_preferences := (if pu_preferences update = Some None then None else prof_preferences p),
     prof_matching_opt_in := (case pu_matching_opt_in update of Some (Some b) \<Rightarrow> b | _ \<Rightarrow> prof_matching_opt_in p)\<rparr>"

definition lock_owner :: "user \<Rightarrow> (exn, database, user) txn" where
  "lock_owner owner db =
     (case lock_current_buddy_users [usr_id owner] db of
        Inl BuddyParticipantStateError \<Rightarrow> (Inl ProfileAccessError, db)
      | Inl e \<Rightarrow> (Inl e, db)
      | Inr [locked] \<Rightarrow> (Inr locked, db)
      | Inr _ \<Rightarrow> (Inl ValueError, db))"

definition dates_reversed :: "date option \<Rightarrow> date option \<Rightarrow> bool" where
  "dates_reversed arrival departure \<longleftrightarrow>
     (case (arrival, departure) of (Some a, Some d) \<Rightarrow> d < a | _ \<Rightarrow> False)"

text \<open>The activity identifiers of the request, checked against the catalog, and the deletion of the old ones.\<close>

definition stage_preferred_activities ::
    "profile_update \<Rightarrow> uuid \<Rightarrow> (exn, database, profile_activity list) txn" where
  "stage_preferred_activities update profile_id =
     (case pu_preferences update of
        Some (Some ids) \<Rightarrow>
          bind_tx (query_tx list_selectable_activities) (\<lambda>selectable.
          if \<not> set ids \<subseteq> set (map act_id selectable) then raise_tx ProfileValidationError
          else bind_tx (query_tx (\<lambda>db. read_profile_activity_ids db profile_id)) (\<lambda>existing.
               replace_profile_activity_ids profile_id ids existing))
      | _ \<Rightarrow> return_tx [])"

definition update_own_profile :: "uuid \<Rightarrow> user \<Rightarrow> profile_update \<Rightarrow> (exn, database, student_profile) txn" where
  "update_own_profile fresh owner update =
     bind_tx (if pu_student_type update \<noteq> None then lock_owner owner else return_tx owner) (\<lambda>owner.
     bind_tx (own_profile_at_version fresh owner (pu_version update)) (\<lambda>profile.
     bind_tx (query_tx (has_active_buddy_match (usr_id owner))) (\<lambda>matched.
     if pu_student_type update \<noteq> None
        \<and> set_or (pu_student_type update) (prof_student_type profile) \<noteq> prof_student_type profile \<and> matched
     then raise_tx ProfileUpdateConflictError
     else if dates_reversed (set_or (pu_arrival_date update) (prof_arrival_date profile))
               (set_or (pu_departure_date update) (prof_departure_date profile))
     then raise_tx ProfileValidationError
     else bind_tx (stage_preferred_activities update (prof_id profile)) (\<lambda>activities.
          flush_replacement (apply_changes update profile) [] [] activities []))))"

end
