(* ===== verification/Profile_Writes.thy ===== *)
theory Profile_Writes
  imports Profile_Updates
begin

text \<open>
  What a successful profile write does to the database. The locale \<open>staged_insert\<close> is the contract of the insert
  statements; every write flushes the owner's profile row and the rows it staged, and nothing outside that profile changes.
\<close>

section \<open>Staged rows\<close>

locale staged_insert =
  fixes ins :: "'r \<Rightarrow> (exn, database, unit) txn"
    and put :: "('r list \<Rightarrow> 'r list) \<Rightarrow> database \<Rightarrow> database"
    and get :: "database \<Rightarrow> 'r list"
  assumes insert_appends: "ins r db = (Inr x, db') \<Longrightarrow> db' = put (\<lambda>rows. rows @ [r]) db"
    and put_put: "put f (put g db) = put (f \<circ> g) db"
    and put_id: "put (\<lambda>rows. rows) db = db"
    and get_put: "get (put f db) = f (get db)"
begin

lemma inserts_append: "for_tx ins rs db = (Inr x, db') \<Longrightarrow> db' = put (\<lambda>rows. rows @ rs) db"
proof (induction rs arbitrary: db x)
  case (Cons r rs)
  then obtain y d ys where "ins r db = (Inr y, d)" "for_tx ins rs d = (Inr ys, db')"
    unfolding for_tx_Cons_Inr by blast
  with Cons.IH[OF this(2)] insert_appends[OF this(1)] show ?case by (simp add: put_put comp_def)
qed (simp add: put_id)

lemma get_inserted: "for_tx ins rs db = (Inr x, db') \<Longrightarrow> get db' = get db @ rs"
  by (drule inserts_append) (simp add: get_put)

end

interpretation pint: staged_insert insert_interest db_profile_interests_update db_profile_interests
  by unfold_locales (auto simp: insert_interest_def insert_checked_def split: sum.splits if_splits)

interpretation plang: staged_insert insert_language db_profile_languages_update db_profile_languages
  by unfold_locales (auto simp: insert_language_def insert_checked_def split: sum.splits if_splits)

interpretation pact: staged_insert insert_activity db_profile_activities_update db_profile_activities
  by unfold_locales (auto simp: insert_activity_def insert_checked_def split: sum.splits if_splits)

interpretation pcust: staged_insert insert_custom db_custom_preferences_update db_custom_preferences
  by unfold_locales (auto simp: insert_custom_def insert_checked_def split: sum.splits if_splits)

lemma custom_inserts_clean:
  "for_tx insert_custom rs db = (Inr x, db') \<Longrightarrow> table_ok custom_preference_check custom_preference_clash (db_custom_preferences db)
     \<Longrightarrow> table_ok custom_preference_check custom_preference_clash (db_custom_preferences db')"
proof (induction rs arbitrary: db x)
  case (Cons r rs)
  then obtain y d ys where a: "insert_custom r db = (Inr y, d)" "for_tx insert_custom rs d = (Inr ys, db')"
    unfolding for_tx_Cons_Inr by blast
  then have "table_ok custom_preference_check custom_preference_clash (db_custom_preferences d)"
    using cust.insert_checked_ok[OF Cons.prems(2)] by (auto simp: insert_custom_def split: sum.splits)
  with Cons.IH[OF a(2)] show ?case by blast
qed simp

lemma flush_profile_Inr:
  assumes "flush_profile r db = (Inr q, db')"
  shows "q = r\<lparr>prof_updated_at := db_now db\<rparr>"
    and "db' = db\<lparr>db_profiles := update_where (\<lambda>x. prof_id x = prof_id r) (\<lambda>_. q) (db_profiles db)\<rparr>"
    and "table_ok profile_check profile_clash (db_profiles db) \<Longrightarrow> table_ok profile_check profile_clash (db_profiles db')"
proof -
  obtain rows where r: "update_checked prof_id profile_check profile_clash (r\<lparr>prof_updated_at := db_now db\<rparr>)
        (db_profiles db) = Inr rows" "q = r\<lparr>prof_updated_at := db_now db\<rparr>" "db' = db\<lparr>db_profiles := rows\<rparr>"
    using assms by (auto simp: flush_profile_def Let_def split: sum.splits)
  then have "rows = update_where (\<lambda>x. prof_id x = prof_id r) (\<lambda>_. q) (db_profiles db)"
    by (simp add: update_checked_def split: if_splits)
  with r show "q = r\<lparr>prof_updated_at := db_now db\<rparr>"
      "db' = db\<lparr>db_profiles := update_where (\<lambda>x. prof_id x = prof_id r) (\<lambda>_. q) (db_profiles db)\<rparr>" by simp_all
  show "table_ok profile_check profile_clash (db_profiles db')" if "table_ok profile_check profile_clash (db_profiles db)"
    using conjunct1[OF prof.update_checked_ok[OF that r(1)]] unfolding r(3) by simp
qed

lemma flush_replacement_Inr:
  assumes "flush_replacement p I L A C db = (Inr q, db')"
  shows "q = p\<lparr>prof_version := prof_version p + 1, prof_updated_at := db_now db\<rparr>"
    and "db' = db\<lparr>db_profiles := update_where (\<lambda>x. prof_id x = prof_id p) (\<lambda>_. q) (db_profiles db),
       db_profile_interests := db_profile_interests db @ I, db_profile_languages := db_profile_languages db @ L,
       db_profile_activities := db_profile_activities db @ A, db_custom_preferences := db_custom_preferences db @ C\<rparr>"
    and "table_ok profile_check profile_clash (db_profiles db) \<Longrightarrow> table_ok profile_check profile_clash (db_profiles db')"
    and "table_ok custom_preference_check custom_preference_clash (db_custom_preferences db) \<Longrightarrow>
       table_ok custom_preference_check custom_preference_clash (db_custom_preferences db')"
proof -
  from assms obtain d1 d2 d3 d4 x2 x3 x4 x5 where s:
      "flush_profile (p\<lparr>prof_version := prof_version p + 1\<rparr>) db = (Inr q, d1)"
      "for_tx insert_interest I d1 = (Inr x2, d2)" "for_tx insert_language L d2 = (Inr x3, d3)"
      "for_tx insert_activity A d3 = (Inr x4, d4)" "for_tx insert_custom C d4 = (Inr x5, db')"
    by (auto simp: flush_replacement_def tx)
  note f = flush_profile_Inr[OF s(1)]
  from f show "q = p\<lparr>prof_version := prof_version p + 1, prof_updated_at := db_now db\<rparr>" by simp
  show db': "db' = db\<lparr>db_profiles := update_where (\<lambda>x. prof_id x = prof_id p) (\<lambda>_. q) (db_profiles db),
       db_profile_interests := db_profile_interests db @ I, db_profile_languages := db_profile_languages db @ L,
       db_profile_activities := db_profile_activities db @ A, db_custom_preferences := db_custom_preferences db @ C\<rparr>"
    using f pint.inserts_append[OF s(2)] plang.inserts_append[OF s(3)] pact.inserts_append[OF s(4)]
      pcust.inserts_append[OF s(5)] by simp
  show "table_ok profile_check profile_clash (db_profiles db')" if "table_ok profile_check profile_clash (db_profiles db)"
    using that f(3) unfolding db' f(2) by simp
  have "db_custom_preferences d4 = db_custom_preferences db"
    using f pint.inserts_append[OF s(2)] plang.inserts_append[OF s(3)] pact.inserts_append[OF s(4)] by simp
  then show "table_ok custom_preference_check custom_preference_clash (db_custom_preferences db')"
    if "table_ok custom_preference_check custom_preference_clash (db_custom_preferences db)"
    using that custom_inserts_clean[OF s(5)] by simp
qed

section \<open>One write\<close>

text \<open>
  \<open>writes_only i db db'\<close>: everything that does not belong to the profile \<open>i\<close> is as before, down to the order of the rows.
\<close>

definition writes_only :: "uuid \<Rightarrow> database \<Rightarrow> database \<Rightarrow> bool" where
  "writes_only i db db' \<longleftrightarrow>
     filter (\<lambda>p. prof_id p \<noteq> i) (db_profiles db') = filter (\<lambda>p. prof_id p \<noteq> i) (db_profiles db)
     \<and> filter (\<lambda>s. pint_profile_id s \<noteq> i) (db_profile_interests db') = filter (\<lambda>s. pint_profile_id s \<noteq> i) (db_profile_interests db)
     \<and> filter (\<lambda>s. plang_profile_id s \<noteq> i) (db_profile_languages db') = filter (\<lambda>s. plang_profile_id s \<noteq> i) (db_profile_languages db)
     \<and> filter (\<lambda>s. pact_profile_id s \<noteq> i) (db_profile_activities db') = filter (\<lambda>s. pact_profile_id s \<noteq> i) (db_profile_activities db)
     \<and> filter (\<lambda>c. cust_profile_id c \<noteq> i) (db_custom_preferences db') = filter (\<lambda>c. cust_profile_id c \<noteq> i) (db_custom_preferences db)
     \<and> db' = db\<lparr>db_profiles := db_profiles db', db_profile_interests := db_profile_interests db',
          db_profile_languages := db_profile_languages db', db_profile_activities := db_profile_activities db',
          db_custom_preferences := db_custom_preferences db'\<rparr>"

lemma writes_only_refl: "writes_only i db db"
  by (simp add: writes_only_def)

lemma writes_only_trans: "writes_only i db d1 \<Longrightarrow> writes_only i d1 db' \<Longrightarrow> writes_only i db db'"
  unfolding writes_only_def by (cases db; cases d1; cases db') simp

lemma filter_update_where: "(\<And>x. p x \<Longrightarrow> \<not> q x \<and> \<not> q (f x)) \<Longrightarrow> filter q (update_where p f rows) = filter q rows"
  by (induction rows) (auto simp: update_where_def)

lemma filter_none: "(\<And>x. x \<in> set xs \<Longrightarrow> \<not> q x) \<Longrightarrow> filter q xs = []"
  by (induction xs) auto

lemma filter_subsumed: "(\<And>x. q x \<Longrightarrow> p x) \<Longrightarrow> filter q (filter p xs) = filter q xs"
  by (induction xs) auto

text \<open>A replacement of the rows of one profile: deletions of its own rows followed by the flush of staged own rows.\<close>

definition own_rows ::
    "uuid \<Rightarrow> profile_interest list \<Rightarrow> profile_language list \<Rightarrow> profile_activity list \<Rightarrow> custom_preference list \<Rightarrow> bool" where
  "own_rows i I L A C \<longleftrightarrow> list_all (\<lambda>s. pint_profile_id s = i) I \<and> list_all (\<lambda>s. plang_profile_id s = i) L
     \<and> list_all (\<lambda>s. pact_profile_id s = i) A \<and> list_all (\<lambda>c. cust_profile_id c = i) C"

lemma flush_replacement_writes:
  assumes "flush_replacement p I L A C db = (Inr q, db')" "own_rows (prof_id p) I L A C"
  shows "writes_only (prof_id p) db db'"
  using assms(2) flush_replacement_Inr(1)[OF assms(1)] unfolding flush_replacement_Inr(2)[OF assms(1)]
  by (simp add: writes_only_def own_rows_def list_all_iff filter_update_where filter_none)

lemma deletions_write:
  "delete_interests i db = (Inr (), d1) \<Longrightarrow> writes_only i db d1"
  "delete_languages i db = (Inr (), d1) \<Longrightarrow> writes_only i db d1"
  "delete_activities i db = (Inr (), d1) \<Longrightarrow> writes_only i db d1"
  "delete_custom i ks db = (Inr (), d1) \<Longrightarrow> writes_only i db d1"
  by (auto simp: writes_only_def delete_interests_def delete_languages_def delete_activities_def delete_custom_def
      simp del: filter_filter intro!: filter_subsumed)

definition custom_table_ok :: "database \<Rightarrow> bool" where
  "custom_table_ok db \<longleftrightarrow> table_ok custom_preference_check custom_preference_clash (db_custom_preferences db)"

definition profiles_ok :: "database \<Rightarrow> bool" where
  "profiles_ok db \<longleftrightarrow> table_ok profile_check profile_clash (db_profiles db)"

text \<open>
  A profile is written: its row carries the next version, still belongs to the same owner, keeps its student type when
  the owner has an ACTIVE match, and nothing outside the profile has changed.
\<close>

definition profile_written :: "student_profile \<Rightarrow> database \<Rightarrow> database \<Rightarrow> bool" where
  "profile_written p db db' \<longleftrightarrow> writes_only (prof_id p) db db' \<and> (profiles_ok db \<longrightarrow> profiles_ok db')
     \<and> (custom_table_ok db \<longrightarrow> custom_table_ok db')
     \<and> (\<exists>q. prof_id q = prof_id p \<and> prof_user_id q = prof_user_id p \<and> prof_version q = prof_version p + 1
          \<and> (has_active_buddy_match (prof_user_id p) db \<longrightarrow> prof_student_type q = prof_student_type p)
          \<and> db_profiles db' = update_where (\<lambda>x. prof_id x = prof_id p) (\<lambda>_. q) (db_profiles db))"

lemma flush_replacement_written:
  assumes "flush_replacement p' I L A C d1 = (Inr q, db')" "own_rows (prof_id p) I L A C"
    and "writes_only (prof_id p) db d1" "db_profiles d1 = db_profiles db"
    and "custom_table_ok db \<longrightarrow> custom_table_ok d1"
    and "prof_id p' = prof_id p" "prof_user_id p' = prof_user_id p" "prof_version p' = prof_version p"
    and "has_active_buddy_match (prof_user_id p) db \<longrightarrow> prof_student_type p' = prof_student_type p"
  shows "profile_written p db db' \<and> prof_version q = prof_version p + 1"
proof -
  note f = flush_replacement_Inr[OF assms(1)]
  have "writes_only (prof_id p) db db'"
    using writes_only_trans[OF assms(3)] flush_replacement_writes[OF assms(1)] assms(2,6) by simp
  moreover have "db_profiles db' = update_where (\<lambda>x. prof_id x = prof_id p) (\<lambda>_. q) (db_profiles db)"
    unfolding f(2) using assms(4,6) by simp
  moreover have "prof_id q = prof_id p" "prof_user_id q = prof_user_id p" "prof_version q = prof_version p + 1"
    unfolding f(1) using assms(6-8) by simp_all
  moreover have "has_active_buddy_match (prof_user_id p) db \<longrightarrow> prof_student_type q = prof_student_type p"
    unfolding f(1) using assms(9) by simp
  moreover have "profiles_ok db \<Longrightarrow> profiles_ok db'"
    using f(3) assms(4) by (simp add: profiles_ok_def)
  moreover have "custom_table_ok db \<longrightarrow> custom_table_ok db'"
    using f(4) assms(5) by (simp add: custom_table_ok_def)
  ultimately show ?thesis
    unfolding profile_written_def by blast
qed

lemma select_own_profile_iff:
  assumes "profiles_ok db"
  shows "select_own_profile db i = Some p \<longleftrightarrow> p \<in> set (db_profiles db) \<and> prof_user_id p = i"
proof
  assume "p \<in> set (db_profiles db) \<and> prof_user_id p = i"
  then show "select_own_profile db i = Some p"
    unfolding select_own_profile_def using assms
    by (intro find_unique) (auto simp: profiles_ok_def profile_clash_def dest: prof.no_clash)
qed (auto simp: select_own_profile_def dest: find_SomeD)

lemma own_profile_existing:
  "select_own_profile db (usr_id owner) = Some p \<Longrightarrow>
     own_profile_at_version fresh owner v db =
       (if require_profile_owner owner \<noteq> Inr () then (Inl ProfileAccessError, db)
        else if prof_version p \<noteq> v then (Inl ProfileVersionConflictError, db) else (Inr p, db))"
  by (simp add: own_profile_at_version_def get_or_create_own_profile_def bind_tx_def require_profile_owner_def)

lemma own_profile_Inr:
  assumes "own_profile_at_version fresh owner v db = (Inr p, db')" "profiles_ok db"
  shows "prof_version p = v" and "select_own_profile db' (usr_id owner) = Some p" and "profiles_ok db'"
    and "writes_only (prof_id p) db db'"
    and "db' = db \<or> select_own_profile db (usr_id owner) = None"
    and "x \<in> set (db_profiles db) \<Longrightarrow> prof_id x = prof_id p \<Longrightarrow> x = p"
    and "custom_table_ok db \<Longrightarrow> custom_table_ok db'"
    and "require_profile_owner owner = Inr ()"
proof -
  have r: "prof_version p = v \<and> select_own_profile db' (usr_id owner) = Some p \<and> profiles_ok db'
     \<and> writes_only (prof_id p) db db' \<and> (db' = db \<or> select_own_profile db (usr_id owner) = None)
     \<and> (\<forall>x \<in> set (db_profiles db). prof_id x = prof_id p \<longrightarrow> x = p)
     \<and> (custom_table_ok db \<longrightarrow> custom_table_ok db')
     \<and> require_profile_owner owner = Inr ()"
  proof (cases "select_own_profile db (usr_id owner)")
    case (Some q)
    then have "q \<in> set (db_profiles db)" using select_own_profile_iff[OF assms(2)] by blast
    with Some assms show ?thesis
      by (auto simp: own_profile_existing writes_only_refl profiles_ok_def dest: prof.key_inj split: if_splits)
  next
    case None
    let ?new = "new_profile fresh (usr_id owner) (db_now db)"
    have owner: "require_profile_owner owner = Inr ()" and g: "get_or_create_own_profile fresh owner db = (Inr p, db')"
        and v: "prof_version p = v"
      using assms(1) by (auto simp: own_profile_at_version_def get_or_create_own_profile_def tx split: if_splits)
    have same: "select_own_profile db' (usr_id owner) = None" if "atomic_tx (insert_profile ?new) db = (Inl e, db')" for e
      using that None by (auto simp: tx)
    have ins: "insert_profile ?new db = (Inr (), db')" and p: "p = ?new"
      using g None owner same
      by (auto simp: get_or_create_own_profile_def bind_tx_def Let_def tx split: sum.splits prod.splits if_splits option.splits)
    from ins have db': "db' = db\<lparr>db_profiles := db_profiles db @ [?new]\<rparr>"
        "\<forall>x \<in> set (db_profiles db). \<not> profile_clash ?new x"
      by (auto simp: insert_profile_def prof.insert_checked_iff split: sum.splits)
    from ins assms(2) have ok: "profiles_ok db'"
      using prof.insert_checked_ok by (auto simp: insert_profile_def profiles_ok_def split: sum.splits)
    have "select_own_profile db' (usr_id owner) = Some p"
      unfolding select_own_profile_iff[OF ok] by (simp add: db' p new_profile_def)
    moreover have "writes_only (prof_id p) db db'"
      by (simp add: writes_only_def db' p new_profile_def)
    moreover have "custom_table_ok db \<longrightarrow> custom_table_ok db'" by (simp add: db'(1) custom_table_ok_def)
    moreover have "\<forall>x \<in> set (db_profiles db). prof_id x \<noteq> prof_id p"
      using db'(2) by (auto simp: profile_clash_def p)
    ultimately show ?thesis using None owner ok v by blast
  qed
  show "prof_version p = v" "select_own_profile db' (usr_id owner) = Some p" "profiles_ok db'"
      "writes_only (prof_id p) db db'" "db' = db \<or> select_own_profile db (usr_id owner) = None"
      "require_profile_owner owner = Inr ()"
    using r by - (elim conjE, assumption)+
  show "custom_table_ok db \<Longrightarrow> custom_table_ok db'"
    using r by (elim conjE) (rule mp)
  show "x = p" if "x \<in> set (db_profiles db)" "prof_id x = prof_id p"
    using r that by blast
qed

end
