(* ===== verification/Profile_Versions.thy ===== *)
theory Profile_Versions
  imports Profile_Writes
begin

text \<open>
  The preference endpoints of \<open>api/profile_catalogs.py\<close>, the locale \<open>versioned_write\<close> that is the contract of the five
  writers of a profile, and optimistic concurrency: a version of a profile is overwritten at most once, whichever of the five writers runs, and a writer touches its owner's rows only.
\<close>

section \<open>Endpoints\<close>

text \<open>The \<open>except\<close> clauses after a rollback; any other exception is raised again.\<close>

definition profile_error_response :: "exn \<Rightarrow> exn" where
  "profile_error_response e =
     (case e of ProfileVersionConflictError \<Rightarrow> HTTPException 409
      | ProfileUpdateConflictError \<Rightarrow> HTTPException 409
      | ProfileValidationError \<Rightarrow> HTTPException 422
      | ProfileAccessError \<Rightarrow> HTTPException 403
      | other \<Rightarrow> other)"

definition committed :: "(exn, database, 'a) txn \<Rightarrow> (exn, database, 'a) txn" where
  "committed m = rethrow_tx profile_error_response (atomic_tx m)"

definition update_profile_interests ::
    "unicode_db \<Rightarrow> uuid \<Rightarrow> (nat \<Rightarrow> uuid) \<Rightarrow> user \<Rightarrow> profile_interest_update \<Rightarrow> (exn, database, interest_mutation) txn" where
  "update_profile_interests uni fresh draw current_user payload =
     committed (replace_own_interests uni fresh draw current_user payload)"

definition update_profile_languages ::
    "unicode_db \<Rightarrow> uuid \<Rightarrow> (nat \<Rightarrow> uuid) \<Rightarrow> user \<Rightarrow> profile_language_update \<Rightarrow> (exn, database, language_mutation) txn" where
  "update_profile_languages uni fresh draw current_user payload =
     committed (replace_own_languages uni fresh draw current_user payload)"

definition update_profile_activities ::
    "unicode_db \<Rightarrow> uuid \<Rightarrow> (nat \<Rightarrow> uuid) \<Rightarrow> user \<Rightarrow> profile_activity_update \<Rightarrow> (exn, database, activity_mutation) txn" where
  "update_profile_activities uni fresh draw current_user payload =
     committed (replace_own_activities uni fresh draw current_user payload)"

definition read_profile_preferences :: "uuid \<Rightarrow> user \<Rightarrow> (exn, database, preference_snapshot) txn" where
  "read_profile_preferences fresh current_user = committed (get_own_preference_snapshot fresh current_user)"

definition update_profile_preferences ::
    "unicode_db \<Rightarrow> uuid \<Rightarrow> (nat \<Rightarrow> uuid) \<Rightarrow> user \<Rightarrow> profile_preference_update
       \<Rightarrow> (exn, database, preference_snapshot) txn" where
  "update_profile_preferences uni fresh draw current_user payload =
     committed (replace_own_preferences uni fresh draw current_user payload)"

section \<open>The contract of a writer\<close>

locale versioned_write =
  fixes run :: "user \<Rightarrow> 'c \<Rightarrow> (exn, database, 'r) txn"
    and quoted :: "'c \<Rightarrow> int"
    and reported :: "'r \<Rightarrow> int"
  assumes accepted: "run owner up db = (Inr r, db') \<Longrightarrow> profiles_ok db \<Longrightarrow>
      \<exists>owner' fresh p d1. usr_id owner' = usr_id owner
        \<and> own_profile_at_version fresh owner' (quoted up) db = (Inr p, d1)
        \<and> (reported r = quoted up \<and> db' = d1 \<or> reported r = quoted up + 1 \<and> profile_written p d1 db')"
    and stale: "select_own_profile db (usr_id owner) = Some p \<Longrightarrow> prof_version p \<noteq> quoted up \<Longrightarrow>
      run owner up db = (Inl ProfileAccessError, db) \<or> run owner up db = (Inl ProfileVersionConflictError, db)"
begin

lemma advances:
  assumes "run owner up db = (Inr r, db')" "profiles_ok db"
  shows "\<exists>q. select_own_profile db' (usr_id owner) = Some q \<and> prof_version q = reported r
     \<and> profiles_ok db' \<and> writes_only (prof_id q) db db' \<and> (custom_table_ok db \<longrightarrow> custom_table_ok db')
     \<and> reported r \<in> {quoted up, quoted up + 1}
     \<and> (\<forall>x \<in> set (db_profiles db). prof_id x = prof_id q \<longrightarrow> prof_user_id x = usr_id owner)
     \<and> (\<forall>p. select_own_profile db (usr_id owner) = Some p \<and> has_active_buddy_match (usr_id owner) db \<longrightarrow>
          prof_student_type q = prof_student_type p)
     \<and> (\<forall>p. select_own_profile db (usr_id owner) = Some p \<longrightarrow>
          prof_version p = quoted up \<and> prof_id p = prof_id q \<and> (reported r = quoted up \<longrightarrow> db' = db))"
proof -
  obtain owner' fresh p d1 where o: "usr_id owner' = usr_id owner"
      and a: "own_profile_at_version fresh owner' (quoted up) db = (Inr p, d1)"
      and c: "reported r = quoted up \<and> db' = d1 \<or> reported r = quoted up + 1 \<and> profile_written p d1 db'"
    using accepted[OF assms] by blast
  note p = own_profile_Inr[OF a assms(2)]
  have old: "d1 = db \<and> x = p" if "select_own_profile db (usr_id owner) = Some x" for x
    using that p(2,5) unfolding o by auto
  have own: "\<forall>x \<in> set (db_profiles db). prof_id x = prof_id p \<longrightarrow> prof_user_id x = usr_id owner"
    using p(2,6) unfolding o select_own_profile_iff[OF p(3)] by blast
  show ?thesis using c
  proof
    assume "reported r = quoted up \<and> db' = d1"
    with p(1,2,3,4,7) old own show ?thesis unfolding o by auto
  next
    assume w: "reported r = quoted up + 1 \<and> profile_written p d1 db'"
    then obtain q where q: "prof_id q = prof_id p" "prof_user_id q = prof_user_id p" "prof_version q = prof_version p + 1"
        "db_profiles db' = update_where (\<lambda>x. prof_id x = prof_id p) (\<lambda>_. q) (db_profiles d1)"
        "has_active_buddy_match (prof_user_id p) d1 \<longrightarrow> prof_student_type q = prof_student_type p"
      unfolding profile_written_def by blast
    have in_p: "p \<in> set (db_profiles d1)" "prof_user_id p = usr_id owner"
      using p(2) unfolding o select_own_profile_iff[OF p(3)] by simp_all
    have ok: "profiles_ok db'" using w p(3) unfolding profile_written_def by blast
    have "select_own_profile db' (usr_id owner) = Some q"
      unfolding select_own_profile_iff[OF ok] q(4) using in_p q(2) by (auto simp: set_update_where)
    moreover have "writes_only (prof_id q) db db'"
      using writes_only_trans[OF p(4)] w unfolding profile_written_def q(1) by blast
    moreover have "custom_table_ok db \<longrightarrow> custom_table_ok db'"
      using p(7) w unfolding profile_written_def by blast
    ultimately show ?thesis using w p(1) q(1,3,5) in_p(2) ok old own by auto
  qed
qed

lemma leaves_others:
  assumes "run owner up db = (Inr r, db')" "profiles_ok db" "i \<noteq> usr_id owner"
  shows "select_own_profile db' i = select_own_profile db i"
proof -
  obtain q where q: "select_own_profile db' (usr_id owner) = Some q" "profiles_ok db'" "writes_only (prof_id q) db db'"
      "\<forall>x \<in> set (db_profiles db). prof_id x = prof_id q \<longrightarrow> prof_user_id x = usr_id owner"
    using advances[OF assms(1,2)] by blast
  let ?others = "\<lambda>d. filter (\<lambda>p. prof_id p \<noteq> prof_id q) (db_profiles d)"
  have same: "?others db' = ?others db" using q(3) by (simp add: writes_only_def)
  have new: "prof_id x \<noteq> prof_id q" if "x \<in> set (db_profiles db')" "prof_user_id x = i" for x
    using that q(1) prof.key_inj[OF q(2)[unfolded profiles_ok_def]] assms(3)
    unfolding select_own_profile_iff[OF q(2)] by blast
  have "x \<in> set (db_profiles db') \<and> prof_user_id x = i \<longleftrightarrow> x \<in> set (db_profiles db) \<and> prof_user_id x = i" for x
  proof -
    have "x \<in> set (?others db') \<longleftrightarrow> x \<in> set (?others db)" by (simp only: same)
    then show ?thesis using new[of x] q(4) assms(3) by auto
  qed
  then show ?thesis
    using select_own_profile_iff[OF assms(2)] select_own_profile_iff[OF q(2)] by (metis not_Some_eq)
qed

end

section \<open>The five writers\<close>

text \<open>Deletions of rows of one profile that leave the profile table alone.\<close>

definition clears :: "uuid \<Rightarrow> database \<Rightarrow> database \<Rightarrow> bool" where
  "clears i db d \<longleftrightarrow> writes_only i db d \<and> db_profiles d = db_profiles db
     \<and> (custom_table_ok db \<longrightarrow> custom_table_ok d)"

lemma clears_refl: "clears i db db"
  by (simp add: clears_def writes_only_refl)

lemma clears_trans: "clears i db d1 \<Longrightarrow> clears i d1 d2 \<Longrightarrow> clears i db d2"
  by (auto simp: clears_def intro: writes_only_trans)

lemma deletions_clear:
  "delete_interests i db = (Inr x, d) \<Longrightarrow> clears i db d"
  "delete_languages i db = (Inr x, d) \<Longrightarrow> clears i db d"
  "delete_activities i db = (Inr x, d) \<Longrightarrow> clears i db d"
  "delete_custom i ks db = (Inr x, d) \<Longrightarrow> clears i db d"
  by (auto simp: clears_def dest: deletions_write)
    (auto simp: delete_interests_def delete_languages_def delete_activities_def delete_custom_def custom_table_ok_def
      intro: cust.filter_ok)

lemma replace_activities_clears:
  "replace_profile_activity_ids i requested existing db = (Inr A, d) \<Longrightarrow>
     clears i db d \<and> list_all (\<lambda>s. pact_profile_id s = i) A"
  by (auto simp: replace_profile_activity_ids_def tx list_all_iff clears_refl dest: deletions_clear split: if_splits)

lemma custom_models_own: "list_all (\<lambda>c. cust_profile_id c = i) (custom_models draw i kind values)"
  by (auto simp: custom_models_def list_all_iff in_set_enumerate_eq)

lemma replace_kind_clears:
  "replace_custom_kind draw i kind values db = (Inr C, d) \<Longrightarrow>
     clears i db d \<and> list_all (\<lambda>c. cust_profile_id c = i) C"
  by (auto simp: replace_custom_kind_def tx custom_models_own dest: deletions_clear)

lemma own_rows_simps [simp]:
  "list_all (\<lambda>s. pint_profile_id s = i) (interest_rows i ids)"
  "list_all (\<lambda>s. plang_profile_id s = i) (language_rows i selections)"
  "list_all (\<lambda>c. cust_profile_id c = i) (all_custom_models draw i a b c)"
  using custom_models_own
  by (auto simp: interest_rows_def language_rows_def all_custom_models_def list_all_iff)

lemma flush_after_clearing:
  assumes "flush_replacement p' I L A C d = (Inr q, db')" "clears (prof_id p) db d" "own_rows (prof_id p) I L A C"
    and "prof_id p' = prof_id p" "prof_user_id p' = prof_user_id p" "prof_version p' = prof_version p"
    and "has_active_buddy_match (prof_user_id p) db \<longrightarrow> prof_student_type p' = prof_student_type p"
  shows "profile_written p db db' \<and> prof_version q = prof_version p + 1"
  using flush_replacement_written[OF assms(1,3)] assms(2,4-7) unfolding clears_def by blast

lemma bind_read: "bind_tx (\<lambda>db. (f db, db)) k s = (case f s of Inl e \<Rightarrow> (Inl e, s) | Inr x \<Rightarrow> k x s)"
  by (simp add: bind_tx_def)

lemma bind_query: "bind_tx (query_tx f) k s = k (f s) s"
  by (simp add: bind_tx_def)

lemma bind_lift: "bind_tx (lift_tx x) k s = (case x of Inl e \<Rightarrow> (Inl e, s) | Inr v \<Rightarrow> k v s)"
  by (simp add: bind_tx_def split: sum.split)

lemmas run_reads = bind_read bind_query bind_lift

text \<open>The tail of every writer: write when something changed, then report the version of the profile.\<close>

lemma written_tail:
  assumes "bind_tx (if changed then write else return_tx p) k d1 = (Inr r, db')"
    and "\<And>q d. k q d = (Inr r, db') \<Longrightarrow> d = db' \<and> version r = prof_version q"
    and "\<And>q. write d1 = (Inr q, db') \<Longrightarrow> profile_written p d1 db' \<and> prof_version q = prof_version p + 1"
  shows "version r = prof_version p \<and> db' = d1 \<or> version r = prof_version p + 1 \<and> profile_written p d1 db'"
proof -
  obtain q d where "(if changed then write else return_tx p) d1 = (Inr q, d)" "k q d = (Inr r, db')"
    using assms(1) unfolding bind_tx_Inr_iff by blast
  with assms(2,3) show ?thesis by (cases changed) (fastforce simp: tx)+
qed

lemma replace_interest_rows_written:
  assumes "bind_tx (delete_interests (prof_id p)) (\<lambda>_. bind_tx (replace_custom_kind draw (prof_id p) INTEREST customs)
      (\<lambda>cs. flush_replacement p (interest_rows (prof_id p) ids) [] [] cs)) d1 = (Inr q, db')"
  shows "profile_written p d1 db' \<and> prof_version q = prof_version p + 1"
proof -
  obtain x d2 cs d3 where "delete_interests (prof_id p) d1 = (Inr x, d2)"
      "replace_custom_kind draw (prof_id p) INTEREST customs d2 = (Inr cs, d3)"
      "flush_replacement p (interest_rows (prof_id p) ids) [] [] cs d3 = (Inr q, db')"
    using assms unfolding bind_tx_Inr_iff by blast
  with flush_after_clearing[OF this(3) clears_trans[OF deletions_clear(1)[OF this(1)]]] replace_kind_clears[OF this(2)]
  show ?thesis by (auto simp: own_rows_def)
qed

lemma interests_written:
  assumes "replace_own_interests uni fresh draw owner up db = (Inr r, db')"
  shows "\<exists>p d1. own_profile_at_version fresh owner (piu_version up) db = (Inr p, d1)
     \<and> (im_version r = prof_version p \<and> db' = d1 \<or> im_version r = prof_version p + 1 \<and> profile_written p d1 db')"
proof -
  obtain p d1 where a: "own_profile_at_version fresh owner (piu_version up) db = (Inr p, d1)"
    using assms unfolding replace_own_interests_def bind_tx_Inr_iff[of "own_profile_at_version _ _ _"] by blast
  show ?thesis
    using assms a unfolding replace_own_interests_def
    by (auto simp: run_reads Let_def split: sum.splits prod.splits
        dest!: written_tail[where version = im_version, OF _ _ replace_interest_rows_written])
qed

lemma replace_language_rows_written:
  assumes "bind_tx (delete_languages (prof_id p)) (\<lambda>_. bind_tx (replace_custom_kind draw (prof_id p) LANGUAGE customs)
      (\<lambda>cs. flush_replacement p [] (language_rows (prof_id p) requested) [] cs)) d1 = (Inr q, db')"
  shows "profile_written p d1 db' \<and> prof_version q = prof_version p + 1"
proof -
  obtain x d2 cs d3 where "delete_languages (prof_id p) d1 = (Inr x, d2)"
      "replace_custom_kind draw (prof_id p) LANGUAGE customs d2 = (Inr cs, d3)"
      "flush_replacement p [] (language_rows (prof_id p) requested) [] cs d3 = (Inr q, db')"
    using assms unfolding bind_tx_Inr_iff by blast
  with flush_after_clearing[OF this(3) clears_trans[OF deletions_clear(2)[OF this(1)]]] replace_kind_clears[OF this(2)]
  show ?thesis by (auto simp: own_rows_def)
qed

lemma replace_activity_rows_written:
  assumes "bind_tx (replace_profile_activity_ids (prof_id p) ids existing) (\<lambda>acts.
      bind_tx (replace_custom_kind draw (prof_id p) ACTIVITY customs)
      (\<lambda>cs. flush_replacement p [] [] acts cs)) d1 = (Inr q, db')"
  shows "profile_written p d1 db' \<and> prof_version q = prof_version p + 1"
proof -
  obtain acts d2 cs d3 where "replace_profile_activity_ids (prof_id p) ids existing d1 = (Inr acts, d2)"
      "replace_custom_kind draw (prof_id p) ACTIVITY customs d2 = (Inr cs, d3)"
      "flush_replacement p [] [] acts cs d3 = (Inr q, db')"
    using assms unfolding bind_tx_Inr_iff by blast
  with flush_after_clearing[OF this(3) clears_trans] replace_activities_clears[OF this(1)] replace_kind_clears[OF this(2)]
  show ?thesis by (auto simp: own_rows_def)
qed

lemma write_preferences_written:
  assumes "write_preferences draw p existing I L A d1 = (Inr q, db')"
  shows "profile_written p d1 db' \<and> prof_version q = prof_version p + 1"
proof -
  let ?i = "prof_id p"
  obtain x1 d2 x2 d3 acts d4 x4 d5 where s: "delete_interests ?i d1 = (Inr x1, d2)" "delete_languages ?i d2 = (Inr x2, d3)"
      "replace_profile_activity_ids ?i (fst A) existing d3 = (Inr acts, d4)"
      "delete_custom ?i [INTEREST, LANGUAGE, ACTIVITY] d4 = (Inr x4, d5)"
      "flush_replacement p (interest_rows ?i (fst I)) (language_rows ?i (fst L)) acts
         (all_custom_models draw ?i (snd I) (snd L) (snd A)) d5 = (Inr q, db')"
    using assms unfolding write_preferences_def bind_tx_Inr_iff by blast
  have "clears ?i d1 d5"
    using clears_trans[OF clears_trans[OF clears_trans]] deletions_clear(1)[OF s(1)] deletions_clear(2)[OF s(2)]
      replace_activities_clears[OF s(3)] deletions_clear(4)[OF s(4)] by blast
  from flush_after_clearing[OF s(5) this] replace_activities_clears[OF s(3)] show ?thesis by (simp add: own_rows_def)
qed

lemma languages_written:
  assumes "replace_own_languages uni fresh draw owner up db = (Inr r, db')"
  shows "\<exists>p d1. own_profile_at_version fresh owner (plu_version up) db = (Inr p, d1)
     \<and> (lm_version r = prof_version p \<and> db' = d1 \<or> lm_version r = prof_version p + 1 \<and> profile_written p d1 db')"
proof -
  obtain p d1 where a: "own_profile_at_version fresh owner (plu_version up) db = (Inr p, d1)"
    using assms unfolding replace_own_languages_def bind_tx_Inr_iff[of "own_profile_at_version _ _ _"] by blast
  show ?thesis
    using assms a unfolding replace_own_languages_def
    by (auto simp: run_reads Let_def split: sum.splits prod.splits
        dest!: written_tail[where version = lm_version, OF _ _ replace_language_rows_written])
qed

lemma activities_written:
  assumes "replace_own_activities uni fresh draw owner up db = (Inr r, db')"
  shows "\<exists>p d1. own_profile_at_version fresh owner (pau_version up) db = (Inr p, d1)
     \<and> (am_version r = prof_version p \<and> db' = d1 \<or> am_version r = prof_version p + 1 \<and> profile_written p d1 db')"
proof -
  obtain p d1 where a: "own_profile_at_version fresh owner (pau_version up) db = (Inr p, d1)"
    using assms unfolding replace_own_activities_def bind_tx_Inr_iff[of "own_profile_at_version _ _ _"] by blast
  show ?thesis
    using assms a unfolding replace_own_activities_def
    by (auto simp: run_reads Let_def split: sum.splits prod.splits
        dest!: written_tail[where version = am_version, OF _ _ replace_activity_rows_written])
qed

lemma snapshot_version [simp]: "snap_version (snapshot_of p s) = prof_version p"
  by (simp add: snapshot_of_def profile_catalog_selections.defs preference_snapshot.defs)

lemma preferences_written:
  assumes "replace_own_preferences uni fresh draw owner up db = (Inr r, db')"
  shows "\<exists>p d1. own_profile_at_version fresh owner (ppu_version up) db = (Inr p, d1)
     \<and> (snap_version r = prof_version p \<and> db' = d1 \<or> snap_version r = prof_version p + 1 \<and> profile_written p d1 db')"
proof -
  obtain p d1 where a: "own_profile_at_version fresh owner (ppu_version up) db = (Inr p, d1)"
    using assms unfolding replace_own_preferences_def bind_tx_Inr_iff[of "own_profile_at_version _ _ _"] by blast
  show ?thesis
    using assms a unfolding replace_own_preferences_def
    by (auto simp: run_reads Let_def split: sum.splits
        dest!: written_tail[where version = snap_version, OF _ _ write_preferences_written])
qed

lemma lock_owner_Inr: "lock_owner owner db = (Inr x, db') \<Longrightarrow> usr_id x = usr_id owner \<and> db' = db"
  by (auto simp: lock_owner_def lock_current_buddy_users_def Let_def available_user_def user_by_id_def
      split: sum.splits exn.splits list.splits if_splits option.splits dest: find_SomeD)

lemma lock_owner_Inl: "lock_owner owner db = (Inl e, db') \<Longrightarrow> e = ProfileAccessError \<and> db' = db"
  by (auto simp: lock_owner_def lock_current_buddy_users_def Let_def split: sum.splits exn.splits list.splits if_splits)

lemma stage_preferred_clears:
  "stage_preferred_activities up i db = (Inr A, d) \<Longrightarrow> clears i db d \<and> list_all (\<lambda>s. pact_profile_id s = i) A"
  by (auto simp: stage_preferred_activities_def tx clears_refl dest: replace_activities_clears
      split: option.splits if_splits)

lemma apply_changes_same [simp]:
  "prof_id (apply_changes up p) = prof_id p" "prof_user_id (apply_changes up p) = prof_user_id p"
  "prof_version (apply_changes up p) = prof_version p"
  by (simp_all add: apply_changes_def)

lemma own_profile_user:
  "get_or_create_own_profile fresh owner db = (Inr p, d1) \<Longrightarrow> prof_user_id p = usr_id owner"
  by (auto simp: get_or_create_own_profile_def bind_tx_def Let_def lift_tx_def atomic_tx_def select_own_profile_def
      new_profile_def split: sum.splits prod.splits option.splits if_splits dest: find_SomeD)

lemma profile_fields_written:
  assumes "update_own_profile fresh owner up db = (Inr r, db')"
  shows "\<exists>owner' p d1. usr_id owner' = usr_id owner
     \<and> own_profile_at_version fresh owner' (pu_version up) db = (Inr p, d1)
     \<and> prof_version r = prof_version p + 1 \<and> profile_written p d1 db'"
proof -
  obtain x p d1 acts d2 where s: "(if pu_student_type up \<noteq> None then lock_owner owner else return_tx owner) db = (Inr x, db)"
      "own_profile_at_version fresh x (pu_version up) db = (Inr p, d1)"
      "stage_preferred_activities up (prof_id p) d1 = (Inr acts, d2)"
      "flush_replacement (apply_changes up p) [] [] acts [] d2 = (Inr r, db')"
      "\<not> (pu_student_type up \<noteq> None \<and> set_or (pu_student_type up) (prof_student_type p) \<noteq> prof_student_type p
          \<and> has_active_buddy_match (usr_id x) d1)"
    using assms unfolding update_own_profile_def
    by (auto simp: tx split: if_splits dest: lock_owner_Inr)
  have "prof_user_id p = usr_id x"
    using s(2) by (auto simp: own_profile_at_version_def tx split: if_splits dest: own_profile_user)
  with s(5) have "has_active_buddy_match (prof_user_id p) d1 \<longrightarrow> prof_student_type (apply_changes up p) = prof_student_type p"
    by (cases "pu_student_type up") (auto simp: apply_changes_def)
  with flush_after_clearing[OF s(4), of p] stage_preferred_clears[OF s(3)]
  have "profile_written p d1 db' \<and> prof_version r = prof_version p + 1" by (auto simp: own_rows_def)
  moreover have "usr_id x = usr_id owner" using s(1) lock_owner_Inr by (auto simp: tx split: if_splits)
  ultimately show ?thesis using s(2) by blast
qed

lemma stale_own_profile:
  assumes "select_own_profile db (usr_id owner) = Some p" "prof_version p \<noteq> v"
  obtains "own_profile_at_version fresh owner v db = (Inl ProfileAccessError, db)"
    | "own_profile_at_version fresh owner v db = (Inl ProfileVersionConflictError, db)"
  using that assms by (cases "require_profile_owner owner = Inr ()") (simp_all add: own_profile_existing)

interpretation interests_write: versioned_write "replace_own_interests uni fresh draw" piu_version im_version
  for uni fresh draw
proof (unfold_locales, goal_cases)
  case 1
  then show ?case using interests_written[OF 1(1)] own_profile_Inr(1)[OF _ 1(2)] by metis
next
  case (2 db owner p up)
  then show ?case by (rule stale_own_profile[where fresh = fresh]) (simp_all add: replace_own_interests_def)
qed

interpretation languages_write: versioned_write "replace_own_languages uni fresh draw" plu_version lm_version
  for uni fresh draw
proof (unfold_locales, goal_cases)
  case 1
  then show ?case using languages_written[OF 1(1)] own_profile_Inr(1)[OF _ 1(2)] by metis
next
  case (2 db owner p up)
  then show ?case by (rule stale_own_profile[where fresh = fresh]) (simp_all add: replace_own_languages_def)
qed

interpretation activities_write: versioned_write "replace_own_activities uni fresh draw" pau_version am_version
  for uni fresh draw
proof (unfold_locales, goal_cases)
  case 1
  then show ?case using activities_written[OF 1(1)] own_profile_Inr(1)[OF _ 1(2)] by metis
next
  case (2 db owner p up)
  then show ?case by (rule stale_own_profile[where fresh = fresh]) (simp_all add: replace_own_activities_def)
qed

interpretation preferences_write: versioned_write "replace_own_preferences uni fresh draw" ppu_version snap_version
  for uni fresh draw
proof (unfold_locales, goal_cases)
  case 1
  then show ?case using preferences_written[OF 1(1)] own_profile_Inr(1)[OF _ 1(2)] by metis
next
  case (2 db owner p up)
  then show ?case by (rule stale_own_profile[where fresh = fresh]) (simp_all add: replace_own_preferences_def)
qed

interpretation fields_write: versioned_write "update_own_profile fresh" pu_version prof_version
  for fresh
proof (unfold_locales, goal_cases)
  case 1
  then show ?case using profile_fields_written[OF 1(1)] own_profile_Inr(1)[OF _ 1(2)] by metis
next
  case (2 db owner p up)
  obtain r d where l: "(if pu_student_type up \<noteq> None then lock_owner owner else return_tx owner) db = (r, d)" by fastforce
  show ?case
  proof (cases r)
    case (Inl e)
    with l lock_owner_Inl[of owner db e d] show ?thesis
      by (simp add: update_own_profile_def bind_tx_def return_tx_def split: if_splits)
  next
    case (Inr x)
    with l lock_owner_Inr[of owner db x d] have x: "usr_id x = usr_id owner" "d = db"
      by (auto simp: return_tx_def split: if_splits)
    with 2 have "select_own_profile db (usr_id x) = Some p" "prof_version p \<noteq> pu_version up" by simp_all
    then show ?thesis
      by (rule stale_own_profile[where fresh = fresh]) (use l Inr x in \<open>simp_all add: update_own_profile_def\<close>)
  qed
qed

section \<open>Any sequence of writes\<close>

datatype profile_write =
    Write_interests profile_interest_update
  | Write_languages profile_language_update
  | Write_activities profile_activity_update
  | Write_preferences profile_preference_update
  | Write_fields profile_update

fun write_version :: "profile_write \<Rightarrow> int" where
  "write_version (Write_interests up) = piu_version up"
| "write_version (Write_languages up) = plu_version up"
| "write_version (Write_activities up) = pau_version up"
| "write_version (Write_preferences up) = ppu_version up"
| "write_version (Write_fields up) = pu_version up"

text \<open>The service call of a write and the version it reports.\<close>

fun run_write :: "unicode_db \<Rightarrow> uuid \<Rightarrow> (nat \<Rightarrow> uuid) \<Rightarrow> user \<Rightarrow> profile_write \<Rightarrow> (exn, database, int) txn" where
  "run_write uni fresh draw owner (Write_interests up) =
     bind_tx (replace_own_interests uni fresh draw owner up) (\<lambda>m. return_tx (im_version m))"
| "run_write uni fresh draw owner (Write_languages up) =
     bind_tx (replace_own_languages uni fresh draw owner up) (\<lambda>m. return_tx (lm_version m))"
| "run_write uni fresh draw owner (Write_activities up) =
     bind_tx (replace_own_activities uni fresh draw owner up) (\<lambda>m. return_tx (am_version m))"
| "run_write uni fresh draw owner (Write_preferences up) =
     bind_tx (replace_own_preferences uni fresh draw owner up) (\<lambda>m. return_tx (snap_version m))"
| "run_write uni fresh draw owner (Write_fields up) =
     bind_tx (update_own_profile fresh owner up) (\<lambda>p. return_tx (prof_version p))"

interpretation any_write: versioned_write "run_write uni fresh draw" write_version "\<lambda>n. n"
  for uni fresh draw
proof (unfold_locales, goal_cases)
  case (1 owner w db n db')
  then show ?case
    using interests_write.accepted[OF _ 1(2)] languages_write.accepted[OF _ 1(2)] activities_write.accepted[OF _ 1(2)]
      preferences_write.accepted[OF _ 1(2)] fields_write.accepted[OF _ 1(2)]
    by (cases w) (auto simp: tx)
next
  case (2 db owner p w)
  have through: "bind_tx m k db = (Inl e, db) \<or> bind_tx m k db = (Inl e', db)"
    if "m db = (Inl e, db) \<or> m db = (Inl e', db)" for m :: "(exn, database, 'x) txn" and k :: "'x \<Rightarrow> (exn, database, int) txn" and e e'
    using that by auto
  show ?case
    using 2(2) interests_write.stale[OF 2(1), of _ uni fresh draw] languages_write.stale[OF 2(1), of _ uni fresh draw]
      activities_write.stale[OF 2(1), of _ uni fresh draw] preferences_write.stale[OF 2(1), of _ uni fresh draw]
      fields_write.stale[OF 2(1), of _ fresh]
    by (cases w) (simp_all add: through)
qed

text \<open>
  A history of the writes that were committed, with the list \<open>spent\<close> of the versions they overwrote; a write that reports the
  version it quoted found nothing to change, and one that fails is rolled back.
\<close>

inductive profile_history :: "unicode_db \<Rightarrow> (uuid \<times> int) list \<Rightarrow> database \<Rightarrow> database \<Rightarrow> bool" for uni where
  start: "profile_history uni [] db db"
| overwrite: "profile_history uni spent db d \<Longrightarrow> run_write uni fresh draw owner w d = (Inr n, db') \<Longrightarrow> n \<noteq> write_version w \<Longrightarrow>
    profile_history uni ((usr_id owner, write_version w) # spent) db db'"
| confirm: "profile_history uni spent db d \<Longrightarrow> run_write uni fresh draw owner w d = (Inr n, db') \<Longrightarrow> n = write_version w \<Longrightarrow>
    profile_history uni spent db db'"

lemma history_invariant:
  assumes "profile_history uni spent db db'" "profiles_ok db"
  shows "profiles_ok db' \<and> distinct spent
     \<and> (\<forall>(i, v) \<in> set spent. \<exists>p. select_own_profile db' i = Some p \<and> v < prof_version p)"
  using assms
proof (induction rule: profile_history.induct)
  case (overwrite spent db d fresh draw owner w n db')
  then have ok: "profiles_ok d" "distinct spent"
      "\<forall>(i, v) \<in> set spent. \<exists>p. select_own_profile d i = Some p \<and> v < prof_version p" by blast+
  from any_write.advances[OF overwrite(2) ok(1)] overwrite(3)
  obtain q where q: "select_own_profile db' (usr_id owner) = Some q" "prof_version q = write_version w + 1" "profiles_ok db'"
      "\<forall>p. select_own_profile d (usr_id owner) = Some p \<longrightarrow> prof_version p = write_version w" by auto
  have old: "v < write_version w" if "(usr_id owner, v) \<in> set spent" for v
    using that ok(3) q(4) by fastforce
  have "\<exists>p. select_own_profile db' i = Some p \<and> v < prof_version p" if "(i, v) \<in> set spent" for i v
  proof (cases "i = usr_id owner")
    case True
    with old[of v] that q(1,2) show ?thesis by auto
  next
    case False
    with any_write.leaves_others[OF overwrite(2) ok(1), of i] ok(3) that show ?thesis by auto
  qed
  with ok(2) old q show ?case by auto
next
  case (confirm spent db d fresh draw owner w n db')
  then have ok: "profiles_ok d" "distinct spent"
      "\<forall>(i, v) \<in> set spent. \<exists>p. select_own_profile d i = Some p \<and> v < prof_version p" by blast+
  from any_write.advances[OF confirm(2) ok(1)] confirm(3)
  obtain q where q: "profiles_ok db'" "\<forall>p. select_own_profile d (usr_id owner) = Some p \<longrightarrow> db' = d" by auto
  have "\<exists>p. select_own_profile db' i = Some p \<and> v < prof_version p" if "(i, v) \<in> set spent" for i v
    using that ok(3) q(2) any_write.leaves_others[OF confirm(2) ok(1), of i] by (cases "i = usr_id owner") fastforce+
  with ok q show ?case by auto
qed simp


text \<open>C31: A profile write is owner-bound: whichever of the five updates an account makes, afterwards its profile has the
  reported version, which is the quoted one or the next, and no row of any other profile and no other table has changed.\<close>

theorem profile_write_is_owner_bound:
  assumes "table_ok profile_check profile_clash (db_profiles db)" "run_write uni fresh draw owner w db = (Inr n, db')"
  shows "\<exists>q. select_own_profile db' (usr_id owner) = Some q \<and> prof_version q = n
     \<and> (n = write_version w \<or> n = write_version w + 1) \<and> writes_only (prof_id q) db db'
     \<and> (i \<noteq> usr_id owner \<longrightarrow> select_own_profile db' i = select_own_profile db i)"
  using any_write.advances[OF assms(2)] any_write.leaves_others[OF assms(2)] assms(1) unfolding profiles_ok_def by auto

end
