(* ===== verification/Preference_Results.thy ===== *)
theory Preference_Results
  imports Profile_Versions
begin

text \<open>
  What the combined preference update stores and what the owner reads afterwards.
\<close>

section \<open>Prepared selections\<close>

lemma sort_key_unique:
  assumes "set xs = set ys" "distinct (map f xs)" "distinct (map f ys)"
  shows "sort_key f xs = sort_key f ys"
proof (rule map_sorted_distinct_set_unique[where f = f])
  show "inj_on f (set (sort_key f xs) \<union> set (sort_key f ys))" using assms by (simp add: distinct_map)
  show "distinct (map f (sort_key f xs))" "distinct (map f (sort_key f ys))"
    using assms(2,3) by (simp_all add: distinct_map)
qed (use assms in simp_all)

lemma identity_or_invalid_Inr [simp]: "identity_or_invalid m = Inr x \<longleftrightarrow> m = Inr x"
  by (auto simp: identity_or_invalid_def split: sum.splits exn.splits)

lemma prepare_custom_Inr:
  "prepare_custom uni keys seen vs = Inr ps \<Longrightarrow>
     distinct (map prep_normalized_key ps)
     \<and> (\<forall>v \<in> set ps. prep_normalized_key v \<notin> set keys \<and> prep_normalized_key v \<notin> set seen)
     \<and> map prep_proficiency ps = map snd vs"
proof (induction uni keys seen vs arbitrary: ps rule: prepare_custom.induct)
  case (2 uni keys seen label proficiency vs)
  then obtain i qs where i: "ident_normalized_key i \<notin> set keys" "ident_normalized_key i \<notin> set seen"
      "normalize_preference_identity uni label = Inr i"
      "prepare_custom uni keys (ident_normalized_key i # seen) vs = Inr qs"
      "ps = \<lparr>prep_display_label = ident_display_label i, prep_normalized_key = ident_normalized_key i,
         prep_proficiency = proficiency\<rparr> # qs"
    by (auto simp: tx split: if_splits)
  have "distinct (map prep_normalized_key qs)
     \<and> (\<forall>v \<in> set qs. prep_normalized_key v \<notin> set keys \<and> prep_normalized_key v \<notin> set (ident_normalized_key i # seen))
     \<and> map prep_proficiency qs = map snd vs"
    by (rule "2.IH"[OF _ i(4)]) (use i in auto)
  with i(1,2) show ?case unfolding i(5) by auto
qed simp

definition prepared_ok :: "prepared_custom list \<Rightarrow> bool" where
  "prepared_ok ps \<longleftrightarrow> sorted (map prep_normalized_key ps) \<and> distinct (map prep_normalized_key ps)"

lemma normalize_custom_Inr:
  assumes "normalize_custom uni vs keys = Inr ps"
  shows "prepared_ok ps" and "length ps = length vs" and "prep_proficiency ` set ps = snd ` set vs"
    and "\<forall>v \<in> set ps. prep_normalized_key v \<notin> set keys"
proof -
  obtain qs where q: "prepare_custom uni keys [] vs = Inr qs" "ps = sort_key prep_normalized_key qs"
    using assms by (auto simp: normalize_custom_def tx)
  note p = prepare_custom_Inr[OF q(1)]
  show "prepared_ok ps" using p by (simp add: q(2) prepared_ok_def distinct_map)
  have m: "map prep_proficiency qs = map snd vs" using p by simp
  show "length ps = length vs" using arg_cong[OF m, of length] by (simp add: q(2))
  show "prep_proficiency ` set ps = snd ` set vs" using arg_cong[OF m, of set] by (simp add: q(2))
  show "\<forall>v \<in> set ps. prep_normalized_key v \<notin> set keys" using p by (simp add: q(2))
qed

lemma prepare_interests_Inr:
  assumes "prepare_interests uni db ids customs = Inr (I, c)"
  shows "I = sort (remdups ids)" and "prepared_ok c" and "length c = length customs"
    and "v \<in> set c \<Longrightarrow> prep_proficiency v = None"
proof -
  obtain keys where n: "normalize_custom uni (plain_values customs) keys = Inr c" and "I = sort (remdups ids)"
    using assms by (auto simp: prepare_interests_def Let_def tx split: if_splits)
  then show "I = sort (remdups ids)" "prepared_ok c" "length c = length customs"
    using normalize_custom_Inr(1,2)[OF n] by (simp_all add: plain_values_def)
  show "v \<in> set c \<Longrightarrow> prep_proficiency v = None"
    using normalize_custom_Inr(3)[OF n] by (auto simp: plain_values_def image_def)
qed

lemma prepare_activities_Inr:
  assumes "prepare_activities uni db ids customs = Inr (I, c)"
  shows "I = sort (remdups ids)" and "prepared_ok c" and "length c = length customs"
    and "v \<in> set c \<Longrightarrow> prep_proficiency v = None"
proof -
  obtain keys where n: "normalize_custom uni (plain_values customs) keys = Inr c" and "I = sort (remdups ids)"
    using assms by (auto simp: prepare_activities_def Let_def tx split: if_splits)
  then show "I = sort (remdups ids)" "prepared_ok c" "length c = length customs"
    using normalize_custom_Inr(1,2)[OF n] by (simp_all add: plain_values_def)
  show "v \<in> set c \<Longrightarrow> prep_proficiency v = None"
    using normalize_custom_Inr(3)[OF n] by (auto simp: plain_values_def image_def)
qed

lemma prepare_languages_Inr:
  assumes "prepare_languages uni db langs customs = Inr (L, c)"
  shows "L = sort_key ls_language_code langs" and "prepared_ok c" and "length c = length customs"
    and "v \<in> set c \<Longrightarrow> prep_proficiency v \<noteq> None"
proof -
  obtain keys where n: "normalize_custom uni (language_values customs) keys = Inr c"
      and "L = sort_key ls_language_code langs"
    using assms by (auto simp: prepare_languages_def Let_def tx split: if_splits)
  then show "L = sort_key ls_language_code langs" "prepared_ok c" "length c = length customs"
    using normalize_custom_Inr(1,2)[OF n] by (simp_all add: language_values_def)
  show "v \<in> set c \<Longrightarrow> prep_proficiency v \<noteq> None"
    using normalize_custom_Inr(3)[OF n] by (auto simp: language_values_def image_def)
qed

section \<open>Stored preferences\<close>

text \<open>The primary keys of the selection tables.\<close>

definition selection_keys_ok :: "database \<Rightarrow> bool" where
  "selection_keys_ok db \<longleftrightarrow> distinct (db_profile_interests db)
     \<and> distinct (map (\<lambda>s. (plang_profile_id s, plang_language_code s)) (db_profile_languages db))
     \<and> distinct (db_profile_activities db)"

definition language_row :: "uuid \<Rightarrow> language_selection \<Rightarrow> profile_language" where
  "language_row i v = \<lparr>plang_profile_id = i, plang_language_code = ls_language_code v, plang_proficiency = ls_proficiency v\<rparr>"

text \<open>Exactly these selections are stored for the profile \<open>i\<close>, with the custom ones of each kind.\<close>

definition stored_preferences ::
    "uuid \<Rightarrow> uuid list \<Rightarrow> language_selection list \<Rightarrow> uuid list \<Rightarrow> (preference_kind \<Rightarrow> prepared_custom list)
       \<Rightarrow> database \<Rightarrow> bool" where
  "stored_preferences i I L A C db \<longleftrightarrow>
     interest_ids db i = I \<and> read_profile_activity_ids db i = A
     \<and> {s \<in> set (db_profile_languages db). plang_profile_id s = i} = language_row i ` set L
     \<and> (\<forall>k. row_signature (own_custom_rows db i (Some k)) = prepared_signature (C k))"

definition kind_group :: "'a \<Rightarrow> 'a \<Rightarrow> 'a \<Rightarrow> preference_kind \<Rightarrow> 'a" where
  "kind_group a b c k = (case k of INTEREST \<Rightarrow> a | LANGUAGE \<Rightarrow> b | ACTIVITY \<Rightarrow> c)"

lemma kind_group_simps [simp]:
  "kind_group a b c INTEREST = a" "kind_group a b c LANGUAGE = b" "kind_group a b c ACTIVITY = c"
  by (simp_all add: kind_group_def)

lemma own_custom_keys:
  assumes "custom_table_ok db"
  shows "distinct (map cust_normalized_key (own_custom_rows db i (Some k)))"
proof -
  have "distinct (db_custom_preferences db)"
    using cust.distinct_keys assms by (auto simp: custom_table_ok_def distinct_map)
  moreover have "inj_on cust_normalized_key {c \<in> set (db_custom_preferences db). cust_profile_id c = i \<and> cust_kind c = k}"
    using cust.no_clash[OF assms[unfolded custom_table_ok_def]] by (auto simp: inj_on_def custom_preference_clash_def)
  ultimately show ?thesis
    by (auto simp: own_custom_rows_def distinct_map distinct_select_by intro: inj_on_subset)
qed

lemma kind_rows_signature:
  assumes "custom_table_ok db"
  shows "row_signature (filter (\<lambda>r. cust_kind r = k) (own_custom_rows db i None)) = row_signature (own_custom_rows db i (Some k))"
proof -
  let ?rows = "filter (\<lambda>r. cust_kind r = k) (own_custom_rows db i None)"
  have same: "set ?rows = set (own_custom_rows db i (Some k))" by (auto simp: own_custom_rows_def)
  have "distinct (db_custom_preferences db)"
    using cust.distinct_keys assms by (auto simp: custom_table_ok_def distinct_map)
  then have "distinct ?rows" by (simp add: own_custom_rows_def distinct_select_by)
  moreover have "inj_on cust_normalized_key (set ?rows)"
    unfolding same using own_custom_keys[OF assms] by (simp add: distinct_map)
  ultimately have "distinct (map cust_normalized_key ?rows)" by (simp add: distinct_map)
  from sort_key_unique[OF same this own_custom_keys[OF assms]] show ?thesis by (simp add: row_signature_def)
qed

text \<open>The rows written for a group are the ones that are read back.\<close>

lemma custom_models_map:
  "(\<And>n v. g \<lparr>cust_id = n, cust_profile_id = i, cust_kind = k, cust_display_label = prep_display_label v,
       cust_normalized_key = prep_normalized_key v, cust_proficiency = prep_proficiency v, cust_deleted_at = None\<rparr> = h v)
   \<Longrightarrow> map g (custom_models draw i k ps) = map h ps"
proof -
  assume g: "\<And>n v. g \<lparr>cust_id = n, cust_profile_id = i, cust_kind = k, cust_display_label = prep_display_label v,
       cust_normalized_key = prep_normalized_key v, cust_proficiency = prep_proficiency v, cust_deleted_at = None\<rparr> = h v"
  have "map g (custom_models draw i k ps) = map (\<lambda>x. h (snd x)) (enumerate 0 ps)"
    unfolding custom_models_def map_map by (rule map_cong) (auto simp: g)
  also have "\<dots> = map h (map snd (enumerate 0 ps))" by (simp only: map_map comp_def)
  finally show ?thesis by simp
qed

lemma custom_models_fields:
  "r \<in> set (custom_models draw i k ps) \<Longrightarrow> cust_kind r = k \<and> cust_profile_id r = i \<and> cust_deleted_at r = None"
  by (auto simp: custom_models_def)

lemma custom_models_signature:
  assumes "prepared_ok ps"
  shows "row_signature (custom_models draw i k ps) = prepared_signature ps"
proof -
  have "map cust_normalized_key (custom_models draw i k ps) = map prep_normalized_key ps"
    by (rule custom_models_map) simp
  then have "sort_key cust_normalized_key (custom_models draw i k ps) = custom_models draw i k ps"
    using assms by (simp add: prepared_ok_def sort_key_id_if_sorted)
  then show ?thesis
    unfolding row_signature_def prepared_signature_def by (simp add: custom_models_map)
qed

lemma read_back_signature:
  assumes "custom_table_ok db" "prepared_ok ps"
    and "filter (\<lambda>c. cust_profile_id c = i \<and> cust_kind c = k) (db_custom_preferences db) = custom_models draw i k ps"
  shows "row_signature (own_custom_rows db i (Some k)) = prepared_signature ps"
proof -
  have same: "set (own_custom_rows db i (Some k)) = set (custom_models draw i k ps)"
    unfolding assms(3)[symmetric] using custom_models_fields[of _ draw i k ps]
    by (auto simp: own_custom_rows_def assms(3)[symmetric])
  have "map cust_normalized_key (custom_models draw i k ps) = map prep_normalized_key ps"
    by (rule custom_models_map) simp
  then have "distinct (map cust_normalized_key (custom_models draw i k ps))"
    using assms(2) by (simp add: prepared_ok_def)
  from sort_key_unique[OF same own_custom_keys[OF assms(1)] this] custom_models_signature[OF assms(2)]
  show ?thesis by (simp add: row_signature_def)
qed

lemma all_models_of_kind:
  "filter (\<lambda>c. cust_profile_id c = i \<and> cust_kind c = k) (all_custom_models draw i a b c)
     = custom_models (case k of INTEREST \<Rightarrow> draw | LANGUAGE \<Rightarrow> \<lambda>n. draw (length a + n)
          | ACTIVITY \<Rightarrow> \<lambda>n. draw (length a + length b + n)) i k (kind_group a b c k)"
proof -
  have own: "filter (\<lambda>c. cust_profile_id c = i \<and> cust_kind c = j) (custom_models d i j ps) = custom_models d i j ps" for d j ps
    using custom_models_fields by (fastforce intro: filter_True)
  have other: "j' \<noteq> j \<Longrightarrow> filter (\<lambda>c. cust_profile_id c = i \<and> cust_kind c = j) (custom_models d i j' ps) = []" for d j j' ps
    using custom_models_fields by (fastforce intro: filter_False)
  show ?thesis unfolding all_custom_models_def filter_append by (cases k) (simp_all add: own other)
qed

lemma read_activities_sorted:
  assumes "selection_keys_ok db"
  shows "sorted (read_profile_activity_ids db i) \<and> distinct (read_profile_activity_ids db i)"
  using assms unfolding read_profile_activity_ids_def selection_keys_ok_def
  by (auto simp: distinct_map inj_on_def)

lemma selected_rows:
  "map pint_interest_id (filter (\<lambda>s. pint_profile_id s = i) (filter (\<lambda>s. pint_profile_id s \<noteq> i) xs @ interest_rows i I)) = I"
  by (simp add: interest_rows_def filter_map comp_def)

lemma write_preferences_run:
  assumes "write_preferences draw p existing I L A d1 = (Inr q, db')"
  obtains d5 acts where "flush_replacement p (interest_rows (prof_id p) (fst I)) (language_rows (prof_id p) (fst L)) acts
       (all_custom_models draw (prof_id p) (snd I) (snd L) (snd A)) d5 = (Inr q, db')"
    and "d5 = d1\<lparr>db_profile_interests := filter (\<lambda>s. pint_profile_id s \<noteq> prof_id p) (db_profile_interests d1),
       db_profile_languages := filter (\<lambda>s. plang_profile_id s \<noteq> prof_id p) (db_profile_languages d1),
       db_profile_activities := (if set (fst A) = set existing then db_profile_activities d1
          else filter (\<lambda>s. pact_profile_id s \<noteq> prof_id p) (db_profile_activities d1)),
       db_custom_preferences := filter (\<lambda>c. \<not> cust_profile_id c = prof_id p) (db_custom_preferences d1)\<rparr>"
    and "acts = (if set (fst A) = set existing then []
       else map (\<lambda>a. \<lparr>pact_profile_id = prof_id p, pact_activity_id = a\<rparr>) (sort (remdups (fst A))))"
proof -
  let ?i = "prof_id p"
  have kinds: "cust_kind c = INTEREST \<or> cust_kind c = LANGUAGE \<or> cust_kind c = ACTIVITY" for c :: custom_preference
    by (cases "cust_kind c") auto
  obtain x1 d2 x2 d3 acts d4 x4 d5 where s: "delete_interests ?i d1 = (Inr x1, d2)" "delete_languages ?i d2 = (Inr x2, d3)"
      "replace_profile_activity_ids ?i (fst A) existing d3 = (Inr acts, d4)"
      "delete_custom ?i [INTEREST, LANGUAGE, ACTIVITY] d4 = (Inr x4, d5)"
      "flush_replacement p (interest_rows ?i (fst I)) (language_rows ?i (fst L)) acts
         (all_custom_models draw ?i (snd I) (snd L) (snd A)) d5 = (Inr q, db')"
    using assms unfolding write_preferences_def bind_tx_Inr_iff by blast
  show thesis
  proof (rule that[OF s(5)])
    show "acts = (if set (fst A) = set existing then []
       else map (\<lambda>a. \<lparr>pact_profile_id = ?i, pact_activity_id = a\<rparr>) (sort (remdups (fst A))))"
      using s(3) by (auto simp: replace_profile_activity_ids_def tx split: if_splits)
  qed (use s(1-4) kinds in \<open>auto simp: delete_interests_def delete_languages_def replace_profile_activity_ids_def
      delete_activities_def delete_custom_def tx split: if_splits\<close>)
qed

lemma write_stores:
  assumes w: "write_preferences draw p (read_profile_activity_ids d1 (prof_id p)) (I, ci) (L, cl) (A, ca) d1 = (Inr q, db')"
    and ok: "custom_table_ok d1" "selection_keys_ok d1" "prepared_ok ci" "prepared_ok cl" "prepared_ok ca"
    and sorted: "sorted I" "sorted A" "distinct A"
  shows "stored_preferences (prof_id p) I L A (kind_group ci cl ca) db'"
proof -
  let ?i = "prof_id p" and ?C = "kind_group ci cl ca"
  obtain d5 acts where f: "flush_replacement p (interest_rows ?i I) (language_rows ?i L) acts (all_custom_models draw ?i ci cl ca) d5 = (Inr q, db')"
    and d5: "d5 = d1\<lparr>db_profile_interests := filter (\<lambda>s. pint_profile_id s \<noteq> ?i) (db_profile_interests d1),
       db_profile_languages := filter (\<lambda>s. plang_profile_id s \<noteq> ?i) (db_profile_languages d1),
       db_profile_activities := (if set A = set (read_profile_activity_ids d1 ?i) then db_profile_activities d1
          else filter (\<lambda>s. pact_profile_id s \<noteq> ?i) (db_profile_activities d1)),
       db_custom_preferences := filter (\<lambda>c. \<not> cust_profile_id c = ?i) (db_custom_preferences d1)\<rparr>"
    and acts: "acts = (if set A = set (read_profile_activity_ids d1 ?i) then []
       else map (\<lambda>a. \<lparr>pact_profile_id = ?i, pact_activity_id = a\<rparr>) (sort (remdups A)))"
    using write_preferences_run[OF w] by (metis fst_conv snd_conv)
  note db' = flush_replacement_Inr(2)[OF f]
  have "custom_table_ok d5" using ok(1) cust.filter_ok by (simp add: custom_table_ok_def d5)
  then have c: "custom_table_ok db'" using flush_replacement_Inr(4)[OF f] by (simp add: custom_table_ok_def)
  have custom: "filter (\<lambda>c. cust_profile_id c = ?i \<and> cust_kind c = k) (db_custom_preferences db')
      = filter (\<lambda>c. cust_profile_id c = ?i \<and> cust_kind c = k) (all_custom_models draw ?i ci cl ca)" for k
    by (auto simp: db' d5 intro: filter_False)
  have "row_signature (own_custom_rows db' ?i (Some k)) = prepared_signature (?C k)" for k
    by (rule read_back_signature[OF c _ trans[OF custom all_models_of_kind]]) (use ok(3-5) in \<open>cases k; simp\<close>)
  moreover have "interest_ids db' ?i = I"
    using sorted(1) by (simp add: interest_ids_def db' d5 selected_rows sort_key_id_if_sorted del: filter_append)
  moreover have "read_profile_activity_ids db' ?i = A"
  proof (cases "set A = set (read_profile_activity_ids d1 ?i)")
    case True
    then have "read_profile_activity_ids db' ?i = read_profile_activity_ids d1 ?i"
      by (simp add: read_profile_activity_ids_def db' d5 acts)
    with True read_activities_sorted[OF ok(2), of ?i] sorted(2,3) show ?thesis
      by (simp add: sorted_distinct_set_unique)
  next
    case False
    then show ?thesis using sorted(2,3)
      by (simp add: read_profile_activity_ids_def db' d5 acts filter_map comp_def distinct_remdups_id sort_key_id_if_sorted)
  qed
  moreover have "{s \<in> set (db_profile_languages db'). plang_profile_id s = ?i} = language_row ?i ` set L"
    by (auto simp: db' d5 language_rows_def language_row_def)
  ultimately show ?thesis by (simp add: stored_preferences_def)
qed

section \<open>Reading back\<close>

lemma emap_total: "(\<And>x. x \<in> set xs \<Longrightarrow> \<exists>y. f x = Inr y) \<Longrightarrow> \<exists>ys. emap f xs = Inr ys"
  by (induction xs) fastforce+

lemma emap_same_set:
  assumes "emap f xs = Inr ys" "emap f xs' = Inr ys'" "set xs = set xs'"
  shows "set ys = set ys'"
proof -
  have "y \<in> set zs \<longleftrightarrow> (\<exists>x \<in> set ws. f x = Inr y)" if "emap f ws = Inr zs" for ws zs y
    using that by (induction ws arbitrary: zs) (auto simp: ebind_Inr_iff)
  from this[OF assms(1)] this[OF assms(2)] show ?thesis using assms(3) by auto
qed

lemma emap_same_total:
  assumes "emap f xs = Inr ys" "set xs' = set xs"
  shows "\<exists>ys'. emap f xs' = Inr ys' \<and> set ys' = set ys"
proof -
  have "\<exists>y. f x = Inr y" if "x \<in> set xs" for x
    using assms(1) that by (induction xs arbitrary: ys) (auto simp: ebind_Inr_iff)
  with emap_total[of xs' f] assms(2) obtain ys' where "emap f xs' = Inr ys'" by auto
  with emap_same_set[OF this assms(1)] assms(2) show ?thesis by blast
qed

lemma stored_labels:
  assumes "row_signature (own_custom_rows db i (Some k)) = prepared_signature ps"
  shows "(\<lambda>r. (cust_display_label r, cust_proficiency r)) ` {r \<in> set (own_custom_rows db i None). cust_kind r = k}
     = (\<lambda>v. (prep_display_label v, prep_proficiency v)) ` set ps"
proof -
  have rows: "{r \<in> set (own_custom_rows db i None). cust_kind r = k} = set (own_custom_rows db i (Some k))"
    by (auto simp: own_custom_rows_def)
  have "snd ` set (row_signature (own_custom_rows db i (Some k))) = snd ` set (prepared_signature ps)"
    using assms by simp
  then show ?thesis unfolding rows by (simp add: row_signature_def prepared_signature_def image_image)
qed

lemma labels_read_back:
  assumes "row_signature (own_custom_rows db i (Some k)) = prepared_signature ps" "custom_label_output ps = Inr shown"
  shows "\<exists>xs. custom_label_selections (own_custom_rows db i None) k = Inr xs \<and> set xs = set shown"
proof -
  let ?rows = "filter (\<lambda>r. cust_kind r = k) (own_custom_rows db i None)"
  have "fst ` (\<lambda>r. (cust_display_label r, cust_proficiency r)) ` set ?rows
      = fst ` (\<lambda>v. (prep_display_label v, prep_proficiency v)) ` set ps"
    using stored_labels[OF assms(1)] by simp
  then have labels: "set (map cust_display_label ?rows) = set (map prep_display_label ps)" by (simp add: image_image)
  have map_emap: "emap (\<lambda>x. f (g x)) xs = emap f (map g xs)" for f :: "pystr \<Rightarrow> exn + custom_preference_selection" and g :: "'x \<Rightarrow> pystr" and xs
    by (induction xs) simp_all
  show ?thesis
    using emap_same_total[of custom_selection_model "map prep_display_label ps" shown "map cust_display_label ?rows"]
      assms(2) labels
    by (simp add: custom_label_selections_def custom_label_output_def map_emap)
qed

lemma languages_read_back:
  assumes "row_signature (own_custom_rows db i (Some LANGUAGE)) = prepared_signature ps" "custom_language_output ps = Inr shown"
  shows "\<exists>xs. custom_language_selections (own_custom_rows db i None) = Inr xs \<and> set xs = set shown"
proof -
  let ?f = "\<lambda>(label :: pystr, proficiency). custom_language_model label proficiency"
  let ?pairs = "\<lambda>S. {(label, p). (label, Some p) \<in> S}"
  have "set (concat (map (\<lambda>r. case cust_proficiency r of
           Some p \<Rightarrow> if cust_kind r = LANGUAGE then [(cust_display_label r, p)] else [] | None \<Rightarrow> []) (own_custom_rows db i None)))
     = ?pairs ((\<lambda>r. (cust_display_label r, cust_proficiency r)) ` {r \<in> set (own_custom_rows db i None). cust_kind r = LANGUAGE})"
    by (auto split: option.splits)
  moreover have "set (concat (map (\<lambda>v. case prep_proficiency v of Some p \<Rightarrow> [(prep_display_label v, p)] | None \<Rightarrow> []) ps))
     = ?pairs ((\<lambda>v. (prep_display_label v, prep_proficiency v)) ` set ps)"
    by (auto split: option.splits)
  ultimately show ?thesis
    unfolding custom_language_selections_def
    by (intro emap_same_total[OF assms(2)[unfolded custom_language_output_def]]) (simp only: stored_labels[OF assms(1)])
qed

lemma selections_read_back:
  assumes "{s \<in> set (db_profile_languages db). plang_profile_id s = i} = language_row i ` set L" "list_all language_selection_ok L"
  shows "\<exists>xs. language_selections db i = Inr xs \<and> set xs = set L"
proof -
  let ?view = "\<lambda>s. \<lparr>ls_language_code = plang_language_code s, ls_proficiency = plang_proficiency s\<rparr>"
  let ?rows = "select_by (\<lambda>s. db_collation db (plang_language_code s)) (\<lambda>s. plang_profile_id s = i) (db_profile_languages db)"
  have rows: "set ?rows = language_row i ` set L" using assms(1) by simp
  have view: "?view (language_row i v) = v" for v by (simp add: language_row_def)
  have same: "?view ` set ?rows = set L" unfolding rows by (simp add: image_image view)
  have ok: "language_selection_ok (?view s)" if "s \<in> set ?rows" for s
    using that assms(2) same by (auto simp: list_all_iff)
  have total: "emap (\<lambda>s. let v = ?view s in validated (language_selection_ok v) v) xs = Inr (map ?view xs)"
    if "\<And>s. s \<in> set xs \<Longrightarrow> language_selection_ok (?view s)" for xs
    using that by (induction xs) (simp_all add: validated_def Let_def)
  show ?thesis using total[of ?rows] ok same by (simp add: language_selections_def)
qed

text \<open>The stored selections are what the owner reads, up to the order of the database for languages and labels.\<close>

lemma stored_are_read:
  assumes "stored_preferences i I L A (kind_group ci cl ca) db" "list_all language_selection_ok L"
    and "custom_label_output ci = Inr oi" "custom_language_output cl = Inr ol" "custom_label_output ca = Inr oa"
  shows "\<exists>v. read_catalog_selections db i None = Inr v \<and> sel_interest_ids v = I \<and> sel_activity_ids v = A
     \<and> set (sel_languages v) = set L \<and> set (sel_custom_interests v) = set oi
     \<and> set (sel_custom_languages v) = set ol \<and> set (sel_custom_activities v) = set oa"
proof -
  have sig: "row_signature (own_custom_rows db i (Some k)) = prepared_signature (kind_group ci cl ca k)" for k
    using assms(1) by (simp add: stored_preferences_def)
  obtain a where a: "custom_label_selections (own_custom_rows db i None) INTEREST = Inr a" "set a = set oi"
    using labels_read_back[OF sig[of INTEREST]] assms(3) by auto
  obtain b where b: "custom_language_selections (own_custom_rows db i None) = Inr b" "set b = set ol"
    using languages_read_back[OF sig[of LANGUAGE, unfolded kind_group_simps] assms(4)] by auto
  obtain c where c: "custom_label_selections (own_custom_rows db i None) ACTIVITY = Inr c" "set c = set oa"
    using labels_read_back[OF sig[of ACTIVITY]] assms(5) by auto
  have "{s \<in> set (db_profile_languages db). plang_profile_id s = i} = language_row i ` set L"
    using assms(1) unfolding stored_preferences_def by (elim conjE)
  from selections_read_back[OF this assms(2)]
  obtain xs where l: "language_selections db i = Inr xs" "set xs = set L" by (elim exE conjE)
  have ids: "interest_ids db i = I" "read_profile_activity_ids db i = A"
    using assms(1) by (simp_all add: stored_preferences_def)
  have "read_catalog_selections db i None = Inr \<lparr>sel_interest_ids = I, sel_custom_interests = a, sel_languages = xs,
      sel_custom_languages = b, sel_activity_ids = A, sel_custom_activities = c\<rparr>"
    unfolding read_catalog_selections_def by (simp add: a(1) b(1) c(1) l(1) ids)
  then show ?thesis using a(2) b(2) c(2) l(2) by simp
qed

section \<open>The combined update\<close>

lemma draft_keeps_selections:
  assumes "own_profile_at_version fresh owner v db = (Inr p, d1)"
  shows "db_custom_preferences d1 = db_custom_preferences db" "db_profile_interests d1 = db_profile_interests db"
    "db_profile_languages d1 = db_profile_languages db" "db_profile_activities d1 = db_profile_activities db"
proof -
  have "\<exists>rows. d1 = db\<lparr>db_profiles := rows\<rparr>"
  proof -
    have "get_or_create_own_profile fresh owner db = (Inr p, d1)"
      using assms by (auto simp: own_profile_at_version_def tx split: if_splits)
    then have "d1 = db \<or> (\<exists>r. insert_profile r db = (Inr (), d1))"
      by (auto simp: get_or_create_own_profile_def bind_tx_def Let_def lift_tx_def atomic_tx_def
          split: sum.splits prod.splits option.splits if_splits)
    moreover have "\<exists>rows. d1 = db\<lparr>db_profiles := rows\<rparr>" if "insert_profile r db = (Inr (), d1)" for r
    proof (cases "insert_checked profile_check profile_clash (prof_user_id r \<in> usr_id ` set (db_users db)) r (db_profiles db)")
      case (Inr rows)
      with that show ?thesis by (auto simp: insert_profile_def)
    qed (use that in \<open>simp add: insert_profile_def\<close>)
    moreover have "\<exists>rows. db = db\<lparr>db_profiles := rows\<rparr>" by (rule exI[of _ "db_profiles db"]) simp
    ultimately show ?thesis by blast
  qed
  then show "db_custom_preferences d1 = db_custom_preferences db" "db_profile_interests d1 = db_profile_interests db"
    "db_profile_languages d1 = db_profile_languages db" "db_profile_activities d1 = db_profile_activities db" by auto
qed

lemma unchanged_stored:
  assumes "\<not> preferences_changed existing (own_custom_rows db i None) (I, ci) (L, cl) (A, ca)"
    and "read_catalog_selections db i (Some (own_custom_rows db i None)) = Inr existing" "custom_table_ok db"
  shows "stored_preferences i I L A (kind_group ci cl ca) db"
proof -
  have l: "language_selections db i = Inr L" and ids: "interest_ids db i = I" "read_profile_activity_ids db i = A"
    using assms(1,2) by (auto simp: preferences_changed_def read_catalog_selections_def Let_def tx)
  let ?view = "\<lambda>s. \<lparr>ls_language_code = plang_language_code s, ls_proficiency = plang_proficiency s\<rparr>"
  have view: "xs' = map ?view xs" if "emap (\<lambda>s. let v = ?view s in validated (language_selection_ok v) v) xs = Inr xs'" for xs xs'
    using that by (induction xs arbitrary: xs') (auto simp: validated_def Let_def tx split: if_splits)
  have "L = map ?view (select_by (\<lambda>s. db_collation db (plang_language_code s)) (\<lambda>s. plang_profile_id s = i) (db_profile_languages db))"
    by (rule view) (use l in \<open>simp add: language_selections_def\<close>)
  then have view_L: "set L = ?view ` {s \<in> set (db_profile_languages db). plang_profile_id s = i}" by simp
  have row: "language_row i (?view s) = s" if "plang_profile_id s = i" for s
    using that by (cases s) (simp add: language_row_def)
  have "language_row i ` set L = {s \<in> set (db_profile_languages db). plang_profile_id s = i}"
    unfolding view_L image_image using row by (force simp: image_iff)
  moreover have "row_signature (own_custom_rows db i (Some k)) = prepared_signature (kind_group ci cl ca k)" for k
    using assms(1) unfolding preferences_changed_def kind_rows_signature[OF assms(3), symmetric] by (cases k) simp_all
  ultimately show ?thesis using ids by (simp add: stored_preferences_def)
qed

lemma write_keeps_language_keys:
  assumes "write_preferences draw p existing I L A d1 = (Inr q, db')" "distinct (map ls_language_code (fst L))"
    and "distinct (map (\<lambda>s. (plang_profile_id s, plang_language_code s)) (db_profile_languages d1))"
  shows "distinct (map (\<lambda>s. (plang_profile_id s, plang_language_code s)) (db_profile_languages db'))"
proof -
  obtain d5 acts where f: "flush_replacement p (interest_rows (prof_id p) (fst I)) (language_rows (prof_id p) (fst L)) acts
       (all_custom_models draw (prof_id p) (snd I) (snd L) (snd A)) d5 = (Inr q, db')"
    and d5: "db_profile_languages d5 = filter (\<lambda>s. plang_profile_id s \<noteq> prof_id p) (db_profile_languages d1)"
    by (rule write_preferences_run[OF assms(1)]) simp
  have "distinct (map (\<lambda>s. (plang_profile_id s, plang_language_code s)) (language_rows (prof_id p) (fst L)))"
    using assms(2) by (auto simp: language_rows_def distinct_map comp_def inj_on_def)
  then show ?thesis
    using assms(3) unfolding flush_replacement_Inr(2)[OF f] 
    by (auto simp: d5 distinct_map language_rows_def inj_on_def)
qed

lemma write_keeps_custom_table:
  assumes "write_preferences draw p existing I L A d1 = (Inr q, db')" "custom_table_ok d1"
  shows "custom_table_ok db'"
proof -
  obtain d5 acts where f: "flush_replacement p (interest_rows (prof_id p) (fst I)) (language_rows (prof_id p) (fst L)) acts
       (all_custom_models draw (prof_id p) (snd I) (snd L) (snd A)) d5 = (Inr q, db')"
    and "db_custom_preferences d5 = filter (\<lambda>c. \<not> cust_profile_id c = prof_id p) (db_custom_preferences d1)"
    by (rule write_preferences_run[OF assms(1)]) simp
  then have "custom_table_ok d5" using assms(2) cust.filter_ok by (simp add: custom_table_ok_def)
  then show ?thesis using flush_replacement_Inr(4)[OF f] by (simp add: custom_table_ok_def)
qed

lemma replace_preferences_stored:
  assumes run: "replace_own_preferences uni fresh draw owner up db = (Inr s, db')"
    and ok: "profiles_ok db" "custom_table_ok db" "selection_keys_ok db"
  obtains p d1 I ci L cl A ca where "own_profile_at_version fresh owner (ppu_version up) db = (Inr p, d1)"
    and "prepare_interests uni d1 (ppu_interest_ids up) (ppu_custom_interests up) = Inr (I, ci)"
    and "prepare_languages uni d1 (ppu_languages up) (ppu_custom_languages up) = Inr (L, cl)"
    and "prepare_activities uni d1 (ppu_activity_ids up) (ppu_custom_activities up) = Inr (A, ca)"
    and "stored_preferences (prof_id p) I L A (kind_group ci cl ca) db'"
    and "sel_interest_ids s = I" "sel_languages s = L" "sel_activity_ids s = A"
    and "custom_label_output ci = Inr (sel_custom_interests s)" "custom_language_output cl = Inr (sel_custom_languages s)"
    and "custom_label_output ca = Inr (sel_custom_activities s)"
    and "distinct (map ls_language_code L) \<longrightarrow>
       distinct (map (\<lambda>s. (plang_profile_id s, plang_language_code s)) (db_profile_languages db'))"
    and "writes_only (prof_id p) d1 db'" "custom_table_ok db'"
proof -
  obtain p d1 where a: "own_profile_at_version fresh owner (ppu_version up) db = (Inr p, d1)"
    using run unfolding replace_own_preferences_def bind_tx_Inr_iff[of "own_profile_at_version _ _ _"] by blast
  from own_profile_Inr(4)[OF a ok(1)] ok(2,3) have d1: "custom_table_ok d1" "selection_keys_ok d1"
    using draft_keeps_selections[OF a] by (simp_all add: custom_table_ok_def selection_keys_ok_def)
  obtain I ci L cl A ca existing q where p: "prepare_interests uni d1 (ppu_interest_ids up) (ppu_custom_interests up) = Inr (I, ci)"
      "prepare_languages uni d1 (ppu_languages up) (ppu_custom_languages up) = Inr (L, cl)"
      "prepare_activities uni d1 (ppu_activity_ids up) (ppu_custom_activities up) = Inr (A, ca)"
    and e: "read_catalog_selections d1 (prof_id p) (Some (own_custom_rows d1 (prof_id p) None)) = Inr existing"
    and w: "(if preferences_changed existing (own_custom_rows d1 (prof_id p) None) (I, ci) (L, cl) (A, ca)
              then write_preferences draw p (sel_activity_ids existing) (I, ci) (L, cl) (A, ca) else return_tx p) d1 = (Inr q, db')"
    and o: "sel_interest_ids s = I" "sel_languages s = L" "sel_activity_ids s = A"
      "custom_label_output ci = Inr (sel_custom_interests s)" "custom_language_output cl = Inr (sel_custom_languages s)"
      "custom_label_output ca = Inr (sel_custom_activities s)"
    using run a unfolding replace_own_preferences_def
    by (auto simp: tx snapshot_of_def profile_catalog_selections.defs preference_snapshot.defs)
  have "stored_preferences (prof_id p) I L A (kind_group ci cl ca) db'"
  proof (cases "preferences_changed existing (own_custom_rows d1 (prof_id p) None) (I, ci) (L, cl) (A, ca)")
    case True
    have "sel_activity_ids existing = read_profile_activity_ids d1 (prof_id p)"
      using e by (auto simp: read_catalog_selections_def Let_def tx)
    with True w have "write_preferences draw p (read_profile_activity_ids d1 (prof_id p)) (I, ci) (L, cl) (A, ca) d1 = (Inr q, db')"
      by simp
    then show ?thesis
      by (rule write_stores) (use d1 prepare_interests_Inr[OF p(1)] prepare_languages_Inr[OF p(2)]
          prepare_activities_Inr[OF p(3)] in simp_all)
  next
    case False
    with unchanged_stored[OF False e d1(1)] w show ?thesis by (simp add: return_tx_def)
  qed
  moreover have "distinct (map ls_language_code L) \<longrightarrow>
      distinct (map (\<lambda>s. (plang_profile_id s, plang_language_code s)) (db_profile_languages db'))"
    using w write_keeps_language_keys[of draw p "sel_activity_ids existing" "(I, ci)" "(L, cl)" "(A, ca)" d1 q db'] d1(2)
    by (auto simp: return_tx_def selection_keys_ok_def split: if_splits)
  moreover have "writes_only (prof_id p) d1 db'"
    using w write_preferences_written[of draw p "sel_activity_ids existing" "(I, ci)" "(L, cl)" "(A, ca)" d1 q db']
    by (auto simp: return_tx_def writes_only_refl profile_written_def split: if_splits)
  moreover have "custom_table_ok db'"
    using w write_keeps_custom_table[of draw p "sel_activity_ids existing" "(I, ci)" "(L, cl)" "(A, ca)" d1 q db'] d1(1)
    by (auto simp: return_tx_def split: if_splits)
  ultimately show thesis using that[OF a p _ o] by blast
qed

lemma update_model_ok:
  assumes "preference_update_model up = Inr up"
  shows "list_all language_selection_ok (ppu_languages up)" "distinct (map ls_language_code (ppu_languages up))"
    "length (ppu_interest_ids up) + length (ppu_custom_interests up) \<le> 20"
    "length (ppu_languages up) + length (ppu_custom_languages up) \<le> 10"
    "length (ppu_activity_ids up) + length (ppu_custom_activities up) \<le> 20"
  using assms
  by (auto simp: preference_update_model_def validated_def selection_group_ok_def selection_limits split: if_splits)

lemma committed_Inr: "committed m db = (Inr x, db') \<longleftrightarrow> m db = (Inr x, db')"
  by (simp add: committed_def tx)

lemma own_snapshot_run:
  assumes "select_own_profile db (usr_id owner) = Some p" "require_profile_owner owner = Inr ()" "prof_deleted_at p = None"
    and "prof_user_id p = usr_id owner" "read_catalog_selections db (prof_id p) None = Inr v"
  shows "read_profile_preferences fresh owner db = (Inr (snapshot_of p v), db)"
proof -
  have "get_or_create_own_profile fresh owner db = (Inr p, db)"
    using assms(1,2) by (simp add: get_or_create_own_profile_def)
  moreover have "get_own_catalog_selections db owner p = Inr v"
    using assms(2-5) by (auto simp: get_own_catalog_selections_def require_profile_owner_def split: if_splits)
  ultimately have "get_own_preference_snapshot fresh owner db = (Inr (snapshot_of p v), db)"
    by (simp add: get_own_preference_snapshot_def)
  then show ?thesis by (simp add: read_profile_preferences_def committed_Inr)
qed

lemma written_profile:
  assumes "replace_own_preferences uni fresh draw owner up db = (Inr s, db')" "profiles_ok db"
    and "own_profile_at_version fresh owner (ppu_version up) db = (Inr p, d1)"
  obtains q where "select_own_profile db' (usr_id owner) = Some q" "prof_id q = prof_id p" "prof_version q = snap_version s"
    "profiles_ok db'" "require_profile_owner owner = Inr ()"
proof -
  note a = own_profile_Inr[OF assms(3,2)]
  have w: "snap_version s = prof_version p \<and> db' = d1 \<or> snap_version s = prof_version p + 1 \<and> profile_written p d1 db'"
    using preferences_written[OF assms(1)] assms(3) by auto
  then show thesis
  proof
    assume "snap_version s = prof_version p + 1 \<and> profile_written p d1 db'"
    then obtain q where q: "prof_id q = prof_id p" "prof_user_id q = prof_user_id p" "prof_version q = snap_version s"
        "db_profiles db' = update_where (\<lambda>x. prof_id x = prof_id p) (\<lambda>_. q) (db_profiles d1)" "profiles_ok db'"
      using a(3) unfolding profile_written_def by auto
    have "p \<in> set (db_profiles d1)" "prof_user_id p = usr_id owner"
      using a(2) unfolding select_own_profile_iff[OF a(3)] by simp_all
    then have "select_own_profile db' (usr_id owner) = Some q"
      unfolding select_own_profile_iff[OF q(5)] q(4) using q(2) by (auto simp: set_update_where)
    with that q a(8) show thesis by blast
  qed (use that a in auto)
qed

text \<open>C4: Saved preferences are read back: after an accepted combined update the owner reads, without changing anything, the
  new version and exactly the requested interests, languages with proficiencies and activities, and the custom
  preferences the update reported; nothing of the previous selection is left.\<close>

theorem saved_preferences_are_read_back:
  assumes "db_ok db" "selection_keys_ok db" "preference_update_model up = Inr up"
    and "update_profile_preferences uni fresh draw owner up db = (Inr s, db')"
    and "\<And>q. select_own_profile db' (usr_id owner) = Some q \<Longrightarrow> prof_deleted_at q = None"
  shows "\<exists>v. read_profile_preferences fresh' owner db' = (Inr v, db') \<and> snap_version v = snap_version s
     \<and> sel_interest_ids v = sel_interest_ids s \<and> set (sel_interest_ids v) = set (ppu_interest_ids up)
     \<and> set (sel_languages v) = set (ppu_languages up)
     \<and> sel_activity_ids v = sel_activity_ids s \<and> set (sel_activity_ids v) = set (ppu_activity_ids up)
     \<and> set (sel_custom_interests v) = set (sel_custom_interests s)
     \<and> set (sel_custom_languages v) = set (sel_custom_languages s)
     \<and> set (sel_custom_activities v) = set (sel_custom_activities s)"
proof -
  have run: "replace_own_preferences uni fresh draw owner up db = (Inr s, db')"
    using assms(4) by (simp add: update_profile_preferences_def committed_Inr)
  have ok: "profiles_ok db" "custom_table_ok db"
    using assms(1) by (simp_all add: db_ok_def profiles_ok_def custom_table_ok_def)
  obtain p d1 I ci L cl A ca where a: "own_profile_at_version fresh owner (ppu_version up) db = (Inr p, d1)"
    and prep: "prepare_interests uni d1 (ppu_interest_ids up) (ppu_custom_interests up) = Inr (I, ci)"
      "prepare_languages uni d1 (ppu_languages up) (ppu_custom_languages up) = Inr (L, cl)"
      "prepare_activities uni d1 (ppu_activity_ids up) (ppu_custom_activities up) = Inr (A, ca)"
    and st: "stored_preferences (prof_id p) I L A (kind_group ci cl ca) db'"
    and s: "sel_interest_ids s = I" "sel_languages s = L" "sel_activity_ids s = A"
    and out: "custom_label_output ci = Inr (sel_custom_interests s)" "custom_language_output cl = Inr (sel_custom_languages s)"
      "custom_label_output ca = Inr (sel_custom_activities s)"
    by (rule replace_preferences_stored[OF run ok assms(2)])
  obtain q where q: "select_own_profile db' (usr_id owner) = Some q" "prof_id q = prof_id p" "prof_version q = snap_version s"
      "profiles_ok db'" "require_profile_owner owner = Inr ()"
    by (rule written_profile[OF run ok(1) a])
  have requested: "set I = set (ppu_interest_ids up)" "set L = set (ppu_languages up)" "set A = set (ppu_activity_ids up)"
    using prepare_interests_Inr(1)[OF prep(1)] prepare_languages_Inr(1)[OF prep(2)] prepare_activities_Inr(1)[OF prep(3)]
    by simp_all
  then have "list_all language_selection_ok L" using update_model_ok(1)[OF assms(3)] by (simp add: list_all_iff)
  from stored_are_read[OF st this out] obtain v where v: "read_catalog_selections db' (prof_id q) None = Inr v"
      "sel_interest_ids v = I" "sel_activity_ids v = A" "set (sel_languages v) = set L"
      "set (sel_custom_interests v) = set (sel_custom_interests s)" "set (sel_custom_languages v) = set (sel_custom_languages s)"
      "set (sel_custom_activities v) = set (sel_custom_activities s)"
    unfolding q(2) by blast
  have "prof_user_id q = usr_id owner" using q(1) unfolding select_own_profile_iff[OF q(4)] by simp
  from own_snapshot_run[OF q(1,5) assms(5)[OF q(1)] this v(1)]
  show ?thesis using v requested q(3) s
    by (intro exI[of _ "snapshot_of q v"]) (simp add: snapshot_of_def profile_catalog_selections.defs preference_snapshot.defs)
qed

section \<open>Submitting the same preferences again\<close>

text \<open>The collation orders the codes of the active languages the way Python compares strings.\<close>

definition collation_agrees :: "database \<Rightarrow> bool" where
  "collation_agrees db \<longleftrightarrow> (\<forall>a \<in> lang_code ` set (list_active_languages db). \<forall>b \<in> lang_code ` set (list_active_languages db).
     db_collation db a \<le> db_collation db b \<longleftrightarrow> a \<le> b)"

lemma writes_only_rest:
  assumes "writes_only i db db'"
  shows "db_interests db' = db_interests db" "db_languages db' = db_languages db" "db_activities db' = db_activities db"
    "db_collation db' = db_collation db" "db_users db' = db_users db" "db_matches db' = db_matches db" "db_photos db' = db_photos db"
proof -
  obtain P I L A C where "db' = db\<lparr>db_profiles := P, db_profile_interests := I, db_profile_languages := L,
      db_profile_activities := A, db_custom_preferences := C\<rparr>"
    using assms unfolding writes_only_def by blast
  then show "db_interests db' = db_interests db" "db_languages db' = db_languages db" "db_activities db' = db_activities db"
    "db_collation db' = db_collation db" "db_users db' = db_users db" "db_matches db' = db_matches db" "db_photos db' = db_photos db"
    by simp_all
qed

lemma writes_only_prepares:
  assumes "writes_only i db db'"
  shows "prepare_interests uni db' = prepare_interests uni db" "prepare_languages uni db' = prepare_languages uni db"
    "prepare_activities uni db' = prepare_activities uni db"
  using writes_only_rest[OF assms]
  by (simp_all add: fun_eq_iff prepare_interests_def prepare_languages_def prepare_activities_def list_active_interests_def
      list_active_languages_def list_active_activities_def list_selectable_activities_def)

lemma language_order:
  assumes "language_selections db i = Inr xs" "set xs = set L" "L = sort_key ls_language_code langs"
    and "distinct (map ls_language_code langs)"
    and "distinct (map (\<lambda>s. (plang_profile_id s, plang_language_code s)) (db_profile_languages db))"
    and "\<And>a b. a \<in> ls_language_code ` set L \<Longrightarrow> b \<in> ls_language_code ` set L \<Longrightarrow> db_collation db a \<le> db_collation db b \<longleftrightarrow> a \<le> b"
  shows "xs = L"
proof -
  let ?view = "\<lambda>s. \<lparr>ls_language_code = plang_language_code s, ls_proficiency = plang_proficiency s\<rparr>"
  let ?rows = "select_by (\<lambda>s. db_collation db (plang_language_code s)) (\<lambda>s. plang_profile_id s = i) (db_profile_languages db)"
  have view: "xs' = map ?view ys" if "emap (\<lambda>s. let v = ?view s in validated (language_selection_ok v) v) ys = Inr xs'" for ys xs'
    using that by (induction ys arbitrary: xs') (auto simp: validated_def Let_def tx split: if_splits)
  have xs: "xs = map ?view ?rows"
    by (rule view) (use assms(1) in \<open>simp add: language_selections_def\<close>)
  have codes: "map ls_language_code xs = map plang_language_code ?rows" by (simp add: xs)
  have "sorted (map (db_collation db) (map ls_language_code xs))"
    unfolding codes using sorted_select_by[of "\<lambda>s. db_collation db (plang_language_code s)"] by (simp add: comp_def)
  then have "sorted_wrt (\<lambda>a b. db_collation db a \<le> db_collation db b) (map ls_language_code xs)" by (simp add: sorted_map sorted_wrt_map)
  then have "sorted_wrt (\<le>) (map ls_language_code xs)"
    by (rule sorted_wrt_mono_rel[rotated]) (use assms(2,6) in auto)
  moreover have "distinct (map ls_language_code xs)"
  proof -
    have "distinct (map (\<lambda>s. (plang_profile_id s, plang_language_code s)) ?rows)"
      by (rule distinct_map_select_by[OF assms(5)])
    then show ?thesis unfolding codes by (auto simp: distinct_map inj_on_def)
  qed
  moreover have "sorted (map ls_language_code L)" "distinct (map ls_language_code L)"
    using assms(3,4) by (simp_all add: distinct_map)
  moreover have "inj_on ls_language_code (set xs \<union> set L)"
    using calculation(4) assms(2) by (simp add: distinct_map)
  ultimately show ?thesis using assms(2) by (intro map_sorted_distinct_set_unique) auto
qed

lemma same_selections_unchanged:
  assumes st: "stored_preferences i I L A (kind_group ci cl ca) db" and c: "custom_table_ok db"
    and v: "read_catalog_selections db i None = Inr v" "sel_languages v = L" "sel_interest_ids v = I" "sel_activity_ids v = A"
  shows "\<not> preferences_changed v (own_custom_rows db i None) (I, ci) (L, cl) (A, ca)"
proof -
  have "prepared_signature (kind_group ci cl ca k) = row_signature (filter (\<lambda>r. cust_kind r = k) (own_custom_rows db i None))" for k
    using st unfolding stored_preferences_def kind_rows_signature[OF c] by simp
  from this[of INTEREST] this[of LANGUAGE] this[of ACTIVITY] v(2-4) show ?thesis
    by (simp add: preferences_changed_def)
qed

text \<open>C34: Saving is idempotent: submitting accepted preferences again with the version that was reported answers the same
  selections and version and leaves the database untouched, provided the database orders the codes of the active
  languages by code points.\<close>

theorem saving_preferences_again_changes_nothing:
  assumes "db_ok db" "selection_keys_ok db" "preference_update_model up = Inr up" "collation_agrees db"
    and "update_profile_preferences uni fresh draw owner up db = (Inr s, db')"
  shows "update_profile_preferences uni fresh' draw' owner (up\<lparr>ppu_version := snap_version s\<rparr>) db' = (Inr s, db')"
proof -
  have run: "replace_own_preferences uni fresh draw owner up db = (Inr s, db')"
    using assms(5) by (simp add: update_profile_preferences_def committed_Inr)
  have ok: "profiles_ok db" "custom_table_ok db"
    using assms(1) by (simp_all add: db_ok_def profiles_ok_def custom_table_ok_def)
  obtain p d1 I ci L cl A ca where a: "own_profile_at_version fresh owner (ppu_version up) db = (Inr p, d1)"
    and prep: "prepare_interests uni d1 (ppu_interest_ids up) (ppu_custom_interests up) = Inr (I, ci)"
      "prepare_languages uni d1 (ppu_languages up) (ppu_custom_languages up) = Inr (L, cl)"
      "prepare_activities uni d1 (ppu_activity_ids up) (ppu_custom_activities up) = Inr (A, ca)"
    and st: "stored_preferences (prof_id p) I L A (kind_group ci cl ca) db'"
    and s: "sel_interest_ids s = I" "sel_languages s = L" "sel_activity_ids s = A"
    and out: "custom_label_output ci = Inr (sel_custom_interests s)" "custom_language_output cl = Inr (sel_custom_languages s)"
      "custom_label_output ca = Inr (sel_custom_activities s)"
    and keys: "distinct (map ls_language_code L) \<longrightarrow>
       distinct (map (\<lambda>s. (plang_profile_id s, plang_language_code s)) (db_profile_languages db'))"
    and only: "writes_only (prof_id p) d1 db'" and c: "custom_table_ok db'"
    by (rule replace_preferences_stored[OF run ok assms(2)])
  obtain q where q: "select_own_profile db' (usr_id owner) = Some q" "prof_id q = prof_id p" "prof_version q = snap_version s"
      "require_profile_owner owner = Inr ()"
    by (rule written_profile[OF run ok(1) a])
  note L = prepare_languages_Inr(1)[OF prep(2)] and codes = update_model_ok(2)[OF assms(3)]
  have "list_all language_selection_ok L" using update_model_ok(1)[OF assms(3)] by (simp add: L list_all_iff)
  from stored_are_read[OF st this out] obtain v where v: "read_catalog_selections db' (prof_id p) None = Inr v"
      "sel_interest_ids v = I" "sel_activity_ids v = A" "set (sel_languages v) = set L" by blast
  have rest: "list_active_languages d1 = list_active_languages db" "db_collation db' = db_collation db"
    using writes_only_rest[OF own_profile_Inr(4)[OF a ok(1)]] writes_only_rest[OF only] by (simp_all add: list_active_languages_def)
  have active: "ls_language_code ` set L \<subseteq> lang_code ` set (list_active_languages db)"
    using prep(2) by (auto simp: prepare_languages_def Let_def tx rest split: if_splits)
  have l: "sel_languages v = L"
  proof (rule language_order[OF _ v(4) L codes keys[rule_format]])
    show "language_selections db' (prof_id p) = Inr (sel_languages v)"
      using v(1) by (auto simp: read_catalog_selections_def Let_def tx)
    show "distinct (map ls_language_code L)" using codes by (simp add: L distinct_map)
    show "db_collation db' x \<le> db_collation db' y \<longleftrightarrow> x \<le> y" if "x \<in> ls_language_code ` set L" "y \<in> ls_language_code ` set L" for x y
      using assms(4)[unfolded collation_agrees_def] subsetD[OF active that(1)] subsetD[OF active that(2)] rest(2) by auto
  qed
  from same_selections_unchanged[OF st c v(1) l v(2,3)]
  have same: "\<not> preferences_changed v (own_custom_rows db' (prof_id q) None) (I, ci) (L, cl) (A, ca)" unfolding q(2) .
  have start: "own_profile_at_version fresh' owner (snap_version s) db' = (Inr q, db')"
    using own_profile_existing[OF q(1)] q(3,4) by simp
  have read: "read_catalog_selections db' (prof_id q) (Some (own_custom_rows db' (prof_id q) None)) = Inr v"
    using v(1) unfolding q(2) by (simp add: read_catalog_selections_def)
  have "s = snapshot_of q \<lparr>sel_interest_ids = I, sel_custom_interests = sel_custom_interests s, sel_languages = L,
      sel_custom_languages = sel_custom_languages s, sel_activity_ids = A, sel_custom_activities = sel_custom_activities s\<rparr>"
    using s q(3) by (cases s) (simp add: snapshot_of_def profile_catalog_selections.defs preference_snapshot.defs)
  moreover have "replace_own_preferences uni fresh' draw' owner (up\<lparr>ppu_version := snap_version s\<rparr>) db' =
     (Inr (snapshot_of q \<lparr>sel_interest_ids = I, sel_custom_interests = sel_custom_interests s, sel_languages = L,
      sel_custom_languages = sel_custom_languages s, sel_activity_ids = A, sel_custom_activities = sel_custom_activities s\<rparr>), db')"
    using same by (simp add: replace_own_preferences_def start run_reads prep[folded writes_only_prepares[OF only]] read out)
  ultimately show ?thesis by (simp add: update_profile_preferences_def committed_Inr)
qed

end
