(* ===== verification/Invitation_Instances.thy ===== *)
theory Invitation_Instances
  imports Invitation_Progress
begin

text \<open>A small world of two eligible members, in which an invitation is sent and accepted: the concrete instances
  of the properties of sending and acceptance.\<close>

declare One_nat_def [simp del]

section \<open>A small world\<close>

definition sample_user :: "uuid \<Rightarrow> user" where
  "sample_user i = (witness_member i)\<lparr>usr_email := u (if i = 1 then ''a@b.co'' else ''d@b.co'')\<rparr>"

definition sample_world :: "invitation list \<Rightarrow> database" where
  "sample_world rows = witness_population\<lparr>db_users := [sample_user 1, sample_user 2], db_invitations := rows\<rparr>"

definition sample_principal :: "uuid \<Rightarrow> eligible_matching_principal" where
  "sample_principal i = \<lparr>elig_user_id = i, elig_profile_id = 10 + i,
     elig_student_type = (if i = 1 then VIETNAMESE else INTERNATIONAL), elig_semester_id = Some 9\<rparr>"

definition sample_profile :: "uuid \<Rightarrow> student_profile" where
  "sample_profile i = witness_profile i (if i = 1 then VIETNAMESE else INTERNATIONAL)"

lemma sample_user_simps [simp]:
  "usr_id (sample_user i) = i" "usr_role (sample_user i) = USER" "usr_is_active (sample_user i)"
  "usr_email_verified_at (sample_user i) = Some 5" "usr_semester_id (sample_user i) = Some 9"
  "usr_deleted_at (sample_user i) = None"
  "usr_email (sample_user i) = u (if i = 1 then ''a@b.co'' else ''d@b.co'')"
  by (simp_all add: sample_user_def witness_member_def)

lemma sample_profile_simps [simp]:
  "prof_id (sample_profile i) = 10 + i" "prof_user_id (sample_profile i) = i" "prof_deleted_at (sample_profile i) = None"
  "prof_student_type (sample_profile i) = Some (if i = 1 then VIETNAMESE else INTERNATIONAL)"
  by (simp_all add: sample_profile_def witness_profile_def new_profile_def)

lemma sample_principal_simps [simp]:
  "elig_user_id (sample_principal i) = i" "elig_profile_id (sample_principal i) = 10 + i"
  "elig_student_type (sample_principal i) = (if i = 1 then VIETNAMESE else INTERNATIONAL)"
  by (simp_all add: sample_principal_def)

lemma sample_world_simps [simp]:
  "db_users (sample_world rows) = [sample_user 1, sample_user 2]"
  "db_profiles (sample_world rows) = [sample_profile 1, sample_profile 2]"
  "db_invitations (sample_world rows) = rows" "db_matches (sample_world rows) = []"
  "db_conversations (sample_world rows) = []" "db_outbox (sample_world rows) = []"
  "db_now (sample_world rows) = 100" "db_semester_ids (sample_world rows) = [9]"
  by (simp_all add: sample_world_def sample_profile_def witness_population_def witness_database_def)

lemma sample_users [simp]:
  "user_by_id (sample_world rows) 1 = Some (sample_user 1)" "user_by_id (sample_world rows) 2 = Some (sample_user 2)"
  "profile_by_user (sample_world rows) 1 = Some (sample_profile 1)"
  "profile_by_user (sample_world rows) 2 = Some (sample_profile 2)"
  by (simp_all add: user_by_id_def profile_by_user_def)

lemma sample_world_ok:
  assumes "table_ok invitation_check invitation_clash rows" "\<forall>r \<in> set rows. {inv_sender_id r, inv_recipient_id r} \<subseteq> {1, 2}"
  shows "db_ok (sample_world rows)"
proof -
  have "table_ok user_check user_clash [sample_user 1, sample_user 2]"
    by (simp add: table_ok_def user_clash_def user_check_def sample_user_def witness_member_def u_def strip_by_def)
  moreover have "table_ok profile_check profile_clash [sample_profile 1, sample_profile 2]"
    "table_ok photo_check photo_clash (db_photos (sample_world rows))"
    "table_ok custom_preference_check custom_preference_clash (db_custom_preferences (sample_world rows))"
    using witness_population_ok db_ok_tables(2-4)[of witness_population]
    by (simp_all add: sample_world_def sample_profile_def witness_population_def)
  moreover have "db_messages (sample_world rows) = []"
    by (simp add: sample_world_def witness_population_defs)
  ultimately show ?thesis using assms by (auto simp: db_ok_def refs_defs list_all_iff table_ok_def)
qed

lemma sample_guard:
  assumes "i = 1 \<or> i = 2"
  shows "get_eligible_matching_principal ascii_unicode_db (sample_world rows)
     \<lparr>principal_user = sample_user i, principal_profile = sample_profile i\<rparr> = Inr (sample_principal i)"
proof -
  have "count_ready_avatars (sample_world rows) (10 + i) = 1" "selected_interests (sample_world rows) (10 + i) = []"
     "selected_languages (sample_world rows) (10 + i) = []" "custom_keys (sample_world rows) (10 + i) INTEREST = [[97]]"
     "custom_keys (sample_world rows) (10 + i) LANGUAGE = [[97]]"
    using assms by (auto simp: sample_world_def witness_population_defs count_ready_avatars_def selected_interests_def
        selected_languages_def custom_keys_def)
  then show ?thesis
    by (simp add: guard_Inr_iff count_valid_interests_def count_valid_languages_def count_distinct_preferences_def
        sample_principal_def)
       (simp add: derive_profile_completion_def profile_missing_fields_def Let_def sample_profile_def witness_profile_def
        new_profile_def u_def strip_by_def py_isspace_def)
qed

lemma sample_mail:
  "canonicalize_email (u ''a@b.co'') = Inr (u ''a@b.co'')" "canonicalize_email (u ''d@b.co'') = Inr (u ''d@b.co'')"
  "btrim_between 1 320 (u ''a@b.co'')" "btrim_between 1 320 (u ''d@b.co'')"
  by (simp_all add: canonicalize_email_def u_def strip_by_def py_isspace_def MAX_EMAIL_LENGTH_def
      MAX_EMAIL_LOCAL_PART_LENGTH_def is_infix_def email_local_char_def ascii_alnum_def ascii_upper_def
      ascii_lower_def email_domain_label_def ascii_casefold_def btrim_between_def)

section \<open>An invitation is sent\<close>

lemma sample_revalidate:
  "revalidate_pair ascii_unicode_db 1 2 12 (sample_world rows) =
     Inr (sample_user 1, sample_user 2, sample_principal 1, sample_principal 2)"
  by (simp add: revalidate_pair_def is_available_user_def sample_guard capability_as_def matching_pair_is_eligible_def)

lemma sample_canonical: "canonicalize_invitation_message (u '' hi'') =
    Inr \<lparr>cim_value = u ''hi'', cim_word_count = 1, cim_code_point_count = 2\<rparr>"
  by (simp add: canonicalize_invitation_message_def u_def strip_by_def py_isspace_def
      MAX_INVITATION_MESSAGE_CODE_POINTS_def MAX_INVITATION_MESSAGE_WORDS_def Let_def)

lemma sample_insert: "insert_invitation witness_invitation (sample_world []) = (Inr (), sample_world [witness_invitation])"
  unfolding insert_invitation_Inr
  using witness_invitation_check
  by (simp add: invitation_refs_def) (simp add: sample_world_def witness_invitation_def)

lemma sample_send_run:
  "\<exists>db'. send_matching_invitation ascii_unicode_db (\<lambda>d. d) 20 70 (sample_principal 1) 12 (u '' hi'') (Aware 0) (sample_world []) =
     (Inr witness_invitation, db')"
proof -
  have lock: "lock_and_revalidate_pair ascii_unicode_db (\<lambda>d. d) 1 12 (sample_world []) =
      (Inr (sample_user 1, sample_user 2, sample_principal 1, sample_principal 2), sample_world [])"
    by (simp add: lock_and_revalidate_pair_def commit_others_def recipient_of_profile_def sample_revalidate)
  have steps: "expire_or_reject_pending_pair 1 2 0 (sample_world []) = (Inr (), sample_world [])"
      "reject_active_pair 1 2 (sample_world []) = (Inr (), sample_world [])"
      "require_pending_capacity 1 0 (sample_world []) = (Inr (), sample_world [])"
    by (simp_all add: expire_or_reject_pending_pair_def reject_active_pair_def require_pending_capacity_def
        pending_count_def canonical_user_pair_def bind_tx_def MAX_OUTGOING_PENDING_INVITATIONS_def)
  note enq = enqueue_run[OF event_types(1,3) event_keys(1) sample_mail(2,4) event_payloads(1),
      of 2 "sample_world [witness_invitation]" 70 20 20 "uuid_str 20" 0]
  show ?thesis
    using enq sample_insert
    by (simp add: send_matching_invitation_def sample_canonical lock steps invitation_expires_at_def require_aware_def
        witness_invitation_def Let_def rethrow_tx_def atomic_tx_def)
qed


section \<open>The small world's invitation is accepted\<close>

lemma sample_load:
  "\<exists>pair. load_matching_pair_scoring_profiles witness_tz (sample_world rows) (sample_principal 1) (sample_principal 2) Locale_en
     = Inr (Some pair)"
proof -
  let ?P = "\<lambda>i. project_safe_profile witness_tz (sample_world rows) Locale_en (sample_profile i, witness_photo i)"
  have same: "?P i = project_safe_profile witness_tz witness_population Locale_en (sample_profile i, witness_photo i)" for i
    by (simp add: project_safe_profile_def project_interests_def project_languages_def project_activities_def
        selected_interests_def selected_activities_def custom_rows_def sample_world_def
        del: sample_profile_simps cong: if_cong)
  obtain a where a: "?P 1 = Inr (Some a)" "sp_id a = 11"
    unfolding same unfolding sample_profile_def using witness_projection[OF refl, of 1] by fastforce
  obtain b where b: "?P 2 = Inr (Some b)" "sp_id b = 12"
    unfolding same unfolding sample_profile_def using witness_projection[OF refl, of 2] by fastforce
  have types: "sp_student_type a = VIETNAMESE" "sp_student_type b = INTERNATIONAL"
    using project_safe_profile_Inr[OF a(1)] project_safe_profile_Inr[OF b(1)] by auto
  have photos: "db_photos (sample_world rows) = [witness_photo 1, witness_photo 2]"
    by (simp add: sample_world_def witness_population_def)
  have ready: "ready_avatar_of (sample_profile i) (witness_photo j) \<longleftrightarrow> i = j" for i j
    by (auto simp: ready_avatar_of_def witness_photo_def)
  show ?thesis
    using a b types
    by (simp add: load_matching_pair_scoring_profiles_def photos ready matching_pair_is_eligible_def project_safe_profiles_def Let_def)
qed

abbreviation sample_current :: "uuid \<Rightarrow> verified_buddy_principal" where
  "sample_current i \<equiv> \<lparr>principal_user = sample_user i, principal_profile = sample_profile i\<rparr>"

lemma sample_invited_ok: "db_ok (sample_world [witness_invitation])"
  using witness_invitation_check
  by (intro sample_world_ok) (simp_all add: table_ok_def witness_invitation_def)

lemma sample_locks:
  "lock_buddy_match_participants witness_invitation (sample_world rows) =
     Inr \<lparr>lock_sender_user = sample_user 1, lock_recipient_user = sample_user 2,
          lock_sender_profile = sample_profile 1, lock_recipient_profile = sample_profile 2\<rparr>"
proof -
  have "lock_current_buddy_users [1, 2] (sample_world rows) = Inr [sample_user 1, sample_user 2]"
    by (simp add: lock_current_buddy_users_def available_user_def Let_def)
  then show ?thesis
    by (simp add: lock_buddy_match_participants_def canonical_user_pair_def witness_invitation_def opposite_types_def)
qed

lemma sample_ready:
  "acceptance_ready ascii_unicode_db witness_tz (usr_id (principal_user (sample_current 2))) (\<lambda>_. Aware 5) witness_invitation
     (sample_world [witness_invitation])"
proof -
  obtain pair where load: "load_matching_pair_scoring_profiles witness_tz (sample_world [witness_invitation])
      (sample_principal 1) (sample_principal 2) Locale_en = Inr (Some pair)" using sample_load by blast
  show ?thesis
    unfolding acceptance_ready_def sample_locks
    using witness_answerable load sample_mail
    by (auto simp: sample_guard no_active_match_def)
      (auto simp: witness_invitation_def INVITATION_EXPIRY_INTERVAL_def day_us_def)
qed

lemma sample_fresh: "fresh_for (inv_id witness_invitation) 50 60 71 (sample_world [witness_invitation])"
  by (simp add: fresh_for_def)

lemma sample_accept:
  assumes "other 0 (sample_world [witness_invitation]) = sample_world [witness_invitation]"
    and "other 1 (sample_world [witness_invitation]) = sample_world [witness_invitation]"
  shows "\<exists>db'. accept_matching_invitation ascii_unicode_db witness_tz other 50 60 71 (sample_current 2) (inv_id witness_invitation)
      (\<lambda>_. Aware 5) (sample_world [witness_invitation]) =
    (Inr \<lparr>acc_invitation_id = inv_id witness_invitation, acc_match_id = 50, acc_conversation_id = 60, acc_status = ACCEPTED\<rparr>, db')"
  by (rule accept_succeeds[OF sample_invited_ok sample_ready sample_fresh, of other, OF assms])

theorem acceptable_invitation_is_accepted_witness:
  "\<exists>db'. accept_matching_invitation ascii_unicode_db witness_tz (\<lambda>_ d. d) 50 60 71 (sample_current 2) (inv_id witness_invitation)
      (\<lambda>_. Aware 5) (sample_world [witness_invitation]) =
    (Inr \<lparr>acc_invitation_id = inv_id witness_invitation, acc_match_id = 50, acc_conversation_id = 60, acc_status = ACCEPTED\<rparr>, db')
    \<and> db_ok db'"
  by (rule acceptable_invitation_is_accepted[OF sample_invited_ok sample_ready sample_fresh])


theorem acceptance_is_idempotent_witness:
  "\<exists>res db'. accept_matching_invitation ascii_unicode_db witness_tz (\<lambda>_ d. d) 50 60 71 (sample_current 2)
      (inv_id witness_invitation) (\<lambda>_. Aware 5) (sample_world [witness_invitation]) = (Inr res, db')
    \<and> accept_matching_invitation ascii_unicode_db witness_tz (\<lambda>_ d. d) 51 61 72 (sample_current 2)
      (inv_id witness_invitation) (\<lambda>_. Aware (9 * day_us)) db' = (Inr res, db')"
proof -
  obtain res db' where run: "accept_matching_invitation ascii_unicode_db witness_tz (\<lambda>_ d. d) 50 60 71 (sample_current 2)
      (inv_id witness_invitation) (\<lambda>_. Aware 5) (sample_world [witness_invitation]) = (Inr res, db')"
    using sample_accept[of "\<lambda>_ d. d"] by blast
  from acceptance_is_idempotent[OF _ sample_invited_ok run] run show ?thesis by auto
qed

end
