(* ===== verification/Outbox_Delivery.thy ===== *)
theory Outbox_Delivery
  imports Email_Outbox
begin

text \<open>
  What the outbox worker guarantees: claims are exclusive, the outcome table of a delivery attempt, the
  forward-only life of every event under whole batches, progress within a bounded number of attempts, the
  retry schedule, and the effect of a worker name with surrounding whitespace.
\<close>

section \<open>Leasing\<close>

lemma for_flush:
  assumes "db_ok db" "set rs \<subseteq> set (db_outbox db)" "distinct (map obx_id rs)"
    and "\<forall>r \<in> set rs. outbox_content (f r) = outbox_content r \<and> outbox_check (f r)"
  shows "\<exists>us. for_tx flush_outbox (map f rs) db =
       (Inr us, db\<lparr>db_outbox := map (\<lambda>x. if obx_id x \<in> set (map obx_id rs) then f x else x) (db_outbox db)\<rparr>)
     \<and> db_ok (db\<lparr>db_outbox := map (\<lambda>x. if obx_id x \<in> set (map obx_id rs) then f x else x) (db_outbox db)\<rparr>)"
  using assms
proof (induction rs arbitrary: db)
  case (Cons r rs)
  let ?rows = "put_row (f r) (db_outbox db)" and ?db = "db\<lparr>db_outbox := put_row (f r) (db_outbox db)\<rparr>"
  from Cons.prems have r: "r \<in> set (db_outbox db)" "outbox_content (f r) = outbox_content r" "outbox_check (f r)"
    by auto
  then have id: "obx_id (f r) = obx_id r" by (simp add: outbox_content_def)
  note tab = db_ok_tables(9)[OF Cons.prems(1)]
  have flush: "flush_outbox (f r) db = (Inr (), ?db)" "db_ok ?db"
    using flush_row[OF Cons.prems(1) r] by auto
  have sub: "set rs \<subseteq> set ?rows"
  proof
    fix x assume "x \<in> set rs"
    with Cons.prems(2) have "x \<in> set (db_outbox db)" by auto
    moreover from \<open>x \<in> set rs\<close> Cons.prems(3) have "obx_id x \<noteq> obx_id r"
      by (metis distinct.simps(2) imageI list.simps(9) set_map)
    ultimately have "x \<in> set (db_outbox db)" "obx_id x \<noteq> obx_id r" .
    then show "x \<in> set ?rows" unfolding put_row_mem[OF tab r(1) id] id by blast
  qed
  have same: "map (\<lambda>x. if obx_id x \<in> set (map obx_id rs) then f x else x) ?rows =
      map (\<lambda>x. if obx_id x \<in> set (map obx_id (r # rs)) then f x else x) (db_outbox db)"
    using Cons.prems(3) obx.key_inj[OF tab _ r(1)] by (auto simp: put_row_def update_where_def id)
  from Cons.IH[OF flush(2)] sub Cons.prems(3,4) obtain us where
      "for_tx flush_outbox (map f rs) ?db =
       (Inr us, ?db\<lparr>db_outbox := map (\<lambda>x. if obx_id x \<in> set (map obx_id rs) then f x else x) ?rows\<rparr>)
     \<and> db_ok (?db\<lparr>db_outbox := map (\<lambda>x. if obx_id x \<in> set (map obx_id rs) then f x else x) ?rows\<rparr>)"
    by auto
  with flush(1) show ?case unfolding same by simp
qed simp

definition claim_candidates ::
    "(uuid \<Rightarrow> bool) \<Rightarrow> int \<Rightarrow> instant \<Rightarrow> database \<Rightarrow> transactional_outbox list" where
  "claim_candidates locked n t db = take (nat n)
     (select_by (\<lambda>r. (obx_next_attempt_at r, obx_id r)) (\<lambda>r. outbox_ready t r \<and> \<not> locked (obx_id r)) (db_outbox db))"

definition leased_rows :: "uuid list \<Rightarrow> pystr \<Rightarrow> instant \<Rightarrow> transactional_outbox list \<Rightarrow> transactional_outbox list" where
  "leased_rows ids owner t rows = map (\<lambda>r. if obx_id r \<in> set ids then lease_row owner t r else r) rows"

lemma candidates_mem:
  "r \<in> set (claim_candidates locked n t db) \<Longrightarrow> r \<in> set (db_outbox db) \<and> outbox_ready t r \<and> \<not> locked (obx_id r)"
  using set_take_subset[of "nat n"] by (fastforce simp: claim_candidates_def)

lemma candidates_distinct: "db_ok db \<Longrightarrow> distinct (map obx_id (claim_candidates locked n t db))"
  unfolding claim_candidates_def take_map[symmetric]
  by (intro distinct_take distinct_map_select_by obx.distinct_keys db_ok_tables)

lemma lease_content [simp]: "outbox_content (lease_row owner t r) = outbox_content r"
  by (simp add: outbox_content_def lease_row_def)

lemma lease_id [simp]: "obx_id (lease_row owner t r) = obx_id r"
  by (simp add: lease_row_def)

lemma lease_check: "outbox_check r \<Longrightarrow> outbox_ready t r \<Longrightarrow> outbox_check (lease_row owner t' r)"
  by (auto simp: outbox_check_def outbox_ready_def lease_row_def)

text \<open>Claiming never fails on a well-formed table: it leases exactly the selected rows.\<close>

lemma claim_run:
  fixes locked :: "uuid \<Rightarrow> bool" and t :: instant
  assumes "db_ok db" "validate_identifier 100 worker_id = Inr w" "1 \<le> n" "n \<le> MAX_OUTBOX_BATCH_SIZE"
  defines "ids \<equiv> map obx_id (claim_candidates locked n t db)"
  shows "claim_transactional_outbox locked worker_id n (Aware t) db =
       (Inr ids, db\<lparr>db_outbox := leased_rows ids w t (db_outbox db)\<rparr>)"
    and "db_ok (db\<lparr>db_outbox := leased_rows ids w t (db_outbox db)\<rparr>)"
proof -
  let ?c = "claim_candidates locked n t db"
  have sub: "set ?c \<subseteq> set (db_outbox db)" using candidates_mem by blast
  have "\<forall>r \<in> set ?c. outbox_content (lease_row w t r) = outbox_content r \<and> outbox_check (lease_row w t r)"
    using candidates_mem[of _ locked n t db] obx.row_ok[OF db_ok_tables(9)[OF assms(1)]] by (auto intro: lease_check)
  from for_flush[OF assms(1) sub candidates_distinct[OF assms(1)] this] obtain us where
      us: "for_tx flush_outbox (map (lease_row w t) ?c) db =
         (Inr us, db\<lparr>db_outbox := leased_rows ids w t (db_outbox db)\<rparr>)"
    and ok: "db_ok (db\<lparr>db_outbox := leased_rows ids w t (db_outbox db)\<rparr>)"
    unfolding leased_rows_def ids_def by blast
  then show "db_ok (db\<lparr>db_outbox := leased_rows ids w t (db_outbox db)\<rparr>)" by blast
  show "claim_transactional_outbox locked worker_id n (Aware t) db =
       (Inr ids, db\<lparr>db_outbox := leased_rows ids w t (db_outbox db)\<rparr>)"
    using assms(2-4) us
    by (simp add: claim_transactional_outbox_def claim_candidates_def[symmetric] ids_def)
qed

lemma claim_Inr:
  assumes "db_ok db" "claim_transactional_outbox locked worker_id n clock db = (Inr ids, db')"
  obtains w t where "validate_identifier 100 worker_id = Inr w" "clock = Aware t" "1 \<le> n" "n \<le> MAX_OUTBOX_BATCH_SIZE"
    "ids = map obx_id (claim_candidates locked n t db)"
    "db' = db\<lparr>db_outbox := leased_rows ids w t (db_outbox db)\<rparr>" "db_ok db'"
proof -
  from assms(2) obtain w t where *: "validate_identifier 100 worker_id = Inr w" "clock = Aware t" "1 \<le> n"
      "n \<le> MAX_OUTBOX_BATCH_SIZE"
    unfolding claim_transactional_outbox_def by (auto simp: tx)
  with claim_run[OF assms(1) *(1,3,4), of locked t] assms(2) that[OF *] show ?thesis by auto
qed

text \<open>A rejected claim changes nothing.\<close>

lemma claim_Inl:
  assumes "db_ok db" "claim_transactional_outbox locked worker_id n clock db = (Inl e, db')"
  shows "db' = db"
proof (cases "\<exists>w t. validate_identifier 100 worker_id = Inr w \<and> clock = Aware t \<and> 1 \<le> n \<and> n \<le> MAX_OUTBOX_BATCH_SIZE")
  case True
  then obtain w t where *: "validate_identifier 100 worker_id = Inr w" "clock = Aware t" "1 \<le> n"
      "n \<le> MAX_OUTBOX_BATCH_SIZE" by blast
  with claim_run(1)[OF assms(1) *(1,3,4), of locked t] assms(2) show ?thesis by simp
next
  case False
  with assms(2) show ?thesis
    unfolding claim_transactional_outbox_def by (cases clock) (auto simp: tx)
qed

lemma leased_find:
  "find (\<lambda>x. obx_id x = i) (leased_rows ids w t rows) =
     map_option (\<lambda>r. if i \<in> set ids then lease_row w t r else r) (find (\<lambda>x. obx_id x = i) rows)"
  by (induction rows) (auto simp: leased_rows_def)


section \<open>Delivery\<close>

text \<open>A row is open while it is neither delivered, failed nor deleted.\<close>

definition outbox_open :: "transactional_outbox \<Rightarrow> bool" where
  "outbox_open r \<longleftrightarrow> obx_deleted_at r = None \<and> obx_sent_at r = None \<and> obx_failed_at r = None"

lemma finalized_row_facts:
  assumes "finalized_row t pid failure row = Inr (outcome, row')"
  shows "outbox_content row' = outbox_content row \<and> obx_attempts row' = obx_attempts row + 1
     \<and> obx_lease_owner row' = None \<and> obx_lease_expires_at row' = None \<and> outcome \<noteq> Outcome_skipped
     \<and> (outbox_open row \<longrightarrow> (outbox_open row' \<longleftrightarrow> outcome = Outcome_retry))
     \<and> (outcome = Outcome_retry \<longrightarrow> obx_attempts row' < MAX_DELIVERY_ATTEMPTS)"
  using assms
  by (auto simp: finalized_row_def Let_def outbox_content_def outbox_open_def split: option.split_asm if_split_asm)

lemma finalized_row_check:
  "finalized_row t pid failure row = Inr (outcome, row') \<Longrightarrow> outbox_open row \<Longrightarrow> outbox_check row \<Longrightarrow> outbox_check row'"
  by (auto simp: finalized_row_def Let_def outbox_check_def outbox_open_def split: option.split_asm if_split_asm)

lemma finalize_unfold:
  "finalize_delivery i w pid failure clock db =
     (case find (\<lambda>r. obx_id r = i) (db_outbox db) of
        None \<Rightarrow> (Inr Outcome_skipped, db)
      | Some row \<Rightarrow>
          if \<not> outbox_open row \<or> obx_lease_owner row \<noteq> Some w then (Inr Outcome_skipped, db)
          else atomic_tx (bind_tx (lift_tx (aware ValueError clock)) (\<lambda>t.
               bind_tx (lift_tx (finalized_row t pid failure row)) (\<lambda>(outcome, row').
               bind_tx (flush_outbox row') (\<lambda>_. return_tx outcome)))) db)"
  by (simp add: finalize_delivery_def outbox_open_def split: option.splits)

lemma finalize_run:
  assumes "db_ok db" "row \<in> set (db_outbox db)" "outbox_open row" "obx_lease_owner row = Some w"
    and "finalized_row t pid failure row = Inr (outcome, row')"
  shows "finalize_delivery (obx_id row) w pid failure (Aware t) db =
       (Inr outcome, db\<lparr>db_outbox := put_row row' (db_outbox db)\<rparr>)"
    and "db_ok (db\<lparr>db_outbox := put_row row' (db_outbox db)\<rparr>)"
proof -
  have "find (\<lambda>r. obx_id r = obx_id row) (db_outbox db) = Some row"
    by (rule obx.find_key[OF db_ok_tables(9)[OF assms(1)] assms(2)])
  moreover have "outbox_check row'"
    using assms(3,5) obx.row_ok[OF db_ok_tables(9)[OF assms(1)] assms(2)] by (blast intro: finalized_row_check)
  note flush_row[OF assms(1,2) _ this]
  moreover have "outbox_content row' = outbox_content row" using finalized_row_facts[OF assms(5)] by blast
  ultimately show "finalize_delivery (obx_id row) w pid failure (Aware t) db =
       (Inr outcome, db\<lparr>db_outbox := put_row row' (db_outbox db)\<rparr>)"
      "db_ok (db\<lparr>db_outbox := put_row row' (db_outbox db)\<rparr>)"
    using assms(3-5) by (simp_all add: finalize_unfold atomic_tx_def)
qed

lemma finalize_effect:
  assumes "db_ok db" "finalize_delivery i w pid failure clock db = (res, db')"
  shows "db' = db \<or> (\<exists>row t outcome row'. row \<in> set (db_outbox db) \<and> obx_id row = i \<and> outbox_open row
     \<and> clock = Aware t \<and> finalized_row t pid failure row = Inr (outcome, row') \<and> res = Inr outcome
     \<and> db' = db\<lparr>db_outbox := put_row row' (db_outbox db)\<rparr> \<and> db_ok db')"
proof (cases "\<exists>row t outcome row'. find (\<lambda>r. obx_id r = i) (db_outbox db) = Some row \<and> outbox_open row
     \<and> obx_lease_owner row = Some w \<and> clock = Aware t \<and> finalized_row t pid failure row = Inr (outcome, row')")
  case True
  then obtain row t outcome row' where *: "find (\<lambda>r. obx_id r = i) (db_outbox db) = Some row" "outbox_open row"
     "obx_lease_owner row = Some w" "clock = Aware t" "finalized_row t pid failure row = Inr (outcome, row')" by blast
  then have "row \<in> set (db_outbox db)" "obx_id row = i" by (auto dest: find_SomeD)
  with finalize_run[OF assms(1) this(1) *(2,3,5)] assms(2) * show ?thesis by auto
next
  case False
  have "db' = db"
  proof (cases "find (\<lambda>r. obx_id r = i) (db_outbox db)")
    case (Some row)
    show ?thesis
    proof (cases "outbox_open row \<and> obx_lease_owner row = Some w")
      case held: True
      show ?thesis
      proof (cases "ebind (aware ValueError clock) (\<lambda>t. finalized_row t pid failure row)")
        case (Inl e)
        with Some held assms(2) show ?thesis
          by (cases clock) (simp_all add: finalize_unfold atomic_tx_def)
      next
        case (Inr p)
        with Some held False show ?thesis by (cases clock; cases p) auto
      qed
    qed (use Some assms(2) in \<open>auto simp: finalize_unfold\<close>)
  qed (use assms(2) in \<open>simp add: finalize_unfold\<close>)
  then show ?thesis by blast
qed

text \<open>C22: The outcome of a finished delivery attempt on a row the worker still holds: success marks the row sent with
  the provider's identifier; a retryable failure before the fifth attempt schedules the next attempt after the
  backoff; any other failure, a template failure in particular, or the fifth failure, is terminal. In every case the
  attempt is counted, the lease is dropped and the rest of the table is unchanged.\<close>

theorem delivery_outcome_table:
  fixes t :: instant
  assumes "db_ok db" "row \<in> set (db_outbox db)" "outbox_open row" "obx_lease_owner row = Some w"
  defines "a \<equiv> obx_attempts row + 1"
  defines "base \<equiv> row\<lparr>obx_attempts := obx_attempts row + 1, obx_lease_owner := None, obx_lease_expires_at := None,
     obx_updated_at := t\<rparr>"
  shows "finalize_delivery (obx_id row) w (Some pid) None (Aware t) db =
       (Inr Outcome_sent, db\<lparr>db_outbox := put_row (base\<lparr>obx_sent_at := Some t, obx_provider_message_id := Some pid,
          obx_last_error_code := None\<rparr>) (db_outbox db)\<rparr>)
     \<and> finalize_delivery (obx_id row) w None (Some f) (Aware t) db =
       (if failure_retryable f \<and> a < 5
        then (Inr Outcome_retry, db\<lparr>db_outbox := put_row (base\<lparr>obx_last_error_code := Some (failure_code f),
                obx_next_attempt_at := t + retry_delay a\<rparr>) (db_outbox db)\<rparr>)
        else (Inr Outcome_failed, db\<lparr>db_outbox := put_row (base\<lparr>obx_last_error_code := Some (failure_code f),
                obx_failed_at := Some t\<rparr>) (db_outbox db)\<rparr>))
     \<and> finalize_delivery (obx_id row) w None None (Aware t) db = (Inl RuntimeError, db)"
proof -
  note run = finalize_run(1)[OF assms(1-4)]
  have find: "find (\<lambda>r. obx_id r = obx_id row) (db_outbox db) = Some row"
    by (rule obx.find_key[OF db_ok_tables(9)[OF assms(1)] assms(2)])
  show ?thesis
    using assms(3,4) find run[of t "Some pid" None] run[of t None "Some f"]
    by (simp add: finalized_row_def Let_def base_def a_def MAX_DELIVERY_ATTEMPTS_def)
       (simp add: finalize_unfold atomic_tx_def finalized_row_def)
qed

section \<open>The life of a row\<close>

text \<open>What the outbox may do to a row between two moments: a closed row is final, the event itself never
  changes, attempts only grow, and no row below the limit passes it.\<close>

definition row_evolves :: "transactional_outbox \<Rightarrow> transactional_outbox \<Rightarrow> bool" where
  "row_evolves a b \<longleftrightarrow> outbox_content b = outbox_content a \<and> obx_created_at b = obx_created_at a
     \<and> (\<not> outbox_open a \<longrightarrow> b = a) \<and> obx_attempts a \<le> obx_attempts b
     \<and> (obx_attempts a < MAX_DELIVERY_ATTEMPTS \<longrightarrow> obx_attempts b \<le> MAX_DELIVERY_ATTEMPTS
          \<and> (outbox_open b \<longrightarrow> obx_attempts b < MAX_DELIVERY_ATTEMPTS))"

lemma row_evolves_refl: "row_evolves a a"
  by (auto simp: row_evolves_def)

lemma row_evolves_trans: "row_evolves a b \<Longrightarrow> row_evolves b c \<Longrightarrow> row_evolves a c"
  unfolding row_evolves_def by (cases "outbox_open b") auto

lemma evolves_refl: "list_all2 row_evolves rows rows"
  by (simp add: list_all2_refl row_evolves_refl)

lemma evolves_trans: "list_all2 row_evolves xs ys \<Longrightarrow> list_all2 row_evolves ys zs \<Longrightarrow> list_all2 row_evolves xs zs"
  by (rule list_all2_trans[of row_evolves row_evolves]) (blast intro: row_evolves_trans)

text \<open>What a worker may do to the database: move events forward and touch no other table.\<close>

definition outbox_moves :: "database \<Rightarrow> database \<Rightarrow> bool" where
  "outbox_moves db db' \<longleftrightarrow> db_ok db' \<and> list_all2 row_evolves (db_outbox db) (db_outbox db')
     \<and> db' = db\<lparr>db_outbox := db_outbox db'\<rparr>"

lemma outbox_moves_refl: "db_ok db \<Longrightarrow> outbox_moves db db"
  by (simp add: outbox_moves_def evolves_refl)

lemma outbox_moves_trans:
  assumes "outbox_moves a b" "outbox_moves b c"
  shows "outbox_moves a c"
proof -
  have b: "b = a\<lparr>db_outbox := db_outbox b\<rparr>" and c: "c = b\<lparr>db_outbox := db_outbox c\<rparr>"
    using assms by (simp_all add: outbox_moves_def)
  have "c = a\<lparr>db_outbox := db_outbox c\<rparr>" by (subst c, subst b) simp
  then show ?thesis using assms evolves_trans unfolding outbox_moves_def by blast
qed

lemma finalized_row_evolves:
  "finalized_row t pid failure row = Inr (outcome, row') \<Longrightarrow> outbox_open row \<Longrightarrow> row_evolves row row'"
  using finalized_row_facts[of t pid failure row outcome row']
  by (auto simp: row_evolves_def)
     (auto simp: finalized_row_def Let_def split: option.split_asm if_split_asm)

lemma put_row_evolves:
  assumes "table_ok outbox_check outbox_clash rows" "old \<in> set rows" "row_evolves old r"
  shows "list_all2 row_evolves rows (put_row r rows)"
proof -
  have id: "obx_id r = obx_id old" using assms(3) by (simp add: row_evolves_def outbox_content_def)
  have "row_evolves x (if obx_id x = obx_id r then r else x)" if "x \<in> set rows" for x
    using assms(3) obx.key_inj[OF assms(1) that assms(2)] by (auto simp: id row_evolves_refl)
  then show ?thesis
    by (simp add: put_row_def update_where_def list_all2_map2 list_all2_same)
qed

lemma leased_evolves:
  assumes "list_all (\<lambda>r. obx_id r \<in> set ids \<longrightarrow> outbox_ready t r) rows"
  shows "list_all2 row_evolves rows (leased_rows ids w t' rows)"
  using assms
  by (auto simp: leased_rows_def list_all2_map2 list_all2_same list_all_iff row_evolves_def outbox_ready_def outbox_open_def)
     (auto simp: lease_row_def)

lemma deliver_one_effect:
  assumes "db_ok db" "deliver_one i w provider templates resolvers c1 c2 db = (res, db')"
  shows "outbox_moves db db'"
proof -
  from assms(2) have "db' = db \<or> (\<exists>pid failure. finalize_delivery i w pid failure c2 db = (res, db'))"
    by (auto simp: deliver_one_def split: sum.split_asm option.split_asm)
  then show ?thesis
  proof
    assume "\<exists>pid failure. finalize_delivery i w pid failure c2 db = (res, db')"
    then obtain pid failure where "finalize_delivery i w pid failure c2 db = (res, db')" by blast
    from finalize_effect[OF assms(1) this] show ?thesis
      using assms(1) put_row_evolves[OF db_ok_tables(9)[OF assms(1)]]
      by (auto simp: outbox_moves_def evolves_refl dest: finalized_row_evolves)
  qed (simp add: assms(1) outbox_moves_refl)
qed

lemma for_deliver_effect:
  assumes "db_ok db" "for_tx (\<lambda>(k, i). deliver_one i w provider templates resolvers (c (2*k+1)) (c (2*k+2))) xs db = (res, db')"
  shows "outbox_moves db db'"
  using assms
proof (induction xs arbitrary: db res)
  case (Cons x xs)
  obtain r1 s1 where s1: "(\<lambda>(k, i). deliver_one i w provider templates resolvers (c (2*k+1)) (c (2*k+2))) x db = (r1, s1)"
    by fastforce
  then have "deliver_one (snd x) w provider templates resolvers (c (2 * fst x + 1)) (c (2 * fst x + 2)) db = (r1, s1)"
    by (cases x) simp
  note e1 = deliver_one_effect[OF Cons.prems(1) this]
  show ?case
  proof (cases r1)
    case (Inl e)
    with s1 Cons.prems(2) e1 show ?thesis by auto
  next
    case (Inr o1)
    with s1 Cons.prems(2) obtain r2 where
      "for_tx (\<lambda>(k, i). deliver_one i w provider templates resolvers (c (2*k+1)) (c (2*k+2))) xs s1 = (r2, db')"
      by (auto split: prod.split_asm sum.split_asm)
    moreover have "db_ok s1" using e1 by (simp add: outbox_moves_def)
    ultimately show ?thesis using Cons.IH e1 outbox_moves_trans by blast
  qed
qed (simp add: outbox_moves_refl)

lemma claim_effect:
  assumes "db_ok db" "claim_transactional_outbox locked worker n clock db = (res, db')"
  shows "outbox_moves db db'"
proof (cases res)
  case (Inl e)
  with assms(2) have "claim_transactional_outbox locked worker n clock db = (Inl e, db')" by simp
  from claim_Inl[OF assms(1) this] assms(1) show ?thesis by (simp add: outbox_moves_refl)
next
  case (Inr ids)
  with assms(2) have "claim_transactional_outbox locked worker n clock db = (Inr ids, db')" by simp
  from claim_Inr[OF assms(1) this] obtain w t where *: "ids = map obx_id (claim_candidates locked n t db)"
      "db' = db\<lparr>db_outbox := leased_rows ids w t (db_outbox db)\<rparr>" "db_ok db'" by metis
  have "list_all (\<lambda>r. obx_id r \<in> set ids \<longrightarrow> outbox_ready t r) (db_outbox db)"
    using candidates_mem[of _ locked n t db] obx.key_inj[OF db_ok_tables(9)[OF assms(1)]]
    unfolding list_all_iff *(1) set_map by (metis (no_types, lifting) imageE)
  from leased_evolves[OF this] * show ?thesis by (simp add: outbox_moves_def)
qed

lemma outbox_batch_effect:
  assumes "db_ok db"
    and "process_transactional_outbox_batch locked worker provider templates resolvers n clock db = (res, db')"
  shows "outbox_moves db db'"
proof -
  obtain r1 db1 where claim: "claim_transactional_outbox locked worker n (clock 0) db = (r1, db1)" by fastforce
  note e1 = claim_effect[OF assms(1) claim]
  show ?thesis
  proof (cases r1)
    case (Inl e)
    with claim assms have "db' = db"
      by (auto simp: process_transactional_outbox_batch_def bind_tx_def atomic_tx_def)
    with assms(1) show ?thesis by (simp add: outbox_moves_refl)
  next
    case (Inr ids)
    let ?f = "\<lambda>(k, i). deliver_one i worker provider templates resolvers (clock (2*k+1)) (clock (2*k+2))"
    obtain r2 db2 where for2: "for_tx ?f (zip [0..<length ids] ids) db1 = (r2, db2)" by fastforce
    with Inr claim assms(2) have "db' = db2"
      by (cases r2) (auto simp: process_transactional_outbox_batch_def bind_tx_def atomic_tx_def return_tx_def)
    moreover have "db_ok db1" using e1 by (simp add: outbox_moves_def)
    ultimately show ?thesis using for_deliver_effect[OF _ for2] e1 outbox_moves_trans by blast
  qed
qed

text \<open>C21: A worker batch moves every event forward, whatever the provider, the templates, the resolvers and the clock
  do, and even when it raises: no other table changes, no event is added, lost, reordered or altered, a row that was sent, failed or deleted is
  exactly what it was, attempts never decrease and never pass five, and an event still open has fewer than five.\<close>

theorem outbox_batch_moves_forward:
  assumes "db_ok db"
    and "process_transactional_outbox_batch locked worker provider templates resolvers n clock db = (res, db')"
  shows "db_ok db' \<and> list_all2 row_evolves (db_outbox db) (db_outbox db')
     \<and> db' = db\<lparr>db_outbox := db_outbox db'\<rparr>"
  using outbox_batch_effect[OF assms] unfolding outbox_moves_def .

section \<open>Progress of a batch\<close>

definition attempts_ok :: "database \<Rightarrow> bool" where
  "attempts_ok db = list_all (\<lambda>r. outbox_open r \<longrightarrow> obx_attempts r < MAX_DELIVERY_ATTEMPTS) (db_outbox db)"

text \<open>How many delivery attempts the table still allows.\<close>

definition row_budget :: "transactional_outbox \<Rightarrow> nat" where
  "row_budget r = (if outbox_open r then nat (MAX_DELIVERY_ATTEMPTS - obx_attempts r) else 0)"

definition remaining_attempts :: "database \<Rightarrow> nat" where
  "remaining_attempts db = sum_list (map row_budget (db_outbox db))"

lemma put_row_budget:
  assumes "distinct (map obx_id rows)" "old \<in> set rows" "obx_id r = obx_id old" "row_budget r + 1 \<le> row_budget old"
  shows "sum_list (map row_budget (put_row r rows)) + 1 \<le> sum_list (map row_budget rows)"
  using assms
proof (induction rows)
  case (Cons x rows)
  show ?case
  proof (cases "x = old")
    case True
    with Cons.prems have "obx_id r \<notin> obx_id ` set rows" by simp
    then have "\<forall>y \<in> set rows. obx_id y \<noteq> obx_id r" by (metis imageI)
    then have "put_row r rows = rows" by (auto simp: put_row_def update_where_def intro: map_idI)
    with True Cons.prems(3,4) show ?thesis by (simp add: put_row_def update_where_def)
  next
    case False
    with Cons.prems have "obx_id x \<noteq> obx_id r" by auto
    with False Cons.IH Cons.prems show ?thesis by (auto simp: put_row_def update_where_def)
  qed
qed simp

text \<open>A row leased by the worker until after the clock readings: its delivery is attempted and counted.\<close>

definition held_row :: "pystr \<Rightarrow> instant \<Rightarrow> transactional_outbox \<Rightarrow> bool" where
  "held_row w until r \<longleftrightarrow> outbox_open r \<and> obx_lease_owner r = Some w \<and> obx_lease_expires_at r = Some until"

lemma finalized_row_total:
  "\<exists>outcome row'. finalized_row t (Some i) None row = Inr (outcome, row')"
  "\<exists>outcome row'. finalized_row t None (Some f) row = Inr (outcome, row')"
  by (auto simp: finalized_row_def Let_def)

lemma load_held:
  assumes "db_ok db" "row \<in> set (db_outbox db)" "held_row w until row" "t < until"
  shows "load_work_item db (obx_id row) w (Aware t) resolvers \<noteq> Inr None"
proof -
  have "find (\<lambda>r. obx_id r = obx_id row) (db_outbox db) = Some row"
    by (rule obx.find_key[OF db_ok_tables(9)[OF assms(1)] assms(2)])
  with assms(3,4) show ?thesis
    by (auto simp: load_work_item_def held_row_def outbox_open_def ebind_Inr_iff)
qed

lemma deliver_held:
  assumes "db_ok db" "attempts_ok db" "row \<in> set (db_outbox db)" "held_row w until row" "t1 < until"
  shows "\<exists>outcome db'. deliver_one (obx_id row) w provider templates resolvers (Aware t1) (Aware t2) db = (Inr outcome, db')
     \<and> outcome \<noteq> Outcome_skipped \<and> db_ok db' \<and> attempts_ok db' \<and> remaining_attempts db' + 1 \<le> remaining_attempts db
     \<and> (\<forall>x \<in> set (db_outbox db). obx_id x \<noteq> obx_id row \<longrightarrow> x \<in> set (db_outbox db'))"
proof -
  note tab = db_ok_tables(9)[OF assms(1)]
  have open_row: "outbox_open row" "obx_lease_owner row = Some w" using assms(4) by (auto simp: held_row_def)
  have not_none: "attempt_delivery db (obx_id row) w provider templates resolvers (Aware t1) \<noteq> Inr None"
  proof
    assume *: "attempt_delivery db (obx_id row) w provider templates resolvers (Aware t1) = Inr None"
    then have "load_work_item db (obx_id row) w (Aware t1) resolvers = Inr None"
      by (auto simp: attempt_delivery_def ebind_Inr_iff split: option.split_asm)
    with load_held[OF assms(1,3,4,5)] show False by blast
  qed
  obtain pid failure outcome row' where
      fin: "finalized_row t2 pid failure row = Inr (outcome, row')"
    and del: "deliver_one (obx_id row) w provider templates resolvers (Aware t1) (Aware t2) db =
      finalize_delivery (obx_id row) w pid failure (Aware t2) db"
  proof (cases "attempt_delivery db (obx_id row) w provider templates resolvers (Aware t1)")
    case (Inl e)
    from finalized_row_total(2)[of t2 "delivery_failure_of e" row] that[of None "Some (delivery_failure_of e)"] Inl
    show ?thesis by (auto simp: deliver_one_def)
  next
    case (Inr item)
    with not_none obtain i where "item = Some i" by (cases item) auto
    with finalized_row_total(1)[of t2 i row] that[of "Some i" None] Inr show ?thesis by (auto simp: deliver_one_def)
  qed
  let ?db = "db\<lparr>db_outbox := put_row row' (db_outbox db)\<rparr>"
  note run = finalize_run[OF assms(1,3) open_row fin]
  note facts = finalized_row_facts[OF fin]
  from facts have id: "obx_id row' = obx_id row" by (simp add: outbox_content_def)
  have att: "obx_attempts row < MAX_DELIVERY_ATTEMPTS"
    using assms(2,3) open_row(1) by (auto simp: attempts_ok_def list_all_iff)
  have "row_budget row' + 1 \<le> row_budget row" using facts open_row(1) att by (auto simp: row_budget_def)
  from put_row_budget[OF obx.distinct_keys[OF tab] assms(3) id this]
  have "remaining_attempts ?db + 1 \<le> remaining_attempts db" by (simp add: remaining_attempts_def)
  moreover have "attempts_ok ?db"
    using assms(2) facts open_row(1) put_row_mem[OF tab assms(3) id] unfolding attempts_ok_def list_all_iff by auto
  moreover have "\<forall>x \<in> set (db_outbox db). obx_id x \<noteq> obx_id row \<longrightarrow> x \<in> set (db_outbox ?db)"
    using put_row_mem[OF tab assms(3) id] by (simp add: id)
  moreover have "outcome \<noteq> Outcome_skipped" using facts by simp
  ultimately show ?thesis unfolding del run(1) using run(2) by blast
qed

lemma for_deliver_held:
  assumes "db_ok db" "attempts_ok db" "distinct ids" "\<forall>k. T k < until"
    and "\<forall>i \<in> set ids. \<exists>r \<in> set (db_outbox db). obx_id r = i \<and> held_row w until r"
  shows "\<exists>outs db'. for_tx (\<lambda>(k, i). deliver_one i w provider templates resolvers (Aware (T (2*k+1))) (Aware (T (2*k+2))))
        (zip [n..<n + length ids] ids) db = (Inr outs, db')
     \<and> length outs = length ids \<and> Outcome_skipped \<notin> set outs \<and> db_ok db' \<and> attempts_ok db'
     \<and> remaining_attempts db' + length ids \<le> remaining_attempts db"
  using assms
proof (induction ids arbitrary: db n)
  case (Cons i ids)
  from Cons.prems(5) obtain r where r: "r \<in> set (db_outbox db)" "obx_id r = i" "held_row w until r" by auto
  from deliver_held[OF Cons.prems(1,2) r(1,3), of "T (2*n+1)" provider templates resolvers "T (2*n+2)"] Cons.prems(4) r(2)
  obtain outcome db1 where d: "deliver_one i w provider templates resolvers (Aware (T (2*n+1))) (Aware (T (2*n+2))) db = (Inr outcome, db1)"
      "outcome \<noteq> Outcome_skipped" "db_ok db1" "attempts_ok db1" "remaining_attempts db1 + 1 \<le> remaining_attempts db"
    and keep: "\<forall>x \<in> set (db_outbox db). obx_id x \<noteq> i \<longrightarrow> x \<in> set (db_outbox db1)" by auto
  have "\<exists>r \<in> set (db_outbox db1). obx_id r = j \<and> held_row w until r" if j: "j \<in> set ids" for j
  proof -
    from j Cons.prems(5) obtain x where x: "x \<in> set (db_outbox db)" "obx_id x = j" "held_row w until x" by auto
    moreover have "j \<noteq> i" using j Cons.prems(3) by auto
    ultimately show ?thesis using keep by blast
  qed
  with Cons.IH[OF d(3,4) _ Cons.prems(4), of "Suc n"] Cons.prems(3) obtain outs db2 where
    o: "for_tx (\<lambda>(k, i). deliver_one i w provider templates resolvers (Aware (T (2*k+1))) (Aware (T (2*k+2))))
        (zip [Suc n..<Suc n + length ids] ids) db1 = (Inr outs, db2)"
     "length outs = length ids" "Outcome_skipped \<notin> set outs" "db_ok db2" "attempts_ok db2"
     "remaining_attempts db2 + length ids \<le> remaining_attempts db1" by auto
  have "[n..<n + length (i # ids)] = n # [Suc n..<Suc n + length ids]" by (simp add: upt_rec)
  with d o show ?case by simp
qed simp

lemma outcome_counts:
  "Outcome_skipped \<notin> set outs \<Longrightarrow>
     count_list outs Outcome_sent + count_list outs Outcome_retry + count_list outs Outcome_failed = length outs"
  "count_list outs Outcome_skipped = 0 \<longleftrightarrow> Outcome_skipped \<notin> set outs"
proof (induction outs)
  case (Cons x outs)
  { case 1 with Cons show ?case by (cases x) auto }
  { case 2 with Cons show ?case by (cases x) auto }
qed simp_all

lemma claimed_held:
  assumes "db_ok db" "ids = map obx_id (claim_candidates locked n t db)" "i \<in> set ids"
  shows "\<exists>r \<in> set (leased_rows ids w t (db_outbox db)). obx_id r = i \<and> held_row w (t + OUTBOX_LEASE_TTL) r"
proof -
  from assms(2,3) obtain r where r: "r \<in> set (db_outbox db)" "outbox_ready t r" "obx_id r = i"
    using candidates_mem[of _ locked n t db] by auto
  with assms(3) have "lease_row w t r \<in> set (leased_rows ids w t (db_outbox db))"
    unfolding leased_rows_def set_map by (intro image_eqI[of _ _ r]) auto
  with r show ?thesis
    by (intro bexI[of _ "lease_row w t r"]) (auto simp: held_row_def outbox_open_def outbox_ready_def lease_row_def)
qed

lemma leased_budget:
  assumes "attempts_ok db"
  shows "attempts_ok (db\<lparr>db_outbox := leased_rows ids w t (db_outbox db)\<rparr>)"
    and "remaining_attempts (db\<lparr>db_outbox := leased_rows ids w t (db_outbox db)\<rparr>) = remaining_attempts db"
proof -
  have same: "outbox_open (lease_row w t r) = outbox_open r" "row_budget (lease_row w t r) = row_budget r" for r
    by (simp_all add: outbox_open_def row_budget_def lease_row_def)
  show "attempts_ok (db\<lparr>db_outbox := leased_rows ids w t (db_outbox db)\<rparr>)"
    using assms by (auto simp: attempts_ok_def leased_rows_def list_all_iff same) (simp add: lease_row_def)
  show "remaining_attempts (db\<lparr>db_outbox := leased_rows ids w t (db_outbox db)\<rparr>) = remaining_attempts db"
    by (simp add: remaining_attempts_def leased_rows_def comp_def if_distrib[of row_budget] same cong: if_cong)
qed

text \<open>A worker whose name has no surrounding whitespace and whose clock stays inside the lease makes progress: the
  batch returns, nothing it claimed is skipped, each claimed event is sent, rescheduled or failed, and uses up one of
  the finitely many delivery attempts the table still allows; so after finitely many batches every event is closed.\<close>

theorem worker_batch_makes_progress:
  assumes "db_ok db" "attempts_ok db" "validate_identifier 100 w = Inr w" "1 \<le> n" "n \<le> MAX_OUTBOX_BATCH_SIZE"
    and clock: "\<forall>k. T k < T 0 + OUTBOX_LEASE_TTL"
  shows "\<exists>report db'. process_transactional_outbox_batch locked w provider templates resolvers n (\<lambda>k. Aware (T k)) db
        = (Inr report, db')
     \<and> owr_claimed report = length (claim_candidates locked n (T 0) db) \<and> owr_skipped report = 0
     \<and> owr_claimed report = owr_sent report + owr_retry_scheduled report + owr_terminal_failed report
     \<and> db_ok db' \<and> attempts_ok db' \<and> remaining_attempts db' + owr_claimed report \<le> remaining_attempts db"
proof -
  let ?ids = "map obx_id (claim_candidates locked n (T 0) db)"
  let ?db = "db\<lparr>db_outbox := leased_rows ?ids w (T 0) (db_outbox db)\<rparr>"
  note claim = claim_run[OF assms(1,3-5), of locked "T 0"]
  have "\<forall>i \<in> set ?ids. \<exists>r \<in> set (db_outbox ?db). obx_id r = i \<and> held_row w (T 0 + OUTBOX_LEASE_TTL) r"
    using claimed_held[OF assms(1) refl] by (metis database.select_convs(15) database.surjective database.update_convs(15))
  from for_deliver_held[OF claim(2) leased_budget(1)[OF assms(2)] candidates_distinct[OF assms(1)] clock this,
      of provider templates resolvers 0]
  obtain outs db' where o: "for_tx (\<lambda>(k, i). deliver_one i w provider templates resolvers (Aware (T (2*k+1))) (Aware (T (2*k+2))))
        (zip [0..<0 + length ?ids] ?ids) ?db = (Inr outs, db')"
     "length outs = length ?ids" "Outcome_skipped \<notin> set outs" "db_ok db'" "attempts_ok db'"
     "remaining_attempts db' + length ?ids \<le> remaining_attempts ?db"
    by blast
  with claim(1) leased_budget(2)[OF assms(2)] outcome_counts[of outs] show ?thesis
    by (simp add: process_transactional_outbox_batch_def atomic_tx_def)
qed

lemma count_list_replicate: "count_list (replicate n x) y = (if x = y then n else 0)"
  by (induction n) auto

lemma for_deliver_skipped:
  assumes "\<forall>i \<in> set ids. \<forall>c. load_work_item db i w (Aware c) resolvers = Inr None"
  shows "for_tx (\<lambda>(k, i). deliver_one i w provider templates resolvers (Aware (T (2*k+1))) (Aware (T (2*k+2))))
        (zip [n..<n + length ids] ids) db = (Inr (replicate (length ids) Outcome_skipped), db)"
  using assms
proof (induction ids arbitrary: n)
  case (Cons i ids)
  have "[n..<n + length (i # ids)] = n # [Suc n..<Suc n + length ids]" by (simp add: upt_rec)
  with Cons.IH[of "Suc n"] Cons.prems show ?case by (simp add: deliver_one_def attempt_delivery_def)
qed simp

text \<open>A worker whose name carries surrounding whitespace delivers nothing: the claim stores the stripped name while
  loading and finalising compare the raw one, so the batch leases the due events for five minutes, skips every one of
  them and reports no failure.\<close>

theorem padded_worker_name_skips_batch:
  fixes T :: "nat \<Rightarrow> instant" and locked :: "uuid \<Rightarrow> bool"
  assumes "db_ok db" "validate_identifier 100 w = Inr w'" "w' \<noteq> w" "1 \<le> n" "n \<le> MAX_OUTBOX_BATCH_SIZE"
  defines "ids \<equiv> map obx_id (claim_candidates locked n (T 0) db)"
  shows "process_transactional_outbox_batch locked w provider templates resolvers n (\<lambda>k. Aware (T k)) db =
     (Inr \<lparr>owr_claimed = length ids, owr_sent = 0, owr_retry_scheduled = 0, owr_terminal_failed = 0,
        owr_skipped = length ids\<rparr>, db\<lparr>db_outbox := leased_rows ids w' (T 0) (db_outbox db)\<rparr>)"
proof -
  let ?db = "db\<lparr>db_outbox := leased_rows ids w' (T 0) (db_outbox db)\<rparr>"
  note claim = claim_run[OF assms(1,2,4,5), of locked "T 0", folded ids_def]
  have "load_work_item ?db i w (Aware c) resolvers = Inr None" if i: "i \<in> set ids" for i c
  proof (cases "find (\<lambda>r. obx_id r = i) (db_outbox ?db)")
    case (Some r)
    with i have "obx_lease_owner r = Some w'" by (auto simp: leased_find lease_row_def)
    with Some assms(3) show ?thesis by (simp add: load_work_item_def)
  qed (simp add: load_work_item_def)
  with for_deliver_skipped[of ids ?db w resolvers provider templates T 0] claim(1) show ?thesis
    by (simp add: process_transactional_outbox_batch_def atomic_tx_def count_list_replicate)
qed

lemma retry_delay_raw: "1 \<le> a \<Longrightarrow> retry_delay a = min (2 ^ nat (a - 1) * 60000000) 3600000000"
  by (simp add: retry_delay_def MAX_RETRY_DELAY_def)

text \<open>Retry delays: the first failure waits one minute, every further failure doubles the delay, and no delay exceeds
  one hour or falls below one minute, for every attempt count whose raw delay a timedelta can hold.\<close>

theorem retry_delay_schedule:
  assumes "1 \<le> a" "a \<le> 40"
  shows "retry_delay 1 = 60 * 1000000 \<and> 60 * 1000000 \<le> retry_delay a \<and> retry_delay a \<le> 3600 * 1000000
     \<and> retry_delay (a + 1) = min (2 * retry_delay a) (3600 * 1000000)"
proof -
  have one: "(1::int) \<le> 2 ^ k" for k by simp
  have "nat a = Suc (nat (a - 1))" using assms(1) by linarith
  then have "(2::int) ^ nat a = 2 * 2 ^ nat (a - 1)" by simp
  then show ?thesis
    using assms(1) one[of "nat (a - 1)"] by (auto simp: retry_delay_raw min_def)
qed

theorem retry_delay_schedule_witness:
  "map retry_delay [1, 2, 3, 4, 5, 6, 7] = map (\<lambda>m. m * 60000000) [1, 2, 4, 8, 16, 32, 60]"
  using retry_delay_schedule[of 1] retry_delay_schedule[of 2] retry_delay_schedule[of 3] retry_delay_schedule[of 4]
    retry_delay_schedule[of 5] retry_delay_schedule[of 6]
  by simp

section \<open>Concrete instances\<close>

definition sample_event :: transactional_outbox where
  "sample_event = \<lparr>obx_id = 70, obx_event_type = u ''WELCOME'', obx_aggregate_id = 1, obx_recipient_user_id = None,
     obx_recipient_email = u ''a@b.c'', obx_idempotency_key = u ''k:1'', obx_payload = PyDict [], obx_attempts = 0,
     obx_next_attempt_at = 5, obx_lease_owner = None, obx_lease_expires_at = None, obx_sent_at = None,
     obx_failed_at = None, obx_provider_message_id = None, obx_last_error_code = None, obx_created_at = 5,
     obx_updated_at = 5, obx_deleted_at = None\<rparr>"

definition outbox_database :: "transactional_outbox list \<Rightarrow> database" where
  "outbox_database rows = \<lparr>db_users = [], db_profiles = [], db_photos = [], db_interests = [], db_languages = [],
     db_activities = [], db_profile_interests = [], db_profile_languages = [], db_profile_activities = [],
     db_custom_preferences = [], db_invitations = [], db_matches = [], db_conversations = [], db_messages = [],
     db_outbox = rows, db_semester_ids = [], db_now = 100, db_collation = length\<rparr>"

lemma outbox_database_simps [simp]: "db_outbox (outbox_database rows) = rows"
  "(outbox_database rows)\<lparr>db_outbox := rows'\<rparr> = outbox_database rows'"
  by (simp_all add: outbox_database_def)

lemma sample_check: "outbox_check sample_event"
  by (simp add: sample_event_def outbox_check_def btrim_between_def u_def strip_by_def)

lemma sample_database_ok: "db_ok (outbox_database [])" "db_ok (outbox_database [sample_event])"
  using sample_check
  by (simp_all add: outbox_database_def db_ok_def table_ok_def outbox_refs_def sample_event_def)

lemma sample_leased_ok: "db_ok (outbox_database [lease_row (u ''w'') 5 sample_event])"
  using sample_check lease_check[OF sample_check, of 5 "u ''w''" 5]
  by (simp add: outbox_database_def db_ok_def table_ok_def outbox_refs_def)
     (simp add: sample_event_def lease_row_def outbox_ready_def)

lemma sample_email: "canonicalize_email (u '' A@b.c'') = Inr (u ''a@b.c'')"
  by (simp add: canonicalize_email_def u_def strip_by_def py_isspace_def MAX_EMAIL_LENGTH_def
      MAX_EMAIL_LOCAL_PART_LENGTH_def is_infix_def email_local_char_def ascii_alnum_def ascii_upper_def
      ascii_lower_def email_domain_label_def ascii_casefold_def)

lemma sample_worker: "validate_identifier 100 (u ''w'') = Inr (u ''w'')" "validate_identifier 100 (u '' w'') = Inr (u ''w'')"
  by (simp_all add: validate_identifier_def u_def strip_by_def py_isspace_def)

lemma sample_enqueue:
  "enqueue_transactional_email 70 (u ''WELCOME'') 1 None (u '' A@b.c'') (u ''k:1'') [] (Aware 5) (outbox_database []) =
     (Inr sample_event, outbox_database [sample_event])"
proof -
  have "validate_identifier 100 (u ''WELCOME'') = Inr (u ''WELCOME'')" "validate_identifier 256 (u ''k:1'') = Inr (u ''k:1'')"
      "event_type_format (u ''WELCOME'')"
    by (simp_all add: validate_identifier_def u_def strip_by_def py_isspace_def ascii_upper_def ascii_digit_def)
  moreover have "insert_outbox sample_event (outbox_database []) = (Inr (), outbox_database [sample_event])"
    using sample_check by (simp add: insert_outbox_Inr outbox_refs_def) (simp add: sample_event_def)
  ultimately show ?thesis
    by (simp add: enqueue_transactional_email_def sample_email validated_payload_def rethrow_tx_def Let_def
        sample_event_def)
qed

lemma sample_candidates: "claim_candidates (\<lambda>_. False) 20 5 (outbox_database [sample_event]) = [sample_event]"
  by (simp add: claim_candidates_def select_by_def outbox_ready_def sample_event_def)

lemma sample_claim:
  "claim_transactional_outbox (\<lambda>_. False) (u ''w'') 20 (Aware 5) (outbox_database [sample_event]) =
     (Inr [70], outbox_database [lease_row (u ''w'') 5 sample_event])"
  using claim_run(1)[OF sample_database_ok(2) sample_worker(1), of 20 "\<lambda>_. False" 5]
  by (simp add: sample_candidates MAX_OUTBOX_BATCH_SIZE_def leased_rows_def) (simp add: sample_event_def)

lemma sample_second_claim:
  "claim_transactional_outbox (\<lambda>_. False) (u '' w'') 1 (Aware 6) (outbox_database [lease_row (u ''w'') 5 sample_event]) =
     (Inr [], outbox_database [lease_row (u ''w'') 5 sample_event])"
proof -
  have "claim_candidates (\<lambda>_. False) 1 6 (outbox_database [lease_row (u ''w'') 5 sample_event]) = []"
    by (simp add: claim_candidates_def select_by_def outbox_ready_def sample_event_def lease_row_def OUTBOX_LEASE_TTL_def)
  with claim_run(1)[OF sample_leased_ok sample_worker(2), of 1 "\<lambda>_. False" 6] show ?thesis
    by (simp add: MAX_OUTBOX_BATCH_SIZE_def leased_rows_def)
qed

theorem canonical_email_fixed_point_witness:
  "canonicalize_email (u ''a@b.c'') = Inr (u ''a@b.c'')"
  using canonical_email_fixed_point[OF sample_email] by blast

theorem enqueued_event_is_valid_witness:
  "db_ok (outbox_database [sample_event]) \<and> outbox_ready 5 sample_event"
  using enqueued_event_is_valid[OF sample_database_ok(1) sample_enqueue] by (simp add: sample_event_def)


theorem delivery_outcome_table_witness:
  "fst (finalize_delivery 70 (u ''w'') None (Some (Delivery_failure True (u ''timeout''))) (Aware 9)
      (outbox_database [lease_row (u ''w'') 5 sample_event])) = Inr Outcome_retry
   \<and> fst (finalize_delivery 70 (u ''w'') None (Some (Template_failure (u ''bad''))) (Aware 9)
      (outbox_database [lease_row (u ''w'') 5 sample_event])) = Inr Outcome_failed"
proof -
  let ?r = "lease_row (u ''w'') 5 sample_event" and ?db = "outbox_database [lease_row (u ''w'') 5 sample_event]"
  have r: "?r \<in> set (db_outbox ?db)" "outbox_open ?r" "obx_lease_owner ?r = Some (u ''w'')" "obx_id sample_event = 70"
      "obx_attempts ?r = 0"
    by (simp_all add: outbox_open_def lease_row_def sample_event_def)
  show ?thesis
    using delivery_outcome_table[OF sample_leased_ok r(1-3), where t = 9 and pid = "[]" and f = "Delivery_failure True (u ''timeout'')"]
      delivery_outcome_table[OF sample_leased_ok r(1-3), where t = 9 and pid = "[]" and f = "Template_failure (u ''bad'')"]
    by (simp add: r(4,5))
qed

theorem outbox_batch_moves_forward_witness:
  "db_ok (snd (process_transactional_outbox_batch (\<lambda>_. False) (u ''w'') (\<lambda>_ _. Inl ValueError) [] [] 20 (\<lambda>_. Aware 5)
      (outbox_database [sample_event])))"
  using outbox_batch_moves_forward[OF sample_database_ok(2), of "\<lambda>_. False" "u ''w''" "\<lambda>_ _. Inl ValueError" "[]" "[]"
      20 "\<lambda>_. Aware 5"] by (metis prod.collapse)

theorem worker_batch_makes_progress_witness:
  "\<exists>report db'. process_transactional_outbox_batch (\<lambda>_. False) (u ''w'') (\<lambda>_ _. Inr (u ''id'')) [] [] 20 (\<lambda>_. Aware 5)
      (outbox_database [sample_event]) = (Inr report, db') \<and> owr_claimed report = 1 \<and> owr_skipped report = 0"
proof -
  have "attempts_ok (outbox_database [sample_event])"
    by (simp add: attempts_ok_def sample_event_def MAX_DELIVERY_ATTEMPTS_def)
  from worker_batch_makes_progress[OF sample_database_ok(2) this sample_worker(1), of 20 "\<lambda>_. 5" "\<lambda>_. False"]
  show ?thesis
    by (simp add: sample_candidates MAX_OUTBOX_BATCH_SIZE_def OUTBOX_LEASE_TTL_def) blast
qed

theorem padded_worker_name_skips_batch_witness:
  "fst (process_transactional_outbox_batch (\<lambda>_. False) (u '' w'') (\<lambda>_ _. Inr (u ''id'')) [] [] 20 (\<lambda>_. Aware 5)
      (outbox_database [sample_event])) =
    Inr \<lparr>owr_claimed = 1, owr_sent = 0, owr_retry_scheduled = 0, owr_terminal_failed = 0, owr_skipped = 1\<rparr>"
proof -
  have "u ''w'' \<noteq> u '' w''" by (simp add: u_def)
  from padded_worker_name_skips_batch[OF sample_database_ok(2) sample_worker(2) this, of 20 "\<lambda>_. False"
      "\<lambda>_ _. Inr (u ''id'')" "[]" "[]" "\<lambda>_. 5"]
  show ?thesis by (simp add: sample_candidates MAX_OUTBOX_BATCH_SIZE_def)
qed

end
