(* ===== verification/Buddy_System.thy ===== *)
theory Buddy_System
  imports Invitation_Instances Outbox_Delivery
begin

text \<open>
  The relationship services as one system: which databases committed transactions can reach, with every interleaving
  of the others at the points where a transaction waits for locks, and the invariant that ties invitations, matches,
  conversations and messages together.
\<close>

section \<open>Committed transactions\<close>

text \<open>
  \<open>serves uni tz db db'\<close>: the services can take the database from \<open>db\<close> to \<open>db'\<close>. A transaction that fails is rolled
  back and leaves only what the others committed, so only successful ones are steps. Sending waits once for locks and
  accepting twice; what others commit meanwhile is itself a run.
\<close>

inductive serves :: "unicode_db \<Rightarrow> tz_db \<Rightarrow> database \<Rightarrow> database \<Rightarrow> bool" for uni tz where
  idle: "serves uni tz db db"
| later: "serves uni tz db d1 \<Longrightarrow> serves uni tz d1 db' \<Longrightarrow> serves uni tz db db'"
| sent: "serves uni tz db d1 \<Longrightarrow>
     send_matching_invitation uni (\<lambda>_. d1) fresh fresh_event sender pid message clock db = (Inr row, db') \<Longrightarrow>
     serves uni tz db db'"
| accepted: "serves uni tz db d1 \<Longrightarrow> serves uni tz d1 d2 \<Longrightarrow>
     accept_matching_invitation uni tz (\<lambda>k _. if k = 0 then d1 else d2) fm fc fe current i clocks db = (Inr res, db') \<Longrightarrow>
     serves uni tz db db'"
| declined: "decline_matching_invitation p i clock db = (Inr receipt, db') \<Longrightarrow> serves uni tz db db'"
| cancelled: "cancel_matching_invitation p i clock db = (Inr receipt, db') \<Longrightarrow> serves uni tz db db'"
| hidden: "hide_accepted_invitation_from_sender p i clock db = (Inr receipt, db') \<Longrightarrow> serves uni tz db db'"
| expired: "process_invitation_expiry_batch locked n (Aware t) db = (Inr report, db') \<Longrightarrow> serves uni tz db db'"
| messaged: "send_buddy_message fresh cid user key body clock db = (Inr m, db') \<Longrightarrow> serves uni tz db db'"
| acknowledged: "acknowledge_buddy_messages_read cid user i clock db = (Inr ack, db') \<Longrightarrow> serves uni tz db db'"
| opened: "get_or_create_buddy_conversation fresh mid clock db = (Inr c, db') \<Longrightarrow> serves uni tz db db'"
| cleaned: "process_chat_cleanup_batch now locked n at_time db = (Inr creport, db') \<Longrightarrow> serves uni tz db db'"
| delivered: "process_transactional_outbox_batch locked w provider templates resolvers n clocks db = (res', db') \<Longrightarrow>
     serves uni tz db db'"

section \<open>The invariant\<close>

definition accepted_match :: "database \<Rightarrow> buddy_match \<Rightarrow> bool" where
  "accepted_match db m \<longleftrightarrow> (\<exists>r \<in> set (db_invitations db). inv_id r = mat_accepted_invitation_id m
     \<and> inv_status r = ACCEPTED \<and> inv_sender_id r = mat_participant_one_user_id m
     \<and> inv_recipient_id r = mat_participant_two_user_id m)"

definition matched_invitation :: "database \<Rightarrow> invitation \<Rightarrow> bool" where
  "matched_invitation db r \<longleftrightarrow> (\<exists>m \<in> set (db_matches db). mat_accepted_invitation_id m = inv_id r
     \<and> conv_match_id ` set (db_conversations db) \<inter> {mat_id m} \<noteq> {})"

definition participant_message :: "database \<Rightarrow> buddy_message \<Rightarrow> bool" where
  "participant_message db x \<longleftrightarrow> (\<exists>c \<in> set (db_conversations db). conv_id c = msg_conversation_id x
     \<and> (\<exists>m \<in> set (db_matches db). mat_id m = conv_match_id c
          \<and> msg_sender_id x \<in> {mat_participant_one_user_id m, mat_participant_two_user_id m}))"

definition relationships_ok :: "database \<Rightarrow> bool" where
  "relationships_ok db \<longleftrightarrow> db_ok db
     \<and> (\<forall>m \<in> set (db_matches db). accepted_match db m)
     \<and> (\<forall>r \<in> set (db_invitations db). inv_status r = ACCEPTED \<longrightarrow> matched_invitation db r)
     \<and> (\<forall>x \<in> set (db_messages db). participant_message db x)"

section \<open>Quiet steps\<close>

text \<open>A step that makes no match: it may add conversations, move invitations on without accepting one, and only touch
  messages of known senders.\<close>

definition quiet :: "database \<Rightarrow> database \<Rightarrow> bool" where
  "quiet db db' \<longleftrightarrow> db_ok db' \<and> db_matches db' = db_matches db \<and> db_profiles db' = db_profiles db
     \<and> invitations_evolve (db_invitations db) (db_invitations db')
     \<and> (\<forall>r \<in> set (db_invitations db'). inv_status r = ACCEPTED \<longrightarrow>
          (\<exists>r0 \<in> set (db_invitations db). inv_id r0 = inv_id r \<and> inv_status r0 = ACCEPTED))
     \<and> set (db_conversations db) \<subseteq> set (db_conversations db')
     \<and> (\<forall>x \<in> set (db_messages db'). participant_message db' x \<or> (\<exists>y \<in> set (db_messages db).
          msg_conversation_id y = msg_conversation_id x \<and> msg_sender_id y = msg_sender_id x))"

lemma accepted_match_evolves:
  assumes "invitations_evolve (db_invitations db) (db_invitations db')" "accepted_match db m"
  shows "accepted_match db' m"
proof -
  from assms(2) obtain r where r: "r \<in> set (db_invitations db)" "inv_id r = mat_accepted_invitation_id m"
      "inv_status r = ACCEPTED" "inv_sender_id r = mat_participant_one_user_id m"
      "inv_recipient_id r = mat_participant_two_user_id m"
    unfolding accepted_match_def by blast
  from invitations_evolve_terminal[OF assms(1) r(1)] r(2-5) show ?thesis unfolding accepted_match_def by auto
qed

lemma quiet_keeps:
  assumes ok: "relationships_ok db" and q: "quiet db db'"
  shows "relationships_ok db'"
proof -
  have "accepted_match db' m" if "m \<in> set (db_matches db')" for m
    using that ok q accepted_match_evolves unfolding relationships_ok_def quiet_def by metis
  moreover have "matched_invitation db' r" if r: "r \<in> set (db_invitations db')" "inv_status r = ACCEPTED" for r
  proof -
    from r q obtain r0 where "r0 \<in> set (db_invitations db)" "inv_id r0 = inv_id r" "inv_status r0 = ACCEPTED"
      unfolding quiet_def by blast
    with ok have "matched_invitation db r0" "inv_id r0 = inv_id r" unfolding relationships_ok_def by auto
    with q show ?thesis unfolding matched_invitation_def quiet_def by auto
  qed
  moreover have "participant_message db' x" if x: "x \<in> set (db_messages db')" for x
  proof (cases "participant_message db' x")
    case False
    with x q obtain y where "y \<in> set (db_messages db)" "msg_conversation_id y = msg_conversation_id x"
        "msg_sender_id y = msg_sender_id x" unfolding quiet_def by blast
    moreover have "participant_message db x \<longleftrightarrow> participant_message db y"
      using calculation(2,3) by (simp add: participant_message_def)
    ultimately have "participant_message db x" using ok unfolding relationships_ok_def by blast
    with q show ?thesis unfolding participant_message_def quiet_def by auto
  qed simp
  ultimately show ?thesis using q unfolding relationships_ok_def quiet_def by blast
qed

lemma quiet_refl: "db_ok db \<Longrightarrow> quiet db db"
  unfolding quiet_def by auto

text \<open>The common case: one invitation row is replaced by one that is not newly ACCEPTED.\<close>

lemma quiet_replace:
  assumes "db_ok (replace_invitation r' db)" "r \<in> set (db_invitations db)" "inv_id r' = inv_id r"
    and "inv_status r' = ACCEPTED \<longrightarrow> inv_status r = ACCEPTED"
    and "invitations_evolve (db_invitations db) (db_invitations (replace_invitation r' db))"
  shows "quiet db (replace_invitation r' db)"
  unfolding quiet_def
proof (intro conjI ballI impI)
  fix x assume x: "x \<in> set (db_invitations (replace_invitation r' db))" "inv_status x = ACCEPTED"
  then have "x = r' \<or> x \<in> set (db_invitations db)" by (auto simp: replace_invitation_def set_update_where)
  then show "\<exists>r0 \<in> set (db_invitations db). inv_id r0 = inv_id x \<and> inv_status r0 = ACCEPTED"
    using x assms(2-4) by auto
qed (use assms in \<open>auto simp: replace_invitation_def\<close>)

context pending_answer
begin

lemma quiet_answer:
  assumes "db_ok db" "answer p i c db = (Inr res, db')"
  shows "quiet db db'"
  using assms(1)
proof (cases rule: answer_cases[of db p i c])
  case (changed r t)
  with assms show ?thesis
    using changed_step[OF assms(1) changed(1,3)] addressed_SomeD[OF changed(1)] target_cases
    by (auto intro!: quiet_replace[where r = r])
qed (use assms in \<open>auto intro: quiet_refl\<close>)

end

lemma quiet_hide:
  assumes "db_ok db" "hide_accepted_invitation_from_sender p i clock db = (Inr receipt, db')"
  shows "quiet db db'"
  using assms(1)
proof (cases rule: hide_cases[of db p i clock])
  case (hidden r t)
  have "db_ok (snd (hide_accepted_invitation_from_sender p i clock db))
    \<and> invitations_evolve (db_invitations db) (db_invitations (snd (hide_accepted_invitation_from_sender p i clock db)))"
    by (rule hide_preserves[OF assms(1)])
  with hidden assms(2) addressed_SomeD[OF hidden(1)] show ?thesis
    by (auto intro!: quiet_replace[where r = r])
qed (use assms in \<open>auto intro: quiet_refl\<close>)

lemma quiet_expiry:
  assumes "db_ok db" "process_invitation_expiry_batch locked n (Aware t) db = (Inr report, db')"
  shows "quiet db db'"
proof -
  have n: "1 \<le> n" "n \<le> MAX_INVITATION_EXPIRY_BATCH_SIZE"
    using assms(2) by (auto simp: process_invitation_expiry_batch_def expire_invitation_batch_def tx)
  let ?rows = "take (nat n) (due_invitations locked t (db_invitations db))"
  note run = expire_batch_run[OF assms(1) n refl, where locked = locked and now = t]
  have db': "db' = expire_all t (inv_id ` set ?rows) db"
    using process_batch_run[OF assms(1) n refl, where locked = locked and now = t] assms(2) by simp
  show ?thesis unfolding quiet_def db'
  proof (intro conjI ballI impI)
    fix x assume "x \<in> set (db_invitations (expire_all t (inv_id ` set ?rows) db))" "inv_status x = ACCEPTED"
    then show "\<exists>r0 \<in> set (db_invitations db). inv_id r0 = inv_id x \<and> inv_status r0 = ACCEPTED"
      by (auto simp: expire_all_def split: if_split_asm)
  qed (use run assms(1) in \<open>auto simp: expire_all_def\<close>)
qed

section \<open>Steps on conversations, messages and the outbox\<close>

lemma evolve_same [simp]: "db_invitations db' = db_invitations db \<Longrightarrow>
    invitations_evolve (db_invitations db) (db_invitations db')" by simp

lemma quiet_messages:
  assumes "db_ok db'" "db' = db\<lparr>db_messages := xs\<rparr>"
    and "\<forall>x \<in> set xs. participant_message db x \<or> (\<exists>y \<in> set (db_messages db).
          msg_conversation_id y = msg_conversation_id x \<and> msg_sender_id y = msg_sender_id x)"
  shows "quiet db db'"
  using assms by (auto simp: quiet_def participant_message_def)

lemma quiet_send_message:
  assumes "db_ok db" "send_buddy_message fresh cid w key body clock db = (Inr m, db')"
  shows "quiet db db'"
proof -
  from send_message_Inr[OF assms] obtain t c where *: "require_authorized_active_conversation cid w db = Inr c"
    "db' = db \<or> (db' = db\<lparr>db_messages := db_messages db @ [m]\<rparr>
       \<and> m = new_message fresh cid w key body t (t + BUDDY_MESSAGE_MAX_RETENTION))" by metis
  from *(1) have auth: "c \<in> set (db_conversations db)" "conv_id c = cid" "conversation_of_participant db w c"
    using authorized_iff[OF assms(1)] by auto
  have "participant_message db m" if "m = new_message fresh cid w key body t (t + BUDDY_MESSAGE_MAX_RETENTION)"
    using auth by (auto simp: participant_message_def that new_message_def conversation_of_participant_def
        active_participant_def list_ex_iff intro!: bexI[of _ c])
  then show ?thesis
  proof (cases "db' = db")
    case False
    with *(2) have m: "m = new_message fresh cid w key body t (t + BUDDY_MESSAGE_MAX_RETENTION)"
      and db': "db' = db\<lparr>db_messages := db_messages db @ [m]\<rparr>" by auto
    assume "m = new_message fresh cid w key body t (t + BUDDY_MESSAGE_MAX_RETENTION) \<Longrightarrow> participant_message db m"
    with m show ?thesis by (intro quiet_messages[OF send_db_ok[OF assms] db']) auto
  qed (use assms in \<open>auto intro: quiet_refl\<close>)
qed

lemma quiet_acknowledge:
  assumes "db_ok db" "acknowledge_buddy_messages_read cid w i clock db = (Inr r, db')"
  shows "quiet db db'"
proof -
  from ack_Inr[OF assms(2)] obtain now b where
    "db' = db\<lparr>db_messages := update_where (read_through cid w b now) (mark_read now) (db_messages db)\<rparr>" by metis
  then show ?thesis
    by (rule quiet_messages[OF ack_db_ok[OF assms]]) (auto simp: set_update_where mark_read_def)
qed

lemma quiet_cleanup:
  assumes "db_ok db" "process_chat_cleanup_batch now locked n cleanup_now db = (Inr r, db')"
  shows "quiet db db'"
proof -
  from cleanup_run[OF assms] obtain t where
    db': "db' = db\<lparr>db_messages := filter (\<lambda>m. m \<notin> set (due_messages locked n t db)) (db_messages db)\<rparr>" by blast
  then show ?thesis using cleanup_db_ok[OF assms(1)] by (intro quiet_messages) auto
qed

lemma quiet_conversation:
  assumes "db_ok db" "get_or_create_buddy_conversation fresh mid clock db = (Inr c, db')"
  shows "quiet db db'"
proof -
  from get_or_create_Inr[OF assms(2)] have "db' = db \<or> db' = db\<lparr>db_conversations := db_conversations db @ [c]\<rparr>" by blast
  then show ?thesis using get_or_create_db_ok[OF assms] by (auto simp: quiet_def)
qed

lemma quiet_outbox:
  assumes "db_ok db" "process_transactional_outbox_batch locked w provider templates resolvers n clocks db = (res, db')"
  shows "quiet db db'"
proof -
  have *: "db_ok db'" "db' = db\<lparr>db_outbox := db_outbox db'\<rparr>"
    using outbox_batch_effect[OF assms] by (simp_all add: outbox_moves_def)
  have "db_matches db' = db_matches db" "db_profiles db' = db_profiles db" "db_invitations db' = db_invitations db"
      "db_conversations db' = db_conversations db" "db_messages db' = db_messages db"
    by (subst *(2), simp)+
  with *(1) show ?thesis by (auto simp: quiet_def)
qed

lemma expire_pair_accepts_nothing:
  assumes "db_ok db" "expire_or_reject_pending_pair a b t db = (Inr x, db')" "r \<in> set (db_invitations db')" "inv_status r = ACCEPTED"
  shows "r \<in> set (db_invitations db)"
proof -
  from assms(2) obtain pair where pair: "canonical_user_pair a b = Inr pair"
    by (auto simp: expire_or_reject_pending_pair_def tx)
  show ?thesis
  proof (cases "find (\<lambda>r. inv_pair r = pair \<and> inv_status r = PENDING) (db_invitations db)")
    case None
    with assms(2,3) pair show ?thesis by (simp add: expire_or_reject_pending_pair_def)
  next
    case (Some y)
    with assms(2) pair obtain y' where "flush_invitation (stamped EXPIRED t y) db = (Inr y', db')"
      by (auto simp: expire_or_reject_pending_pair_def tx invitation_expire_def require_aware_def transition_Inr_iff
          split: if_split_asm)
    from flush_invitation_Inr[OF this] assms(3,4) show ?thesis by (auto simp: set_update_where)
  qed
qed

lemma quiet_send_invitation:
  assumes "db_ok d1" "db_ok db" "send_matching_invitation uni (\<lambda>_. d1) fresh fe sender pid message clock db = (Inr row, db')"
  shows "quiet d1 db'"
proof -
  have other: "\<forall>d. db_ok d \<longrightarrow> db_ok ((\<lambda>_. d1) d)" using assms(1) by simp
  obtain t r db1 event and ru :: user where *:
    "expire_or_reject_pending_pair (elig_user_id sender) r t d1 = (Inr (), db1)"
    "row = new_invitation fresh (elig_user_id sender) r (py_strip message) t"
    "enqueue_transactional_email fe MATCHING_INVITATION_CREATED fresh (Some r) (usr_email ru)
           (created_event_key fresh) [(PyStr (u ''invitation_id''), PyStr (uuid_str fresh))] (Aware t)
           (db1\<lparr>db_invitations := db_invitations db1 @ [row]\<rparr>) = (Inr event, db')"
    by (rule send_Inr[OF other assms(2,3)]) (rule that)
  from enqueue_Inr[OF *(3)] have ins: "insert_outbox event (db1\<lparr>db_invitations := db_invitations db1 @ [row]\<rparr>) = (Inr (), db')" by blast
  from expire_pair_Inr[OF assms(1) *(1)] obtain kept where kept: "db1 = d1\<lparr>db_invitations := kept\<rparr>"
    and evolve: "invitations_evolve (db_invitations d1) kept" by (metis database.select_convs(11) database.surjective database.update_convs(11))
  from ins kept have db': "db' = d1\<lparr>db_invitations := kept @ [row], db_outbox := db_outbox d1 @ [event]\<rparr>"
    unfolding insert_outbox_Inr by simp
  have ok': "db_ok db'" using send_effect[OF other assms(2,3)] by blast
  show ?thesis unfolding quiet_def
  proof (intro conjI ballI impI)
    show "invitations_evolve (db_invitations d1) (db_invitations db')"
      using invitations_evolve_trans[OF evolve invitations_evolve_append] by (simp add: db')
    fix x assume x: "x \<in> set (db_invitations db')" "inv_status x = ACCEPTED"
    then have "x \<in> set kept" by (auto simp: db' *(2) new_invitation_def)
    then show "\<exists>r0 \<in> set (db_invitations d1). inv_id r0 = inv_id x \<and> inv_status r0 = ACCEPTED"
      using expire_pair_accepts_nothing[OF assms(1) *(1) _ x(2)] x(2) kept by auto
  qed (use ok' in \<open>auto simp: db'\<close>)
qed

section \<open>Acceptance\<close>

lemma accept_keeps:
  assumes ok: "relationships_ok db" and c: "completes db row t res db'" and ok': "db_ok db'"
    and row: "row \<in> set (db_invitations db)" "answerable t row"
  shows "relationships_ok db'"
proof -
  let ?done = "flushed db (stamped ACCEPTED t row)"
  from c[unfolded completes_def] obtain m cv e where
    d: "db' = (replace_invitation ?done db)\<lparr>db_matches := db_matches db @ [m],
          db_conversations := db_conversations db @ [cv], db_outbox := db_outbox db @ [e]\<rparr>"
    and m: "mat_accepted_invitation_id m = inv_id row" "mat_participant_one_user_id m = inv_sender_id row"
       "mat_participant_two_user_id m = inv_recipient_id row" "conv_match_id cv = mat_id m" by blast
  have base: "db_ok db" using ok by (simp add: relationships_ok_def)
  have invs: "db_invitations db' = db_invitations (replace_invitation ?done db)" by (simp add: d)
  have done_mem: "?done \<in> set (db_invitations db')" using row by (auto simp: d replace_invitation_def set_update_where)
  have "lifecycle_step row ?done" using row(2) by (auto intro: lifecycle_step.answered)
  then have evolve: "invitations_evolve (db_invitations db) (db_invitations db')"
    using invitations_evolve_update[OF db_ok_tables(5)[OF base] row(1)] by (simp add: invs replace_invitation_def)
  have "accepted_match db' x" if "x \<in> set (db_matches db')" for x
  proof (cases "x = m")
    case True
    then show ?thesis unfolding accepted_match_def using done_mem m by (intro bexI[of _ ?done]) simp_all
  next
    case False
    with that have "x \<in> set (db_matches db)" by (simp add: d)
    with ok accepted_match_evolves[OF evolve] show ?thesis by (simp add: relationships_ok_def)
  qed
  moreover have "matched_invitation db' r" if r: "r \<in> set (db_invitations db')" "inv_status r = ACCEPTED" for r
  proof (cases "inv_id r = inv_id row")
    case True
    then show ?thesis using m by (auto simp: matched_invitation_def d)
  next
    case False
    with r have "r \<in> set (db_invitations db)" by (auto simp: d replace_invitation_def set_update_where)
    with ok r(2) have "matched_invitation db r" by (simp add: relationships_ok_def)
    then show ?thesis by (auto simp: matched_invitation_def d)
  qed
  moreover have "participant_message db' x" if x: "x \<in> set (db_messages db')" for x
  proof -
    from x have "x \<in> set (db_messages db)" by (simp add: d replace_invitation_def)
    with ok have "participant_message db x" by (simp add: relationships_ok_def)
    then show ?thesis unfolding participant_message_def by (auto simp: d)
  qed
  ultimately show ?thesis using ok' unfolding relationships_ok_def by blast
qed

section \<open>The invariant of every run\<close>

text \<open>What a run does to what is there: matches and conversations stay, invitations only move along their life cycle.\<close>

definition relationships_grow :: "database \<Rightarrow> database \<Rightarrow> bool" where
  "relationships_grow db db' \<longleftrightarrow> relationships_ok db' \<and> db_profiles db' = db_profiles db
     \<and> set (db_matches db) \<subseteq> set (db_matches db')
     \<and> set (db_conversations db) \<subseteq> set (db_conversations db')
     \<and> invitations_evolve (db_invitations db) (db_invitations db')"

lemma grow_refl: "relationships_ok db \<Longrightarrow> relationships_grow db db"
  by (simp add: relationships_grow_def)

lemma grow_trans: "relationships_grow a b \<Longrightarrow> relationships_grow b c \<Longrightarrow> relationships_grow a c"
  using invitations_evolve_trans unfolding relationships_grow_def by (metis subset_trans)

lemma quiet_grows: "relationships_ok db \<Longrightarrow> quiet db db' \<Longrightarrow> relationships_grow db db'"
  using quiet_keeps[of db db'] by (auto simp: relationships_grow_def quiet_def)

lemma accept_grows:
  assumes "relationships_ok db" "completes db row t res db'" "db_ok db'" "row \<in> set (db_invitations db)" "answerable t row"
  shows "relationships_grow db db'"
proof -
  have base: "db_ok db" using assms(1) by (simp add: relationships_ok_def)
  have "lifecycle_step row (flushed db (stamped ACCEPTED t row))" using assms(5) by (auto intro: lifecycle_step.answered)
  from invitations_evolve_update[OF db_ok_tables(5)[OF base] assms(4) this] assms(2)
  have "invitations_evolve (db_invitations db) (db_invitations db') \<and> set (db_matches db) \<subseteq> set (db_matches db')
      \<and> set (db_conversations db) \<subseteq> set (db_conversations db') \<and> db_profiles db' = db_profiles db"
    unfolding completes_def by (auto simp: replace_invitation_def)
  then show ?thesis using accept_keeps[OF assms] by (simp add: relationships_grow_def)
qed

lemma serves_grows: "serves uni tz db db' \<Longrightarrow> relationships_ok db \<Longrightarrow> relationships_grow db db'"
proof (induction rule: serves.induct)
  case (idle db)
  then show ?case by (rule grow_refl)
next
  case (later db d1 db')
  then have "relationships_grow db d1" "relationships_grow d1 db'" by (auto simp: relationships_grow_def)
  then show ?case by (rule grow_trans)
next
  case (sent db d1 fresh fresh_event sender pid message clock row db')
  from sent.IH sent.prems have d1: "relationships_grow db d1" .
  have "quiet d1 db'"
    using quiet_send_invitation[OF _ _ sent.hyps(2)] d1 sent.prems by (simp add: relationships_grow_def relationships_ok_def)
  moreover have "relationships_ok d1" using d1 by (simp add: relationships_grow_def)
  ultimately show ?case using grow_trans[OF d1 quiet_grows] by blast
next
  case (accepted db d1 d2 fm fc fe current i clocks res db')
  from accepted.IH(1) accepted.prems have d1: "relationships_grow db d1" .
  with accepted.IH(2) have d2: "relationships_grow d1 d2" by (simp add: relationships_grow_def)
  let ?other = "\<lambda>k (_ :: database). if k = 0 then d1 else d2"
  have other: "\<forall>k d. db_ok d \<longrightarrow> db_ok (?other k d)" using d1 d2 by (simp add: relationships_grow_def relationships_ok_def)
  have "db_ok db" using accepted.prems by (simp add: relationships_ok_def)
  from accept_Inr[OF other this accepted.hyps(3)]
  consider "db' = db" | "db' = d2" | (fresh) row t where
      "load_owned_invitation i (usr_id (principal_user current)) d2 = Inr row" "answerable t row" "completes d2 row t res db'" "db_ok db'"
    by auto
  then show ?case
  proof cases
    case fresh
    have "row \<in> set (db_invitations d2)" using load_owned_mem[OF fresh(1)] by blast
    then have "relationships_grow d2 db'" using accept_grows[OF _ fresh(3,4) _ fresh(2)] d2 by (simp add: relationships_grow_def)
    then show ?thesis using d1 d2 grow_trans by blast
  qed (use accepted.prems d1 d2 grow_refl grow_trans in blast)+
qed (auto simp: relationships_ok_def intro!: quiet_grows intro: decline.quiet_answer cancel.quiet_answer quiet_hide quiet_expiry
    quiet_send_message quiet_acknowledge quiet_conversation quiet_cleanup quiet_outbox)

lemma at_most_one:
  assumes "sorted_wrt (\<lambda>a b. \<not> clash a b) xs" "\<And>a b. P a \<Longrightarrow> P b \<Longrightarrow> clash a b"
  shows "length (filter P xs) \<le> 1"
proof (cases "filter P xs")
  case (Cons y ys)
  then have "y \<in> set xs" "P y" by (auto simp: filter_eq_Cons_iff)
  with sorted_wrt_filter_single[of clash xs y P] assms show ?thesis by simp
qed simp

text \<open>C1: The relationship services keep their data consistent in every interleaving: from a consistent database, whatever
  sequence of sends, accepts, declines, cancels, hides, expiry batches, messages, acknowledgements, cleanups and e-mail
  batches commits, and whatever commits while a transaction waits for locks, the reached database is well formed, every
  match comes from an ACCEPTED invitation of its two participants, every ACCEPTED invitation has a match with a
  conversation, every message is from a participant of its conversation's match, a pair has at most one ACTIVE match, a
  match at most one conversation, no match disappears and no invitation leaves its life cycle.\<close>

theorem services_keep_relationships:
  assumes "serves uni tz db db'" "relationships_ok db"
  shows "relationships_ok db' \<and> set (db_matches db) \<subseteq> set (db_matches db')
     \<and> invitations_evolve (db_invitations db) (db_invitations db')
     \<and> length (filter (\<lambda>m. mat_pair m = pair \<and> mat_status m = ACTIVE) (db_matches db')) \<le> 1
     \<and> length (filter (\<lambda>c. conv_match_id c = i) (db_conversations db')) \<le> 1"
proof -
  have grow: "relationships_grow db db'" by (rule serves_grows[OF assms])
  then have ok: "db_ok db'" by (simp add: relationships_grow_def relationships_ok_def)
  have "length (filter (\<lambda>c. conv_match_id c = i) (db_conversations db')) \<le> 1"
    using db_ok_tables(7)[OF ok] unfolding table_ok_def
    by (intro at_most_one[where clash = conversation_clash]) (auto simp: conversation_clash_def)
  moreover have "length (filter (\<lambda>m. mat_pair m = pair \<and> mat_status m = ACTIVE) (db_matches db')) \<le> 1"
    using db_ok_tables(6)[OF ok] unfolding table_ok_def
    by (intro at_most_one[where clash = match_clash]) (auto simp: match_clash_def)
  ultimately show ?thesis using grow by (simp add: relationships_grow_def)
qed

lemma sample_consistent: "relationships_ok (sample_world [witness_invitation])"
proof -
  have "db_messages (sample_world rows) = []" for rows by (simp add: sample_world_def witness_population_defs)
  moreover have "inv_status witness_invitation = PENDING" by (simp add: witness_invitation_def)
  ultimately show ?thesis using sample_invited_ok by (simp add: relationships_ok_def)
qed

theorem services_keep_relationships_witness:
  "\<exists>db'. serves ascii_unicode_db witness_tz (sample_world [witness_invitation]) db' \<and> db_matches db' \<noteq> []
     \<and> relationships_ok db'"
proof -
  let ?w = "sample_world [witness_invitation]"
  obtain db' where run: "accept_matching_invitation ascii_unicode_db witness_tz (\<lambda>k _. if k = 0 then ?w else ?w) 50 60 71
      (sample_current 2) (inv_id witness_invitation) (\<lambda>_. Aware 5) ?w =
    (Inr \<lparr>acc_invitation_id = inv_id witness_invitation, acc_match_id = 50, acc_conversation_id = 60, acc_status = ACCEPTED\<rparr>, db')"
    using sample_accept[of "\<lambda>k _. if k = 0 then ?w else ?w"] by auto
  have other: "\<forall>k d. db_ok d \<longrightarrow> db_ok ((\<lambda>k (_ :: database). if k = 0 then ?w else ?w) (k :: nat) d)"
    using sample_invited_ok by simp
  have "receipt_for (inv_id witness_invitation) 2 db' \<lparr>acc_invitation_id = inv_id witness_invitation, acc_match_id = 50,
      acc_conversation_id = 60, acc_status = ACCEPTED\<rparr>"
    using accept_Inr[OF other sample_invited_ok run] by simp
  then have "db_matches db' \<noteq> []" by (auto simp: receipt_for_def)
  moreover have "serves ascii_unicode_db witness_tz ?w db'"
    by (rule serves.accepted[OF serves.idle serves.idle run])
  ultimately show ?thesis using services_keep_relationships[OF _ sample_consistent] by blast
qed

end
