(* ===== verification/Profile_Effects.thy ===== *)
theory Profile_Effects
  imports Preference_Results Buddy_System
begin

text \<open>
  What profile writes mean for the rest of the system: the limits the preference endpoints keep and the partial update
  does not, and the buddies whose types stay opposite whatever the two subsystems commit.
\<close>

section \<open>Limits\<close>

lemma signature_length: "row_signature rows = prepared_signature ps \<Longrightarrow> length rows = length ps"
  by (drule arg_cong[where f = length]) (simp add: row_signature_def prepared_signature_def)

lemma language_rows_count:
  assumes "{s \<in> set (db_profile_languages db). plang_profile_id s = i} = language_row i ` set L"
    and "distinct (map (\<lambda>s. (plang_profile_id s, plang_language_code s)) (db_profile_languages db))"
  shows "length (filter (\<lambda>s. plang_profile_id s = i) (db_profile_languages db)) \<le> length L"
proof -
  let ?rows = "filter (\<lambda>s. plang_profile_id s = i) (db_profile_languages db)"
  have "distinct ?rows" using assms(2) by (simp add: distinct_map)
  then have "length ?rows = card (set ?rows)" by (rule distinct_card[symmetric])
  also have "\<dots> = card (language_row i ` set L)" using assms(1) by (simp add: conj_commute)
  also have "\<dots> \<le> length L" by (meson card_image_le card_length finite_set le_trans)
  finally show ?thesis .
qed

text \<open>C33: The limits hold after every accepted combined update: the profile has at most 20 interests, 10 languages and 20
  activities, its custom ones counted.\<close>

theorem saved_preferences_keep_limits:
  assumes "db_ok db" "selection_keys_ok db" "preference_update_model up = Inr up"
    and "update_profile_preferences uni fresh draw owner up db = (Inr s, db')"
    and "select_own_profile db' (usr_id owner) = Some q"
  shows "length (interest_ids db' (prof_id q)) + length (own_custom_rows db' (prof_id q) (Some INTEREST)) \<le> 20
     \<and> length (filter (\<lambda>s. plang_profile_id s = prof_id q) (db_profile_languages db'))
         + length (own_custom_rows db' (prof_id q) (Some LANGUAGE)) \<le> 10
     \<and> length (read_profile_activity_ids db' (prof_id q)) + length (own_custom_rows db' (prof_id q) (Some ACTIVITY)) \<le> 20"
proof -
  have run: "replace_own_preferences uni fresh draw owner up db = (Inr s, db')"
    using assms(4) by (simp add: update_profile_preferences_def committed_Inr)
  have ok: "profiles_ok db" "custom_table_ok db"
    using assms(1) by (simp_all add: db_ok_def profiles_ok_def custom_table_ok_def)
  obtain p d1 I ci L cl A ca where a: "own_profile_at_version fresh owner (ppu_version up) db = (Inr p, d1)"
    and prep: "prepare_interests uni d1 (ppu_interest_ids up) (ppu_custom_interests up) = Inr (I, ci)"
      "prepare_languages uni d1 (ppu_languages up) (ppu_custom_languages up) = Inr (L, cl)"
      "prepare_activities uni d1 (ppu_activity_ids up) (ppu_custom_activities up) = Inr (A, ca)"
    and st: "stored_preferences (prof_id p) I L A (kind_group ci cl ca) db'"
    and keys: "distinct (map ls_language_code L) \<longrightarrow>
       distinct (map (\<lambda>s. (plang_profile_id s, plang_language_code s)) (db_profile_languages db'))"
    by (rule replace_preferences_stored[OF run ok assms(2)])
  obtain q' where "select_own_profile db' (usr_id owner) = Some q'" "prof_id q' = prof_id p"
    by (rule written_profile[OF run ok(1) a])
  with assms(5) have i: "prof_id p = prof_id q" by simp
  note model = update_model_ok[OF assms(3)]
  note I = prepare_interests_Inr(1,3)[OF prep(1)] and L = prepare_languages_Inr(1,3)[OF prep(2)]
    and A = prepare_activities_Inr(1,3)[OF prep(3)]
  have custom: "length (own_custom_rows db' (prof_id q) (Some k)) = length (kind_group ci cl ca k)" for k
    using st by (simp add: stored_preferences_def i signature_length)
  have "distinct (map ls_language_code L)" using model(2) by (simp add: L(1) distinct_map)
  with keys st have lang: "length (filter (\<lambda>s. plang_profile_id s = prof_id q) (db_profile_languages db')) \<le> length L"
    unfolding stored_preferences_def i by (intro language_rows_count) simp_all
  have ids: "interest_ids db' (prof_id q) = I" "read_profile_activity_ids db' (prof_id q) = A"
    using st by (simp_all add: stored_preferences_def i)
  have "length I \<le> length (ppu_interest_ids up)" "length A \<le> length (ppu_activity_ids up)" "length L = length (ppu_languages up)"
    by (simp_all add: I(1) A(1) L(1))
  then show ?thesis
    unfolding ids custom kind_group_simps I(2) A(2) L(2) using model(3-5) lang by linarith
qed

section \<open>The partial update and the activity limit\<close>

text \<open>Which exceptions a projection raises.\<close>

lemma emap_Inl_mem: "emap f xs = Inl e \<Longrightarrow> \<exists>x \<in> set xs. f x = Inl e"
  by (induction xs) (auto simp: ebind_Inl_iff)

lemma emap_fails: "x \<in> set xs \<Longrightarrow> f x = Inl e \<Longrightarrow> \<exists>e'. emap f xs = Inl e'"
proof (induction xs)
  case (Cons y ys)
  then show ?case by (cases "f y"; cases "emap f ys") auto
qed simp

lemma availability_error: "validate_availability tz a = Inl e \<Longrightarrow> e = ValueError"
  by (auto simp: validate_availability_def validate_timezone_def normalized_slots_def Let_def tx split: if_splits option.splits)

lemma group_errors:
  "project_interests db locale i = Inl e \<Longrightarrow> e = ValueError"
  "project_activities db locale i = Inl e \<Longrightarrow> e = ValueError"
  "project_languages db locale i = Inl e \<Longrightarrow> e = ValueError"
  by (auto simp: project_interests_def project_languages_def project_activities_def safe_preference_model_def
      safe_language_model_def require_value_def dest!: emap_Inl_mem split: if_splits)

lemma model_errors:
  "safe_avatar_model a = Inl e \<Longrightarrow> e = ValueError"
  "safe_profile_model v = Inl e \<Longrightarrow> e = ValueError"
  by (simp_all add: safe_avatar_model_def safe_profile_model_def require_value_def split: if_splits)

lemma project_error: "project_safe_profile tz db locale row = Inl e \<Longrightarrow> e = ValueError"
  unfolding project_safe_profile_def Let_def
  by (auto simp: ebind_Inl_iff dest: group_errors model_errors availability_error split: option.splits)

lemma projections_error: "project_safe_profiles tz db locale rows = Inl e \<Longrightarrow> e = ValueError"
  by (auto simp: project_safe_profiles_def tx project_error dest!: emap_Inl_mem)

lemma overfull_unprojectable:
  assumes "20 < length (selected_activities db (prof_id p)) + length (custom_rows db (prof_id p) ACTIVITY)"
    and "prof_student_type p \<noteq> None"
  shows "project_safe_profile tz db locale (p, ph) = Inl ValueError"
proof (cases "project_safe_profile tz db locale (p, ph)")
  case (Inl e)
  with project_error[OF this] show ?thesis by simp
next
  case (Inr x)
  with assms(2) obtain acts :: "safe_preference list" where "project_activities db locale (prof_id p) = Inr acts" "length acts \<le> 20"
    by (auto simp: project_safe_profile_def Let_def tx safe_profile_model_def require_value_def split: option.splits if_splits)
  then have "length (selected_activities db (prof_id p)) + length (custom_rows db (prof_id p) ACTIVITY) \<le> 20"
    by (auto simp: project_activities_def dest!: emap_Inr_length)
  with assms(1) show ?thesis by simp
qed

lemma one_failure_blocks_page:
  assumes "row \<in> set rows" "project_safe_profile tz db locale row = Inl ValueError"
  shows "project_safe_profiles tz db locale rows = Inl ValueError"
proof -
  obtain e where "emap (project_safe_profile tz db locale) rows = Inl e" using emap_fails[OF assms(1), of "project_safe_profile tz db locale"] assms(2) by blast
  then have "project_safe_profiles tz db locale rows = Inl e" by (simp add: project_safe_profiles_def)
  with projections_error[OF this] show ?thesis by simp
qed

lemma select_own_length: "length (custom_rows db i k) = length (own_custom_rows db i (Some k))"
  by (simp add: custom_rows_def own_custom_rows_def length_select_by conj_commute conj_left_commute)

text \<open>After a partial update that names activities, each of them is selected.\<close>

lemma update_selects:
  assumes "update_own_profile fresh owner up db = (Inr r, db')" "pu_preferences up = Some (Some ids)"
  shows "set ids \<subseteq> act_id ` set (selected_activities db' (prof_id r))"
    and "db_custom_preferences db' = db_custom_preferences db"
proof -
  obtain x p d1 acts d2 where s: "own_profile_at_version fresh x (pu_version up) db = (Inr p, d1)"
      "stage_preferred_activities up (prof_id p) d1 = (Inr acts, d2)"
      "flush_replacement (apply_changes up p) [] [] acts [] d2 = (Inr r, db')"
    using assms(1) unfolding update_own_profile_def by (auto simp: tx split: if_splits dest: lock_owner_Inr)
  have chosen: "set ids \<subseteq> act_id ` {a \<in> set (db_activities d1). act_is_active a \<and> act_deleted_at a = None}"
    and staged: "replace_profile_activity_ids (prof_id p) ids (read_profile_activity_ids d1 (prof_id p)) d1 = (Inr acts, d2)"
    using s(2) assms(2) by (auto simp: stage_preferred_activities_def list_selectable_activities_def tx split: if_splits)
  note db' = flush_replacement_Inr(2)[OF s(3)]
  have r: "prof_id r = prof_id p" using flush_replacement_Inr(1)[OF s(3)] by simp
  have d2: "d2 = d1 \<or> d2 = d1\<lparr>db_profile_activities := filter (\<lambda>s. pact_profile_id s \<noteq> prof_id p) (db_profile_activities d1)\<rparr>"
    using staged by (auto simp: replace_profile_activity_ids_def delete_activities_def tx split: if_splits)
  then have same: "db_activities db' = db_activities d1" "db_custom_preferences db' = db_custom_preferences d1"
    unfolding db' by auto
  show "db_custom_preferences db' = db_custom_preferences db"
    using same(2) draft_keeps_selections(1)[OF s(1)] by simp
  have row: "\<exists>s \<in> set (db_profile_activities db'). pact_profile_id s = prof_id p \<and> pact_activity_id s = a" if a: "a \<in> set ids" for a
  proof (cases "set ids = set (read_profile_activity_ids d1 (prof_id p))")
    case True
    with a staged show ?thesis
      by (auto simp: db' replace_profile_activity_ids_def read_profile_activity_ids_def tx)
  next
    case False
    with a staged have "\<lparr>pact_profile_id = prof_id p, pact_activity_id = a\<rparr> \<in> set acts"
      by (auto simp: replace_profile_activity_ids_def tx)
    then show ?thesis by (force simp: db')
  qed
  show "set ids \<subseteq> act_id ` set (selected_activities db' (prof_id r))"
  proof
    fix a assume a: "a \<in> set ids"
    obtain b where b: "b \<in> set (db_activities d1)" "act_is_active b" "act_deleted_at b = None" "act_id b = a"
      using a chosen by auto
    obtain s where "s \<in> set (db_profile_activities db')" "pact_profile_id s = prof_id p" "pact_activity_id s = a"
      using row[OF a] by blast
    then have "b \<in> set (selected_activities db' (prof_id r))"
      using b by (auto simp: selected_activities_def same(1) r intro!: bexI[of _ s])
    with b(4) show "a \<in> act_id ` set (selected_activities db' (prof_id r))" by auto
  qed
qed

text \<open>C32: The partial profile update does not count custom activities: it stores 20 selected activities beside custom ones,
  although every reader allows 20 in total. From then on listing the matching profiles fails for every viewer whose
  candidates contain the profile, whatever the other candidates are, and so does ranking them.\<close>

theorem partial_update_overfills_activities:
  assumes "update_own_profile fresh owner up db = (Inr p, db')" "pu_preferences up = Some (Some ids)" "distinct ids"
    and "20 < length ids + length (own_custom_rows db (prof_id p) (Some ACTIVITY))"
    and "eligible_candidate_statement db' current limit = Inr rows" "(p, ph) \<in> set rows" "prof_student_type p \<noteq> None"
    and "length (current_profile_rows db' current) = 1"
  shows "list_eligible_matching_profiles tz db' current locale limit = Inl ValueError
     \<and> load_matching_scoring_profiles tz db' current locale limit = Inl ValueError"
proof -
  note u = update_selects[OF assms(1,2)]
  have "length ids = card (set ids)" using assms(3) by (simp add: distinct_card)
  also have "\<dots> \<le> card (act_id ` set (selected_activities db' (prof_id p)))" using u(1) by (simp add: card_mono)
  also have "\<dots> \<le> length (selected_activities db' (prof_id p))"
    by (meson card_image_le card_length finite_set le_trans)
  finally have ids: "length ids \<le> length (selected_activities db' (prof_id p))" .
  have "length (custom_rows db' (prof_id p) ACTIVITY) = length (own_custom_rows db (prof_id p) (Some ACTIVITY))"
    by (simp add: custom_rows_def own_custom_rows_def length_select_by u(2) conj_commute conj_left_commute)
  with ids assms(4,7) have fails: "project_safe_profile tz db' locale (p, ph) = Inl ValueError"
    by (intro overfull_unprojectable) simp_all
  have limit: "\<not> limit < 1" using assms(5) by (auto simp: eligible_candidate_statement_def)
  have "project_safe_profiles tz db' locale rows = Inl ValueError"
    using one_failure_blocks_page[OF assms(6) fails] .
  moreover have "project_safe_profiles tz db' locale (current_profile_rows db' current @ rows) = Inl ValueError"
    by (rule one_failure_blocks_page[OF _ fails]) (use assms(6) in simp)
  ultimately show ?thesis
    using assms(5,8) limit by (simp add: list_eligible_matching_profiles_def load_matching_scoring_profiles_def)
qed

section \<open>Buddies of opposite types\<close>

text \<open>A committed profile write keeps the database well formed and leaves the relationship tables alone.\<close>

lemma writes_only_frame:
  assumes "writes_only i db db'"
  obtains P I L A C where "db' = db\<lparr>db_profiles := P, db_profile_interests := I, db_profile_languages := L,
      db_profile_activities := A, db_custom_preferences := C\<rparr>"
  using assms unfolding writes_only_def by blast

lemma write_db_ok:
  assumes "run_write uni fresh draw owner w db = (Inr n, db')" "db_ok db"
  shows "db_ok db'"
proof -
  have ok: "profiles_ok db" "custom_table_ok db"
    using assms(2) by (simp_all add: db_ok_def profiles_ok_def custom_table_ok_def)
  from any_write.advances[OF assms(1) ok(1)] ok(2) obtain q where q: "select_own_profile db' (usr_id owner) = Some q"
      "profiles_ok db'" "writes_only (prof_id q) db db'" "custom_table_ok db'" by blast
  have "prof_id q \<in> prof_id ` set (db_profiles db')"
    using q(1) unfolding select_own_profile_iff[OF q(2)] by blast
  moreover have same: "filter (\<lambda>x. prof_id x \<noteq> prof_id q) (db_profiles db') = filter (\<lambda>x. prof_id x \<noteq> prof_id q) (db_profiles db)"
    using q(3) by (simp add: writes_only_def)
  have "x \<in> set (db_profiles db')" if "x \<in> set (db_profiles db)" "prof_id x \<noteq> prof_id q" for x
    using that arg_cong[OF same, of set] by auto
  ultimately have ids: "prof_id ` set (db_profiles db) \<subseteq> prof_id ` set (db_profiles db')" by fastforce
  obtain P I L A C where "db' = db\<lparr>db_profiles := P, db_profile_interests := I, db_profile_languages := L,
      db_profile_activities := A, db_custom_preferences := C\<rparr>"
    by (rule writes_only_frame[OF q(3)])
  with assms(2) q(2,4) ids show ?thesis
    by (auto simp: db_ok_def profiles_ok_def custom_table_ok_def refs_defs list_all_iff)
qed

lemma write_keeps_relationships:
  assumes "run_write uni fresh draw owner w db = (Inr n, db')" "relationships_ok db"
  shows "relationships_ok db'" and "db_matches db' = db_matches db"
proof -
  have ok: "db_ok db" using assms(2) by (simp add: relationships_ok_def)
  then have "profiles_ok db" by (simp add: db_ok_def profiles_ok_def)
  from any_write.advances[OF assms(1) this] obtain i where i: "writes_only i db db'" by blast
  obtain P I L A C where d: "db' = db\<lparr>db_profiles := P, db_profile_interests := I, db_profile_languages := L,
      db_profile_activities := A, db_custom_preferences := C\<rparr>"
    by (rule writes_only_frame[OF i])
  then show "db_matches db' = db_matches db" by simp
  show "relationships_ok db'"
    using assms(2) write_db_ok[OF assms(1) ok]
    unfolding relationships_ok_def accepted_match_def matched_invitation_def participant_message_def by (simp add: d)
qed

definition type_of_user :: "database \<Rightarrow> uuid \<Rightarrow> student_type option" where
  "type_of_user db i = Option.bind (profile_by_user db i) prof_student_type"

definition buddies_opposite :: "database \<Rightarrow> bool" where
  "buddies_opposite db \<longleftrightarrow> (\<forall>m \<in> set (db_matches db). mat_status m = ACTIVE \<longrightarrow>
     opposite_types (type_of_user db (mat_participant_one_user_id m)) (type_of_user db (mat_participant_two_user_id m)))"

text \<open>The type of a user with an ACTIVE match does not change.\<close>

lemma own_profile_is_profile: "select_own_profile db i = profile_by_user db i"
  by (simp add: select_own_profile_def profile_by_user_def)

lemma write_keeps_types:
  assumes "run_write uni fresh draw owner w db = (Inr n, db')" "profiles_ok db"
    and "i = usr_id owner \<Longrightarrow> has_active_buddy_match i db \<and> type_of_user db i \<noteq> None"
  shows "type_of_user db' i = type_of_user db i"
proof (cases "i = usr_id owner")
  case False
  with any_write.leaves_others[OF assms(1,2)] show ?thesis
    by (simp add: type_of_user_def own_profile_is_profile)
next
  case True
  with assms(3) obtain p where p: "select_own_profile db (usr_id owner) = Some p" "has_active_buddy_match (usr_id owner) db"
    by (auto simp: type_of_user_def own_profile_is_profile Option.bind_eq_None_conv)
  with any_write.advances[OF assms(1,2)] obtain q where "select_own_profile db' (usr_id owner) = Some q"
      "prof_student_type q = prof_student_type p" by blast
  with p(1) show ?thesis by (simp add: True type_of_user_def own_profile_is_profile)
qed

lemma opposite_known: "opposite_types a b \<Longrightarrow> a \<noteq> None \<and> b \<noteq> None"
  by (auto simp: opposite_types_def doubleton_eq_iff)

lemma write_keeps_opposite:
  assumes "run_write uni fresh draw owner w db = (Inr n, db')" "relationships_ok db" "buddies_opposite db"
  shows "buddies_opposite db'"
proof -
  have ok: "profiles_ok db" using assms(2) by (simp add: relationships_ok_def db_ok_def profiles_ok_def)
  show ?thesis unfolding buddies_opposite_def write_keeps_relationships(2)[OF assms(1,2)]
  proof (intro ballI impI)
    fix m assume m: "m \<in> set (db_matches db)" "mat_status m = ACTIVE"
    with assms(3) have o: "opposite_types (type_of_user db (mat_participant_one_user_id m)) (type_of_user db (mat_participant_two_user_id m))"
      by (simp add: buddies_opposite_def)
    have "type_of_user db' i = type_of_user db i" if "i \<in> {mat_participant_one_user_id m, mat_participant_two_user_id m}" for i
      by (rule write_keeps_types[OF assms(1) ok]) (use that m opposite_known[OF o] in \<open>auto simp: has_active_buddy_match_def list_ex_iff\<close>)
    with o show "opposite_types (type_of_user db' (mat_participant_one_user_id m)) (type_of_user db' (mat_participant_two_user_id m))"
      by simp
  qed
qed

text \<open>A relationship step reads the profiles and never writes them; a new match is between opposite types.\<close>

lemma same_types: "db_profiles db' = db_profiles db \<Longrightarrow> type_of_user db' = type_of_user db"
  by (simp add: fun_eq_iff type_of_user_def profile_by_user_def)

lemma same_opposite: "db_profiles db' = db_profiles db \<Longrightarrow> set (db_matches db') \<subseteq> set (db_matches db) \<Longrightarrow>
    buddies_opposite db \<Longrightarrow> buddies_opposite db'"
  unfolding buddies_opposite_def by (drule same_types) (auto simp only:)

lemma quiet_opposite: "buddies_opposite db \<Longrightarrow> quiet db db' \<Longrightarrow> buddies_opposite db'"
  by (auto simp: quiet_def intro: same_opposite)

lemma quiet_step: "relationships_ok db \<Longrightarrow> buddies_opposite db \<Longrightarrow> (db_ok db \<Longrightarrow> quiet db db') \<Longrightarrow> buddies_opposite db'"
  using quiet_opposite by (auto simp: relationships_ok_def)

lemmas quiet_steps = decline.quiet_answer cancel.quiet_answer quiet_hide quiet_expiry quiet_send_message quiet_acknowledge
  quiet_conversation quiet_cleanup quiet_outbox

lemma locked_opposite:
  "locked_for r db p \<Longrightarrow> opposite_types (type_of_user db (inv_sender_id r)) (type_of_user db (inv_recipient_id r))"
  by (simp add: locked_for_def type_of_user_def)

lemma serves_opposite:
  "serves uni tz db db' \<Longrightarrow> relationships_ok db \<Longrightarrow> buddies_opposite db \<Longrightarrow> buddies_opposite db'"
proof (induction rule: serves.induct)
  case (later db d1 db')
  with serves_grows[OF later.hyps(1)] show ?case by (simp add: relationships_grow_def)
next
  case (sent db d1 fresh fresh_event sender pid message clock row db')
  note d1 = serves_grows[OF sent.hyps(1) sent.prems(1)]
  have "quiet d1 db'"
    using quiet_send_invitation[OF _ _ sent.hyps(2)] d1 sent.prems by (simp add: relationships_grow_def relationships_ok_def)
  with sent.IH sent.prems show ?case by (blast intro: quiet_opposite)
next
  case (accepted db d1 d2 fm fc fe current i clocks res db')
  note d1 = serves_grows[OF accepted.hyps(1) accepted.prems(1)]
  then have d1_ok: "relationships_ok d1" by (simp add: relationships_grow_def)
  note d2 = serves_grows[OF accepted.hyps(2) this]
  have opp: "buddies_opposite d2" using accepted.IH accepted.prems d1_ok by blast
  let ?other = "\<lambda>k (_ :: database). if k = 0 then d1 else d2"
  have other: "\<forall>k d. db_ok d \<longrightarrow> db_ok (?other k d)" using d1 d2 by (simp add: relationships_grow_def relationships_ok_def)
  have "db_ok db" using accepted.prems by (simp add: relationships_ok_def)
  from accept_Inr[OF other this accepted.hyps(3)]
  consider "db' = db" | "db' = d2" | (fresh) row t where "acceptable_pair uni d1 row" "completes d2 row t res db'"
    by auto
  then show ?case
  proof cases
    case fresh
    from fresh(2) obtain m where m: "set (db_matches db') = insert m (set (db_matches d2))" "db_profiles db' = db_profiles d2"
        "mat_participant_one_user_id m = inv_sender_id row" "mat_participant_two_user_id m = inv_recipient_id row"
      unfolding completes_def by (auto simp: replace_invitation_def)
    have types: "type_of_user db' = type_of_user d1" "type_of_user db' = type_of_user d2"
      using same_types[of db' d2] same_types[of d2 d1] d2 m(2) by (simp_all only: relationships_grow_def)
    from fresh(1) obtain p where "locked_for row d1 p" unfolding acceptable_pair_def by blast
    from locked_opposite[OF this]
    have "opposite_types (type_of_user db' (mat_participant_one_user_id m)) (type_of_user db' (mat_participant_two_user_id m))"
      unfolding types(1) m(3,4) .
    moreover have "opposite_types (type_of_user db' (mat_participant_one_user_id x)) (type_of_user db' (mat_participant_two_user_id x))"
      if "x \<in> set (db_matches d2)" "mat_status x = ACTIVE" for x
      using opp that unfolding buddies_opposite_def types(2) by blast
    ultimately show ?thesis unfolding buddies_opposite_def m(1) by blast
  qed (use accepted.prems opp in simp_all)
qed (assumption | rule quiet_step, assumption, assumption, rule quiet_steps, assumption, assumption)+

text \<open>
  The two subsystems together. A change of the student type and an acceptance both lock the user rows of the accounts
  they concern, so a profile write runs before or after a relationship transaction and not inside it.
\<close>

inductive platform :: "unicode_db \<Rightarrow> tz_db \<Rightarrow> database \<Rightarrow> database \<Rightarrow> bool" for uni tz where
  start: "platform uni tz db db"
| served: "platform uni tz db d \<Longrightarrow> serves uni tz d db' \<Longrightarrow> platform uni tz db db'"
| written: "platform uni tz db d \<Longrightarrow> run_write uni fresh draw owner w d = (Inr n, db') \<Longrightarrow> platform uni tz db db'"

lemma platform_invariant:
  assumes "platform uni tz db db'" "relationships_ok db" "buddies_opposite db"
  shows "relationships_ok db' \<and> buddies_opposite db' \<and> set (db_matches db) \<subseteq> set (db_matches db')"
  using assms
proof (induction rule: platform.induct)
  case (served db d db')
  then have d: "relationships_ok d" "buddies_opposite d" "set (db_matches db) \<subseteq> set (db_matches d)" by blast+
  with serves_grows[OF served.hyps(2) d(1)] serves_opposite[OF served.hyps(2) d(1,2)] show ?case
    by (auto simp: relationships_grow_def)
next
  case (written db d fresh draw owner w n db')
  then have d: "relationships_ok d" "buddies_opposite d" "set (db_matches db) \<subseteq> set (db_matches d)" by blast+
  with write_keeps_relationships[OF written.hyps(2) d(1)] write_keeps_opposite[OF written.hyps(2) d(1,2)] show ?case
    by simp
qed simp


end
