(* ===== verification/Profile_Decisions.thy ===== *)
theory Profile_Decisions
  imports Profile_Effects
begin

text \<open>
  What \<open>update_own_profile\<close> answers to a request that passed validation: each of its refusals, and the stored profile
  when there is none, so that no check constraint of the table can reject an accepted request.
\<close>

section \<open>Validated requests\<close>

lemma on_field_Inr: "on_field f x = Inr y \<longleftrightarrow> (case x of None \<Rightarrow> y = None | Some v \<Rightarrow> \<exists>w. f v = Inr w \<and> y = Some w)"
  by (auto simp: on_field_def ebind_Inr_iff split: option.splits)

lemma on_value_Inr: "on_value f x = Inr y \<longleftrightarrow> (case x of None \<Rightarrow> y = None | Some v \<Rightarrow> \<exists>w. f v = Inr w \<and> y = Some w)"
  by (auto simp: on_value_def ebind_Inr_iff split: option.splits)

lemma stripped_btrim: "pg_btrim (py_strip s) = py_strip s"
proof -
  have "py_isspace 32" by (simp add: py_isspace_def)
  with strip_by_ends[of py_isspace s] show ?thesis unfolding strip_by_idem_iff by metis
qed

definition valid_update :: "profile_update \<Rightarrow> bool" where
  "valid_update up \<longleftrightarrow>
     null_or (pu_full_name up) (\<lambda>v. \<exists>s. v = Some s \<and> 1 \<le> length s \<and> length s \<le> 120 \<and> pg_btrim s = s)
     \<and> null_or (pu_display_name up) (\<lambda>v. null_or v (\<lambda>s. 1 \<le> length s \<and> length s \<le> 80 \<and> pg_btrim s = s))
     \<and> null_or (pu_student_type up) (\<lambda>v. v \<noteq> None)
     \<and> null_or (pu_study_year up) (\<lambda>v. null_or v (\<lambda>y. 1 \<le> y \<and> y \<le> 10))
     \<and> null_or (pu_bio up) (\<lambda>v. null_or v (\<lambda>s. length s \<le> 500))"

lemma trimmed_fields:
  "on_field (trim_required n) x = Inr y \<Longrightarrow> null_or y (\<lambda>v. \<exists>s. v = Some s \<and> 1 \<le> length s \<and> length s \<le> n \<and> pg_btrim s = s)"
  "on_field (trim_optional (Some n)) x = Inr y \<Longrightarrow> null_or y (\<lambda>v. null_or v (\<lambda>s. 1 \<le> length s \<and> length s \<le> n \<and> pg_btrim s = s))"
  by (auto simp: on_field_Inr trim_required_def trim_optional_def Let_def null_or_def stripped_btrim Suc_le_eq
      split: option.splits if_splits)

lemma checked_fields:
  "on_field reject_null x = Inr y \<Longrightarrow> null_or y (\<lambda>v. v \<noteq> None)"
  "on_field (on_value (\<lambda>y. validated (P y) y)) z = Inr w \<Longrightarrow> null_or w (\<lambda>v. null_or v P)"
  by (auto simp: on_field_Inr on_value_Inr reject_null_def validated_def null_or_def split: option.splits if_splits)

lemma model_valid:
  assumes "profile_update_model tz raw = Inr up"
  shows "valid_update up"
proof -
  have v: "on_field (trim_required 120) (pu_full_name raw) = Inr (pu_full_name up)"
      "on_field (trim_optional (Some 80)) (pu_display_name raw) = Inr (pu_display_name up)"
      "on_field reject_null (pu_student_type raw) = Inr (pu_student_type up)"
      "on_field (on_value (\<lambda>y. validated (1 \<le> y \<and> y \<le> 10) y)) (pu_study_year raw) = Inr (pu_study_year up)"
      "on_field (trim_optional (Some 500)) (pu_bio raw) = Inr (pu_bio up)"
    using assms by (simp_all add: profile_update_model_def ebind_Inr_iff split: if_splits) auto
  have "null_or (pu_bio up) (\<lambda>v. null_or v (\<lambda>s. length s \<le> 500))"
    using trimmed_fields(2)[OF v(5)] by (auto simp: null_or_def split: option.splits)
  then show ?thesis
    unfolding valid_update_def using trimmed_fields(1)[OF v(1)] trimmed_fields(2)[OF v(2)] checked_fields(1)[OF v(3)] checked_fields(2)[OF v(4)]
    by blast
qed

lemma changes_check:
  assumes "profile_check p" "valid_update up"
    and "\<not> dates_reversed (set_or (pu_arrival_date up) (prof_arrival_date p)) (set_or (pu_departure_date up) (prof_departure_date p))"
  shows "profile_check ((apply_changes up p)\<lparr>prof_version := prof_version p + 1, prof_updated_at := t\<rparr>)"
proof -
  have old: "null_or (prof_full_name p) (\<lambda>s. 1 \<le> length (pg_btrim s) \<and> length (pg_btrim s) \<le> 120)"
    "null_or (prof_display_name p) (\<lambda>s. 1 \<le> length (pg_btrim s) \<and> length (pg_btrim s) \<le> 80)"
    "null_or (prof_study_year p) (\<lambda>y. 1 \<le> y \<and> y \<le> 10)" "null_or (prof_bio p) (\<lambda>s. length s \<le> 500)"
    using assms(1) unfolding profile_check_def null_or_def by blast+
  note new = assms(2)[unfolded valid_update_def]
  have "null_or (set_or (pu_full_name up) (prof_full_name p)) (\<lambda>s. 1 \<le> length (pg_btrim s) \<and> length (pg_btrim s) \<le> 120)"
    using old(1) new by (cases "pu_full_name up") (auto simp: null_or_def)
  moreover have "null_or (set_or (pu_display_name up) (prof_display_name p)) (\<lambda>s. 1 \<le> length (pg_btrim s) \<and> length (pg_btrim s) \<le> 80)"
    using old(2) new by (cases "pu_display_name up") (auto simp: null_or_def split: option.splits)
  moreover have "null_or (set_or (pu_study_year up) (prof_study_year p)) (\<lambda>y. 1 \<le> y \<and> y \<le> 10)"
    using old(3) new by (cases "pu_study_year up") (simp_all add: null_or_def)
  moreover have "null_or (set_or (pu_bio up) (prof_bio p)) (\<lambda>s. length s \<le> 500)"
    using old(4) new by (cases "pu_bio up") (simp_all add: null_or_def)
  moreover have "case prof_preferences (apply_changes up p) of None \<Rightarrow> True | Some (PyDict _) \<Rightarrow> True | _ \<Rightarrow> False" "1 \<le> prof_version p"
    using assms(1) by (simp_all add: profile_check_def apply_changes_def)
  ultimately show ?thesis
    using assms(3) unfolding profile_check_def dates_reversed_def
    by (simp add: apply_changes_def null_or_def not_less split: option.splits)
qed

section \<open>Staged activities\<close>

lemma inserts_run:
  assumes "distinct (db_profile_activities db @ rows)"
    and "\<forall>r \<in> set rows. pact_profile_id r \<in> prof_id ` set (db_profiles db) \<and> pact_activity_id r \<in> act_id ` set (db_activities db)"
  shows "\<exists>x. for_tx insert_activity rows db = (Inr x, db\<lparr>db_profile_activities := db_profile_activities db @ rows\<rparr>)"
  using assms
proof (induction rows arbitrary: db)
  case (Cons r rows)
  let ?d = "db\<lparr>db_profile_activities := db_profile_activities db @ [r]\<rparr>"
  have "insert_activity r db = (Inr (), ?d)"
    using Cons.prems by (auto simp: insert_activity_def insert_checked_def list_ex_iff)
  moreover have "\<exists>x. for_tx insert_activity rows ?d = (Inr x, ?d\<lparr>db_profile_activities := db_profile_activities ?d @ rows\<rparr>)"
    by (rule Cons.IH) (use Cons.prems in auto)
  ultimately show ?case by auto
qed simp

lemma flush_runs:
  assumes "profiles_ok db" "p \<in> set (db_profiles db)" "prof_id p' = prof_id p" "prof_user_id p' = prof_user_id p"
    and "q = p'\<lparr>prof_version := prof_version p' + 1, prof_updated_at := db_now db\<rparr>" "profile_check q"
    and "distinct (db_profile_activities db @ A)" "\<forall>r \<in> set A. pact_profile_id r = prof_id p \<and> pact_activity_id r \<in> act_id ` set (db_activities db)"
  shows "fst (flush_replacement p' [] [] A [] db) = Inr q"
proof -
  let ?d = "db\<lparr>db_profiles := update_where (\<lambda>x. prof_id x = prof_id q) (\<lambda>_. q) (db_profiles db)\<rparr>"
  have "update_checked prof_id profile_check profile_clash q (db_profiles db)
      = Inr (update_where (\<lambda>x. prof_id x = prof_id q) (\<lambda>_. q) (db_profiles db))"
    by (rule prof.update_checked_succeeds[OF _ assms(2) _ assms(6)])
      (use assms(1,3-5) in \<open>auto simp: profiles_ok_def profile_clash_def\<close>)
  then have f: "flush_profile (p'\<lparr>prof_version := prof_version p' + 1\<rparr>) db = (Inr q, ?d)"
    by (simp add: flush_profile_def assms(5) Let_def)
  have "prof_id p \<in> prof_id ` set (db_profiles ?d)"
    using assms(2) prof.keys_update[of q "db_profiles db"] by simp
  with assms(7,8) inserts_run[of ?d A] obtain x where "for_tx insert_activity A ?d = (Inr x, ?d\<lparr>db_profile_activities := db_profile_activities ?d @ A\<rparr>)"
    by auto
  with f show ?thesis by (simp add: flush_replacement_def return_tx_def)
qed

section \<open>The decision\<close>

definition profile_update_decision :: "database \<Rightarrow> student_profile \<Rightarrow> profile_update \<Rightarrow> exn + student_profile" where
  "profile_update_decision db p up =
     (if prof_version p \<noteq> pu_version up then Inl ProfileVersionConflictError
      else if pu_student_type up \<noteq> None \<and> pu_student_type up \<noteq> Some (prof_student_type p)
              \<and> has_active_buddy_match (prof_user_id p) db then Inl ProfileUpdateConflictError
      else if dates_reversed (set_or (pu_arrival_date up) (prof_arrival_date p))
                (set_or (pu_departure_date up) (prof_departure_date p)) then Inl ProfileValidationError
      else if \<not> (case pu_preferences up of Some (Some ids) \<Rightarrow> set ids \<subseteq> act_id ` set (list_selectable_activities db) | _ \<Rightarrow> True)
      then Inl ProfileValidationError
      else Inr ((apply_changes up p)\<lparr>prof_version := prof_version p + 1, prof_updated_at := db_now db\<rparr>))"

lemma staged_flush_runs:
  assumes "profiles_ok db" "distinct (db_profile_activities db)" "p \<in> set (db_profiles db)"
    and "q = (apply_changes up p)\<lparr>prof_version := prof_version p + 1, prof_updated_at := db_now db\<rparr>" "profile_check q"
    and "case pu_preferences up of Some (Some ids) \<Rightarrow> set ids \<subseteq> act_id ` set (list_selectable_activities db) | _ \<Rightarrow> True"
  shows "fst (bind_tx (stage_preferred_activities up (prof_id p))
      (\<lambda>acts. flush_replacement (apply_changes up p) [] [] acts []) db) = Inr q"
proof (cases "\<exists>ids. pu_preferences up = Some (Some ids)")
  case False
  then have "stage_preferred_activities up (prof_id p) db = (Inr [], db)"
    by (auto simp: stage_preferred_activities_def return_tx_def split: option.split)
  moreover have "fst (flush_replacement (apply_changes up p) [] [] [] [] db) = Inr q"
    by (rule flush_runs[OF assms(1,3) _ _ _ assms(5)]) (use assms(2,4) in simp_all)
  ultimately show ?thesis by simp
next
  case True
  then obtain ids where ids: "pu_preferences up = Some (Some ids)" by blast
  let ?rows = "map (\<lambda>i. \<lparr>pact_profile_id = prof_id p, pact_activity_id = i\<rparr>) (sort (remdups ids))"
  let ?d = "db\<lparr>db_profile_activities := filter (\<lambda>s. pact_profile_id s \<noteq> prof_id p) (db_profile_activities db)\<rparr>"
  have chosen: "set ids \<subseteq> act_id ` set (list_selectable_activities db)" using assms(6) by (simp add: ids)
  then have known: "act_id ` set (list_selectable_activities db) \<subseteq> act_id ` set (db_activities db)"
    by (auto simp: list_selectable_activities_def)
  show ?thesis
  proof (cases "set ids = set (read_profile_activity_ids db (prof_id p))")
    case True
    with chosen have "stage_preferred_activities up (prof_id p) db = (Inr [], db)"
      by (simp add: stage_preferred_activities_def ids replace_profile_activity_ids_def return_tx_def)
    moreover have "fst (flush_replacement (apply_changes up p) [] [] [] [] db) = Inr q"
      by (rule flush_runs[OF assms(1,3) _ _ _ assms(5)]) (use assms(2,4) in simp_all)
    ultimately show ?thesis by simp
  next
    case False
    with chosen have "stage_preferred_activities up (prof_id p) db = (Inr ?rows, ?d)"
      by (simp add: stage_preferred_activities_def ids replace_profile_activity_ids_def delete_activities_def return_tx_def)
    moreover have "fst (flush_replacement (apply_changes up p) [] [] ?rows [] ?d) = Inr q"
    proof (rule flush_runs[OF _ _ _ _ _ assms(5)])
      show "distinct (db_profile_activities ?d @ ?rows)"
        using assms(2) by (auto simp: distinct_map inj_on_def)
      show "\<forall>r \<in> set ?rows. pact_profile_id r = prof_id p \<and> pact_activity_id r \<in> act_id ` set (db_activities ?d)"
        using chosen known by auto
    qed (use assms(1,3,4) in \<open>simp_all add: profiles_ok_def\<close>)
    ultimately show ?thesis by simp
  qed
qed

lemma update_decides:
  assumes "profiles_ok db" "distinct (db_profile_activities db)" "valid_update up"
    and "user_by_id db (usr_id owner) = Some owner" "available_user (Some owner)" "select_own_profile db (usr_id owner) = Some p"
  shows "fst (update_own_profile fresh owner up db) = profile_update_decision db p up"
proof -
  have lock: "(if pu_student_type up \<noteq> None then lock_owner owner else return_tx owner) db = (Inr owner, db)"
    using assms(4,5) by (simp add: lock_owner_def lock_current_buddy_users_def return_tx_def)
  have owner: "require_profile_owner owner = Inr ()"
    using assms(5) by (simp add: require_profile_owner_def available_user_def)
  have p: "p \<in> set (db_profiles db)" "prof_user_id p = usr_id owner"
    using assms(6) unfolding select_own_profile_iff[OF assms(1)] by blast+
  then have check: "profile_check p" using prof.row_ok assms(1) by (auto simp: profiles_ok_def)
  show ?thesis
  proof (cases "prof_version p = pu_version up")
    case False
    then show ?thesis
      using lock owner own_profile_existing[OF assms(6)] by (simp add: update_own_profile_def profile_update_decision_def)
  next
    case True
    then have own: "own_profile_at_version fresh owner (pu_version up) db = (Inr p, db)"
      using owner own_profile_existing[OF assms(6)] by simp
    have type: "set_or (pu_student_type up) (prof_student_type p) \<noteq> prof_student_type p \<longleftrightarrow>
        pu_student_type up \<noteq> None \<and> pu_student_type up \<noteq> Some (prof_student_type p)"
      by (cases "pu_student_type up") auto
    let ?rest = "bind_tx (stage_preferred_activities up (prof_id p)) (\<lambda>acts. flush_replacement (apply_changes up p) [] [] acts []) db"
    have run: "update_own_profile fresh owner up db =
        (if pu_student_type up \<noteq> None \<and> pu_student_type up \<noteq> Some (prof_student_type p) \<and> has_active_buddy_match (usr_id owner) db
         then (Inl ProfileUpdateConflictError, db)
         else if dates_reversed (set_or (pu_arrival_date up) (prof_arrival_date p)) (set_or (pu_departure_date up) (prof_departure_date p))
         then (Inl ProfileValidationError, db) else ?rest)"
      using lock own by (simp add: update_own_profile_def type raise_tx_def)
    let ?known = "case pu_preferences up of Some (Some ids) \<Rightarrow> set ids \<subseteq> act_id ` set (list_selectable_activities db) | _ \<Rightarrow> True"
    have "fst ?rest = Inl ProfileValidationError" if "\<not> ?known"
      using that by (auto simp: stage_preferred_activities_def bind_tx_def query_tx_def raise_tx_def split: option.splits)
    moreover have "fst ?rest = Inr ((apply_changes up p)\<lparr>prof_version := prof_version p + 1, prof_updated_at := db_now db\<rparr>)"
      if "?known" "\<not> dates_reversed (set_or (pu_arrival_date up) (prof_arrival_date p)) (set_or (pu_departure_date up) (prof_departure_date p))"
      using staged_flush_runs[OF assms(1,2) p(1) refl changes_check[OF check assms(3) that(2)] that(1)] .
    ultimately show ?thesis
      unfolding run profile_update_decision_def using True p(2) by simp
  qed
qed


end
