(* ===== verification/Profile_Instances.thy ===== *)
theory Profile_Instances
  imports Profile_Decisions
begin

text \<open>
  Concrete runs of the profile writes, at which the properties of \<open>Profile_Versions\<close>, \<open>Preference_Results\<close>,
  \<open>Profile_Effects\<close> and \<open>Profile_Decisions\<close> are applied.
\<close>

declare One_nat_def [simp del]

section \<open>Field updates\<close>

definition bio_update :: "int \<Rightarrow> profile_update" where
  "bio_update v = \<lparr>pu_version = v, pu_full_name = None, pu_display_name = None, pu_student_type = None,
     pu_nationality = None, pu_major = None, pu_study_year = None, pu_bio = Some (Some (u ''hi'')),
     pu_home_university = None, pu_arrival_date = None, pu_departure_date = None, pu_availability = None,
     pu_preferences = None, pu_matching_opt_in = None\<rparr>"

lemma bio_update_simps [simp]:
  "pu_version (bio_update v) = v" "pu_full_name (bio_update v) = None" "pu_display_name (bio_update v) = None"
  "pu_student_type (bio_update v) = None" "pu_study_year (bio_update v) = None" "pu_bio (bio_update v) = Some (Some (u ''hi''))"
  "pu_arrival_date (bio_update v) = None" "pu_departure_date (bio_update v) = None" "pu_preferences (bio_update v) = None"
  by (simp_all add: bio_update_def)

lemma bio_valid: "valid_update (bio_update v)"
  by (simp add: valid_update_def null_or_def u_def)

lemma bio_model: "1 \<le> v \<Longrightarrow> profile_update_model tz (bio_update v) = Inr (bio_update v)"
  by (simp add: profile_update_model_def on_field_def no_field_set_def bio_update_def trim_optional_def Let_def u_def
      strip_by_def py_isspace_def)

lemma bio_update_runs:
  assumes "profiles_ok db" "distinct (db_profile_activities db)" "user_by_id db (usr_id owner) = Some owner"
    and "available_user (Some owner)" "select_own_profile db (usr_id owner) = Some p"
  shows "\<exists>n db'. run_write ascii_unicode_db 99 draw owner (Write_fields (bio_update (prof_version p))) db = (Inr n, db')
     \<and> n = prof_version p + 1"
proof -
  have p: "p \<in> set (db_profiles db)" using assms(5) unfolding select_own_profile_iff[OF assms(1)] by blast
  then have "profile_check p" using prof.row_ok assms(1) by (auto simp: profiles_ok_def)
  then have "\<not> dates_reversed (prof_arrival_date p) (prof_departure_date p)"
    by (auto simp: profile_check_def dates_reversed_def split: option.splits)
  then have "\<exists>q. fst (update_own_profile 99 owner (bio_update (prof_version p)) db) = Inr q \<and> prof_version q = prof_version p + 1"
    using update_decides[OF assms(1,2) bio_valid assms(3-5)] by (simp add: profile_update_decision_def)
  then obtain q where "fst (update_own_profile 99 owner (bio_update (prof_version p)) db) = Inr q" "prof_version q = prof_version p + 1"
    by blast
  moreover obtain r db' where "update_own_profile 99 owner (bio_update (prof_version p)) db = (r, db')" by fastforce
  ultimately show ?thesis by (simp add: return_tx_def)
qed

lemma sample_available [simp]: "available_user (Some (sample_user i))"
  by (simp add: available_user_def)

lemma sample_profiles_ok: "profiles_ok (sample_world rows)"
  using witness_population_ok db_ok_tables(2)[of witness_population]
  by (simp add: profiles_ok_def sample_profile_def witness_population_def)

lemma sample_own [simp]:
  "select_own_profile (sample_world rows) 1 = Some (sample_profile 1)"
  "select_own_profile (sample_world rows) 2 = Some (sample_profile 2)"
  by (simp_all add: own_profile_is_profile)

lemma sample_versions [simp]: "prof_version (sample_profile i) = 1"
  by (simp add: sample_profile_def witness_profile_def new_profile_def)

lemma sample_activities [simp]: "db_profile_activities (sample_world rows) = []"
  by (simp add: sample_world_def witness_population_defs)

lemma sample_write:
  assumes "i = 1 \<or> i = 2"
  obtains db' where "run_write ascii_unicode_db 99 (\<lambda>n. n) (sample_user i) (Write_fields (bio_update 1)) (sample_world rows) = (Inr 2, db')"
  using assms bio_update_runs[OF sample_profiles_ok, of rows "sample_user i" "sample_profile i" "\<lambda>n. n"] by auto

lemma sample_empty_ok: "db_ok (sample_world [])"
  by (rule sample_world_ok) (simp_all add: table_ok_def)


theorem profile_write_is_owner_bound_witness:
  "\<exists>db' q. run_write ascii_unicode_db 99 (\<lambda>n. n) (sample_user 2) (Write_fields (bio_update 1)) (sample_world []) = (Inr 2, db')
     \<and> select_own_profile db' 2 = Some q \<and> prof_version q = 2 \<and> writes_only (prof_id q) (sample_world []) db'
     \<and> select_own_profile db' 1 = Some (sample_profile 1)"
proof -
  obtain db' where run: "run_write ascii_unicode_db 99 (\<lambda>n. n) (sample_user 2) (Write_fields (bio_update 1)) (sample_world []) = (Inr 2, db')"
    by (rule sample_write[of 2 "[]"]) simp_all
  from profile_write_is_owner_bound[OF db_ok_tables(2)[OF sample_empty_ok] run, of 1] run show ?thesis by auto
qed


section \<open>Buddies\<close>

lemma completed_activities:
  assumes "completes db row t res db'"
  shows "db_profile_activities db' = db_profile_activities db" "db_profiles db' = db_profiles db" "db_users db' = db_users db"
  using assms by (auto simp: completes_def replace_invitation_def)


section \<open>The combined update\<close>

definition catalog_world :: database where
  "catalog_world = (sample_world [])\<lparr>
     db_interests := [\<lparr>intr_id = 7, intr_code = u ''x'', intr_label_en = u ''X'', intr_label_de = u ''X'',
        intr_category = u ''c'', intr_is_active = True, intr_deleted_at = None\<rparr>],
     db_languages := [\<lparr>lang_code = u ''en'', lang_label_en = u ''E'', lang_label_de = u ''E'', lang_is_active = True\<rparr>],
     db_activities := [\<lparr>act_id = 51, act_code = u ''y'', act_label_en = u ''Y'', act_label_de = u ''Y'',
        act_is_active = True, act_deleted_at = None\<rparr>]\<rparr>"

definition catalog_update :: profile_preference_update where
  "catalog_update = \<lparr>ppu_version = 1, ppu_interest_ids = [7], ppu_custom_interests = [\<lparr>cpi_label = [66]\<rparr>],
     ppu_languages = [\<lparr>ls_language_code = u ''en'', ls_proficiency = FLUENT\<rparr>], ppu_custom_languages = [],
     ppu_activity_ids = [51], ppu_custom_activities = []\<rparr>"

lemma catalog_update_model: "preference_update_model catalog_update = Inr catalog_update"
  by (simp add: preference_update_model_def catalog_update_def validated_def selection_group_ok_def custom_input_ok_def
      selection_limits language_selection_ok_def language_code_format_def u_def ascii_lower_def
      MAX_CUSTOM_PREFERENCE_INPUT_LENGTH_def MAX_CUSTOM_PREFERENCE_NORMALIZED_KEY_LENGTH_def One_nat_def)

lemma sample_messages [simp]: "db_messages (sample_world rows) = []"
  by (simp add: sample_world_def witness_population_defs)

lemma catalog_world_ok: "db_ok catalog_world"
  using sample_empty_ok by (simp add: db_ok_def catalog_world_def refs_defs list_all_iff)

lemma catalog_keys_ok: "selection_keys_ok catalog_world"
  by (simp add: selection_keys_ok_def catalog_world_def sample_world_def witness_population_defs)

lemma catalog_prepares:
  "prepare_interests ascii_unicode_db catalog_world [7] [\<lparr>cpi_label = [66]\<rparr>] =
     Inr ([7], [\<lparr>prep_display_label = [66], prep_normalized_key = [98], prep_proficiency = None\<rparr>])"
  "prepare_languages ascii_unicode_db catalog_world [\<lparr>ls_language_code = u ''en'', ls_proficiency = FLUENT\<rparr>] [] =
     Inr ([\<lparr>ls_language_code = u ''en'', ls_proficiency = FLUENT\<rparr>], [])"
  "prepare_activities ascii_unicode_db catalog_world [51] [] = Inr ([51], [])"
  by (simp_all add: prepare_interests_def prepare_languages_def prepare_activities_def catalog_world_def
      list_active_interests_def list_active_languages_def list_active_activities_def list_selectable_activities_def
      select_by_def catalog_identity_keys_def identity_or_invalid_def normalize_preference_key_def
      normalize_preference_identity_def require_safe_text_def contains_unsafe_control_def ascii_unicode_db_def
      collapse_whitespace_def py_isspace_def u_def py_casefold_def ascii_fold_def Let_def
      normalize_custom_def plain_values_def language_values_def
      MAX_CUSTOM_PREFERENCE_INPUT_LENGTH_def MAX_CUSTOM_PREFERENCE_DISPLAY_LABEL_LENGTH_def
      MAX_CUSTOM_PREFERENCE_NORMALIZED_KEY_LENGTH_def)

lemma catalog_rows:
  "own_custom_rows catalog_world 12 None = [witness_custom 43 12 INTEREST, witness_custom 44 12 LANGUAGE]"
  by (simp add: own_custom_rows_def catalog_world_def sample_world_def witness_population_def witness_database_def
      select_by_def witness_custom_def less_eq_preference_kind_def less_preference_kind_def)

lemma catalog_existing:
  "read_catalog_selections catalog_world 12 (Some [witness_custom 43 12 INTEREST, witness_custom 44 12 LANGUAGE]) =
     Inr \<lparr>sel_interest_ids = [], sel_custom_interests = [\<lparr>cps_label = [65]\<rparr>], sel_languages = [],
       sel_custom_languages = [\<lparr>cps_label = [65], cls_proficiency = FLUENT\<rparr>], sel_activity_ids = [],
       sel_custom_activities = []\<rparr>"
  by (simp add: read_catalog_selections_def custom_label_selections_def custom_language_selections_def witness_custom_def
      custom_selection_model_def custom_language_model_def validated_def language_selections_def interest_ids_def
      read_profile_activity_ids_def catalog_world_def sample_world_def witness_population_def witness_database_def select_by_def
      MAX_CUSTOM_PREFERENCE_DISPLAY_LABEL_LENGTH_def Let_def)

lemma catalog_own: "own_profile_at_version 99 (sample_user 2) 1 catalog_world = (Inr (sample_profile 2), catalog_world)"
proof -
  have "select_own_profile catalog_world (usr_id (sample_user 2)) = Some (sample_profile 2)"
    by (simp add: catalog_world_def select_own_profile_def)
  from own_profile_existing[OF this] show ?thesis by (simp add: require_profile_owner_def)
qed

lemma catalog_write:
  "\<exists>q db'. write_preferences (\<lambda>n. n) (sample_profile 2) []
     ([7], [\<lparr>prep_display_label = [66], prep_normalized_key = [98], prep_proficiency = None\<rparr>])
     ([\<lparr>ls_language_code = u ''en'', ls_proficiency = FLUENT\<rparr>], []) ([51], []) catalog_world = (Inr q, db')
   \<and> q = (sample_profile 2)\<lparr>prof_version := 2, prof_updated_at := 100\<rparr> \<and> db_profiles db' = [sample_profile 1, q]"
  by (simp add: write_preferences_def delete_interests_def delete_languages_def replace_profile_activity_ids_def
      delete_activities_def delete_custom_def flush_replacement_def interest_rows_def language_rows_def all_custom_models_def
      custom_models_def catalog_world_def sample_world_def witness_population_defs sample_profile_def flush_profile_def
      update_checked_def update_where_def profile_check_def profile_clash_def insert_interest_def insert_language_def
      insert_activity_def insert_custom_def insert_checked_def custom_preference_check_def custom_preference_clash_def
      strip_by_def MAX_CUSTOM_PREFERENCE_DISPLAY_LABEL_LENGTH_def MAX_CUSTOM_PREFERENCE_NORMALIZED_KEY_LENGTH_def u_def Let_def
      return_tx_def)

lemma catalog_run:
  obtains s db' q where "update_profile_preferences ascii_unicode_db 99 (\<lambda>n. n) (sample_user 2) catalog_update catalog_world = (Inr s, db')"
    and "select_own_profile db' 2 = Some q" "prof_deleted_at q = None" "snap_version s = 2"
proof -
  from catalog_write obtain q db' where w: "write_preferences (\<lambda>n. n) (sample_profile 2) []
     ([7], [\<lparr>prep_display_label = [66], prep_normalized_key = [98], prep_proficiency = None\<rparr>])
     ([\<lparr>ls_language_code = u ''en'', ls_proficiency = FLUENT\<rparr>], []) ([51], []) catalog_world = (Inr q, db')"
    and q: "q = (sample_profile 2)\<lparr>prof_version := 2, prof_updated_at := 100\<rparr>" "db_profiles db' = [sample_profile 1, q]"
    by blast
  have "\<exists>s. replace_own_preferences ascii_unicode_db 99 (\<lambda>n. n) (sample_user 2) catalog_update catalog_world = (Inr s, db')
      \<and> snap_version s = prof_version q"
    by (simp add: replace_own_preferences_def catalog_update_def catalog_own run_reads catalog_prepares catalog_rows
        catalog_existing preferences_changed_def w custom_label_output_def custom_language_output_def custom_selection_model_def
        validated_def MAX_CUSTOM_PREFERENCE_DISPLAY_LABEL_LENGTH_def return_tx_def)
  then obtain s where "replace_own_preferences ascii_unicode_db 99 (\<lambda>n. n) (sample_user 2) catalog_update catalog_world = (Inr s, db')"
      "snap_version s = prof_version q" by blast
  then show thesis
    by (intro that[of s db' q]) (simp_all add: update_profile_preferences_def committed_Inr q select_own_profile_def)
qed

theorem saved_preferences_are_read_back_witness:
  "\<exists>s db' v. update_profile_preferences ascii_unicode_db 99 (\<lambda>n. n) (sample_user 2) catalog_update catalog_world = (Inr s, db')
     \<and> read_profile_preferences 98 (sample_user 2) db' = (Inr v, db') \<and> set (sel_interest_ids v) = {7}
     \<and> set (sel_activity_ids v) = {51}"
proof -
  obtain s db' q where run: "update_profile_preferences ascii_unicode_db 99 (\<lambda>n. n) (sample_user 2) catalog_update catalog_world = (Inr s, db')"
    and q: "select_own_profile db' 2 = Some q" "prof_deleted_at q = None"
    by (rule catalog_run)
  from saved_preferences_are_read_back[OF catalog_world_ok catalog_keys_ok catalog_update_model run, of 98] q run
  show ?thesis by (auto simp: catalog_update_def)
qed

theorem saving_preferences_again_changes_nothing_witness:
  "\<exists>s db'. update_profile_preferences ascii_unicode_db 99 (\<lambda>n. n) (sample_user 2) catalog_update catalog_world = (Inr s, db')
     \<and> update_profile_preferences ascii_unicode_db 98 (\<lambda>n. n + 5) (sample_user 2) (catalog_update\<lparr>ppu_version := snap_version s\<rparr>) db' = (Inr s, db')"
proof -
  obtain s db' q where run: "update_profile_preferences ascii_unicode_db 99 (\<lambda>n. n) (sample_user 2) catalog_update catalog_world = (Inr s, db')"
    by (rule catalog_run)
  have "collation_agrees catalog_world"
    by (simp add: collation_agrees_def list_active_languages_def catalog_world_def select_by_def)
  from saving_preferences_again_changes_nothing[OF catalog_world_ok catalog_keys_ok catalog_update_model this run] run
  show ?thesis by blast
qed

theorem saved_preferences_keep_limits_witness:
  "\<exists>s db' q. update_profile_preferences ascii_unicode_db 99 (\<lambda>n. n) (sample_user 2) catalog_update catalog_world = (Inr s, db')
     \<and> select_own_profile db' 2 = Some q
     \<and> length (interest_ids db' (prof_id q)) + length (own_custom_rows db' (prof_id q) (Some INTEREST)) \<le> 20"
proof -
  obtain s db' q where run: "update_profile_preferences ascii_unicode_db 99 (\<lambda>n. n) (sample_user 2) catalog_update catalog_world = (Inr s, db')"
    and q: "select_own_profile db' 2 = Some q"
    by (rule catalog_run)
  from saved_preferences_keep_limits[OF catalog_world_ok catalog_keys_ok catalog_update_model run, of q] q run
  show ?thesis by auto
qed

section \<open>An overfilled profile\<close>

text \<open>Account 2 has 20 custom activities and selects one of the catalog.\<close>

definition custom_activity :: "uuid \<Rightarrow> custom_preference" where
  "custom_activity n = \<lparr>cust_id = 200 + n, cust_profile_id = 12, cust_kind = ACTIVITY, cust_display_label = [97 + n],
     cust_normalized_key = [97 + n], cust_proficiency = None, cust_deleted_at = None\<rparr>"

definition busy_world :: database where
  "busy_world = catalog_world\<lparr>db_custom_preferences := db_custom_preferences catalog_world @ map custom_activity [0..<20]\<rparr>"

definition activity_choice :: profile_update where
  "activity_choice = (bio_update 1)\<lparr>pu_preferences := Some (Some [51])\<rparr>"

definition busy_profile :: student_profile where
  "busy_profile = (sample_profile 2)\<lparr>prof_bio := Some (u ''hi''), prof_version := 2, prof_updated_at := 100\<rparr>"

definition overfull_world :: database where
  "overfull_world = busy_world\<lparr>db_profiles := [sample_profile 1, busy_profile],
     db_profile_activities := [\<lparr>pact_profile_id = 12, pact_activity_id = 51\<rparr>]\<rparr>"

lemma busy_rows: "length (own_custom_rows busy_world 12 (Some ACTIVITY)) = 20"
  by (simp add: own_custom_rows_def length_select_by busy_world_def custom_activity_def catalog_world_def sample_world_def
      witness_population_def witness_database_def witness_custom_def filter_map comp_def)

lemma busy_world_simps [simp]:
  "db_profiles busy_world = [sample_profile 1, sample_profile 2]" "db_profile_activities busy_world = []" "db_now busy_world = 100"
  "db_matches busy_world = []" "db_users busy_world = [sample_user 1, sample_user 2]"
  "map act_id (list_selectable_activities busy_world) = [51]" "act_id ` set (db_activities busy_world) = {51}"
  by (simp_all add: busy_world_def catalog_world_def list_selectable_activities_def select_by_def)

lemma busy_stage:
  "stage_preferred_activities activity_choice 12 busy_world = (Inr [\<lparr>pact_profile_id = 12, pact_activity_id = 51\<rparr>], busy_world)"
proof -
  have "51 \<in> act_id ` set (list_selectable_activities busy_world)"
    using busy_world_simps(6) by (metis list.set_intros(1) list.set_map)
  moreover have "busy_world\<lparr>db_profile_activities := []\<rparr> = busy_world"
    by (simp add: busy_world_def catalog_world_def sample_world_def witness_population_def witness_database_def)
  ultimately show ?thesis
    by (simp add: stage_preferred_activities_def activity_choice_def bind_query raise_tx_def replace_profile_activity_ids_def
        read_profile_activity_ids_def delete_activities_def return_tx_def)
qed

lemma busy_flush:
  "flush_replacement (apply_changes activity_choice (sample_profile 2)) [] []
     [\<lparr>pact_profile_id = 12, pact_activity_id = 51\<rparr>] [] busy_world = (Inr busy_profile, overfull_world)"
proof -
  let ?p = "apply_changes activity_choice (sample_profile 2)"
  have q: "?p\<lparr>prof_version := 2, prof_updated_at := 100\<rparr> = busy_profile"
    by (simp add: apply_changes_def activity_choice_def busy_profile_def sample_profile_def witness_profile_def new_profile_def
        bio_update_def)
  have "profile_check busy_profile"
    by (simp add: busy_profile_def profile_check_def sample_profile_def witness_profile_def new_profile_def u_def strip_by_def)
  then have "flush_profile (?p\<lparr>prof_version := 2\<rparr>) busy_world = (Inr busy_profile, busy_world\<lparr>db_profiles := [sample_profile 1, busy_profile]\<rparr>)"
    unfolding q[symmetric]
    by (simp add: flush_profile_def Let_def update_checked_def update_where_def profile_clash_def)
  then show ?thesis
    by (simp add: flush_replacement_def insert_activity_def insert_checked_def overfull_world_def busy_profile_def return_tx_def)
qed

lemma busy_update: "update_own_profile 99 (sample_user 2) activity_choice busy_world = (Inr busy_profile, overfull_world)"
proof -
  have own: "own_profile_at_version 99 (sample_user 2) 1 busy_world = (Inr (sample_profile 2), busy_world)"
    using own_profile_existing[of busy_world "sample_user 2" "sample_profile 2" 99 1]
    by (simp add: select_own_profile_def require_profile_owner_def)
  have "\<not> dates_reversed (prof_arrival_date (sample_profile 2)) (prof_departure_date (sample_profile 2))"
    by (simp add: dates_reversed_def sample_profile_def witness_profile_def new_profile_def)
  moreover have "pu_version activity_choice = 1" "pu_student_type activity_choice = None" "pu_arrival_date activity_choice = None"
      "pu_departure_date activity_choice = None"
    by (simp_all add: activity_choice_def)
  ultimately show ?thesis
    by (simp add: update_own_profile_def own bind_query return_tx_def busy_stage busy_flush)
qed

lemma overfull_candidates:
  "eligible_candidate_statement overfull_world (sample_principal 1) 5 = Inr [(busy_profile, witness_photo 2)]"
proof -
  have counts: "interest_count overfull_world 12 = 1" "language_count overfull_world 12 = 1"
      "count_ready_avatars overfull_world 12 = 1" "\<not> active_match_exists overfull_world i j" for i j
    by (simp_all add: overfull_world_def busy_world_def catalog_world_def sample_world_def witness_population_defs
        count_ready_avatars_def interest_count_def custom_count_def language_count_def active_match_exists_def
        custom_activity_def filter_map comp_def)
  have mine: "\<not> eligible_candidate_conditions overfull_world (sample_principal 1) usr (sample_profile 1)" for usr
    by (simp add: eligible_candidate_conditions_def)
  have "eligible_candidate_conditions overfull_world (sample_principal 1) (sample_user 2) busy_profile"
    using counts by (simp add: eligible_candidate_conditions_def busy_profile_def sample_principal_def)
      (simp add: sample_profile_def witness_profile_def new_profile_def u_def strip_by_def)
  with mine have "candidate_pairs overfull_world (sample_principal 1) = [(busy_profile, witness_photo 2)]"
    unfolding candidate_pairs_join
    by (simp add: overfull_world_def busy_profile_def)
      (simp add: busy_world_def catalog_world_def sample_world_def witness_population_defs ready_avatar_of_def)
  then show ?thesis by (simp add: statement_run)
qed

theorem partial_update_overfills_activities_witness:
  "update_own_profile 99 (sample_user 2) activity_choice busy_world = (Inr busy_profile, overfull_world)
     \<and> list_eligible_matching_profiles witness_tz overfull_world (sample_principal 1) Locale_en 5 = Inl ValueError
     \<and> load_matching_scoring_profiles witness_tz overfull_world (sample_principal 1) Locale_en 5 = Inl ValueError"
proof -
  have "length (current_profile_rows overfull_world (sample_principal 1)) = 1"
    by (simp add: current_profile_rows_def overfull_world_def busy_profile_def)
      (simp add: busy_world_def catalog_world_def sample_world_def witness_population_defs ready_avatar_of_def)
  moreover have "prof_id busy_profile = 12" "prof_student_type busy_profile \<noteq> None" "pu_preferences activity_choice = Some (Some [51])"
    by (simp_all add: busy_profile_def activity_choice_def)
  ultimately show ?thesis
    using partial_update_overfills_activities[OF busy_update _ _ _ overfull_candidates, of "[51]" "witness_photo 2" witness_tz Locale_en]
      busy_rows busy_update by simp
qed

end
