(* ===== verification/Calendar.thy ===== *)
theory Calendar
  imports Buddy_Matches Accounts
begin

text \<open>
  \<open>date.fromisoformat\<close> of the Python standard library (CPython, version 3.12), which reads the dates the code stores
  in JSON, and the inverse of the civil calendar: the date written by \<open>date.isoformat\<close> is read back.
\<close>

section \<open>Day numbers\<close>

definition day_number :: "int \<Rightarrow> int \<Rightarrow> int \<Rightarrow> date" where
  "day_number y m d =
     (let y' = (if m \<le> 2 then y - 1 else y); era = y' div 400; yoe = y' mod 400;
          mp = (if m > 2 then m - 3 else m + 9); doy = (153 * mp + 2) div 5 + d - 1;
          doe = yoe * 365 + yoe div 4 - yoe div 100 + doy
      in era * 146097 + doe - 719468)"

text \<open>\<open>date(year, month, day)\<close>: years 1 to 9999, and a day of the calendar.\<close>

definition py_date :: "int \<Rightarrow> int \<Rightarrow> int \<Rightarrow> exn + date" where
  "py_date y m d =
     (let n = day_number y m d in if 1 \<le> y \<and> y \<le> 9999 \<and> civil_date n = (y, m, d) then Inr n else Inl ValueError)"

fun parse_digits :: "nat \<Rightarrow> nat list \<Rightarrow> int \<Rightarrow> (int \<times> nat list) option" where
  "parse_digits 0 s acc = Some (acc, s)"
| "parse_digits (Suc k) [] acc = None"
| "parse_digits (Suc k) (c # s) acc =
     (if 48 \<le> c \<and> c \<le> 57 then parse_digits k s (acc * 10 + (int c - 48)) else None)"

definition iso_week1_monday :: "int \<Rightarrow> date" where
  "iso_week1_monday y =
     (let first = day_number y 1 1; first_weekday = py_weekday first; monday = first - first_weekday
      in if first_weekday > 3 then monday + 7 else monday)"

definition is_leap :: "int \<Rightarrow> bool" where
  "is_leap y \<longleftrightarrow> y mod 4 = 0 \<and> (y mod 100 \<noteq> 0 \<or> y mod 400 = 0)"

definition iso_to_date :: "int \<Rightarrow> int \<Rightarrow> int \<Rightarrow> exn + date" where
  "iso_to_date y week day =
     (let first_weekday = py_weekday (day_number y 1 1) in
      if \<not> (1 \<le> y \<and> y \<le> 9999) then Inl ValueError
      else if \<not> (1 \<le> week \<and> week \<le> 52
                 \<or> week = 53 \<and> (first_weekday = 3 \<or> first_weekday = 2 \<and> is_leap y)) then Inl ValueError
      else if \<not> (1 \<le> day \<and> day \<le> 7) then Inl ValueError
      else let n = iso_week1_monday y + (week - 1) * 7 + day - 1 in
        case civil_date n of (y', m', d') \<Rightarrow> py_date y' m' d')"

definition drop_dash :: "bool \<Rightarrow> nat list \<Rightarrow> nat list option" where
  "drop_dash uses_separator s =
     (if \<not> uses_separator then Some s else case s of c # s' \<Rightarrow> (if c = 45 then Some s' else None) | [] \<Rightarrow> None)"

text \<open>The parser works on the UTF-8 bytes; what follows a complete date is not looked at.\<close>

definition parse_isoformat_date :: "nat list \<Rightarrow> exn + date" where
  "parse_isoformat_date s =
     (case parse_digits 4 s 0 of None \<Rightarrow> Inl ValueError
      | Some (year, s1) \<Rightarrow>
          let uses_separator = (case s1 of c # _ \<Rightarrow> c = 45 | [] \<Rightarrow> False);
              s2 = (if uses_separator then tl s1 else s1)
          in case s2 of
               c # s3 \<Rightarrow>
                 if c = 87 then
                   (case parse_digits 2 s3 0 of None \<Rightarrow> Inl ValueError
                    | Some (week, s4) \<Rightarrow>
                        if s4 = [] then iso_to_date year week 1
                        else case drop_dash uses_separator s4 of None \<Rightarrow> Inl ValueError
                             | Some s5 \<Rightarrow> (case parse_digits 1 s5 0 of None \<Rightarrow> Inl ValueError
                                          | Some (day, _) \<Rightarrow> iso_to_date year week day))
                 else
                   (case parse_digits 2 s2 0 of None \<Rightarrow> Inl ValueError
                    | Some (month, s4) \<Rightarrow>
                        (case drop_dash uses_separator s4 of None \<Rightarrow> Inl ValueError
                         | Some s5 \<Rightarrow> (case parse_digits 2 s5 0 of None \<Rightarrow> Inl ValueError
                                      | Some (day, _) \<Rightarrow> py_date year month day)))
             | [] \<Rightarrow> Inl ValueError)"

definition date_fromisoformat :: "pystr \<Rightarrow> exn + date" where
  "date_fromisoformat s =
     (case utf8_encode s of
        Inl _ \<Rightarrow> Inl ValueError
      | Inr bytes \<Rightarrow> if length bytes \<in> {7, 8, 10} then parse_isoformat_date bytes else Inl ValueError)"

section \<open>The civil calendar is a bijection\<close>

definition era_estimate :: "int \<Rightarrow> int" where
  "era_estimate doe = doe - doe div 1460 + doe div 36524 - doe div 146096"

definition year_start :: "int \<Rightarrow> int" where
  "year_start y = 365 * y + y div 4 - y div 100"

lemma estimate_step: "b \<le> a + 1 \<Longrightarrow> c \<le> e \<Longrightarrow> d - a + c - 0 \<le> d + 1 - b + e - (0 :: int)"
  by simp

lemma era_estimate_step:
  assumes "0 \<le> d" "d < 146096"
  shows "era_estimate d \<le> era_estimate (d + 1)"
proof (cases "d + 1 = 146096")
  case True
  then have "d = 146095" by simp
  then show ?thesis by (simp add: era_estimate_def)
next
  case False
  then have "d div 146096 = 0" "(d + 1) div 146096 = 0" using assms by (simp_all add: div_pos_pos_trivial)
  moreover have "(d + 1) div 1460 \<le> d div 1460 + 1" "d div 36524 \<le> (d + 1) div 36524" by linarith+
  ultimately show ?thesis unfolding era_estimate_def by (simp only: estimate_step)
qed

lemma era_estimate_mono:
  assumes "0 \<le> a" "a \<le> b" "b \<le> 146096"
  shows "era_estimate a \<le> era_estimate b"
proof -
  have "era_estimate a \<le> era_estimate (a + int k)" if "a + int k \<le> 146096" for k
    using that
  proof (induction k)
    case (Suc k)
    with assms(1) have "era_estimate (a + int k) \<le> era_estimate (a + int k + 1)"
      by (intro era_estimate_step) auto
    with Suc show ?case by (simp add: algebra_simps)
  qed simp
  from this[of "nat (b - a)"] assms show ?thesis by simp
qed

lemma year_digits:
  assumes "0 \<le> (y :: int)" "y \<le> 399"
  obtains a b c where "y = 100 * c + 4 * a + b" "0 \<le> a" "a \<le> 24" "0 \<le> b" "b \<le> 3" "0 \<le> c" "c \<le> 3"
    "y div 4 = 25 * c + a" "y div 100 = c"
proof
  let ?c = "y div 100" and ?a = "y mod 100 div 4" and ?b = "y mod 100 mod 4"
  have s: "y = 100 * ?c + y mod 100" "y mod 100 = 4 * ?a + ?b" by simp_all
  show y: "y = 100 * ?c + 4 * ?a + ?b" using s by linarith
  have r: "0 \<le> y mod 100" "y mod 100 \<le> 99" "0 \<le> ?b" "?b \<le> 3" by (simp_all add: le_less_trans)
  with s(2) show "0 \<le> ?a" "?a \<le> 24" by linarith+
  show "0 \<le> ?b" "?b \<le> 3" using r by simp_all
  show "0 \<le> ?c" "?c \<le> 3" using assms s(1) r by linarith+
  show "y div 4 = 25 * ?c + ?a" using y r by linarith
  show "y div 100 = ?c" by simp
qed

text \<open>At the first day of a year the estimate is exact; one day before it is still short.\<close>

lemma year_boundary:
  assumes "0 \<le> y" "y \<le> 399"
  shows "365 * y \<le> era_estimate (year_start y)" and "0 < y \<Longrightarrow> era_estimate (year_start y - 1) < 365 * y"
proof -
  from assms obtain a b c where y: "y = 100 * c + 4 * a + b" and r: "0 \<le> a" "a \<le> 24" "0 \<le> b" "b \<le> 3" "0 \<le> c" "c \<le> 3"
    and d: "y div 4 = 25 * c + a" "y div 100 = c" by (rule year_digits)
  have s: "year_start y = 36524 * c + 1461 * a + 365 * b" unfolding year_start_def d by (simp add: y)
  have y365: "365 * y = 36500 * c + 1460 * a + 365 * b" by (simp add: y)
  have "year_start y div 1460 = 25 * c + a" "year_start y div 36524 = c" "year_start y div 146096 = 0"
    unfolding s using r by linarith+
  then show "365 * y \<le> era_estimate (year_start y)" unfolding era_estimate_def y365 by (simp add: s)
  assume "0 < y"
  then consider "0 < a + b" | "a = 0" "b = 0" "0 < c" using r y by force
  then show "era_estimate (year_start y - 1) < 365 * y"
  proof cases
    case 1
    have "(year_start y - 1) div 1460 = 25 * c + a" "(year_start y - 1) div 36524 = c" "(year_start y - 1) div 146096 = 0"
      unfolding s using r 1 by linarith+
    then show ?thesis unfolding era_estimate_def y365 by (simp add: s)
  next
    case 2
    have "(year_start y - 1) div 1460 = 25 * c" "(year_start y - 1) div 36524 = c - 1" "(year_start y - 1) div 146096 = 0"
      unfolding s using r 2 by linarith+
    then show ?thesis unfolding era_estimate_def y365 using 2 by (simp add: s)
  qed
qed

lemma year_start_bounds: "0 \<le> y \<Longrightarrow> y \<le> 399 \<Longrightarrow> 0 \<le> year_start y \<and> year_start y \<le> 145731"
  unfolding year_start_def by linarith

lemma year_step: "year_start (y + 1) - year_start y \<le> 366"
proof -
  have "(y + 1) div 4 \<le> y div 4 + 1" "y div 100 \<le> (y + 1) div 100" by linarith+
  then show ?thesis by (simp add: year_start_def)
qed

lemma div_365: "365 * (e div 365) \<le> e" "e < 365 * (e div 365 + 1)" for e :: int
proof -
  have between: "365 * q \<le> e \<and> e < 365 * (q + 1)" if "e = 365 * q + r" "0 \<le> r" "r < 365" for q r :: int using that by simp
  have "365 * (e div 365) \<le> e \<and> e < 365 * (e div 365 + 1)" by (rule between[of _ "e mod 365"]) simp_all
  then show "365 * (e div 365) \<le> e" "e < 365 * (e div 365 + 1)" by (rule conjunct1, rule conjunct2)
qed

text \<open>The estimate finds the year of the era a day lies in.\<close>

lemma year_of_era:
  assumes "0 \<le> doe" "doe \<le> 146096"
  defines "q \<equiv> era_estimate doe div 365"
  shows "0 \<le> q \<and> q \<le> 399 \<and> 0 \<le> doe - year_start q \<and> doe - year_start q \<le> 365"
proof -
  have "era_estimate 0 = 0" "era_estimate 146096 = 145999" by (simp_all add: era_estimate_def)
  with era_estimate_mono[of 0 doe] era_estimate_mono[of doe 146096] assms(1,2)
  have e: "0 \<le> era_estimate doe" "era_estimate doe \<le> 145999" by simp_all
  then have q: "0 \<le> q" "q \<le> 399" by (simp_all add: q_def)
  have div: "365 * q \<le> era_estimate doe" "era_estimate doe < 365 * (q + 1)"
    using div_365[of "era_estimate doe"] by (simp_all add: q_def)
  have lower: "year_start q \<le> doe"
  proof (rule ccontr)
    assume "\<not> year_start q \<le> doe"
    moreover from this assms(1) have "q \<noteq> 0" by (auto simp: year_start_def)
    ultimately have "era_estimate doe \<le> era_estimate (year_start q - 1)" "era_estimate (year_start q - 1) < 365 * q"
      using era_estimate_mono[of doe "year_start q - 1"] assms(1) year_start_bounds[OF q] year_boundary(2)[OF q] q by auto
    with div(1) show False by simp
  qed
  have upper: "doe - year_start q \<le> 365"
  proof (cases "q = 399")
    case True
    then show ?thesis using assms(2) by (simp add: year_start_def)
  next
    case False
    with q have q': "0 \<le> q + 1" "q + 1 \<le> 399" by simp_all
    have "doe < year_start (q + 1)"
    proof (rule ccontr)
      assume "\<not> doe < year_start (q + 1)"
      then have "era_estimate (year_start (q + 1)) \<le> era_estimate doe"
        using era_estimate_mono[of "year_start (q + 1)" doe] assms(2) year_start_bounds[OF q'] by simp
      with year_boundary(1)[OF q'] div(2) show False by simp
    qed
    with year_step[of q] show ?thesis by simp
  qed
  from q lower upper show ?thesis by simp
qed

lemma civil_date_inverse:
  assumes "civil_date n = (y, m, d)"
  shows "day_number y m d = n" and "1 \<le> m \<and> m \<le> 12" and "1 \<le> d \<and> d \<le> 31"
proof -
  let ?z = "n + 719468"
  define era doe q where "era = ?z div 146097" and "doe = ?z mod 146097" and "q = era_estimate doe div 365"
  define doy where "doy = doe - year_start q"
  define mp where "mp = (5 * doy + 2) div 153"
  have "0 \<le> doe" "doe \<le> 146096" by (simp_all add: doe_def) 
  from year_of_era[OF this] have b: "0 \<le> q" "q \<le> 399" "0 \<le> doy" "doy \<le> 365" by (simp_all add: q_def doy_def)
  then have mp: "0 \<le> mp" "mp \<le> 11" unfolding mp_def by linarith+
  have "civil_date n = (q + era * 400 + (if (if mp < 10 then mp + 3 else mp - 9) \<le> 2 then 1 else 0),
      (if mp < 10 then mp + 3 else mp - 9), doy - (153 * mp + 2) div 5 + 1)"
    unfolding civil_date_def Let_def mp_def doy_def q_def era_estimate_def year_start_def era_def doe_def by (rule refl)
  with assms have parts: "m = (if mp < 10 then mp + 3 else mp - 9)" "d = doy - (153 * mp + 2) div 5 + 1"
      "y = q + era * 400 + (if m \<le> 2 then 1 else 0)" by auto
  show "1 \<le> m \<and> m \<le> 12" using mp by (auto simp: parts(1))
  have "153 * mp \<le> 5 * doy + 2" "5 * doy + 2 < 153 * mp + 153" unfolding mp_def by linarith+
  then show "1 \<le> d \<and> d \<le> 31" unfolding parts(2) by linarith
  have inverse: "(if m \<le> 2 then y - 1 else y) = q + era * 400" "(if m > 2 then m - 3 else m + 9) = mp"
    using mp by (auto simp: parts(1,3))
  have eras: "(q + era * 400) div 400 = era" "(q + era * 400) mod 400 = q"
    using b(1,2) by (simp_all add: div_pos_pos_trivial mod_pos_pos_trivial)
  have "day_number y m d = era * 146097 + (year_start q + doy) - 719468"
    unfolding day_number_def Let_def inverse eras by (simp add: parts(2) year_start_def algebra_simps)
  also have "\<dots> = n" by (simp add: doy_def era_def doe_def)
  finally show "day_number y m d = n" .
qed

section \<open>Reading an ISO date back\<close>

definition digit_list :: "nat list \<Rightarrow> bool" where
  "digit_list ds \<longleftrightarrow> list_all (\<lambda>c. 48 \<le> c \<and> c \<le> 57) ds"

lemma parse_digits_append:
  "digit_list ds \<Longrightarrow> parse_digits (length ds) (ds @ s) acc = Some (foldl (\<lambda>a c. a * 10 + (int c - 48)) acc ds, s)"
  by (induction ds arbitrary: acc) (auto simp: digit_list_def)

lemma decimal_digits_value:
  assumes "0 \<le> v" "v < 10 ^ k"
  shows "digit_list (decimal_digits k v) \<and> length (decimal_digits k v) = k
     \<and> foldl (\<lambda>a c. a * 10 + (int c - 48)) acc (decimal_digits k v) = acc * 10 ^ k + v"
  using assms
proof (induction k arbitrary: v)
  case (Suc k)
  have "v div 10 < 10 ^ k" using Suc.prems(2) by (simp add: div_less_iff_less_mult)
  with Suc.IH[of "v div 10"] Suc.prems(1)
  have IH: "digit_list (decimal_digits k (v div 10))" "length (decimal_digits k (v div 10)) = k"
      "foldl (\<lambda>a c. a * 10 + (int c - 48)) acc (decimal_digits k (v div 10)) = acc * 10 ^ k + v div 10" by simp_all
  have "0 \<le> v mod 10" "v mod 10 < 10" by simp_all
  then have "48 \<le> nat (48 + v mod 10) \<and> nat (48 + v mod 10) \<le> 57" "int (nat (48 + v mod 10)) - 48 = v mod 10" by linarith+
  with IH show ?case by (simp add: digit_list_def algebra_simps)
qed (simp add: digit_list_def)

lemma parse_decimal:
  assumes "0 \<le> v" "v < 10 ^ k"
  shows "parse_digits k (decimal_digits k v @ s) 0 = Some (v, s)"
  using parse_digits_append[of "decimal_digits k v" s 0] decimal_digits_value[OF assms, of 0] by simp

lemma iso_date_ascii:
  assumes "civil_date n = (y, m, d)" "1 \<le> y" "y \<le> 9999"
  shows "length (iso_date n) = 10" and "list_all (\<lambda>c. c < 128) (iso_date n)"
proof -
  note c = civil_date_inverse[OF assms(1)]
  note digits = decimal_digits_value[of y 4 0] decimal_digits_value[of m 2 0] decimal_digits_value[of d 2 0]
  show "length (iso_date n) = 10" using digits assms(2,3) c(2,3) by (simp add: iso_date_def assms(1))
  show "list_all (\<lambda>c. c < 128) (iso_date n)"
    using digits assms(2,3) c(2,3) by (auto simp: iso_date_def assms(1) digit_list_def list_all_iff)
qed

lemma first_digit:
  assumes "0 \<le> v" "v < 10 ^ k" "0 < k"
  obtains c cs where "decimal_digits k v = c # cs" "48 \<le> c" "c \<le> 57"
  using decimal_digits_value[OF assms(1,2), of 0] assms(3) by (cases "decimal_digits k v") (auto simp: digit_list_def)

lemma utf8_ascii: "list_all (\<lambda>c. c < 128) s \<Longrightarrow> utf8_encode s = Inr s"
proof -
  assume "list_all (\<lambda>c. c < 128) s"
  then have "\<not> list_ex is_surrogate s \<and> concat (map utf8_char s) = s"
    by (induction s) (auto simp: is_surrogate_def utf8_char_def)
  then show ?thesis by (simp add: utf8_encode_def)
qed

lemma iso_date_read_back:
  assumes "civil_date n = (y, m, d)" "1 \<le> y" "y \<le> 9999"
  shows "date_fromisoformat (iso_date n) = Inr n"
proof -
  note c = civil_date_inverse[OF assms(1)]
  have iso: "iso_date n = decimal_digits 4 y @ 45 # decimal_digits 2 m @ 45 # decimal_digits 2 d"
    by (simp add: iso_date_def assms(1))
  obtain a as where first: "decimal_digits 2 m = a # as" "48 \<le> a" "a \<le> 57"
    by (rule first_digit[of m 2]) (use c(2) in simp_all)
  have year: "parse_digits 4 (iso_date n) 0 = Some (y, 45 # decimal_digits 2 m @ 45 # decimal_digits 2 d)"
    unfolding iso by (rule parse_decimal) (use assms(2,3) in simp_all)
  have month: "parse_digits 2 (decimal_digits 2 m @ 45 # decimal_digits 2 d) 0 = Some (m, 45 # decimal_digits 2 d)"
    by (rule parse_decimal) (use c(2) in simp_all)
  have day: "parse_digits 2 (decimal_digits 2 d) 0 = Some (d, [])"
    using parse_decimal[of d 2 "[]"] c(3) by simp
  have "parse_isoformat_date (iso_date n) = py_date y m d"
    using month first by (simp add: parse_isoformat_date_def year Let_def drop_dash_def day)
  also have "\<dots> = Inr n" using assms c(1) by (simp add: py_date_def Let_def)
  finally show ?thesis using iso_date_ascii[OF assms] by (simp add: date_fromisoformat_def utf8_ascii)
qed

end
