(* ===== verification/Invitation_Reads.thy ===== *)
theory Invitation_Reads
  imports Matching_Recommendations
begin

text \<open>
  The invitation lists of \<open>services/invitation_reads.py\<close>: the incoming and sent views of one owner, the privacy-safe
  projection of the participants' current profiles, and their current compatibility. The response models are the
  ones of \<open>schemas/matching.py\<close>. Reads return a value and leave the database alone, so they are plain functions.
\<close>

section \<open>The rows of a view\<close>

definition DEFAULT_INVITATION_PAGE_SIZE :: int where
  "DEFAULT_INVITATION_PAGE_SIZE = 20"

definition MAX_INVITATION_PAGE_SIZE :: int where
  "MAX_INVITATION_PAGE_SIZE = 50"

datatype invitation_view = Incoming_view | Sent_view

record invitation_row =
  ir_id :: uuid
  ir_status :: invitation_status
  ir_created_at :: instant
  ir_expires_at :: instant
  ir_participant_user_id :: uuid
  ir_message :: "pystr option"

definition validate_invitation_page :: "int \<Rightarrow> int \<Rightarrow> exn + unit" where
  "validate_invitation_page page page_size =
     (if page < 1 then Inl ValueError
      else if \<not> (1 \<le> page_size \<and> page_size \<le> MAX_INVITATION_PAGE_SIZE) then Inl ValueError else Inr ())"

definition validate_reference_week :: "date \<Rightarrow> exn + unit" where
  "validate_reference_week reference_week_start =
     (if py_weekday reference_week_start \<noteq> 0 then Inl ValueError else Inr ())"

fun visibility_conditions :: "invitation_view \<Rightarrow> uuid \<Rightarrow> instant \<Rightarrow> invitation \<Rightarrow> bool" where
  "visibility_conditions Incoming_view owner_user_id moment r \<longleftrightarrow>
     inv_recipient_id r = owner_user_id \<and> effective_pending_predicate moment r \<and> inv_deleted_at r = None"
| "visibility_conditions Sent_view owner_user_id moment r \<longleftrightarrow>
     inv_sender_id r = owner_user_id
     \<and> (effective_pending_predicate moment r \<or> inv_status r = ACCEPTED \<and> inv_sender_hidden_at r = None)
     \<and> inv_deleted_at r = None"

text \<open>\<open>ORDER BY created_at DESC, id DESC\<close>.\<close>

definition visible_invitations :: "invitation_view \<Rightarrow> uuid \<Rightarrow> instant \<Rightarrow> invitation list \<Rightarrow> invitation list" where
  "visible_invitations view owner_user_id moment rows =
     rev (select_by (\<lambda>r. (inv_created_at r, inv_id r)) (visibility_conditions view owner_user_id moment) rows)"

fun view_row :: "invitation_view \<Rightarrow> invitation \<Rightarrow> invitation_row" where
  "view_row Incoming_view r = \<lparr>ir_id = inv_id r, ir_status = inv_status r, ir_created_at = inv_created_at r,
     ir_expires_at = inv_expires_at r, ir_participant_user_id = inv_sender_id r, ir_message = Some (inv_message r)\<rparr>"
| "view_row Sent_view r = \<lparr>ir_id = inv_id r, ir_status = inv_status r, ir_created_at = inv_created_at r,
     ir_expires_at = inv_expires_at r, ir_participant_user_id = inv_recipient_id r, ir_message = None\<rparr>"

definition list_invitation_rows ::
    "database \<Rightarrow> invitation_view \<Rightarrow> uuid \<Rightarrow> int \<Rightarrow> int \<Rightarrow> instant \<Rightarrow> invitation_row list \<times> nat" where
  "list_invitation_rows db view owner_user_id page page_size moment =
     (let visible = visible_invitations view owner_user_id moment (db_invitations db) in
      (map (view_row view) (take (nat page_size) (drop (nat ((page - 1) * page_size)) visible)), length visible))"

section \<open>The participants\<close>

record safe_invitation_profile =
  sip_id :: uuid
  sip_display_name :: "pystr option"
  sip_student_type :: "student_type option"
  sip_major :: "pystr option"
  sip_avatar :: "safe_avatar option"
  sip_interests :: "safe_preference list"
  sip_languages :: "safe_language list"
  sip_activities :: "safe_preference list"
  sip_availability :: "weekly_availability option"

definition safe_invitation_profile_model :: "safe_invitation_profile \<Rightarrow> exn + safe_invitation_profile" where
  "safe_invitation_profile_model v =
     require_value
       (null_or (sip_display_name v) (\<lambda>s. length s \<le> 80)
        \<and> length (sip_interests v) \<le> 20 \<and> length (sip_languages v) \<le> 10 \<and> length (sip_activities v) \<le> 20) v"

text \<open>The outer join with the READY avatar, ordered by user.\<close>

definition participant_rows :: "database \<Rightarrow> uuid list \<Rightarrow> (student_profile \<times> profile_photo option) list" where
  "participant_rows db user_ids =
     sort_key (\<lambda>row. prof_user_id (fst row))
       [(p, ph). p \<leftarrow> db_profiles db, prof_user_id p \<in> set user_ids \<and> prof_deleted_at p = None,
          ph \<leftarrow> (case filter (ready_avatar_of p) (db_photos db) of [] \<Rightarrow> [None] | phs \<Rightarrow> map Some phs)]"

definition labelled_custom_rows :: "database \<Rightarrow> uuid \<Rightarrow> preference_kind \<Rightarrow> custom_preference list" where
  "labelled_custom_rows db profile_id kind =
     select_by (\<lambda>c. (db_collation db (cust_display_label c), cust_id c))
       (\<lambda>c. cust_profile_id c = profile_id \<and> cust_kind c = kind \<and> cust_deleted_at c = None)
       (db_custom_preferences db)"

definition custom_preference_item :: "custom_preference \<Rightarrow> safe_preference" where
  "custom_preference_item c =
     \<lparr>spref_id = None, spref_code = None, spref_label = cust_display_label c, spref_is_custom = True\<rparr>"

definition participant_interests :: "database \<Rightarrow> catalog_locale \<Rightarrow> uuid \<Rightarrow> exn + safe_preference list" where
  "participant_interests db locale profile_id =
     emap safe_preference_model
       (map (\<lambda>i. \<lparr>spref_id = Some (intr_id i), spref_code = Some (intr_code i),
                 spref_label = localized locale (intr_label_en i) (intr_label_de i), spref_is_custom = False\<rparr>)
          (sort_key (\<lambda>i. (db_collation db (intr_category i), db_collation db (intr_code i)))
             (selected_interests db profile_id))
        @ map custom_preference_item (labelled_custom_rows db profile_id INTEREST))"

definition participant_activities :: "database \<Rightarrow> catalog_locale \<Rightarrow> uuid \<Rightarrow> exn + safe_preference list" where
  "participant_activities db locale profile_id =
     emap safe_preference_model
       (map (\<lambda>a. \<lparr>spref_id = Some (act_id a), spref_code = Some (act_code a),
                 spref_label = localized locale (act_label_en a) (act_label_de a), spref_is_custom = False\<rparr>)
          (sort_key (\<lambda>a. db_collation db (act_code a)) (selected_activities db profile_id))
        @ map custom_preference_item (labelled_custom_rows db profile_id ACTIVITY))"

definition participant_languages :: "database \<Rightarrow> catalog_locale \<Rightarrow> uuid \<Rightarrow> exn + safe_language list" where
  "participant_languages db locale profile_id =
     emap safe_language_model
       (map (\<lambda>(l, proficiency). \<lparr>slang_code = Some (lang_code l),
                 slang_label = localized locale (lang_label_en l) (lang_label_de l),
                 slang_proficiency = proficiency, slang_is_custom = False\<rparr>)
          (sort_key (\<lambda>row. db_collation db (lang_code (fst row)))
             [(l, plang_proficiency s). s \<leftarrow> db_profile_languages db, plang_profile_id s = profile_id,
                l \<leftarrow> db_languages db, lang_code l = plang_language_code s \<and> lang_is_active l])
        @ concat (map (\<lambda>c. case cust_proficiency c of None \<Rightarrow> []
              | Some proficiency \<Rightarrow> [\<lparr>slang_code = None, slang_label = cust_display_label c,
                   slang_proficiency = proficiency, slang_is_custom = True\<rparr>])
            (labelled_custom_rows db profile_id LANGUAGE)))"

text \<open>
  Every failure here is the \<open>ValidationError\<close> of some response model, which is a \<open>ValueError\<close>; so the order in
  which the source visits the rows (all interests, all languages, ...) does not show.
\<close>

definition project_participant ::
    "tz_db \<Rightarrow> database \<Rightarrow> catalog_locale \<Rightarrow> student_profile \<times> profile_photo option
       \<Rightarrow> exn + uuid \<times> safe_invitation_profile" where
  "project_participant tz db locale row =
     (let p = fst row in
      ebind (participant_interests db locale (prof_id p)) (\<lambda>interests.
      ebind (participant_languages db locale (prof_id p)) (\<lambda>languages.
      ebind (participant_activities db locale (prof_id p)) (\<lambda>activities.
      ebind (case snd row of None \<Rightarrow> Inr None
             | Some ph \<Rightarrow> ebind (safe_avatar_model \<lparr>sav_id = photo_id ph, sav_width = photo_width ph,
                 sav_height = photo_height ph\<rparr>) (\<lambda>a. Inr (Some a))) (\<lambda>avatar.
      ebind (case prof_availability p of None \<Rightarrow> Inr None
             | Some a \<Rightarrow> ebind (validate_availability tz a) (\<lambda>v. Inr (Some v))) (\<lambda>availability.
      ebind (safe_invitation_profile_model \<lparr>sip_id = prof_id p, sip_display_name = prof_display_name p,
               sip_student_type = prof_student_type p, sip_major = prof_major p, sip_avatar = avatar,
               sip_interests = interests, sip_languages = languages, sip_activities = activities,
               sip_availability = availability\<rparr>) (\<lambda>v. Inr (prof_user_id p, v))))))))"

text \<open>The dictionary by user id, as the list of its assignments; a later assignment wins.\<close>

definition load_safe_participant_profiles ::
    "tz_db \<Rightarrow> database \<Rightarrow> uuid list \<Rightarrow> catalog_locale \<Rightarrow> exn + (uuid \<times> safe_invitation_profile) list" where
  "load_safe_participant_profiles tz db user_ids locale =
     (if user_ids = [] then Inr [] else emap (project_participant tz db locale) (participant_rows db user_ids))"

definition dict_get :: "('k \<times> 'v) list \<Rightarrow> 'k \<Rightarrow> 'v option" where
  "dict_get assignments k = map_of (rev assignments) k"

section \<open>Current compatibility\<close>

definition as_scoring_profile :: "safe_invitation_profile \<Rightarrow> exn + safe_profile option" where
  "as_scoring_profile v =
     (case (sip_student_type v, sip_avatar v) of
        (Some t, Some a) \<Rightarrow>
          if sip_interests v = [] \<or> sip_languages v = [] then Inr None
          else ebind (safe_profile_model \<lparr>sp_id = sip_id v, sp_display_name = sip_display_name v,
                   sp_full_name = None, sp_student_type = t, sp_bio = None, sp_major = sip_major v,
                   sp_study_year = None, sp_nationality = None, sp_home_university = None, sp_avatar = a,
                   sp_interests = sip_interests v, sp_languages = sip_languages v,
                   sp_activities = sip_activities v, sp_availability = sip_availability v\<rparr>) (\<lambda>p. Inr (Some p))
      | _ \<Rightarrow> Inr None)"

text \<open>The score and its explanation, which are present or absent together.\<close>

definition current_compatibility ::
    "unicode_db \<Rightarrow> tz_db \<Rightarrow> uuid \<Rightarrow> safe_invitation_profile \<Rightarrow> uuid \<Rightarrow> safe_invitation_profile \<Rightarrow> date
       \<Rightarrow> exn + (int \<times> compatibility_explanation) option" where
  "current_compatibility uni tz current_user_id current_profile participant_user_id participant_profile
       reference_week_start =
     ebind (as_scoring_profile current_profile) (\<lambda>scoring_current.
     ebind (as_scoring_profile participant_profile) (\<lambda>scoring_participant.
     case (scoring_current, scoring_participant) of
       (Some a, Some b) \<Rightarrow>
         let current = \<lparr>elig_user_id = current_user_id, elig_profile_id = sip_id current_profile,
               elig_student_type = sp_student_type a, elig_semester_id = None\<rparr>;
             participant = \<lparr>elig_user_id = participant_user_id, elig_profile_id = sip_id participant_profile,
               elig_student_type = sp_student_type b, elig_semester_id = None\<rparr>
         in if \<not> matching_pair_is_eligible current participant then Inr None
            else ebind (score_eligible_pair uni tz current participant a b reference_week_start) (\<lambda>score.
                 ebind (project_compatibility_explanation score) (\<lambda>explanation.
                 Inr (Some (cs_score score, explanation))))
     | _ \<Rightarrow> Inr None))"

section \<open>The two lists\<close>

record incoming_invitation =
  ici_id :: uuid
  ici_status :: invitation_status
  ici_created_at :: instant
  ici_expires_at :: instant
  ici_score :: "int option"
  ici_explanation :: "compatibility_explanation option"
  ici_sender :: safe_invitation_profile
  ici_message :: pystr

record sent_invitation =
  sei_id :: uuid
  sei_status :: invitation_status
  sei_created_at :: instant
  sei_expires_at :: instant
  sei_score :: "int option"
  sei_explanation :: "compatibility_explanation option"
  sei_recipient :: safe_invitation_profile

definition read_item_ok :: "int option \<Rightarrow> compatibility_explanation option \<Rightarrow> bool" where
  "read_item_ok score explanation \<longleftrightarrow>
     null_or score (\<lambda>n. 0 \<le> n \<and> n \<le> 100) \<and> (score = None) = (explanation = None)"

definition incoming_invitation_model :: "incoming_invitation \<Rightarrow> exn + incoming_invitation" where
  "incoming_invitation_model v =
     require_value (read_item_ok (ici_score v) (ici_explanation v) \<and> length (ici_message v) \<le> 10000) v"

definition sent_invitation_model :: "sent_invitation \<Rightarrow> exn + sent_invitation" where
  "sent_invitation_model v = require_value (read_item_ok (sei_score v) (sei_explanation v)) v"

record 'a page_response =
  pg_items :: "'a list"
  pg_page :: int
  pg_page_size :: int
  pg_total :: int
  pg_total_pages :: int
  pg_reference_week_start :: date

definition page_response_model :: "'a list \<Rightarrow> int \<Rightarrow> int \<Rightarrow> nat \<Rightarrow> date \<Rightarrow> exn + 'a page_response" where
  "page_response_model items page page_size count reference_week_start =
     (let total_pages = (if count \<noteq> 0 then \<lceil>float64 (of_nat count / of_int page_size)\<rceil> else 0) in
      require_value (1 \<le> page \<and> 1 \<le> page_size \<and> page_size \<le> 50 \<and> 0 \<le> total_pages)
        \<lparr>pg_items = items, pg_page = page, pg_page_size = page_size, pg_total = int count,
         pg_total_pages = total_pages, pg_reference_week_start = reference_week_start\<rparr>)"

definition incoming_item ::
    "unicode_db \<Rightarrow> tz_db \<Rightarrow> uuid \<Rightarrow> (uuid \<times> safe_invitation_profile) list \<Rightarrow> safe_invitation_profile \<Rightarrow> date
       \<Rightarrow> invitation_row \<Rightarrow> exn + incoming_invitation" where
  "incoming_item uni tz owner profiles current_profile reference_week_start row =
     (case (dict_get profiles (ir_participant_user_id row), ir_message row) of
        (Some sender, Some message) \<Rightarrow>
          ebind (current_compatibility uni tz owner current_profile (ir_participant_user_id row) sender
                   reference_week_start) (\<lambda>compatibility.
          incoming_invitation_model \<lparr>ici_id = ir_id row, ici_status = ir_status row, ici_created_at = ir_created_at row,
            ici_expires_at = ir_expires_at row, ici_score = map_option fst compatibility,
            ici_explanation = map_option snd compatibility, ici_sender = sender, ici_message = message\<rparr>)
      | _ \<Rightarrow> Inl InvitationReadStateError)"

definition sent_item ::
    "unicode_db \<Rightarrow> tz_db \<Rightarrow> uuid \<Rightarrow> (uuid \<times> safe_invitation_profile) list \<Rightarrow> safe_invitation_profile \<Rightarrow> date
       \<Rightarrow> invitation_row \<Rightarrow> exn + sent_invitation" where
  "sent_item uni tz owner profiles current_profile reference_week_start row =
     (case dict_get profiles (ir_participant_user_id row) of
        None \<Rightarrow> Inl InvitationReadStateError
      | Some recipient \<Rightarrow>
          ebind (current_compatibility uni tz owner current_profile (ir_participant_user_id row) recipient
                   reference_week_start) (\<lambda>compatibility.
          sent_invitation_model \<lparr>sei_id = ir_id row, sei_status = ir_status row, sei_created_at = ir_created_at row,
            sei_expires_at = ir_expires_at row, sei_score = map_option fst compatibility,
            sei_explanation = map_option snd compatibility, sei_recipient = recipient\<rparr>))"

definition list_incoming_invitations ::
    "unicode_db \<Rightarrow> tz_db \<Rightarrow> database \<Rightarrow> verified_buddy_principal \<Rightarrow> catalog_locale \<Rightarrow> int \<Rightarrow> int \<Rightarrow> date \<Rightarrow> clock_value
       \<Rightarrow> exn + incoming_invitation page_response" where
  "list_incoming_invitations uni tz db current locale page page_size reference_week_start clock =
     ebind (validate_invitation_page page page_size) (\<lambda>_.
     ebind (validate_reference_week reference_week_start) (\<lambda>_.
     ebind (aware ValueError clock) (\<lambda>moment.
     let owner = usr_id (principal_user current);
         (rows, matching_rows) = list_invitation_rows db Incoming_view owner page page_size moment
     in if rows = [] then page_response_model [] page page_size matching_rows reference_week_start
        else ebind (load_safe_participant_profiles tz db (owner # map ir_participant_user_id rows) locale) (\<lambda>profiles.
        case dict_get profiles owner of
          None \<Rightarrow> Inl InvitationReadStateError
        | Some current_profile \<Rightarrow>
            ebind (emap (incoming_item uni tz owner profiles current_profile reference_week_start) rows) (\<lambda>items.
            page_response_model items page page_size matching_rows reference_week_start)))))"

definition list_sent_invitations ::
    "unicode_db \<Rightarrow> tz_db \<Rightarrow> database \<Rightarrow> verified_buddy_principal \<Rightarrow> catalog_locale \<Rightarrow> int \<Rightarrow> int \<Rightarrow> date \<Rightarrow> clock_value
       \<Rightarrow> exn + sent_invitation page_response" where
  "list_sent_invitations uni tz db current locale page page_size reference_week_start clock =
     ebind (validate_invitation_page page page_size) (\<lambda>_.
     ebind (validate_reference_week reference_week_start) (\<lambda>_.
     ebind (aware ValueError clock) (\<lambda>moment.
     let owner = usr_id (principal_user current);
         (rows, matching_rows) = list_invitation_rows db Sent_view owner page page_size moment
     in if rows = [] then page_response_model [] page page_size matching_rows reference_week_start
        else ebind (load_safe_participant_profiles tz db (owner # map ir_participant_user_id rows) locale) (\<lambda>profiles.
        case dict_get profiles owner of
          None \<Rightarrow> Inl InvitationReadStateError
        | Some current_profile \<Rightarrow>
            ebind (emap (sent_item uni tz owner profiles current_profile reference_week_start) rows) (\<lambda>items.
            page_response_model items page page_size matching_rows reference_week_start)))))"

end
