(* ===== verification/Invitation_Views.thy ===== *)
theory Invitation_Views
  imports Invitation_Reads
begin

text \<open>
  What the invitation lists guarantee: they show exactly what their owner can still act on, an answered invitation
  never comes back, a page is an exact slice with the participants' current projections, and both parties of an
  invitation see the same compatibility.
\<close>

section \<open>What a view contains\<close>

lemma mem_visible [simp]:
  "r \<in> set (visible_invitations view owner moment rows) \<longleftrightarrow> r \<in> set rows \<and> visibility_conditions view owner moment r"
  by (simp add: visible_invitations_def)

lemma visible_sorted:
  "sorted_wrt (\<lambda>a b. (inv_created_at b, inv_id b) \<le> (inv_created_at a, inv_id a)) (visible_invitations view owner moment rows)"
  using sorted_select_by[of "\<lambda>r. (inv_created_at r, inv_id r)" "visibility_conditions view owner moment" rows]
  by (simp add: visible_invitations_def sorted_wrt_rev sorted_wrt_map)

lemma visible_distinct: "distinct rows \<Longrightarrow> distinct (visible_invitations view owner moment rows)"
  by (simp add: visible_invitations_def distinct_select_by)

lemma answer_changes:
  assumes "r \<in> set (db_invitations db)" "inv_id r' = inv_id r" "r' \<noteq> r"
  shows "replace_invitation r' db \<noteq> db"
proof
  assume "replace_invitation r' db = db"
  then have "update_where (\<lambda>x. inv_id x = inv_id r) (\<lambda>_. r') (db_invitations db) = db_invitations db"
    by (metis assms(2) database.select_convs(11) database.surjective database.update_convs(11) replace_invitation_def)
  then have "\<forall>x \<in> set (db_invitations db). (if inv_id x = inv_id r then r' else x) = x"
    unfolding update_where_def by (simp add: map_idI list_eq_iff_nth_eq all_set_conv_all_nth)
  with assms show False by auto
qed

lemma addressed_own:
  assumes "db_ok db" "r \<in> set (db_invitations db)"
  shows "addressed_invitation db (inv_id r) own owner = (if owned_by owner own r \<and> inv_deleted_at r = None then Some r else None)"
proof (cases "owned_by owner own r \<and> inv_deleted_at r = None")
  case True
  then show ?thesis unfolding addressed_invitation_def
    by (simp, intro find_unique) (auto intro: assms inv.key_inj[OF db_ok_tables(5)[OF assms(1)]])
next
  case False
  have "addressed_invitation db (inv_id r) own owner \<noteq> Some x" for x
    using False inv.key_inj[OF db_ok_tables(5)[OF assms(1)], of x r] assms(2) by (auto dest!: addressed_SomeD)
  with False show ?thesis by auto
qed

lemma stamped_differs: "target \<noteq> PENDING \<Longrightarrow> inv_status r = PENDING \<Longrightarrow> flushed db (stamped target t r) \<noteq> r"
  by (rule notI, drule arg_cong[of _ _ inv_status]) (simp add: flushed_def stamped_def split: if_splits)

context pending_answer
begin

lemma changes_iff:
  assumes "db_ok db" "r \<in> set (db_invitations db)"
  shows "snd (answer p (inv_id r) (Aware t) db) \<noteq> db \<longleftrightarrow>
     owned_by owner (usr_id (principal_user p)) r \<and> inv_deleted_at r = None \<and> answerable t r"
    (is "?changed \<longleftrightarrow> ?own \<and> ?live \<and> _")
proof (cases "?own \<and> ?live \<and> answerable t r")
  case True
  then have "addressed_invitation db (inv_id r) (usr_id (principal_user p)) owner = Some r"
    by (simp add: addressed_own[OF assms])
  moreover have "flushed db (stamped target t r) \<noteq> r"
    using True target_cases by (intro stamped_differs) (auto simp: answerable_def)
  ultimately show ?thesis
    using True commit[OF assms(1), of "inv_id r" p r t] answer_changes[OF assms(2), of "flushed db (stamped target t r)"]
    by (auto simp: flushed_def stamped_def)
next
  case False
  have "snd (answer p (inv_id r) (Aware t) db) = db"
    using assms(1)
  proof (cases rule: answer_cases[of db p "inv_id r" "Aware t"])
    case (changed r' t')
    with False show ?thesis by (auto simp: addressed_own[OF assms] split: if_splits)
  qed auto
  with False show ?thesis by blast
qed

end

lemma hide_changes_iff:
  assumes "db_ok db" "r \<in> set (db_invitations db)" "\<And>t0. inv_responded_at r = Some t0 \<Longrightarrow> t0 \<le> t"
  shows "snd (hide_accepted_invitation_from_sender p (inv_id r) (Aware t) db) \<noteq> db \<longleftrightarrow>
     inv_sender_id r = usr_id (principal_user p) \<and> inv_deleted_at r = None \<and> inv_status r = ACCEPTED
     \<and> inv_sender_hidden_at r = None"
    (is "?changed \<longleftrightarrow> ?can")
proof
  assume ?changed
  show ?can
    using assms(1)
  proof (cases rule: hide_cases[of db p "inv_id r" "Aware t"])
    case (hidden r' t')
    then show ?thesis by (auto simp: addressed_own[OF assms(1,2)] split: if_splits)
  qed (use \<open>?changed\<close> in auto)
next
  assume can: ?can
  let ?r = "r\<lparr>inv_sender_hidden_at := Some t\<rparr>"
  have chk: "invitation_check r" by (rule inv.row_ok[OF db_ok_tables(5)[OF assms(1)] assms(2)])
  with can obtain t0 where t0: "inv_responded_at r = Some t0" "t0 \<le> t"
    using assms(3) by (auto simp: invitation_check_def invitation_status_timestamps_def)
  have ok: "invitation_check ?r" using hide_check[OF chk _ t0] can by simp
  have "addressed_invitation db (inv_id r) (usr_id (principal_user p)) Sender = Some r"
    using can by (simp add: addressed_own[OF assms(1,2)])
  moreover have "flush_invitation ?r db = (Inr (flushed db ?r), replace_invitation (flushed db ?r) db)"
    using flush_invitation_run[OF assms(1,2) _ _ _ ok] can by (simp add: inv_pair_def replace_invitation_def)
  ultimately have "hide_accepted_invitation_from_sender p (inv_id r) (Aware t) db =
      (Inr (mutation_result (flushed db ?r)), replace_invitation (flushed db ?r) db)"
    using can t0 by (simp add: hide_accepted_invitation_from_sender_def load_owned_run
        invitation_hide_from_sender_def require_aware_def)
  moreover have "flushed db ?r \<noteq> r"
    by (rule notI, drule arg_cong[of _ _ inv_sender_hidden_at]) (simp add: flushed_def can)
  then have "replace_invitation (flushed db ?r) db \<noteq> db"
    using answer_changes[OF assms(2), of "flushed db ?r"] by (simp add: flushed_def)
  ultimately show ?changed by simp
qed

text \<open>The two views are exactly what their owner can still act on. At a clock that is not before the stored timestamps
  of an invitation, the recipient's view shows it if and only if declining it would change the database, and the
  sender's view shows it if and only if cancelling it or hiding it would.\<close>

theorem views_show_what_the_owner_can_act_on:
  assumes "db_ok db" "r \<in> set (db_invitations db)" "inv_created_at r \<le> t"
    and "\<And>t0. inv_responded_at r = Some t0 \<Longrightarrow> t0 \<le> t"
  shows "(r \<in> set (visible_invitations Incoming_view (usr_id (principal_user p)) t (db_invitations db)) \<longleftrightarrow>
       snd (decline_matching_invitation p (inv_id r) (Aware t) db) \<noteq> db)
     \<and> (r \<in> set (visible_invitations Sent_view (usr_id (principal_user p)) t (db_invitations db)) \<longleftrightarrow>
       snd (cancel_matching_invitation p (inv_id r) (Aware t) db) \<noteq> db
       \<or> snd (hide_accepted_invitation_from_sender p (inv_id r) (Aware t) db) \<noteq> db)"
  using decline.changes_iff[OF assms(1,2), of p t] cancel.changes_iff[OF assms(1,2), of p t]
    hide_changes_iff[OF assms(1,2,4), of p] assms(2,3)
  by (auto simp: answerable_def effective_pending_predicate_def)

lemma evolved_row:
  assumes "invitations_evolve rows rows'" "distinct (map inv_id rows')" "r \<in> set rows" "x \<in> set rows'" "inv_id x = inv_id r"
  shows "lifecycle_step\<^sup>*\<^sup>* r x"
proof -
  from assms(1) obtain kept new where k: "rows' = kept @ new" "list_all2 lifecycle_step\<^sup>*\<^sup>* rows kept"
    by (auto simp: invitations_evolve_def)
  from k(2) assms(3) obtain y where y: "y \<in> set kept" "lifecycle_step\<^sup>*\<^sup>* r y"
    by (metis in_set_conv_nth list_all2_lengthD list_all2_nthD nth_mem)
  have "y = x" using distinct_map_unique[OF assms(2), of y x] y assms(4,5) k(1) lifecycle_steps_frame[OF y(2)] by auto
  with y(2) show ?thesis by simp
qed

lemma lifecycle_steps_hidden:
  "lifecycle_step\<^sup>*\<^sup>* r r' \<Longrightarrow> inv_status r = ACCEPTED \<Longrightarrow> inv_sender_hidden_at r \<noteq> None \<Longrightarrow>
     inv_status r' = ACCEPTED \<and> inv_sender_hidden_at r' \<noteq> None"
  by (induction rule: rtranclp_induct) (auto elim: lifecycle_step.cases simp: answerable_def)

text \<open>An invitation no view shows to its owner any more, and never will.\<close>

definition settled :: "invitation \<Rightarrow> bool" where
  "settled r \<longleftrightarrow> inv_status r \<noteq> PENDING \<and> (inv_status r = ACCEPTED \<longrightarrow> inv_sender_hidden_at r \<noteq> None)"

lemma settled_not_visible: "settled r \<Longrightarrow> \<not> visibility_conditions view owner t r"
  by (cases view) (auto simp: settled_def effective_pending_predicate_def)

lemma settled_evolves: "lifecycle_step\<^sup>*\<^sup>* r r' \<Longrightarrow> settled r \<Longrightarrow> settled r'"
  using lifecycle_steps_terminal[of r r'] lifecycle_steps_hidden[of r r'] by (auto simp: settled_def)

context pending_answer
begin

lemma settles:
  assumes "db_ok db" "answer p i c db = (Inr res, db')"
  shows "db_ok db' \<and> (\<exists>r \<in> set (db_invitations db'). inv_id r = i \<and> settled r)"
proof -
  have "\<exists>r. addressed_invitation db' i (usr_id (principal_user p)) owner = Some r \<and> inv_status r = target"
    using assms(1)
  proof (cases rule: answer_cases[of db p i c])
    case (changed r t)
    let ?r = "flushed db (stamped target t r)"
    have "addressed_invitation db' i (usr_id (principal_user p)) owner = Some ?r"
      using changed(4) assms(2) addressed_replaced[OF assms(1) changed(1), of ?r] by (simp add: flushed_def stamped_def)
    moreover have "inv_status ?r = target" using target_cases by (auto simp: flushed_def stamped_def)
    ultimately show ?thesis by blast
  qed (use assms(2) in auto)
  then obtain r where r: "addressed_invitation db' i (usr_id (principal_user p)) owner = Some r" "inv_status r = target"
    by blast
  from addressed_SomeD[OF r(1)] r(2) target_cases have "\<exists>r \<in> set (db_invitations db'). inv_id r = i \<and> settled r"
    by (auto simp: settled_def)
  with preserves(1)[OF assms(1), of p i c] assms(2) show ?thesis by simp
qed

end

lemma hide_settles:
  assumes "db_ok db" "hide_accepted_invitation_from_sender p i c db = (Inr res, db')"
  shows "db_ok db' \<and> (\<exists>r \<in> set (db_invitations db'). inv_id r = i \<and> settled r)"
proof -
  have "\<exists>r \<in> set (db_invitations db'). inv_id r = i \<and> settled r"
    using assms(1)
  proof (cases rule: hide_cases[of db p i c])
    case (kept r)
    with assms(2) show ?thesis using addressed_SomeD[OF kept(1)] by (auto simp: settled_def)
  next
    case (hidden r t)
    let ?r = "flushed db (r\<lparr>inv_sender_hidden_at := Some t\<rparr>)"
    have "addressed_invitation db' i (usr_id (principal_user p)) Sender = Some ?r"
      using hidden(5) assms(2) addressed_replaced[OF assms(1) hidden(1), of ?r] by (simp add: flushed_def)
    with hidden(2) show ?thesis by (intro bexI[of _ ?r]) (auto simp: settled_def flushed_def dest: addressed_SomeD)
  qed (use assms(2) in auto)
  with hide_preserves[OF assms(1), of p i c] assms(2) show ?thesis by simp
qed

text \<open>C35: An answered invitation leaves the views for good: once a decline, a cancel or a hide has succeeded, no view of
  any owner shows the invitation at any clock, then or after any further evolution of the invitations.\<close>

theorem answered_invitation_leaves_views:
  assumes "db_ok db" "act = decline_matching_invitation \<or> act = cancel_matching_invitation
       \<or> act = hide_accepted_invitation_from_sender"
    and "act p i c db = (Inr res, db')"
    and "db_ok db2" "invitations_evolve (db_invitations db') (db_invitations db2)"
  shows "i \<notin> inv_id ` set (visible_invitations view owner t (db_invitations db2))"
proof
  assume "i \<in> inv_id ` set (visible_invitations view owner t (db_invitations db2))"
  then obtain x where x: "x \<in> set (db_invitations db2)" "inv_id x = i" "visibility_conditions view owner t x" by auto
  from assms(2,3) decline.settles[OF assms(1)] cancel.settles[OF assms(1)] hide_settles[OF assms(1)]
  obtain r where r: "r \<in> set (db_invitations db')" "inv_id r = i" "settled r" by metis
  have "lifecycle_step\<^sup>*\<^sup>* r x"
    by (rule evolved_row[OF assms(5) inv.distinct_keys[OF db_ok_tables(5)[OF assms(4)]] r(1) x(1)]) (simp add: r x)
  with settled_evolves r(3) settled_not_visible x(3) show False by blast
qed

section \<open>The shown profiles\<close>

lemma ready_avatars_at_most_one:
  assumes "db_ok db"
  shows "length (filter (ready_avatar_of p) (db_photos db)) \<le> 1"
proof (rule ccontr)
  let ?xs = "filter (ready_avatar_of p) (db_photos db)"
  assume "\<not> ?thesis"
  then obtain x y zs where xs: "?xs = x # y # zs"
    by (cases ?xs; cases "tl ?xs") auto
  then have "x \<in> set ?xs" "y \<in> set ?xs" by auto
  then have "x = y"
    by (intro photo.no_clash[OF db_ok_tables(3)[OF assms]]) (auto simp: ready_avatar_of_def photo_clash_def)
  moreover have "distinct ?xs"
    using photo.distinct_keys[OF db_ok_tables(3)[OF assms]] by (simp add: distinct_map)
  ultimately show False using xs by simp
qed

definition avatar_of :: "database \<Rightarrow> student_profile \<Rightarrow> profile_photo option" where
  "avatar_of db p = (case filter (ready_avatar_of p) (db_photos db) of [] \<Rightarrow> None | ph # _ \<Rightarrow> Some ph)"

lemma set_participant_rows:
  assumes "db_ok db"
  shows "set (participant_rows db user_ids) =
    (\<lambda>p. (p, avatar_of db p)) ` {p \<in> set (db_profiles db). prof_user_id p \<in> set user_ids \<and> prof_deleted_at p = None}"
proof -
  have "(case filter (ready_avatar_of p) (db_photos db) of [] \<Rightarrow> [None] | ph # phs \<Rightarrow> map Some (ph # phs)) = [avatar_of db p]" for p
    using ready_avatars_at_most_one[OF assms, of p]
    by (cases "filter (ready_avatar_of p) (db_photos db)") (auto simp: avatar_of_def)
  then show ?thesis by (auto simp: participant_rows_def split: if_splits)
qed

text \<open>The profile the projection shows for a user.\<close>

definition shown_profile :: "tz_db \<Rightarrow> database \<Rightarrow> catalog_locale \<Rightarrow> uuid \<Rightarrow> safe_invitation_profile \<Rightarrow> bool" where
  "shown_profile tz db locale i v \<longleftrightarrow>
     (\<exists>p \<in> set (db_profiles db). prof_user_id p = i \<and> prof_deleted_at p = None
        \<and> project_participant tz db locale (p, avatar_of db p) = Inr (i, v))"

lemma shown_profile_unique:
  assumes "db_ok db" "shown_profile tz db locale i v" "shown_profile tz db locale i v'"
  shows "v = v'"
proof -
  from assms(2) obtain p where p: "p \<in> set (db_profiles db)" "prof_user_id p = i"
      "project_participant tz db locale (p, avatar_of db p) = Inr (i, v)" by (auto simp: shown_profile_def)
  from assms(3) obtain q where q: "q \<in> set (db_profiles db)" "prof_user_id q = i"
      "project_participant tz db locale (q, avatar_of db q) = Inr (i, v')" by (auto simp: shown_profile_def)
  have "p = q" using p q by (intro prof.no_clash[OF db_ok_tables(2)[OF assms(1)]]) (auto simp: profile_clash_def)
  with p q show ?thesis by simp
qed

lemma project_participant_key:
  "project_participant tz db locale row = Inr (i, v) \<Longrightarrow> i = prof_user_id (fst row) \<and> sip_id v = prof_id (fst row)"
  by (auto simp: project_participant_def Let_def ebind_Inr_iff safe_invitation_profile_model_def require_value_def
      split: if_splits)

lemma emap_Inr_set: "emap f xs = Inr ys \<Longrightarrow> y \<in> set ys \<longleftrightarrow> (\<exists>x \<in> set xs. f x = Inr y)"
  by (induction xs arbitrary: ys) (auto simp: ebind_Inr_iff)

lemma loaded_profile:
  assumes "db_ok db" "load_safe_participant_profiles tz db ids locale = Inr profiles"
  shows "dict_get profiles i = Some v \<longleftrightarrow> i \<in> set ids \<and> shown_profile tz db locale i v"
proof -
  have mem: "(j, w) \<in> set profiles \<longleftrightarrow> j \<in> set ids \<and> shown_profile tz db locale j w" for j w
  proof (cases "ids = []")
    case True
    with assms(2) show ?thesis by (simp add: load_safe_participant_profiles_def)
  next
    case False
    with assms(2) have "emap (project_participant tz db locale) (participant_rows db ids) = Inr profiles"
      by (simp add: load_safe_participant_profiles_def)
    from emap_Inr_set[OF this]
    have "(j, w) \<in> set profiles \<longleftrightarrow> (\<exists>row \<in> set (participant_rows db ids). project_participant tz db locale row = Inr (j, w))" .
    then show ?thesis
      unfolding set_participant_rows[OF assms(1)] shown_profile_def by (auto dest: project_participant_key)
  qed
  show ?thesis
  proof
    assume "dict_get profiles i = Some v"
    then have "(i, v) \<in> set profiles" by (auto simp: dict_get_def dest: map_of_SomeD)
    with mem show "i \<in> set ids \<and> shown_profile tz db locale i v" by blast
  next
    assume i: "i \<in> set ids \<and> shown_profile tz db locale i v"
    with mem have "(i, v) \<in> set (rev profiles)" by simp
    then obtain w where w: "map_of (rev profiles) i = Some w" using weak_map_of_SomeI by fast
    then have "(i, w) \<in> set profiles" by (auto dest: map_of_SomeD)
    with mem have "shown_profile tz db locale i w" by blast
    from shown_profile_unique[OF assms(1) this] i have "w = v" by blast
    with w show "dict_get profiles i = Some v" by (simp add: dict_get_def)
  qed
qed

section \<open>Incoming pages\<close>

definition page_slice :: "int \<Rightarrow> int \<Rightarrow> 'a list \<Rightarrow> 'a list" where
  "page_slice page page_size xs = take (nat page_size) (drop (nat ((page - 1) * page_size)) xs)"

text \<open>The projections of the two participants and their current compatibility, as the reader \<open>me\<close> sees them.\<close>

definition compatibility_shown ::
    "unicode_db \<Rightarrow> tz_db \<Rightarrow> database \<Rightarrow> catalog_locale \<Rightarrow> date \<Rightarrow> uuid \<Rightarrow> uuid \<Rightarrow> safe_invitation_profile
       \<Rightarrow> int option \<Rightarrow> compatibility_explanation option \<Rightarrow> bool" where
  "compatibility_shown uni tz db locale week me other v score explanation \<longleftrightarrow>
     shown_profile tz db locale other v
     \<and> (\<exists>own c. shown_profile tz db locale me own
          \<and> current_compatibility uni tz me own other v week = Inr c
          \<and> score = map_option fst c \<and> explanation = map_option snd c)"

definition incoming_shows ::
    "unicode_db \<Rightarrow> tz_db \<Rightarrow> database \<Rightarrow> catalog_locale \<Rightarrow> date \<Rightarrow> invitation \<Rightarrow> incoming_invitation \<Rightarrow> bool" where
  "incoming_shows uni tz db locale week r x \<longleftrightarrow>
     ici_id x = inv_id r \<and> ici_status x = inv_status r \<and> ici_created_at x = inv_created_at r
     \<and> ici_expires_at x = inv_expires_at r \<and> ici_message x = inv_message r
     \<and> compatibility_shown uni tz db locale week (inv_recipient_id r) (inv_sender_id r) (ici_sender x)
         (ici_score x) (ici_explanation x)"

definition sent_shows ::
    "unicode_db \<Rightarrow> tz_db \<Rightarrow> database \<Rightarrow> catalog_locale \<Rightarrow> date \<Rightarrow> invitation \<Rightarrow> sent_invitation \<Rightarrow> bool" where
  "sent_shows uni tz db locale week r x \<longleftrightarrow>
     sei_id x = inv_id r \<and> sei_status x = inv_status r \<and> sei_created_at x = inv_created_at r
     \<and> sei_expires_at x = inv_expires_at r
     \<and> compatibility_shown uni tz db locale week (inv_sender_id r) (inv_recipient_id r) (sei_recipient x)
         (sei_score x) (sei_explanation x)"

lemma compatibility_sym:
  "current_compatibility uni tz i a j b week = current_compatibility uni tz j b i a week"
proof -
  have err: "e = ValueError" if "as_scoring_profile v = Inl e" for v e
    using that by (auto simp: as_scoring_profile_def ebind_Inl_iff safe_profile_model_def require_value_def
        split: option.splits if_splits)
  have pair: "matching_pair_is_eligible x y = matching_pair_is_eligible y x" for x y
    by (auto simp: matching_pair_is_eligible_def)
  show ?thesis
    by (cases "as_scoring_profile a"; cases "as_scoring_profile b")
      (auto simp: current_compatibility_def Let_def pair[of _ "\<lparr>elig_user_id = j, elig_profile_id = _, elig_student_type = _, elig_semester_id = _\<rparr>"]
        score_symmetric[of uni tz "\<lparr>elig_user_id = i, elig_profile_id = _, elig_student_type = _, elig_semester_id = _\<rparr>"]
        dest: err split: option.splits)
qed

lemma page_response_run:
  assumes "1 \<le> page" "1 \<le> page_size" "page_size \<le> 50"
  shows "page_response_model items page page_size n week =
    Inr \<lparr>pg_items = items, pg_page = page, pg_page_size = page_size, pg_total = int n,
      pg_total_pages = (if n \<noteq> 0 then \<lceil>float64 (of_nat n / of_int page_size)\<rceil> else 0), pg_reference_week_start = week\<rparr>"
proof -
  have "0 \<le> float64 (of_nat n / of_int page_size)" by simp
  then have "- 1 < float64 (of_nat n / of_int page_size)" by linarith
  then have "0 \<le> \<lceil>float64 (of_nat n / of_int page_size)\<rceil>" by (simp add: le_ceiling_iff)
  with assms show ?thesis by (simp add: page_response_model_def Let_def require_value_def)
qed

text \<open>What the two handlers share.\<close>

definition read_view ::
    "invitation_view \<Rightarrow> (uuid \<Rightarrow> (uuid \<times> safe_invitation_profile) list \<Rightarrow> safe_invitation_profile \<Rightarrow> invitation_row \<Rightarrow> exn + 'a)
       \<Rightarrow> tz_db \<Rightarrow> database \<Rightarrow> uuid \<Rightarrow> catalog_locale \<Rightarrow> int \<Rightarrow> int \<Rightarrow> date \<Rightarrow> instant \<Rightarrow> exn + 'a page_response" where
  "read_view view item tz db owner locale page page_size week t =
     ebind (validate_invitation_page page page_size) (\<lambda>_.
     ebind (validate_reference_week week) (\<lambda>_.
     let (rows, matching_rows) = list_invitation_rows db view owner page page_size t
     in if rows = [] then page_response_model [] page page_size matching_rows week
        else ebind (load_safe_participant_profiles tz db (owner # map ir_participant_user_id rows) locale) (\<lambda>profiles.
        case dict_get profiles owner of
          None \<Rightarrow> Inl InvitationReadStateError
        | Some me \<Rightarrow> ebind (emap (item owner profiles me) rows) (\<lambda>items.
            page_response_model items page page_size matching_rows week))))"

lemma lists_are_views:
  "list_incoming_invitations uni tz db current locale page page_size week (Aware t) =
     read_view Incoming_view (\<lambda>owner profiles me. incoming_item uni tz owner profiles me week) tz db
       (usr_id (principal_user current)) locale page page_size week t"
  "list_sent_invitations uni tz db current locale page page_size week (Aware t) =
     read_view Sent_view (\<lambda>owner profiles me. sent_item uni tz owner profiles me week) tz db
       (usr_id (principal_user current)) locale page page_size week t"
  by (simp_all add: list_incoming_invitations_def list_sent_invitations_def read_view_def Let_def)

lemma read_view_Inr:
  assumes call: "read_view view item tz db owner locale page page_size week t = Inr res"
    and step: "\<And>x y ids profiles me. load_safe_participant_profiles tz db ids locale = Inr profiles \<Longrightarrow> dict_get profiles owner = Some me \<Longrightarrow>
       visibility_conditions view owner t x \<Longrightarrow> item owner profiles me (view_row view x) = Inr y \<Longrightarrow> shows_row x y"
    and rows: "rows = visible_invitations view owner t (db_invitations db)"
  shows "1 \<le> page \<and> 1 \<le> page_size \<and> page_size \<le> MAX_INVITATION_PAGE_SIZE
    \<and> pg_total res = int (length rows) \<and> list_all2 shows_row (page_slice page page_size rows) (pg_items res)"
proof -
  let ?slice = "page_slice page page_size rows"
  have listed: "list_invitation_rows db view owner page page_size t = (map (view_row view) ?slice, length rows)"
    by (simp add: list_invitation_rows_def Let_def page_slice_def rows)
  from call have v: "1 \<le> page" "1 \<le> page_size" "page_size \<le> MAX_INVITATION_PAGE_SIZE"
    by (auto simp: read_view_def validate_invitation_page_def ebind_Inr_iff split: if_splits)
  show ?thesis
  proof (cases "?slice = []")
    case True
    with call listed v show ?thesis
      by (auto simp: read_view_def ebind_Inr_iff page_response_model_def Let_def require_value_def split: if_splits)
  next
    case False
    with call listed obtain ids profiles me items where
        load: "load_safe_participant_profiles tz db ids locale = Inr profiles" "dict_get profiles owner = Some me"
      and items: "emap (item owner profiles me) (map (view_row view) ?slice) = Inr items"
      and res: "page_response_model items page page_size (length rows) week = Inr res"
      by (auto simp: read_view_def ebind_Inr_iff Let_def split: option.splits)
    from res have r: "pg_items res = items" "pg_total res = int (length rows)"
      by (auto simp: page_response_model_def Let_def require_value_def split: if_splits)
    from items have "list_all2 (\<lambda>x y. item owner profiles me (view_row view x) = Inr y) ?slice items"
      by (simp add: emap_Inr_iff list_all2_map1)
    then have "list_all2 shows_row ?slice items"
      by (rule list.rel_mono_strong)
        (rule step[OF load], auto simp: page_slice_def rows dest!: in_set_takeD in_set_dropD)
    with r v show ?thesis by simp
  qed
qed

lemma incoming_Inr:
  assumes "db_ok db" "list_incoming_invitations uni tz db current locale page page_size week (Aware t) = Inr res"
    and "rows = visible_invitations Incoming_view (usr_id (principal_user current)) t (db_invitations db)"
  shows "1 \<le> page \<and> 1 \<le> page_size \<and> page_size \<le> MAX_INVITATION_PAGE_SIZE \<and> pg_total res = int (length rows)
    \<and> list_all2 (incoming_shows uni tz db locale week) (page_slice page page_size rows) (pg_items res)"
  using assms(2) unfolding lists_are_views
proof (rule read_view_Inr[OF _ _ assms(3)], goal_cases)
  case (1 x y ids profiles me)
  with loaded_profile[OF assms(1) 1(1)] show ?case
    by (auto simp: incoming_item_def incoming_shows_def compatibility_shown_def incoming_invitation_model_def
        ebind_Inr_iff require_value_def split: option.splits if_splits)
qed

lemma sent_Inr:
  assumes "db_ok db" "list_sent_invitations uni tz db current locale page page_size week (Aware t) = Inr res"
    and "rows = visible_invitations Sent_view (usr_id (principal_user current)) t (db_invitations db)"
  shows "1 \<le> page \<and> 1 \<le> page_size \<and> page_size \<le> MAX_INVITATION_PAGE_SIZE \<and> pg_total res = int (length rows)
    \<and> list_all2 (sent_shows uni tz db locale week) (page_slice page page_size rows) (pg_items res)"
  using assms(2) unfolding lists_are_views
proof (rule read_view_Inr[OF _ _ assms(3)], goal_cases)
  case (1 x y ids profiles me)
  with loaded_profile[OF assms(1) 1(1)] show ?case
    by (auto simp: sent_item_def sent_shows_def compatibility_shown_def sent_invitation_model_def
        ebind_Inr_iff require_value_def split: option.splits if_splits)
qed

lemma list_all2_source: "list_all2 P xs ys \<Longrightarrow> y \<in> set ys \<Longrightarrow> \<exists>x \<in> set xs. P x y"
  by (induction rule: list_all2_induct) auto

lemma in_page_slice: "x \<in> set (page_slice page page_size xs) \<Longrightarrow> x \<in> set xs"
  by (auto simp: page_slice_def dest: in_set_takeD in_set_dropD)

text \<open>C36: A page of the inbox is exact and discloses nothing else: it is the requested slice of the owner's effective
  PENDING invitations, newest first and without repetition, the total counts all of them, and each item carries the
  stored fields, the message and the privacy-safe projection of the sender's current profile.\<close>

theorem incoming_page_exact:
  assumes "db_ok db" "list_incoming_invitations uni tz db current locale page page_size week (Aware t) = Inr res"
  shows "\<exists>rows. distinct rows
    \<and> set rows = {r \<in> set (db_invitations db). inv_recipient_id r = usr_id (principal_user current)
         \<and> inv_status r = PENDING \<and> t < inv_expires_at r \<and> inv_deleted_at r = None}
    \<and> sorted_wrt (\<lambda>a b. (inv_created_at b, inv_id b) \<le> (inv_created_at a, inv_id a)) rows
    \<and> pg_total res = int (length rows)
    \<and> list_all2 (\<lambda>r x. ici_id x = inv_id r \<and> ici_status x = PENDING \<and> ici_expires_at x = inv_expires_at r
           \<and> ici_message x = inv_message r \<and> shown_profile tz db locale (inv_sender_id r) (ici_sender x))
         (take (nat page_size) (drop (nat ((page - 1) * page_size)) rows)) (pg_items res)"
proof (intro exI conjI)
  let ?rows = "visible_invitations Incoming_view (usr_id (principal_user current)) t (db_invitations db)"
  note facts = incoming_Inr[OF assms refl, unfolded page_slice_def]
  show "distinct ?rows"
    using inv.distinct_keys[OF db_ok_tables(5)[OF assms(1)]] by (intro visible_distinct) (simp add: distinct_map)
  show "set ?rows = {r \<in> set (db_invitations db). inv_recipient_id r = usr_id (principal_user current)
         \<and> inv_status r = PENDING \<and> t < inv_expires_at r \<and> inv_deleted_at r = None}"
    by (auto simp: effective_pending_predicate_def)
  show "pg_total res = int (length ?rows)" using facts by blast
  show "list_all2 (\<lambda>r x. ici_id x = inv_id r \<and> ici_status x = PENDING \<and> ici_expires_at x = inv_expires_at r
           \<and> ici_message x = inv_message r \<and> shown_profile tz db locale (inv_sender_id r) (ici_sender x))
         (take (nat page_size) (drop (nat ((page - 1) * page_size)) ?rows)) (pg_items res)"
    using facts by (elim conjE list.rel_mono_strong)
      (auto simp: incoming_shows_def compatibility_shown_def effective_pending_predicate_def dest!: in_set_takeD in_set_dropD)
qed (rule visible_sorted)

text \<open>Both parties see one score: in the same week and language, the inbox of the recipient and the sent list of the
  sender show the same compatibility score and explanation for an invitation they both show.\<close>

theorem both_parties_see_one_score:
  assumes "db_ok db" "list_incoming_invitations uni tz db a locale page page_size week (Aware t) = Inr res"
    and "list_sent_invitations uni tz db b locale page2 page_size2 week (Aware t2) = Inr res2"
    and "x \<in> set (pg_items res)" "y \<in> set (pg_items res2)" "ici_id x = sei_id y"
  shows "ici_score x = sei_score y \<and> ici_explanation x = sei_explanation y"
proof -
  note incoming = incoming_Inr[OF assms(1,2) refl] and sent = sent_Inr[OF assms(1,3) refl]
  from list_all2_source[OF conjunct2[OF conjunct2[OF conjunct2[OF conjunct2[OF incoming]]]] assms(4)]
  obtain r where r: "r \<in> set (db_invitations db)" "incoming_shows uni tz db locale week r x"
    by (auto dest!: in_page_slice)
  from list_all2_source[OF conjunct2[OF conjunct2[OF conjunct2[OF conjunct2[OF sent]]]] assms(5)]
  obtain q where q: "q \<in> set (db_invitations db)" "sent_shows uni tz db locale week q y"
    by (auto dest!: in_page_slice)
  have "q = r"
    using inv.key_inj[OF db_ok_tables(5)[OF assms(1)] q(1) r(1)] q(2) r(2) assms(6)
    by (simp add: incoming_shows_def sent_shows_def)
  with q(2) r(2) obtain own c own' c' where
      c: "shown_profile tz db locale (inv_recipient_id r) own" "shown_profile tz db locale (inv_sender_id r) (ici_sender x)"
        "current_compatibility uni tz (inv_recipient_id r) own (inv_sender_id r) (ici_sender x) week = Inr c"
        "ici_score x = map_option fst c" "ici_explanation x = map_option snd c"
    and c': "shown_profile tz db locale (inv_sender_id r) own'" "shown_profile tz db locale (inv_recipient_id r) (sei_recipient y)"
        "current_compatibility uni tz (inv_sender_id r) own' (inv_recipient_id r) (sei_recipient y) week = Inr c'"
        "sei_score y = map_option fst c'" "sei_explanation y = map_option snd c'"
    by (auto simp: incoming_shows_def sent_shows_def compatibility_shown_def)
  have "sei_recipient y = own" "own' = ici_sender x"
    using shown_profile_unique[OF assms(1) c'(2) c(1)] shown_profile_unique[OF assms(1) c'(1) c(2)] by simp_all
  with c(3) c'(3) compatibility_sym[of uni tz "inv_recipient_id r" own] have "c = c'" by simp
  with c c' show ?thesis by simp
qed

end
