(* ===== verification/Current_Buddies.thy ===== *)
theory Current_Buddies
  imports Calendar Invitation_Views
begin

text \<open>
  The current buddies of one owner (\<open>services/current_buddies.py\<close>): the page of ACTIVE matches with the other
  participant's profile and the compatibility stored when the match was made, and who may read a buddy's avatar.
  Reads return a value and leave the database alone.
\<close>

section \<open>The rows of a page\<close>

definition DEFAULT_CURRENT_BUDDY_PAGE_SIZE :: int where
  "DEFAULT_CURRENT_BUDDY_PAGE_SIZE = 20"

definition MAX_CURRENT_BUDDY_PAGE_SIZE :: int where
  "MAX_CURRENT_BUDDY_PAGE_SIZE = 50"

record current_buddy_row =
  cbr_match_id :: uuid
  cbr_participant_one_user_id :: uuid
  cbr_participant_two_user_id :: uuid
  cbr_score :: int
  cbr_score_breakdown :: pyval
  cbr_activated_at :: instant
  cbr_conversation_id :: "uuid option"

definition validate_current_buddy_page :: "int \<Rightarrow> int \<Rightarrow> exn + unit" where
  "validate_current_buddy_page page page_size =
     (if page < 1 then Inl ValueError
      else if \<not> (1 \<le> page_size \<and> page_size \<le> MAX_CURRENT_BUDDY_PAGE_SIZE) then Inl ValueError else Inr ())"

definition owner_conditions :: "uuid \<Rightarrow> buddy_match \<Rightarrow> bool" where
  "owner_conditions owner_user_id m \<longleftrightarrow>
     mat_status m = ACTIVE \<and> mat_deleted_at m = None
     \<and> (mat_participant_one_user_id m = owner_user_id \<or> mat_participant_two_user_id m = owner_user_id)"

text \<open>\<open>ORDER BY activated_at DESC, id DESC\<close>, then the outer join with the conversations.\<close>

definition current_matches :: "uuid \<Rightarrow> buddy_match list \<Rightarrow> buddy_match list" where
  "current_matches owner_user_id matches =
     rev (select_by (\<lambda>m. (mat_activated_at m, mat_id m)) (owner_conditions owner_user_id) matches)"

definition current_buddy_row_of :: "buddy_match \<Rightarrow> uuid option \<Rightarrow> current_buddy_row" where
  "current_buddy_row_of m conversation_id =
     \<lparr>cbr_match_id = mat_id m, cbr_participant_one_user_id = mat_participant_one_user_id m,
      cbr_participant_two_user_id = mat_participant_two_user_id m, cbr_score = mat_score m,
      cbr_score_breakdown = mat_score_breakdown m, cbr_activated_at = mat_activated_at m,
      cbr_conversation_id = conversation_id\<rparr>"

definition joined_conversations :: "database \<Rightarrow> buddy_match \<Rightarrow> uuid option list" where
  "joined_conversations db m =
     (case filter (\<lambda>c. conv_match_id c = mat_id m) (db_conversations db) of
        [] \<Rightarrow> [None] | cs \<Rightarrow> map (\<lambda>c. Some (conv_id c)) cs)"

definition list_current_buddy_rows :: "database \<Rightarrow> uuid \<Rightarrow> int \<Rightarrow> int \<Rightarrow> current_buddy_row list \<times> nat" where
  "list_current_buddy_rows db owner_user_id page page_size =
     (let matches = current_matches owner_user_id (db_matches db);
          rows = concat (map (\<lambda>m. map (current_buddy_row_of m) (joined_conversations db m)) matches)
      in (take (nat page_size) (drop (nat ((page - 1) * page_size)) rows), length matches))"

definition other_participant_id :: "uuid \<Rightarrow> current_buddy_row \<Rightarrow> exn + uuid" where
  "other_participant_id owner_user_id row =
     (if cbr_participant_one_user_id row = owner_user_id \<and> cbr_participant_two_user_id row \<noteq> owner_user_id
      then Inr (cbr_participant_two_user_id row)
      else if cbr_participant_two_user_id row = owner_user_id \<and> cbr_participant_one_user_id row \<noteq> owner_user_id
      then Inr (cbr_participant_one_user_id row)
      else Inl CurrentBuddyReadStateError)"

section \<open>The stored compatibility\<close>

text \<open>
  \<open>CompatibilityExplanation.model_validate\<close> runs in pydantic's lax mode, which also reads numbers out of other values
  (strings, booleans). That conversion is pydantic's: it is a parameter, the value a \<open>float\<close> or an \<open>int\<close> field takes or
  none. What the code relies on is the documented part: a finite float is itself, an integer is itself.
\<close>

record pydantic_lax =
  lax_float :: "pyval \<Rightarrow> rat option"
  lax_int :: "pyval \<Rightarrow> int option"

definition pydantic_reads_numbers :: "pydantic_lax \<Rightarrow> bool" where
  "pydantic_reads_numbers py \<longleftrightarrow>
     (\<forall>x. lax_float py (PyFloat (Finite x)) = Some x) \<and> (\<forall>n. lax_int py (PyInt n) = Some n)"

definition dict_field :: "(pyval \<times> pyval) list \<Rightarrow> pystr \<Rightarrow> pyval" where
  "dict_field items key = (case map_of items (PyStr key) of None \<Rightarrow> PyNone | Some v \<Rightarrow> v)"

definition read_signal_explanation :: "pydantic_lax \<Rightarrow> pyval \<Rightarrow> exn + signal_explanation" where
  "read_signal_explanation py value =
     (case value of
        PyDict items \<Rightarrow>
          if fst ` set items \<noteq> {PyStr (u ''similarity''), PyStr (u ''weight''), PyStr (u ''points'')} then Inl ValueError
          else (case (lax_float py (dict_field items (u ''similarity'')), lax_int py (dict_field items (u ''weight'')),
                      lax_float py (dict_field items (u ''points''))) of
                  (Some v, Some w, Some p) \<Rightarrow>
                    signal_explanation_model \<lparr>sx_similarity = v, sx_weight = w, sx_points = p\<rparr>
                | _ \<Rightarrow> Inl ValueError)
      | _ \<Rightarrow> Inl ValueError)"

definition SNAPSHOT_SIGNAL_KEYS :: "pystr list" where
  "SNAPSHOT_SIGNAL_KEYS = [u ''interests'', u ''activities'', u ''availability'', u ''languages'', u ''major'']"

definition SNAPSHOT_KEYS :: "pystr set" where
  "SNAPSHOT_KEYS = set (SNAPSHOT_SIGNAL_KEYS @ [u ''reference_week_start''])"

definition read_compatibility_explanation :: "pydantic_lax \<Rightarrow> (pyval \<times> pyval) list \<Rightarrow> exn + compatibility_explanation" where
  "read_compatibility_explanation py value =
     ebind (read_signal_explanation py (dict_field value (u ''interests''))) (\<lambda>interests.
     ebind (read_signal_explanation py (dict_field value (u ''activities''))) (\<lambda>activities.
     ebind (read_signal_explanation py (dict_field value (u ''availability''))) (\<lambda>availability.
     ebind (read_signal_explanation py (dict_field value (u ''languages''))) (\<lambda>languages.
     ebind (read_signal_explanation py (dict_field value (u ''major''))) (\<lambda>major.
     Inr \<lparr>cx_interests = interests, cx_activities = activities, cx_availability = availability,
          cx_languages = languages, cx_major = major\<rparr>)))))"

text \<open>The column holds a JSON object (\<open>match_check\<close>); another value would fail at \<open>set(value)\<close> or at the keys.\<close>

definition compatibility_snapshot :: "pydantic_lax \<Rightarrow> pyval \<Rightarrow> exn + (date \<times> compatibility_explanation)" where
  "compatibility_snapshot py breakdown =
     (case breakdown of
        PyDict value \<Rightarrow>
          if fst ` set value \<noteq> PyStr ` SNAPSHOT_KEYS then Inl CurrentBuddyReadStateError
          else (case dict_field value (u ''reference_week_start'') of
                  PyStr raw_reference_week \<Rightarrow>
                    (case (date_fromisoformat raw_reference_week, read_compatibility_explanation py value) of
                       (Inr reference_week_start, Inr explanation) \<Rightarrow>
                         if py_weekday reference_week_start \<noteq> 0 then Inl CurrentBuddyReadStateError
                         else Inr (reference_week_start, explanation)
                     | _ \<Rightarrow> Inl CurrentBuddyReadStateError)
                | _ \<Rightarrow> Inl CurrentBuddyReadStateError)
      | _ \<Rightarrow> Inl CurrentBuddyReadStateError)"

section \<open>The page\<close>

record current_buddy =
  cb_match_id :: uuid
  cb_conversation_id :: uuid
  cb_buddy :: safe_invitation_profile
  cb_score :: int
  cb_explanation :: compatibility_explanation
  cb_reference_week_start :: date

definition current_buddy_model :: "current_buddy \<Rightarrow> exn + current_buddy" where
  "current_buddy_model v = require_value (0 \<le> cb_score v \<and> cb_score v \<le> 100) v"

record current_buddy_list_response =
  cbl_items :: "current_buddy list"
  cbl_page :: int
  cbl_page_size :: int
  cbl_total :: int
  cbl_total_pages :: int

definition current_buddy_list_response_model ::
    "current_buddy list \<Rightarrow> int \<Rightarrow> int \<Rightarrow> nat \<Rightarrow> exn + current_buddy_list_response" where
  "current_buddy_list_response_model items page page_size count =
     (let total_pages = (if count \<noteq> 0 then \<lceil>float64 (of_nat count / of_int page_size)\<rceil> else 0) in
      require_value (1 \<le> page \<and> 1 \<le> page_size \<and> page_size \<le> 50 \<and> 0 \<le> total_pages)
        \<lparr>cbl_items = items, cbl_page = page, cbl_page_size = page_size, cbl_total = int count,
         cbl_total_pages = total_pages\<rparr>)"

definition current_buddy_item ::
    "pydantic_lax \<Rightarrow> (uuid \<times> safe_invitation_profile) list \<Rightarrow> current_buddy_row \<times> uuid \<Rightarrow> exn + current_buddy" where
  "current_buddy_item py profiles = (\<lambda>(row, other_user_id).
     case cbr_conversation_id row of
       None \<Rightarrow> Inl CurrentBuddyReadStateError
     | Some conversation_id \<Rightarrow>
     (case dict_get profiles other_user_id of
        None \<Rightarrow> Inl CurrentBuddyReadStateError
      | Some profile \<Rightarrow>
          ebind (compatibility_snapshot py (cbr_score_breakdown row)) (\<lambda>(reference_week_start, explanation).
          current_buddy_model \<lparr>cb_match_id = cbr_match_id row, cb_conversation_id = conversation_id,
            cb_buddy = profile, cb_score = cbr_score row, cb_explanation = explanation,
            cb_reference_week_start = reference_week_start\<rparr>)))"

definition list_current_buddies ::
    "pydantic_lax \<Rightarrow> tz_db \<Rightarrow> database \<Rightarrow> verified_buddy_principal \<Rightarrow> catalog_locale \<Rightarrow> int \<Rightarrow> int
       \<Rightarrow> exn + current_buddy_list_response" where
  "list_current_buddies py tz db current locale page page_size =
     ebind (validate_current_buddy_page page page_size) (\<lambda>_.
     let owner = usr_id (principal_user current);
         (rows, matching_rows) = list_current_buddy_rows db owner page page_size
     in if rows = [] then current_buddy_list_response_model [] page page_size matching_rows
        else ebind (emap (other_participant_id owner) rows) (\<lambda>row_other_user_ids.
        ebind (load_safe_participant_profiles tz db (rev (remdups (rev row_other_user_ids))) locale) (\<lambda>profiles.
        ebind (emap (current_buddy_item py profiles) (zip rows row_other_user_ids)) (\<lambda>items.
        current_buddy_list_response_model items page page_size matching_rows))))"

section \<open>A buddy's avatar\<close>

definition buddy_relationship :: "uuid \<Rightarrow> student_profile \<Rightarrow> buddy_match \<Rightarrow> bool" where
  "buddy_relationship user_id p m \<longleftrightarrow>
     (mat_participant_one_user_id m = user_id \<and> mat_participant_two_profile_id m = prof_id p)
     \<or> (mat_participant_two_user_id m = user_id \<and> mat_participant_one_profile_id m = prof_id p)"

definition get_active_buddy_avatar :: "database \<Rightarrow> verified_buddy_principal \<Rightarrow> uuid \<Rightarrow> profile_photo option" where
  "get_active_buddy_avatar db current wanted =
     (case [ph. ph \<leftarrow> db_photos db, photo_id ph = wanted, p \<leftarrow> db_profiles db, ready_avatar_of p ph, prof_deleted_at p = None,
               m \<leftarrow> db_matches db, buddy_relationship (usr_id (principal_user current)) p m, mat_status m = ACTIVE,
               mat_deleted_at m = None] of
        [] \<Rightarrow> None | ph # _ \<Rightarrow> Some ph)"

end
