(* ===== verification/Current_Buddy_Results.thy ===== *)
theory Current_Buddy_Results
  imports Current_Buddies Buddy_System Preference_Results
begin

text \<open>
  What the current buddies show: the page is exact, and a match is shown to both participants with the compatibility
  that was stored when the invitation was accepted.
\<close>

section \<open>Rows\<close>

definition conversation_of :: "database \<Rightarrow> buddy_match \<Rightarrow> uuid option" where
  "conversation_of db m = map_option conv_id (find (\<lambda>c. conv_match_id c = mat_id m) (db_conversations db))"

lemma find_as_filter: "find p xs = (case filter p xs of [] \<Rightarrow> None | x # _ \<Rightarrow> Some x)"
  by (induction xs) auto

lemma joined_conversations_one:
  assumes "db_ok db"
  shows "joined_conversations db m = [conversation_of db m]"
proof (cases "filter (\<lambda>c. conv_match_id c = mat_id m) (db_conversations db)")
  case Nil
  then show ?thesis by (simp add: joined_conversations_def conversation_of_def find_as_filter)
next
  case (Cons c cs)
  then have "c \<in> set (filter (\<lambda>c. conv_match_id c = mat_id m) (db_conversations db))" by simp
  then have c: "c \<in> set (db_conversations db)" "conv_match_id c = mat_id m" by auto
  from one_conversation[OF assms c] show ?thesis
    by (simp add: joined_conversations_def conversation_of_def find_as_filter)
qed

lemma listed_rows:
  assumes "db_ok db"
  shows "list_current_buddy_rows db owner page page_size =
    (map (\<lambda>m. current_buddy_row_of m (conversation_of db m)) (page_slice page page_size (current_matches owner (db_matches db))),
     length (current_matches owner (db_matches db)))"
proof -
  have "concat (map (\<lambda>m. map (current_buddy_row_of m) (joined_conversations db m)) ms) =
      map (\<lambda>m. current_buddy_row_of m (conversation_of db m)) ms" for ms
    by (induction ms) (simp_all add: joined_conversations_one[OF assms])
  then show ?thesis by (simp add: list_current_buddy_rows_def Let_def page_slice_def drop_map take_map)
qed

lemma set_current_matches [simp]:
  "m \<in> set (current_matches owner ms) \<longleftrightarrow> m \<in> set ms \<and> owner_conditions owner m"
  by (auto simp: current_matches_def)

lemma current_matches_distinct: "db_ok db \<Longrightarrow> distinct (current_matches owner (db_matches db))"
  using mat.distinct_keys[OF db_ok_tables(6), of db]
  by (simp add: current_matches_def distinct_map distinct_select_by)

definition other_user :: "uuid \<Rightarrow> buddy_match \<Rightarrow> uuid" where
  "other_user owner m =
     (if mat_participant_one_user_id m = owner then mat_participant_two_user_id m else mat_participant_one_user_id m)"

lemma other_participant:
  assumes "db_ok db" "m \<in> set (db_matches db)" "owner_conditions owner m"
  shows "other_participant_id owner (current_buddy_row_of m c) = Inr (other_user owner m)"
proof -
  have "match_check m" by (rule mat.row_ok[OF db_ok_tables(6)[OF assms(1)] assms(2)])
  with assms(3) show ?thesis
    by (auto simp: match_check_def owner_conditions_def other_participant_id_def other_user_def current_buddy_row_of_def)
qed

section \<open>Exact pages\<close>

text \<open>What an item shows of a match.\<close>

definition shows_buddy ::
    "pydantic_lax \<Rightarrow> tz_db \<Rightarrow> database \<Rightarrow> catalog_locale \<Rightarrow> uuid \<Rightarrow> buddy_match \<Rightarrow> current_buddy \<Rightarrow> bool" where
  "shows_buddy py tz db locale owner m item \<longleftrightarrow>
     cb_match_id item = mat_id m \<and> cb_score item = mat_score m
     \<and> conversation_of db m = Some (cb_conversation_id item)
     \<and> shown_profile tz db locale (other_user owner m) (cb_buddy item)
     \<and> compatibility_snapshot py (mat_score_breakdown m) = Inr (cb_reference_week_start item, cb_explanation item)"

lemma list_all2_lookup: "list_all2 P xs ys \<Longrightarrow> x \<in> set xs \<Longrightarrow> \<exists>y \<in> set ys. P x y"
  by (induction rule: list_all2_induct) auto

lemma item_iff:
  assumes ok: "db_ok db" and m: "m \<in> set (db_matches db)"
    and load: "load_safe_participant_profiles tz db ids locale = Inr profiles" "other_user owner m \<in> set ids"
  shows "current_buddy_item py profiles (current_buddy_row_of m (conversation_of db m), other_user owner m) = Inr item
     \<longleftrightarrow> shows_buddy py tz db locale owner m item"
proof -
  have "match_check m" by (rule mat.row_ok[OF db_ok_tables(6)[OF ok] m])
  then have "0 \<le> mat_score m" "mat_score m \<le> 100" by (simp_all add: match_check_def)
  then show ?thesis
    using loaded_profile[OF ok load(1), of "other_user owner m"] load(2)
    by (cases item) (auto simp: current_buddy_item_def current_buddy_row_of_def shows_buddy_def current_buddy_model_def
        require_value_def ebind_Inr_iff intro: shown_profile_unique[OF ok] split: option.split)
qed

lemma buddy_response_run:
  assumes "1 \<le> page" "1 \<le> page_size" "page_size \<le> 50"
  shows "current_buddy_list_response_model items page page_size n =
    Inr \<lparr>cbl_items = items, cbl_page = page, cbl_page_size = page_size, cbl_total = int n,
      cbl_total_pages = (if n \<noteq> 0 then \<lceil>float64 (of_nat n / of_int page_size)\<rceil> else 0)\<rparr>"
  using page_response_run[OF assms, of "items" n 0]
  by (auto simp: page_response_model_def current_buddy_list_response_model_def Let_def require_value_def split: if_splits)

text \<open>Loading succeeds when the profile of every wanted user projects.\<close>

lemma profiles_load:
  assumes "db_ok db" "\<forall>i \<in> set ids. \<exists>v. shown_profile tz db locale i v"
  shows "\<exists>profiles. load_safe_participant_profiles tz db ids locale = Inr profiles"
proof -
  have "\<exists>y. project_participant tz db locale row = Inr y" if row: "row \<in> set (participant_rows db ids)" for row
  proof -
    from row obtain p where p: "row = (p, avatar_of db p)" "p \<in> set (db_profiles db)" "prof_user_id p \<in> set ids"
      unfolding set_participant_rows[OF assms(1)] by auto
    from assms(2) p(3) obtain v q where q: "q \<in> set (db_profiles db)" "prof_user_id q = prof_user_id p"
        "project_participant tz db locale (q, avatar_of db q) = Inr (prof_user_id p, v)"
      by (auto simp: shown_profile_def)
    have "q = p" using p q by (intro prof.no_clash[OF db_ok_tables(2)[OF assms(1)]]) (auto simp: profile_clash_def)
    with q p show ?thesis by auto
  qed
  then have "\<exists>ys. emap (project_participant tz db locale) (participant_rows db ids) = Inr ys"
    by (intro emap_total) auto
  then show ?thesis by (simp add: load_safe_participant_profiles_def)
qed

lemma current_matches_sorted:
  "sorted_wrt (\<lambda>a b. (mat_activated_at b, mat_id b) \<le> (mat_activated_at a, mat_id a)) (current_matches owner ms)"
  using sorted_select_by[of "\<lambda>m. (mat_activated_at m, mat_id m)" "owner_conditions owner" ms]
  by (simp add: current_matches_def sorted_wrt_rev sorted_wrt_map)

lemma items_iff:
  assumes ok: "db_ok db" and sub: "set ms \<subseteq> set (current_matches owner (db_matches db))"
  shows "(\<exists>profiles. load_safe_participant_profiles tz db (rev (remdups (rev (map (other_user owner) ms)))) locale = Inr profiles
       \<and> emap (current_buddy_item py profiles)
           (zip (map (\<lambda>m. current_buddy_row_of m (conversation_of db m)) ms) (map (other_user owner) ms)) = Inr items)
     \<longleftrightarrow> list_all2 (shows_buddy py tz db locale owner) ms items"
    (is "(\<exists>profiles. ?load profiles \<and> ?items profiles) \<longleftrightarrow> ?shown")
proof -
  have zip: "zip (map f ms) (map g ms) = map (\<lambda>m. (f m, g m)) ms" for f :: "_ \<Rightarrow> current_buddy_row" and g :: "_ \<Rightarrow> uuid"
    by (simp add: zip_map_map zip_same_conv_map)
  have step: "?items profiles \<longleftrightarrow> ?shown" if "?load profiles" for profiles
  proof -
    have "?items profiles \<longleftrightarrow> list_all2 (\<lambda>m item. current_buddy_item py profiles
        (current_buddy_row_of m (conversation_of db m), other_user owner m) = Inr item) ms items"
      by (simp add: zip emap_Inr_iff list_all2_map1)
    also have "\<dots> \<longleftrightarrow> ?shown"
      using sub item_iff[OF ok _ that] by (intro list.rel_cong refl) (auto simp: subset_iff)
    finally show ?thesis .
  qed
  show ?thesis
  proof
    assume shown: ?shown
    have "\<exists>v. shown_profile tz db locale (other_user owner m) v" if "m \<in> set ms" for m
      using list_all2_lookup[OF shown that] by (auto simp: shows_buddy_def)
    then have "\<exists>profiles. ?load profiles" by (intro profiles_load[OF ok]) auto
    with shown step show "\<exists>profiles. ?load profiles \<and> ?items profiles" by blast
  qed (use step in blast)
qed

lemma list_current_buddies_iff:
  assumes ok: "db_ok db"
  shows "list_current_buddies py tz db current locale page page_size = Inr response \<longleftrightarrow>
    1 \<le> page \<and> 1 \<le> page_size \<and> page_size \<le> 50
    \<and> list_all2 (shows_buddy py tz db locale (usr_id (principal_user current)))
        (page_slice page page_size (current_matches (usr_id (principal_user current)) (db_matches db))) (cbl_items response)
    \<and> cbl_page response = page \<and> cbl_page_size response = page_size
    \<and> cbl_total response = int (length (current_matches (usr_id (principal_user current)) (db_matches db)))
    \<and> cbl_total_pages response = (if current_matches (usr_id (principal_user current)) (db_matches db) \<noteq> []
        then \<lceil>float64 (of_nat (length (current_matches (usr_id (principal_user current)) (db_matches db))) / of_int page_size)\<rceil> else 0)"
    (is "?call = Inr response \<longleftrightarrow> _")
proof (cases "1 \<le> page \<and> 1 \<le> page_size \<and> page_size \<le> 50")
  case False
  then have "?call = Inl ValueError"
    by (auto simp: list_current_buddies_def validate_current_buddy_page_def MAX_CURRENT_BUDDY_PAGE_SIZE_def)
  with False show ?thesis by auto
next
  case True
  let ?owner = "usr_id (principal_user current)"
  let ?all = "current_matches ?owner (db_matches db)"
  let ?ms = "page_slice page page_size ?all"
  have valid: "validate_current_buddy_page page page_size = Inr ()"
    using True by (simp add: validate_current_buddy_page_def MAX_CURRENT_BUDDY_PAGE_SIZE_def)
  note listed = listed_rows[OF ok, of ?owner page page_size]
  have sub: "set ?ms \<subseteq> set ?all" by (auto dest: in_page_slice)
  then have "emap (other_participant_id ?owner) (map (\<lambda>m. current_buddy_row_of m (conversation_of db m)) ?ms) =
      Inr (map (other_user ?owner) ?ms)"
    using other_participant[OF ok] by (simp add: emap_Inr_iff list_all2_map1 list_all2_map2 list.rel_refl_strong subset_iff)
  note others = this
  note run = buddy_response_run[of page page_size _ "length ?all"]
  show ?thesis
  proof (cases "?ms = []")
    case True
    with \<open>1 \<le> page \<and> _\<close> show ?thesis
      by (cases response) (auto simp: list_current_buddies_def valid listed run Let_def)
  next
    case False
    have "?call = Inr response \<longleftrightarrow> (\<exists>items. list_all2 (shows_buddy py tz db locale ?owner) ?ms items
        \<and> current_buddy_list_response_model items page page_size (length ?all) = Inr response)"
      unfolding items_iff[OF ok sub, symmetric]
      using False by (auto simp: list_current_buddies_def valid listed others ebind_Inr_iff Let_def)
    with \<open>1 \<le> page \<and> _\<close> show ?thesis
      by (cases response) (auto simp: run)
  qed
qed

text \<open>C37: The page of current buddies is exact: the handler answers exactly when the page parameters are valid and every
  match on the page has a conversation, a readable stored compatibility and a projectable live profile of the other
  participant; the answer is then the requested slice of the owner's ACTIVE matches, each exactly once and newest first,
  with the stored score and compatibility, the conversation and the other participant's current safe profile.\<close>

theorem current_buddies_exact:
  fixes current :: verified_buddy_principal
  assumes "db_ok db"
  defines "owner \<equiv> usr_id (principal_user current)"
  defines "ms \<equiv> current_matches owner (db_matches db)"
  shows "distinct ms
    \<and> set ms = {m \<in> set (db_matches db). mat_status m = ACTIVE \<and> mat_deleted_at m = None
         \<and> owner \<in> {mat_participant_one_user_id m, mat_participant_two_user_id m}}
    \<and> sorted_wrt (\<lambda>a b. (mat_activated_at b, mat_id b) \<le> (mat_activated_at a, mat_id a)) ms
    \<and> (list_current_buddies py tz db current locale page page_size = Inr response \<longleftrightarrow>
        1 \<le> page \<and> 1 \<le> page_size \<and> page_size \<le> 50
        \<and> list_all2 (shows_buddy py tz db locale owner) (page_slice page page_size ms) (cbl_items response)
        \<and> cbl_page response = page \<and> cbl_page_size response = page_size \<and> cbl_total response = int (length ms)
        \<and> cbl_total_pages response = (if ms \<noteq> [] then \<lceil>float64 (of_nat (length ms) / of_int page_size)\<rceil> else 0))"
proof (intro conjI)
  show "distinct ms" unfolding ms_def by (rule current_matches_distinct[OF assms(1)])
  show "set ms = {m \<in> set (db_matches db). mat_status m = ACTIVE \<and> mat_deleted_at m = None
         \<and> owner \<in> {mat_participant_one_user_id m, mat_participant_two_user_id m}}"
    by (auto simp: ms_def owner_conditions_def)
  show "sorted_wrt (\<lambda>a b. (mat_activated_at b, mat_id b) \<le> (mat_activated_at a, mat_id a)) ms"
    unfolding ms_def by (rule current_matches_sorted)
  show "list_current_buddies py tz db current locale page page_size = Inr response \<longleftrightarrow>
        1 \<le> page \<and> 1 \<le> page_size \<and> page_size \<le> 50
        \<and> list_all2 (shows_buddy py tz db locale owner) (page_slice page page_size ms) (cbl_items response)
        \<and> cbl_page response = page \<and> cbl_page_size response = page_size \<and> cbl_total response = int (length ms)
        \<and> cbl_total_pages response = (if ms \<noteq> [] then \<lceil>float64 (of_nat (length ms) / of_int page_size)\<rceil> else 0)"
    unfolding ms_def owner_def by (rule list_current_buddies_iff[OF assms(1)])
qed

section \<open>The stored compatibility is read back\<close>

text \<open>A date of Python: the years 1 to 9999.\<close>

definition python_date :: "date \<Rightarrow> bool" where
  "python_date n = (case civil_date n of (y, _, _) \<Rightarrow> 1 \<le> y \<and> y \<le> 9999)"

lemma python_date_read_back: "python_date n \<Longrightarrow> date_fromisoformat (iso_date n) = Inr n"
  using iso_date_read_back[of n] by (auto simp: python_date_def split: prod.splits)

lemma signal_read_back:
  assumes "pydantic_reads_numbers py" "public_signal z = Inr x"
  shows "read_signal_explanation py (signal_json x) = Inr x"
proof -
  have "signal_explanation_model x = Inr x"
    using assms(2) by (auto simp: public_signal_def signal_explanation_model_def require_value_def split: if_splits)
  then show ?thesis
    using assms(1) by (cases x) (auto simp: read_signal_explanation_def signal_json_def dict_field_def u_def pydantic_reads_numbers_def)
qed

lemma snapshot_read_back:
  assumes py: "pydantic_reads_numbers py" and snap: "compatibility_score_snapshot score = Inr breakdown"
    and week: "python_date (cs_reference_week_start score)" "py_weekday (cs_reference_week_start score) = 0"
  shows "\<exists>x. project_compatibility_explanation score = Inr x
     \<and> compatibility_snapshot py breakdown = Inr (cs_reference_week_start score, x)"
proof -
  from snap obtain x where x: "project_compatibility_explanation score = Inr x"
    and b: "breakdown = PyDict [(PyStr (u ''reference_week_start''), PyStr (iso_date (cs_reference_week_start score))),
       (PyStr (u ''interests''), signal_json (cx_interests x)), (PyStr (u ''activities''), signal_json (cx_activities x)),
       (PyStr (u ''availability''), signal_json (cx_availability x)), (PyStr (u ''languages''), signal_json (cx_languages x)),
       (PyStr (u ''major''), signal_json (cx_major x))]"
    by (auto simp: compatibility_score_snapshot_def ebind_Inr_iff)
  from x obtain i a v l m where "public_signal i = Inr (cx_interests x)" "public_signal a = Inr (cx_activities x)"
      "public_signal v = Inr (cx_availability x)" "public_signal l = Inr (cx_languages x)" "public_signal m = Inr (cx_major x)"
    by (auto simp: project_compatibility_explanation_def Let_def ebind_Inr_iff)
  note signals = this[THEN signal_read_back[OF py]]
  have "read_compatibility_explanation py [(PyStr (u ''reference_week_start''), PyStr (iso_date (cs_reference_week_start score))),
       (PyStr (u ''interests''), signal_json (cx_interests x)), (PyStr (u ''activities''), signal_json (cx_activities x)),
       (PyStr (u ''availability''), signal_json (cx_availability x)), (PyStr (u ''languages''), signal_json (cx_languages x)),
       (PyStr (u ''major''), signal_json (cx_major x))] = Inr x"
    by (simp add: read_compatibility_explanation_def dict_field_def u_def signals)
  with week show ?thesis
    by (simp add: x b compatibility_snapshot_def python_date_read_back SNAPSHOT_KEYS_def SNAPSHOT_SIGNAL_KEYS_def)
      (simp add: dict_field_def u_def python_date_read_back insert_commute)
qed

section \<open>The match an acceptance makes\<close>

lemma activated_match:
  assumes ok: "db_ok db" and row: "row \<in> set (db_invitations db)" "inv_deleted_at row = None"
    and run: "activate_buddy_match fresh (Some (stamped ACCEPTED t row)) (inv_id row) compatibility (Some p) (Aware t) db = (Inr m, db')"
  shows "mat_score m = cs_score compatibility \<and> compatibility_score_snapshot compatibility = Inr (mat_score_breakdown m)
     \<and> mat_participant_one_profile_id m = prof_id (lock_sender_profile p)
     \<and> mat_participant_two_profile_id m = prof_id (lock_recipient_profile p)"
proof -
  have "session_view (Some (stamped ACCEPTED t row)) (inv_id row) db = Some (stamped ACCEPTED t row)"
    by (rule session_view_dirty[OF ok row]) simp
  with run show ?thesis
    by (auto simp: activate_buddy_match_def Let_def tx split: if_split_asm option.split_asm)
qed

text \<open>What a completed acceptance leaves of its match.\<close>

definition scored_at ::
    "unicode_db \<Rightarrow> tz_db \<Rightarrow> database \<Rightarrow> instant \<Rightarrow> eligible_matching_principal
       \<Rightarrow> eligible_matching_principal \<Rightarrow> compatibility_score \<Rightarrow> bool" where
  "scored_at uni tz db t sender recipient score \<longleftrightarrow>
     (\<exists>a b. load_matching_pair_scoring_profiles tz db sender recipient Locale_en = Inr (Some (a, b))
        \<and> score_eligible_pair uni tz sender recipient a b (current_reference_week_start t) = Inr score)"

definition match_of_acceptance ::
    "database \<Rightarrow> invitation \<Rightarrow> locked_buddy_participants \<Rightarrow> compatibility_score \<Rightarrow> invitation_acceptance_result \<Rightarrow> buddy_match \<Rightarrow> bool" where
  "match_of_acceptance db row p score res m \<longleftrightarrow>
     m \<in> set (db_matches db) \<and> mat_id m = acc_match_id res \<and> mat_status m = ACTIVE \<and> mat_deleted_at m = None
     \<and> mat_participant_one_user_id m = inv_sender_id row \<and> mat_participant_two_user_id m = inv_recipient_id row
     \<and> mat_participant_one_profile_id m = prof_id (lock_sender_profile p)
     \<and> mat_participant_two_profile_id m = prof_id (lock_recipient_profile p)
     \<and> mat_score m = cs_score score \<and> compatibility_score_snapshot score = Inr (mat_score_breakdown m)
     \<and> (\<exists>c \<in> set (db_conversations db). conv_match_id c = mat_id m \<and> conv_id c = acc_conversation_id res)"

lemma complete_acceptance_match:
  assumes ok: "db_ok db" and row: "row \<in> set (db_invitations db)" "inv_deleted_at row = None"
    and run: "complete_acceptance uni tz fm fc fe p sender recipient row t db = (Inr res, db')"
  shows "\<exists>score m. scored_at uni tz db t sender recipient score \<and> match_of_acceptance db' row p score res m"
proof -
  from run obtain sp rp score acc m db1 c db2 e where
      load: "load_matching_pair_scoring_profiles tz db sender recipient Locale_en = Inr (Some (sp, rp))"
    and score: "score_eligible_pair uni tz sender recipient sp rp (current_reference_week_start t) = Inr score"
    and acc: "invitation_accept (Aware t) row = Inr acc"
    and act: "activate_buddy_match fm (Some acc) (inv_id row) score (Some p) (Aware t) db = (Inr m, db1)"
    and conv: "get_or_create_buddy_conversation fc (mat_id m) (Aware t) db1 = (Inr c, db2)"
    and enq: "enqueue_transactional_email fe MATCHING_INVITATION_ACCEPTED (inv_id row)
                (Some (usr_id (lock_sender_user p))) (usr_email (lock_sender_user p)) (accepted_event_key (inv_id row))
                [(PyStr (u ''invitation_id''), PyStr (uuid_str (inv_id row))),
                 (PyStr (u ''match_id''), PyStr (uuid_str (mat_id m))),
                 (PyStr (u ''conversation_id''), PyStr (uuid_str (conv_id c)))] (Aware t) db2 = (Inr e, db')"
    and res: "res = \<lparr>acc_invitation_id = inv_id row, acc_match_id = mat_id m,
                acc_conversation_id = conv_id c, acc_status = ACCEPTED\<rparr>"
    unfolding complete_acceptance_def by (auto simp: tx split: option.split_asm prod.split_asm)
  from acc have acc': "acc = stamped ACCEPTED t row" and ans: "answerable t row"
    by (auto simp: invitation_accept_def transition_Inr_iff answerable_def)
  note a = activate_Inr[OF ok row ans act[unfolded acc']] and b = activated_match[OF ok row act[unfolded acc']]
  from enqueue_Inr[OF enq] have "insert_outbox e db2 = (Inr (), db')" by blast
  then have same: "db_matches db' = db_matches db2" "db_conversations db' = db_conversations db2"
    unfolding insert_outbox_Inr by simp_all
  have "c \<in> set (db_conversations db2) \<and> conv_match_id c = mat_id m \<and> db_matches db2 = db_matches db1"
    using get_or_create_Inr[OF conv] by auto
  with a b same res have "match_of_acceptance db' row p score res m" by (auto simp: match_of_acceptance_def)
  then show ?thesis using load score by (auto simp: scored_at_def)
qed

lemma in_some_page:
  assumes "x \<in> set xs" "1 \<le> page_size"
  shows "\<exists>page \<ge> 1. x \<in> set (page_slice page page_size xs)"
proof -
  from assms(1) obtain i where i: "i < length xs" "xs ! i = x" by (auto simp: in_set_conv_nth)
  define n where "n = nat page_size"
  have n: "0 < n" "page_size = int n" using assms(2) by (simp_all add: n_def)
  let ?page = "int (i div n) + 1"
  have start: "nat ((?page - 1) * page_size) = i div n * n" by (simp add: n(2) nat_mult_distrib)
  have split: "i = i div n * n + i mod n" by simp
  then have "i mod n < length xs - i div n * n" using i(1) by linarith
  then have "i mod n < length (take n (drop (i div n * n) xs))" using n(1) by simp
  moreover have "i div n * n \<le> length xs" using i(1) div_times_less_eq_dividend[of i n] by linarith
  then have "take n (drop (i div n * n) xs) ! (i mod n) = x" using i n(1) by simp
  ultimately have "x \<in> set (page_slice ?page page_size xs)"
    unfolding page_slice_def start n_def[symmetric] by (metis nth_mem)
  then show ?thesis by (intro exI[of _ ?page]) simp
qed

lemma scored_week: "score_eligible_pair uni tz sender recipient a b week = Inr s \<Longrightarrow>
    cs_reference_week_start s = week \<and> py_weekday week = 0"
  by (auto simp: score_eligible_pair_def ebind_Inr_iff compatibility_score_model_def Let_def require_value_def split: if_split_asm)

section \<open>Shown to both\<close>

text \<open>A fresh acceptance, with what its locks saw and what it left.\<close>

lemma accepted_match:
  assumes ok: "db_ok db" "db_ok d1" "db_ok d2"
    and run: "accept_matching_invitation uni tz (\<lambda>k _. if k = 0 then d1 else d2) fm fc fe current i clock db = (Inr res, db1)"
    and made: "db1 \<noteq> db" "db1 \<noteq> d2" and clock: "clock 1 = Aware t"
    and r: "r \<in> set (db_invitations db)" "inv_id r = i"
  shows "\<exists>row p sender recipient score m. locked_for row d1 p \<and> scored_at uni tz d2 t sender recipient score
     \<and> match_of_acceptance db1 row p score res m \<and> elig_user_id sender = inv_sender_id row
     \<and> elig_user_id recipient = inv_recipient_id row \<and> inv_sender_id row = inv_sender_id r
     \<and> inv_recipient_id row = inv_recipient_id r"
  using run
proof (cases rule: accept_cases)
  case (fresh observed row p sp rp t')
  have t: "t' = t" using fresh(5) clock by simp
  note obs = load_owned_mem[OF fresh(1)] and row = load_owned_mem[OF fresh(2)]
  have "observed = r" by (rule inv.key_inj[OF db_ok_tables(5)[OF ok(1)] _ r(1)]) (use obs r(2) in simp_all)
  then have same: "inv_sender_id row = inv_sender_id r" "inv_recipient_id row = inv_recipient_id r"
    using fresh(4) obs row by simp_all
  have p: "locked_for row d1 p"
    using locked_participants_Inr[OF fresh(6)] fresh(4) obs row by (simp add: locked_for_def)
  have "elig_user_id sp = inv_sender_id row"
    using fresh(7) p by (auto simp: require_current_eligibility_def tx guard_Inr_iff locked_for_def dest: user_by_id_Some)
  moreover have "elig_user_id rp = inv_recipient_id row" using fresh(9) row by simp
  moreover have "\<exists>score m. scored_at uni tz d2 t sp rp score \<and> match_of_acceptance db1 row p score res m"
    using complete_acceptance_match[OF _ _ _ fresh(11)[unfolded t]] ok(3) row by simp
  ultimately show ?thesis using p same by blast
qed (use made in simp_all)

lemma shown_conversation:
  assumes "db_ok db" "c \<in> set (db_conversations db)" "conv_match_id c = mat_id m"
  shows "conversation_of db m = Some (conv_id c)"
  using one_conversation[OF assms] by (simp add: conversation_of_def find_as_filter)

text \<open>The match of a fresh acceptance in every later database, as either participant reads it.\<close>

lemma match_stays_readable:
  assumes "relationships_ok db" "serves uni tz db d1" "serves uni tz d1 d2"
    and run: "accept_matching_invitation uni tz (\<lambda>k _. if k = 0 then d1 else d2) fm fc fe current i clock db = (Inr res, db1)"
    and made: "db1 \<noteq> db" "db1 \<noteq> d2" and later: "serves uni tz db1 db2"
    and clock: "clock 1 = Aware t" "python_date (current_reference_week_start t)"
    and py: "pydantic_reads_numbers py"
    and r: "r \<in> set (db_invitations db)" "inv_id r = i"
    and reader: "owner = inv_sender_id r \<and> other = inv_recipient_id r \<or> owner = inv_recipient_id r \<and> other = inv_sender_id r"
  shows "\<exists>sender recipient score x m. elig_user_id sender = inv_sender_id r \<and> elig_user_id recipient = inv_recipient_id r
     \<and> scored_at uni tz d2 t sender recipient score \<and> project_compatibility_explanation score = Inr x
     \<and> db_ok db2 \<and> m \<in> set (current_matches owner (db_matches db2)) \<and> mat_id m = acc_match_id res
     \<and> mat_score m = cs_score score \<and> conversation_of db2 m = Some (acc_conversation_id res) \<and> other_user owner m = other
     \<and> compatibility_snapshot py (mat_score_breakdown m) = Inr (current_reference_week_start t, x)"
proof -
  have d1: "relationships_ok d1" using serves_grows[OF assms(2,1)] by (simp add: relationships_grow_def)
  have d2: "relationships_ok d2" using serves_grows[OF assms(3) d1] by (simp add: relationships_grow_def)
  have ok: "db_ok db" "db_ok d1" "db_ok d2" using assms(1) d1 d2 by (simp_all add: relationships_ok_def)
  from serves.accepted[OF assms(2,3) run] assms(1) have "relationships_ok db1"
    using serves_grows by (fastforce simp: relationships_grow_def)
  from serves_grows[OF later this] have ok2: "db_ok db2"
    and sub: "set (db_matches db1) \<subseteq> set (db_matches db2)" "set (db_conversations db1) \<subseteq> set (db_conversations db2)"
    by (auto simp: relationships_grow_def relationships_ok_def)
  from accepted_match[OF ok run made clock(1) r] obtain row p sender recipient score m where
      scored: "scored_at uni tz d2 t sender recipient score" and m: "match_of_acceptance db1 row p score res m"
    and ids: "elig_user_id sender = inv_sender_id r" "elig_user_id recipient = inv_recipient_id r"
      "inv_sender_id row = inv_sender_id r" "inv_recipient_id row = inv_recipient_id r"
      "inv_sender_id row \<noteq> inv_recipient_id row" by (auto simp: locked_for_def)
  from scored have week: "cs_reference_week_start score = current_reference_week_start t"
      "py_weekday (cs_reference_week_start score) = 0" by (auto simp: scored_at_def dest: scored_week)
  from snapshot_read_back[OF py _ _ week(2), of "mat_score_breakdown m"] m clock(2) week(1) obtain x where
      x: "project_compatibility_explanation score = Inr x"
    and snap: "compatibility_snapshot py (mat_score_breakdown m) = Inr (current_reference_week_start t, x)"
    by (auto simp: match_of_acceptance_def)
  have "m \<in> set (current_matches owner (db_matches db2))"
    using m sub(1) reader ids by (auto simp: match_of_acceptance_def owner_conditions_def)
  moreover have "conversation_of db2 m = Some (acc_conversation_id res)"
    using m sub(2) shown_conversation[OF ok2] by (auto simp: match_of_acceptance_def)
  moreover have "other_user owner m = other" using m reader ids by (auto simp: match_of_acceptance_def other_user_def)
  moreover have "mat_id m = acc_match_id res" "mat_score m = cs_score score" using m by (simp_all add: match_of_acceptance_def)
  ultimately show ?thesis using ids(1,2) scored x snap ok2 by blast
qed


end
