(* ===== verification/Invitation_View_Instances.thy ===== *)
theory Invitation_View_Instances
  imports Invitation_Views
begin

text \<open>
  Concrete instances of the theorems on the invitation lists: a pending invitation between the two members of the small
  world of theory Matching_Eligibility, read by both of them.
\<close>

declare One_nat_def [simp del]

definition witness_shown :: "uuid \<Rightarrow> safe_invitation_profile" where
  "witness_shown i = \<lparr>sip_id = 10 + i, sip_display_name = None,
     sip_student_type = Some (if i = 1 then VIETNAMESE else INTERNATIONAL), sip_major = None,
     sip_avatar = Some \<lparr>sav_id = 30 + i, sav_width = 1, sav_height = 1\<rparr>,
     sip_interests = [\<lparr>spref_id = None, spref_code = None, spref_label = [65], spref_is_custom = True\<rparr>],
     sip_languages = [\<lparr>slang_code = None, slang_label = [65], slang_proficiency = FLUENT, slang_is_custom = True\<rparr>],
     sip_activities = [], sip_availability = None\<rparr>"

lemma witness_projections:
  "participant_interests witness_population Locale_en 11 = Inr (sip_interests (witness_shown 1))"
  "participant_interests witness_population Locale_en 12 = Inr (sip_interests (witness_shown 2))"
  "participant_languages witness_population Locale_en 11 = Inr (sip_languages (witness_shown 1))"
  "participant_languages witness_population Locale_en 12 = Inr (sip_languages (witness_shown 2))"
  "participant_activities witness_population Locale_en 11 = Inr []"
  "participant_activities witness_population Locale_en 12 = Inr []"
  by (simp_all add: participant_interests_def participant_languages_def participant_activities_def witness_shown_def
      labelled_custom_rows_def select_by_def selected_interests_def selected_activities_def witness_population_defs
      custom_preference_item_def safe_preference_model_def safe_language_model_def require_value_def)

lemma witness_avatars:
  "filter (ready_avatar_of (witness_profile 1 VIETNAMESE)) (db_photos witness_population) = [witness_photo 1]"
  "filter (ready_avatar_of (witness_profile 2 INTERNATIONAL)) (db_photos witness_population) = [witness_photo 2]"
  by (simp_all add: witness_population_defs ready_avatar_of_def)

lemma witness_rows:
  assumes "set ids = {1, 2}"
  shows "participant_rows witness_population ids =
    [(witness_profile 1 VIETNAMESE, Some (witness_photo 1)), (witness_profile 2 INTERNATIONAL, Some (witness_photo 2))]"
proof -
  have p: "db_profiles witness_population = [witness_profile 1 VIETNAMESE, witness_profile 2 INTERNATIONAL]"
    by (simp add: witness_population_def)
  have k: "prof_user_id (witness_profile i t) = i" "prof_deleted_at (witness_profile i t) = None" for i t
    by (simp_all add: witness_profile_def new_profile_def)
  show ?thesis using assms by (simp add: participant_rows_def p k witness_avatars)
qed

lemma witness_loaded:
  assumes "set ids = {1, 2}"
  shows "load_safe_participant_profiles witness_tz witness_population ids Locale_en =
    Inr [(1, witness_shown 1), (2, witness_shown 2)]"
proof -
  have "ids \<noteq> []" using assms by auto
  then show ?thesis
    unfolding load_safe_participant_profiles_def witness_rows[OF assms]
    by (simp add: project_participant_def Let_def)
      (simp add: witness_profile_def new_profile_def witness_photo_def witness_projections safe_avatar_model_def
        require_value_def safe_invitation_profile_model_def, simp add: witness_shown_def)
qed


lemma witness_scoring_profiles:
  "as_scoring_profile (witness_shown i) = Inr (Some \<lparr>sp_id = 10 + i, sp_display_name = None, sp_full_name = None,
     sp_student_type = (if i = 1 then VIETNAMESE else INTERNATIONAL), sp_bio = None, sp_major = None, sp_study_year = None,
     sp_nationality = None, sp_home_university = None, sp_avatar = \<lparr>sav_id = 30 + i, sav_width = 1, sav_height = 1\<rparr>,
     sp_interests = sip_interests (witness_shown i), sp_languages = sip_languages (witness_shown i), sp_activities = [],
     sp_availability = None\<rparr>)"
  by (simp add: as_scoring_profile_def witness_shown_def safe_profile_model_def require_value_def)

lemma witness_compatibility:
  assumes "(i, j) = (1, 2) \<or> (i, j) = (2, 1)"
  obtains n x where "current_compatibility uni tz i (witness_shown i) j (witness_shown j) 4 = Inr (Some (n, x))" "0 \<le> n" "n \<le> 100"
proof -
  let ?e = "\<lambda>i. \<lparr>elig_user_id = i, elig_profile_id = 10 + i, elig_student_type = (if i = 1 then VIETNAMESE else INTERNATIONAL),
      elig_semester_id = None\<rparr>"
  let ?p = "\<lambda>i. projr (as_scoring_profile (witness_shown i))"
  have pair: "matching_pair_is_eligible (?e i) (?e j)" using assms by (auto simp: matching_pair_is_eligible_def)
  then have "require_eligible_safe_pair (?e i) (?e j) (the (?p i)) (the (?p j)) = Inr ()"
    by (simp add: require_eligible_safe_pair_def witness_scoring_profiles)
  from score_run[OF _ this, of 4 uni tz]
  obtain s where s: "score_eligible_pair uni tz (?e i) (?e j) (the (?p i)) (the (?p j)) 4 = Inr s"
    by (auto simp: py_weekday_def)
  from recommendation_ok[OF s, of "the (?p j)"] obtain x where "project_compatibility_explanation s = Inr x"
      "0 \<le> cs_score s" "cs_score s \<le> 100"
    by (auto simp: matching_recommendation_model_def ebind_Inr_iff require_value_def split: if_splits)
  with s pair that[of "cs_score s" x] show thesis
    by (simp add: current_compatibility_def witness_scoring_profiles Let_def) (simp add: witness_shown_def)
qed

lemma witness_visible:
  "visible_invitations Incoming_view 2 5 (db_invitations witness_population) = [witness_invitation]"
  "visible_invitations Sent_view 1 5 (db_invitations witness_population) = [witness_invitation]"
  by (simp_all add: visible_invitations_def select_by_def witness_population_defs witness_invitation_def
      effective_pending_predicate_def INVITATION_EXPIRY_INTERVAL_def day_us_def)

lemma witness_view_rows:
  "list_invitation_rows witness_population Incoming_view 2 1 20 5 = ([view_row Incoming_view witness_invitation], 1)"
  "list_invitation_rows witness_population Sent_view 1 1 20 5 = ([view_row Sent_view witness_invitation], 1)"
  by (simp_all add: list_invitation_rows_def witness_visible)

lemma witness_invitation_simps:
  "inv_id witness_invitation = 20" "inv_sender_id witness_invitation = 1" "inv_recipient_id witness_invitation = 2"
  "inv_message witness_invitation = [104, 105]"
  by (simp_all add: witness_invitation_def u_def)

lemma witness_owner: "usr_id (principal_user (witness_principal i)) = i"
  by (simp add: witness_principal_def witness_member_def)

lemma witness_inbox:
  "\<exists>res x. list_incoming_invitations uni witness_tz witness_population (witness_principal 2) Locale_en 1 20 4 (Aware 5) = Inr res
    \<and> pg_items res = [x] \<and> ici_id x = 20 \<and> ici_score x \<noteq> None"
proof -
  obtain n x where c: "current_compatibility uni witness_tz 2 (witness_shown 2) 1 (witness_shown 1) 4 = Inr (Some (n, x))"
      "0 \<le> n" "n \<le> 100" using witness_compatibility by blast
  have "set [2, 1] = {1, 2 :: nat}" by auto
  from witness_loaded[OF this] c show ?thesis
    by (simp add: lists_are_views read_view_def validate_invitation_page_def validate_reference_week_def witness_owner
        MAX_INVITATION_PAGE_SIZE_def py_weekday_def witness_view_rows witness_invitation_simps dict_get_def incoming_item_def
        incoming_invitation_model_def read_item_ok_def require_value_def page_response_run)
qed

lemma witness_sent_list:
  "\<exists>res x. list_sent_invitations uni witness_tz witness_population (witness_principal 1) Locale_en 1 20 4 (Aware 5) = Inr res
    \<and> pg_items res = [x] \<and> sei_id x = 20"
proof -
  obtain n x where c: "current_compatibility uni witness_tz 1 (witness_shown 1) 2 (witness_shown 2) 4 = Inr (Some (n, x))"
      "0 \<le> n" "n \<le> 100" using witness_compatibility by blast
  have "set [1, 2] = {1, 2 :: nat}" by auto
  from witness_loaded[OF this] c show ?thesis
    by (simp add: lists_are_views read_view_def validate_invitation_page_def validate_reference_week_def witness_owner
        MAX_INVITATION_PAGE_SIZE_def py_weekday_def witness_view_rows witness_invitation_simps dict_get_def sent_item_def
        sent_invitation_model_def read_item_ok_def require_value_def page_response_run)
qed

lemma incoming_page_exact_witness:
  "\<exists>res. list_incoming_invitations ascii_unicode_db witness_tz witness_population (witness_principal 2) Locale_en 1 20 4 (Aware 5) = Inr res
     \<and> pg_total res = 1"
proof -
  obtain res where r: "list_incoming_invitations ascii_unicode_db witness_tz witness_population (witness_principal 2) Locale_en 1 20 4 (Aware 5) = Inr res"
    using witness_inbox by blast
  from incoming_page_exact[OF witness_population_ok r] obtain rows where rows: "distinct rows" "pg_total res = int (length rows)"
      "set rows = {r \<in> set (db_invitations witness_population). inv_recipient_id r = 2 \<and> inv_status r = PENDING
         \<and> 5 < inv_expires_at r \<and> inv_deleted_at r = None}"
    by (auto simp: witness_owner)
  have "set rows = {witness_invitation}"
    unfolding rows(3) by (auto simp: witness_population_defs witness_invitation_def INVITATION_EXPIRY_INTERVAL_def day_us_def)
  with rows(1) have "length rows = 1" using distinct_card[of rows] by simp
  with r rows(2) show ?thesis by auto
qed

lemma both_parties_see_one_score_witness:
  "\<exists>res res2 x y. list_incoming_invitations ascii_unicode_db witness_tz witness_population (witness_principal 2) Locale_en 1 20 4 (Aware 5) = Inr res
     \<and> list_sent_invitations ascii_unicode_db witness_tz witness_population (witness_principal 1) Locale_en 1 20 4 (Aware 5) = Inr res2
     \<and> pg_items res = [x] \<and> pg_items res2 = [y] \<and> ici_score x = sei_score y \<and> sei_score y \<noteq> None"
proof -
  obtain res x where a: "list_incoming_invitations ascii_unicode_db witness_tz witness_population (witness_principal 2) Locale_en 1 20 4 (Aware 5) = Inr res"
      "pg_items res = [x]" "ici_id x = 20" "ici_score x \<noteq> None" using witness_inbox by blast
  obtain res2 y where b: "list_sent_invitations ascii_unicode_db witness_tz witness_population (witness_principal 1) Locale_en 1 20 4 (Aware 5) = Inr res2"
      "pg_items res2 = [y]" "sei_id y = 20" using witness_sent_list by blast
  from both_parties_see_one_score[OF witness_population_ok a(1) b(1), of x y] a b show ?thesis by auto
qed

lemma views_show_what_the_owner_can_act_on_witness:
  "witness_invitation \<in> set (visible_invitations Incoming_view 2 5 (db_invitations witness_population))
     \<and> snd (decline_matching_invitation (witness_principal 2) 20 (Aware 5) witness_population) \<noteq> witness_population"
proof -
  have "witness_invitation \<in> set (db_invitations witness_population)" "inv_created_at witness_invitation \<le> 5"
      "inv_responded_at witness_invitation = None"
    by (simp_all add: witness_population_def witness_database_def witness_invitation_def)
  from views_show_what_the_owner_can_act_on[OF witness_population_ok this(1,2), of "witness_principal 2"] this(3)
  show ?thesis by (auto simp: witness_owner witness_visible witness_invitation_simps)
qed

lemma answered_invitation_leaves_views_witness:
  "20 \<notin> inv_id ` set (visible_invitations Incoming_view 2 5 (db_invitations
     (snd (decline_matching_invitation (witness_principal 2) 20 (Aware 5) witness_database))))"
proof -
  obtain db' where d: "decline_matching_invitation (witness_principal 2) 20 (Aware 5) witness_database =
      (Inr \<lparr>mutation_invitation_id = 20, mutation_status = DECLINED\<rparr>, db')"
    using witness_decline by blast
  then have "db_ok db'" using decline.preserves(1)[OF witness_database_ok, of "witness_principal 2" 20 "Aware 5"] by simp
  from answered_invitation_leaves_views[OF witness_database_ok disjI1[OF refl] d this invitations_evolve_refl] d
  show ?thesis by simp
qed

end
