(* ===== verification/Current_Buddy_Instances.thy ===== *)
theory Current_Buddy_Instances
  imports Current_Buddy_Results Invitation_View_Instances
begin

text \<open>
  Concrete instances of the theorems on current buddies: in the small world of theory Invitation_Instances the invitation
  is accepted, and the sender reads the new match.
\<close>

declare One_nat_def [simp del]

definition witness_lax :: pydantic_lax where
  "witness_lax = \<lparr>lax_float = (\<lambda>v. case v of PyFloat (Finite x) \<Rightarrow> Some x | PyInt n \<Rightarrow> Some (of_int n) | _ \<Rightarrow> None),
     lax_int = (\<lambda>v. case v of PyInt n \<Rightarrow> Some n | PyBool b \<Rightarrow> Some (if b then 1 else 0) | _ \<Rightarrow> None)\<rparr>"

lemma witness_lax_reads: "pydantic_reads_numbers witness_lax"
  by (simp add: pydantic_reads_numbers_def witness_lax_def)

text \<open>What the acceptance leaves of the small world.\<close>

abbreviation accepted_world :: "invitation list \<Rightarrow> buddy_match list \<Rightarrow> buddy_conversation list \<Rightarrow> transactional_outbox list \<Rightarrow> database" where
  "accepted_world rows ms cs es \<equiv>
     (sample_world rows)\<lparr>db_matches := ms, db_conversations := cs, db_outbox := es\<rparr>"

lemma accepted_projections:
  "participant_interests (accepted_world rows ms cs es) locale i = participant_interests witness_population locale i"
  "participant_languages (accepted_world rows ms cs es) locale i = participant_languages witness_population locale i"
  "participant_activities (accepted_world rows ms cs es) locale i = participant_activities witness_population locale i"
  "db_photos (accepted_world rows ms cs es) = db_photos witness_population"
  by (simp_all add: participant_interests_def participant_languages_def participant_activities_def labelled_custom_rows_def
      selected_interests_def selected_activities_def sample_world_def cong: if_cong)

lemma accepted_shown:
  "shown_profile witness_tz (accepted_world rows ms cs es) Locale_en 2 (witness_shown 2)"
  unfolding shown_profile_def
proof (intro bexI[of _ "sample_profile 2"] conjI)
  have avatar: "avatar_of (accepted_world rows ms cs es) (sample_profile 2) = Some (witness_photo 2)"
    using witness_avatars(2) by (simp add: avatar_of_def accepted_projections sample_profile_def)
  show "project_participant witness_tz (accepted_world rows ms cs es) Locale_en
      (sample_profile 2, avatar_of (accepted_world rows ms cs es) (sample_profile 2)) = Inr (2, witness_shown 2)"
    unfolding avatar
    by (simp add: project_participant_def Let_def accepted_projections)
      (simp add: sample_profile_def witness_profile_def new_profile_def witness_photo_def witness_projections safe_avatar_model_def
        require_value_def safe_invitation_profile_model_def, simp add: witness_shown_def)
qed simp_all

lemma completed_world:
  assumes "completes (sample_world rs) row t res db1"
  shows "\<exists>rows m c e. db1 = accepted_world rows [m] [c] [e]"
proof -
  have "replace_invitation r (sample_world rs) = sample_world (update_where (\<lambda>x. inv_id x = inv_id r) (\<lambda>_. r) rs)" for r
    by (simp add: replace_invitation_def sample_world_def)
  with assms show ?thesis unfolding completes_def by auto
qed

abbreviation sample_receipt :: invitation_acceptance_result where
  "sample_receipt \<equiv> \<lparr>acc_invitation_id = inv_id witness_invitation, acc_match_id = 50, acc_conversation_id = 60, acc_status = ACCEPTED\<rparr>"

definition sample_accepting :: "database \<Rightarrow> bool" where
  "sample_accepting db1 \<longleftrightarrow>
     accept_matching_invitation ascii_unicode_db witness_tz
       (\<lambda>k _. if k = 0 then sample_world [witness_invitation] else sample_world [witness_invitation]) 50 60 71 (sample_current 2)
       (inv_id witness_invitation) (\<lambda>_. Aware 5) (sample_world [witness_invitation]) = (Inr sample_receipt, db1)"

lemma sample_accepting_world:
  "\<exists>db1 rows m c e. sample_accepting db1 \<and> db1 \<noteq> sample_world [witness_invitation] \<and> db1 = accepted_world rows [m] [c] [e]"
proof -
  let ?w = "sample_world [witness_invitation]"
  let ?other = "\<lambda>k (_ :: database). if k = 0 then ?w else ?w"
  obtain db1 where run: "accept_matching_invitation ascii_unicode_db witness_tz ?other 50 60 71 (sample_current 2)
      (inv_id witness_invitation) (\<lambda>_. Aware 5) ?w = (Inr sample_receipt, db1)" using sample_accept[of ?other] by auto
  have other: "\<forall>k d. db_ok d \<longrightarrow> db_ok (?other (k :: nat) d)" using sample_invited_ok by simp
  from accept_Inr[OF other sample_invited_ok run] have receipt: "receipt_for (inv_id witness_invitation) 2 db1 sample_receipt"
    and cases: "db1 = ?w \<or> (\<exists>row t. completes ?w row t sample_receipt db1)" by auto
  from receipt have "db_matches db1 \<noteq> []" by (auto simp: receipt_for_def)
  then have new: "db1 \<noteq> ?w" by auto
  with cases obtain row t where "completes ?w row t sample_receipt db1" by blast
  with run new show ?thesis using completed_world unfolding sample_accepting_def by blast
qed

lemma sample_invitation_parties: "inv_sender_id witness_invitation = 1" "inv_recipient_id witness_invitation = 2"
  by (simp_all add: witness_invitation_def)

lemma sample_week: "current_reference_week_start 5 = - 3" "python_date (- 3)"
  by code_simp+

text \<open>The page of the sender after the acceptance: the new match alone.\<close>

lemma sample_buddy_shown:
  "\<exists>db1 m item. sample_accepting db1 \<and> db1 \<noteq> sample_world [witness_invitation] \<and> db_ok db1
     \<and> current_matches 1 (db_matches db1) = [m] \<and> shows_buddy witness_lax witness_tz db1 Locale_en 1 m item
     \<and> cb_match_id item = 50 \<and> shown_profile witness_tz db1 Locale_en 2 (witness_shown 2)"
proof -
  from sample_accepting_world obtain db1 rows m c e where run: "sample_accepting db1"
    and new: "db1 \<noteq> sample_world [witness_invitation]" and db1: "db1 = accepted_world rows [m] [c] [e]" by blast
  have mem: "witness_invitation \<in> set (db_invitations (sample_world [witness_invitation]))" by simp
  have reader: "(1 :: uuid) = inv_sender_id witness_invitation \<and> (2 :: uuid) = inv_recipient_id witness_invitation
      \<or> (1 :: uuid) = inv_recipient_id witness_invitation \<and> (2 :: uuid) = inv_sender_id witness_invitation"
    by (simp add: sample_invitation_parties)
  from match_stays_readable[OF sample_consistent serves.idle serves.idle run[unfolded sample_accepting_def] new new serves.idle
      refl sample_week(2)[folded sample_week(1)] witness_lax_reads mem refl reader]
  obtain score :: compatibility_score and x and m' :: buddy_match where
      ok: "db_ok db1" and m: "m' \<in> set (current_matches 1 (db_matches db1))" "mat_id m' = 50" "mat_score m' = cs_score score"
      "conversation_of db1 m' = Some 60" "other_user 1 m' = 2"
      "compatibility_snapshot witness_lax (mat_score_breakdown m') = Inr (- 3, x)"
    unfolding sample_week(1) invitation_acceptance_result.select_convs by blast
  let ?item = "\<lparr>cb_match_id = 50, cb_conversation_id = 60, cb_buddy = witness_shown 2, cb_score = cs_score score,
      cb_explanation = x, cb_reference_week_start = - 3\<rparr>"
  have "current_matches 1 (db_matches db1) = [m']"
    using m(1) by (auto simp: db1 current_matches_def select_by_def split: if_split_asm)
  moreover have "shows_buddy witness_lax witness_tz db1 Locale_en 1 m' ?item"
    using m(2-6) by (simp add: shows_buddy_def db1 accepted_shown)
  moreover have "shown_profile witness_tz db1 Locale_en 2 (witness_shown 2)" by (simp add: db1 accepted_shown)
  ultimately show ?thesis using run new ok by (intro exI[of _ db1] exI[of _ m'] exI[of _ ?item]) simp
qed

lemma sample_page_answers:
  assumes "db_ok db1" "current_matches 1 (db_matches db1) = [m]" "shows_buddy py tz db1 locale 1 m item" "1 \<le> page"
  shows "\<exists>response. list_current_buddies py tz db1 (sample_current 1) locale page 20 = Inr response"
proof -
  have "list_all2 (shows_buddy py tz db1 locale 1) (page_slice page 20 [m]) (map (\<lambda>_. item) (page_slice page 20 [m]))"
    using assms(3) by (auto simp: list_all2_map2 intro!: list.rel_refl_strong dest!: in_page_slice)
  with assms(4) have "list_current_buddies py tz db1 (sample_current 1) locale page 20 = Inr
      \<lparr>cbl_items = map (\<lambda>_. item) (page_slice page 20 [m]), cbl_page = page, cbl_page_size = 20, cbl_total = 1,
       cbl_total_pages = \<lceil>float64 (of_nat 1 / of_int 20)\<rceil>\<rparr>"
    unfolding list_current_buddies_iff[OF assms(1)] by (simp add: assms(2))
  then show ?thesis by blast
qed


theorem current_buddies_exact_witness:
  "\<exists>db1 response item. sample_accepting db1
    \<and> list_current_buddies witness_lax witness_tz db1 (sample_current 1) Locale_en 1 20 = Inr response
    \<and> cbl_items response = [item] \<and> cb_match_id item = 50 \<and> cbl_total response = 1 \<and> cbl_total_pages response = 1"
proof -
  from sample_buddy_shown obtain db1 m item where run: "sample_accepting db1" and ok: "db_ok db1"
    and one: "current_matches 1 (db_matches db1) = [m]" "shows_buddy witness_lax witness_tz db1 Locale_en 1 m item"
    and id: "cb_match_id item = 50" by blast
  let ?response = "\<lparr>cbl_items = [item], cbl_page = 1, cbl_page_size = 20, cbl_total = 1, cbl_total_pages = 1\<rparr>"
  have pages: "\<lceil>float64 (of_nat 1 / of_int 20)\<rceil> = 1" by code_simp
  have "list_current_buddies witness_lax witness_tz db1 (sample_current 1) Locale_en 1 20 = Inr ?response"
    using current_buddies_exact[OF ok, of "sample_current 1" witness_lax witness_tz Locale_en 1 20 ?response] one pages
    by (simp add: page_slice_def)
  with run id show ?thesis by (intro exI[of _ db1] exI[of _ ?response] exI[of _ item]) simp
qed

end
