(* ===== verification/Spec2Isabelle.thy ===== *)
theory Spec2Isabelle
  imports Matching_Recommendations Session_Runs Verification_Instances Profile_Instances Current_Buddy_Instances
begin

text \<open>
  A verification development for the API of VGU Buddy (\<open>src/apps/api/app\<close>): a FastAPI backend over PostgreSQL in which
  students of one semester register, complete a profile, are recommended buddies, invite each other, become a matched
  pair and chat. The development models the services that decide what happens (\<open>app/services\<close>), the tables and
  constraints they rely on (\<open>app/models\<close> and \<open>alembic/versions\<close>), the request models that guard them
  (\<open>app/schemas\<close>) and, where commit or rollback is part of the contract, the handlers (\<open>app/api\<close>).

  \<^bold>\<open>How the code is modelled.\<close> A service is an \<open>async\<close> function over a database session. It becomes a function from the
  database to a result and the next database (theory Prelude): \<open>Inl e\<close> where the Python code raises \<open>e\<close>, \<open>Inr v\<close>
  where it returns \<open>v\<close>. A table is a list of records; a statement is a function that checks what the database checks
  (check constraints, unique indexes, foreign keys, triggers) and fails with the error the code sees. \<open>begin_nested\<close> and
  the commit or rollback of a handler are \<open>atomic_tx\<close>. Where a statement waits for a lock (\<open>FOR UPDATE\<close>), what other
  transactions commit meanwhile is an argument \<open>other\<close>; rows locked by others under \<open>SKIP LOCKED\<close> are a predicate
  argument. Identifiers drawn by \<open>uuid4\<close>, the clock, the random bytes of a token, the locks held by others and
  everything that is not in the repository are arguments: PyJWT, bcrypt, AES-GCM, the e-mail provider, templates and
  resolvers, the time zone database and the Unicode tables. What is assumed of them is a named predicate
  (\<open>pyjwt_contract\<close>, \<open>bcrypt_contract\<close>, \<open>fold_keeps_spaces\<close>), satisfied by an instance in every witness.

  \<^bold>\<open>Foundations.\<close>
  \<^item> Prelude: base types, exceptions, transactions, \<open>select_by\<close> and \<open>update_where\<close> for SQL, Python's string functions.
  \<^item> Data_Model (\<open>models/*.py\<close>): enumerations, exceptions, one record per table of the Buddy subsystem and its checks.
  \<^item> Database: all tables, the invariant \<open>db_ok\<close> (constraints and references) and the locale \<open>constrained_table\<close> of
    inserts and updates under a unique index, interpreted for each table.
  \<^item> Account_Model, Account_Database (\<open>models/refresh_session.py\<close>, \<open>email_verification.py\<close>, \<open>semester.py\<close>, migration
    0017): sessions, tokens, semesters and their triggers, and the invariant \<open>accounts_ok\<close>.

  \<^bold>\<open>Accounts and sessions.\<close>
  \<^item> Accounts (\<open>services/auth.py\<close>, \<open>passwords.py\<close>): registration is least-privilege, login is exact.
  \<^item> Auth_Tokens (\<open>services/tokens.py\<close>): the token pair, its validation and the round trip.
  \<^item> Refresh_Sessions, Session_Runs (\<open>services/refresh_sessions.py\<close>, \<open>api/auth.py\<close>): rotation with replay detection; over
    every run of logins, refreshes and logouts a token is accepted at most once and a revoked family stays revoked.
  \<^item> Sha256, Email_Verification, Verification_Runs, Verification_Instances (\<open>services/email_verification.py\<close>,
    \<open>email_verification_requests.py\<close>, \<open>email_changes.py\<close>): tokens down to the digest; over every run an address is
    verified only by a token that was issued to it.

  \<^bold>\<open>Profiles.\<close>
  \<^item> Preference_Identity (\<open>services/preference_identity.py\<close>), Availability (\<open>schemas/profile.py\<close>), Profile_Completion
    (\<open>services/profiles.py\<close>, \<open>profile_completion.py\<close>, \<open>buddy_access.py\<close>): identities of custom preferences, weekly
    availability, the owner's profile, its completion and the capability guard.
  \<^item> Preference_Storage, Preference_Updates (\<open>services/profile_catalogs.py\<close>, \<open>preference_storage.py\<close>,
    \<open>schemas/profile_catalog.py\<close>) and Profile_Updates (\<open>services/profiles.py\<close>, \<open>schemas/profile.py\<close>): the five writers of
    a profile. Profile_Writes and Profile_Versions hold the locales \<open>staged_insert\<close> (the insert statements) and
    \<open>versioned_write\<close> (the writers), the endpoints of \<open>api/profile_catalogs.py\<close>, and the history of writes in which no
    update is lost. Preference_Results: what is saved is what is read back. Profile_Decisions: the answer of the partial
    update on every branch. Profile_Effects: limits, and the platform of profile and relationship transactions in which
    buddies keep opposite student types. Profile_Instances: concrete runs.

  \<^bold>\<open>Matching.\<close>
  \<^item> Matching_Eligibility (\<open>services/matching_eligibility.py\<close>, \<open>schemas/matching.py\<close>): the Python guard, the SQL candidate
    conditions, their agreement, and the safe projections.
  \<^item> Matching_Scoring (\<open>services/matching_scoring.py\<close>): the score in exact fractions; every signal interprets the locale
    \<open>similarity\<close>; the merged availability intervals are equivalent to sets of instants.
  \<^item> Matching_Recommendations (\<open>services/matching_recommendations.py\<close>): ranked pages, public numbers as correctly rounded
    doubles.

  \<^bold>\<open>Relationships.\<close>
  \<^item> Invitation_Lifecycle (\<open>models/invitation.py\<close>, \<open>services/invitation_expiry.py\<close>, \<open>invitation_mutations.py\<close>): the life
    cycle as a step relation, effective expiry, Decline and Cancel as two interpretations of \<open>pending_answer\<close>, Hide.
  \<^item> Buddy_Matches (\<open>services/buddy_match_policy.py\<close>, \<open>buddy_matches.py\<close>), Invitation_Sending, Invitation_Policy
    (\<open>services/invitation_sending.py\<close>), Invitation_Acceptance, Invitation_Completion, Invitation_Progress
    (\<open>services/invitation_acceptance.py\<close>): sending and accepting under concurrent commits, and that acceptance succeeds
    when its conditions hold. Invitation_Reads, Invitation_Views (\<open>services/invitation_reads.py\<close>): the two lists.
    Invitation_Instances, Invitation_View_Instances: concrete runs.
  \<^item> Calendar (\<open>date.fromisoformat\<close> of CPython 3.12 and the civil calendar, a bijection with day numbers), Current_Buddies
    (\<open>services/current_buddies.py\<close>): the page of ACTIVE matches, the stored compatibility read back and the avatar of a
    buddy. Current_Buddy_Results: pages are exact, and an accepted match is shown to both participants with what was
    scored at the acceptance. Current_Buddy_Instances: a concrete run. Pydantic's lax conversion of numbers is the
    argument \<open>pydantic_lax\<close> under the documented law \<open>pydantic_reads_numbers\<close>.
  \<^item> Buddy_Chat, Chat_Cursor, Chat_History, Chat_Reading (\<open>services/buddy_chat.py\<close>, \<open>chat_cleanup.py\<close>, migrations 0014 and
    0016): messages, cursors down to the bytes, history pages, read acknowledgements, cleanup.
  \<^item> Email_Outbox, Outbox_Delivery (\<open>services/email_outbox.py\<close>, \<open>email_provider.py\<close>): events, leases and bounded delivery.
  \<^item> Buddy_System: the relation \<open>serves\<close> of everything the relationship services commit, interleaved, and the invariant
    \<open>relationships_ok\<close> of invitations, matches, conversations and messages.

  \<^bold>\<open>Bounds.\<close> UUIDs and text are unbounded; the limits the code checks are constants of the model. Loops of the code run over
  lists and are structural recursions. The only fuel is that of \<open>fetch_history\<close>, a client that follows the cursors; one
  more than the number of messages is enough, and the theorem says so. A date that is written and read back lies in the
  years 1 to 9999 of Python's \<open>date\<close> (\<open>python_date\<close>).

  \<^bold>\<open>Not modelled.\<close>
  \<^item> The HTTP layer beyond the handlers named above: routing, headers, cookies, CSRF tokens, rate limits, multipart bodies;
    WebSockets and the realtime fan-out; configuration, logging, health checks, the command line.
  \<^item> The areas beside the Buddy subsystem: events and their media, recaps, the chatbot, image storage and profile photos
    (external storage and Pillow), administration, audit logs, semester reset, backup and restore (subprocesses and
    encrypted archives), the HTTP client and the templates of e-mails.
  \<^item> Of the database: the widths of \<open>varchar\<close> columns and characters PostgreSQL cannot store, overflow of integer columns,
    offsets beyond 64 bits, the stamping of semesters on matches and conversations by migration 0017, deadlocks and lost
    connections. Of the ORM: rows cached in a session across a lock wait, where the code does not refresh them.
\<close>

end
